(* ===== verification/Prelude.thy ===== *)
theory Prelude
  imports Main "HOL-Library.Char_ord" "HOL-Library.List_Lexorder"
begin

text \<open>
  Shared vocabulary of the development.

  C++ exceptions are values: a computation that may throw returns \<open>exn + 'a\<close>, with
  \<open>Inl\<close> the exception. A computation that also changes state is an \<open>eff\<close>: it
  returns the outcome together with the new state, \<^emph>\<open>also when it throws\<close>, because
  none of the modelled code runs inside a transaction and the writes done before a throw stay.
  \<open>UndefinedBehaviour\<close> marks what the C++ standard leaves undefined (\<open>front()\<close>
  of an empty vector and the like); \<open>OutOfRange\<close> is \<open>std::out_of_range\<close>
  and \<open>InvalidArgument\<close> is \<open>std::invalid_argument\<close>;
  \<open>RenderError\<close> is what the template engine raises for a variable that is not in its
  context; \<open>OutOfFuel\<close> is no outcome of the code: it says that the bound a loop of the model
  was given did not suffice.

  The collections \<open>eff_simps\<close> (evaluation of the effect operators) and
  \<open>eff_rules\<close> (what preserves a state predicate) carry the component proofs.
\<close>

named_theorems eff_simps
named_theorems eff_rules

section \<open>Exceptions and results\<close>

datatype exn =
    ClientException string
  | InstinctException string
  | RuntimeError string
  | RenderError string
  | OutOfRange
  | InvalidArgument
  | UndefinedBehaviour
  | OutOfFuel

type_synonym 'a result = "exn + 'a"

type_synonym ('s, 'a) eff = "'s \<Rightarrow> 'a result \<times> 's"

definition bindR :: "'a result \<Rightarrow> ('a \<Rightarrow> 'b result) \<Rightarrow> 'b result" where
  "bindR m f = (case m of Inl e \<Rightarrow> Inl e | Inr x \<Rightarrow> f x)"

fun mapR :: "('a \<Rightarrow> 'b result) \<Rightarrow> 'a list \<Rightarrow> 'b list result" where
  "mapR f [] = Inr []"
| "mapR f (x # xs) = bindR (f x) (\<lambda>y. bindR (mapR f xs) (\<lambda>ys. Inr (y # ys)))"

lemma bindR_simps [simp, eff_simps]:
  "bindR (Inl e) f = Inl e"
  "bindR (Inr x) f = f x"
  by (simp_all add: bindR_def)

lemma bindR_Inr_iff: "bindR m f = Inr y \<longleftrightarrow> (\<exists>x. m = Inr x \<and> f x = Inr y)"
  by (cases m) auto

lemma mapR_all_Inr:
  "(\<And>x. x \<in> set xs \<Longrightarrow> f x = Inr (g x)) \<Longrightarrow> mapR f xs = Inr (map g xs)"
  by (induction xs) auto

lemma mapR_map: "mapR f (map g xs) = mapR (\<lambda>x. f (g x)) xs"
  by (induction xs) auto

section \<open>Stateful computations that may throw\<close>

definition ret :: "'a \<Rightarrow> ('s, 'a) eff" where
  "ret x = (\<lambda>s. (Inr x, s))"

definition throw :: "exn \<Rightarrow> ('s, 'a) eff" where
  "throw e = (\<lambda>s. (Inl e, s))"

definition bindE :: "('s, 'a) eff \<Rightarrow> ('a \<Rightarrow> ('s, 'b) eff) \<Rightarrow> ('s, 'b) eff" where
  "bindE m f = (\<lambda>s. case m s of (Inl e, s') \<Rightarrow> (Inl e, s') | (Inr x, s') \<Rightarrow> f x s')"

definition liftR :: "'a result \<Rightarrow> ('s, 'a) eff" where
  "liftR r = (\<lambda>s. (r, s))"

definition getE :: "('s \<Rightarrow> 'a) \<Rightarrow> ('s, 'a) eff" where
  "getE f = (\<lambda>s. (Inr (f s), s))"

definition modifyE :: "('s \<Rightarrow> 's) \<Rightarrow> ('s, unit) eff" where
  "modifyE f = (\<lambda>s. (Inr (), f s))"

text \<open>\<open>try { m } catch (...) { h }\<close>\<close>

definition catchE :: "('s, 'a) eff \<Rightarrow> (exn \<Rightarrow> ('s, 'a) eff) \<Rightarrow> ('s, 'a) eff" where
  "catchE m h = (\<lambda>s. case m s of (Inl e, s') \<Rightarrow> h e s' | (Inr x, s') \<Rightarrow> (Inr x, s'))"

text \<open>A range-based \<open>for\<close> whose body runs for its effect.\<close>

fun forE :: "('a \<Rightarrow> ('s, unit) eff) \<Rightarrow> 'a list \<Rightarrow> ('s, unit) eff" where
  "forE f [] = ret ()"
| "forE f (x # xs) = bindE (f x) (\<lambda>_. forE f xs)"

text \<open>A range-based transformation whose body has effects.\<close>

fun mapE :: "('a \<Rightarrow> ('s, 'b) eff) \<Rightarrow> 'a list \<Rightarrow> ('s, 'b list) eff" where
  "mapE f [] = ret []"
| "mapE f (x # xs) = bindE (f x) (\<lambda>y. bindE (mapE f xs) (\<lambda>ys. ret (y # ys)))"

lemma ret_apply [simp, eff_simps]: "ret x s = (Inr x, s)"
  by (simp add: ret_def)

lemma throw_apply [simp, eff_simps]: "throw e s = (Inl e, s)"
  by (simp add: throw_def)

lemma liftR_apply [simp, eff_simps]: "liftR r s = (r, s)"
  by (simp add: liftR_def)

lemma getE_apply [simp, eff_simps]: "getE f s = (Inr (f s), s)"
  by (simp add: getE_def)

lemma modifyE_apply [simp, eff_simps]: "modifyE f s = (Inr (), f s)"
  by (simp add: modifyE_def)

lemma bindE_throw [eff_simps]: "m s = (Inl e, s') \<Longrightarrow> bindE m f s = (Inl e, s')"
  by (simp add: bindE_def)

lemma bindE_ret [eff_simps]: "m s = (Inr x, s') \<Longrightarrow> bindE m f s = f x s'"
  by (simp add: bindE_def)

lemma bindE_apply_simps [simp]:
  "bindE (ret x) f s = f x s"
  "bindE (throw e) f s = (Inl e, s)"
  "bindE (liftR (Inl e)) f s = (Inl e, s)"
  "bindE (liftR (Inr x)) f s = f x s"
  "bindE (getE g) f s = f (g s) s"
  "bindE (modifyE h) f' s = f' () (h s)"
  by (simp_all add: bindE_def)

lemma bindE_assoc: "bindE (bindE m f) g = bindE m (\<lambda>x. bindE (f x) g)"
  by (rule ext) (simp add: bindE_def split: prod.split sum.split)

lemma bindE_ret_left: "bindE (ret x) f = f x"
  by (rule ext) simp

lemma bindE_if: "bindE (if b then m else n) f = (if b then bindE m f else bindE n f)"
  by simp

lemma catchE_simps [eff_simps]:
  "m s = (Inr x, s') \<Longrightarrow> catchE m h s = (Inr x, s')"
  "m s = (Inl e, s') \<Longrightarrow> catchE m h s = h e s'"
  by (simp_all add: catchE_def)

lemma bindE_cases:
  assumes "bindE m f s = (r, s')"
  obtains (thrown) e where "m s = (Inl e, s')" "r = Inl e"
  | (returned) x t where "m s = (Inr x, t)" "f x t = (r, s')"
  using assms by (auto simp: bindE_def split: prod.splits sum.splits)

lemma bindE_InrE:
  assumes "bindE m f s = (Inr y, s')"
  obtains x t where "m s = (Inr x, t)" "f x t = (Inr y, s')"
  using assms by (auto elim: bindE_cases)

section \<open>What every outcome keeps of the state\<close>

text \<open>
  \<open>preserves P m\<close>: whether it returns or throws, \<open>m\<close> leads from states in
  \<open>P\<close> to states in \<open>P\<close>.
\<close>

definition preserves :: "('s \<Rightarrow> bool) \<Rightarrow> ('s, 'a) eff \<Rightarrow> bool" where
  "preserves P m \<longleftrightarrow> (\<forall>s. P s \<longrightarrow> P (snd (m s)))"

lemma preservesI: "(\<And>s. P s \<Longrightarrow> P (snd (m s))) \<Longrightarrow> preserves P m"
  by (simp add: preserves_def)

lemma preservesD: "preserves P m \<Longrightarrow> P s \<Longrightarrow> m s = (r, s') \<Longrightarrow> P s'"
  by (auto simp: preserves_def dest: spec [of _ s])

lemma preserves_pure [eff_rules]:
  "preserves P (ret x)" "preserves P (throw e)" "preserves P (liftR r)" "preserves P (getE g)"
  by (simp_all add: preserves_def)

lemma preserves_modify [eff_rules]:
  "(\<And>s. P s \<Longrightarrow> P (f s)) \<Longrightarrow> preserves P (modifyE f)"
  by (simp add: preserves_def)

lemma preserves_bind [eff_rules]:
  assumes "preserves P m" and "\<And>x. preserves P (f x)"
  shows "preserves P (bindE m f)"
  using assms by (auto simp: preserves_def bindE_def split: prod.splits sum.splits)

lemma preserves_catch [eff_rules]:
  assumes "preserves P m" and "\<And>e. preserves P (h e)"
  shows "preserves P (catchE m h)"
  using assms by (auto simp: preserves_def catchE_def split: prod.splits sum.splits)

lemma preserves_forE [eff_rules]:
  "(\<And>x. preserves P (f x)) \<Longrightarrow> preserves P (forE f xs)"
  by (induction xs) (auto intro!: eff_rules)

lemma preserves_mapE [eff_rules]:
  "(\<And>x. preserves P (f x)) \<Longrightarrow> preserves P (mapE f xs)"
  by (induction xs) (auto intro!: eff_rules)

lemma preserves_if [eff_rules]:
  "(b \<Longrightarrow> preserves P m) \<Longrightarrow> (\<not> b \<Longrightarrow> preserves P n) \<Longrightarrow> preserves P (if b then m else n)"
  by simp

lemma preserves_case_option [eff_rules]:
  "(x = None \<Longrightarrow> preserves P m) \<Longrightarrow> (\<And>y. x = Some y \<Longrightarrow> preserves P (f y)) \<Longrightarrow>
   preserves P (case x of None \<Rightarrow> m | Some y \<Rightarrow> f y)"
  by (cases x) auto

section \<open>What holds when a computation returns\<close>

text \<open>
  \<open>returns P m Q\<close>: when \<open>m\<close> starts in \<open>P\<close> and returns \<open>x\<close>,
  the result and the state it leaves satisfy \<open>Q\<close>. Nothing is said of an exception.
\<close>

definition returns :: "('s \<Rightarrow> bool) \<Rightarrow> ('s, 'a) eff \<Rightarrow> ('a \<Rightarrow> 's \<Rightarrow> bool) \<Rightarrow> bool" where
  "returns P m Q \<longleftrightarrow> (\<forall>s x s'. P s \<longrightarrow> m s = (Inr x, s') \<longrightarrow> Q x s')"

named_theorems returns_rules

lemma returnsI: "(\<And>s x s'. P s \<Longrightarrow> m s = (Inr x, s') \<Longrightarrow> Q x s') \<Longrightarrow> returns P m Q"
  by (simp add: returns_def)

lemma returnsD: "returns P m Q \<Longrightarrow> P s \<Longrightarrow> m s = (Inr x, s') \<Longrightarrow> Q x s'"
  by (simp add: returns_def)

lemma returns_bind:
  assumes "returns P m R" and "\<And>x. returns (R x) (f x) Q"
  shows "returns P (bindE m f) Q"
  using assms unfolding returns_def by (metis bindE_InrE)

lemma returns_weaken: "returns P m Q \<Longrightarrow> (\<And>s. P' s \<Longrightarrow> P s) \<Longrightarrow> (\<And>x s. Q x s \<Longrightarrow> Q' x s) \<Longrightarrow> returns P' m Q'"
  unfolding returns_def by blast

lemma returns_ret [returns_rules]: "(\<And>s. P s \<Longrightarrow> Q x s) \<Longrightarrow> returns P (ret x) Q"
  by (simp add: returns_def)

lemma returns_throw [returns_rules]: "returns P (throw e) Q"
  by (simp add: returns_def)

lemma returns_if [returns_rules]:
  "(b \<Longrightarrow> returns P m Q) \<Longrightarrow> (\<not> b \<Longrightarrow> returns P n Q) \<Longrightarrow> returns P (if b then m else n) Q"
  by simp

lemma returns_modify [returns_rules]: "(\<And>s. P s \<Longrightarrow> Q () (h s)) \<Longrightarrow> returns P (modifyE h) Q"
  by (simp add: returns_def)

lemma returns_get [returns_rules]: "(\<And>s. P s \<Longrightarrow> Q (g s) s) \<Longrightarrow> returns P (getE g) Q"
  by (simp add: returns_def)

lemma returns_any: "returns P m (\<lambda>_ _. True)"
  by (simp add: returns_def)

lemma preserves_returns: "preserves P m \<Longrightarrow> returns P m (\<lambda>_. P)"
  by (auto simp: returns_def dest: preservesD)

lemma returns_catch:
  assumes "returns P m Q" and "\<And>e. returns (\<lambda>_. True) (h e) Q"
  shows "returns P (catchE m h) Q"
  using assms by (auto simp: returns_def catchE_def split: prod.splits sum.splits)

section \<open>Generic lemmas on lists\<close>

lemma dropWhile_eq_Nil_iff: "dropWhile P xs = [] \<longleftrightarrow> (\<forall>x \<in> set xs. P x)"
  by (induction xs) auto

lemma last_dropWhile: "dropWhile P xs \<noteq> [] \<Longrightarrow> last (dropWhile P xs) = last xs"
  by (induction xs) (auto split: if_splits)

lemma butlast_take_length: "xs \<noteq> [] \<Longrightarrow> butlast xs = take (length xs - 1) xs"
  by (simp add: butlast_conv_take)

text \<open>\<open>std::string::find\<close>: the first position, or \<open>npos\<close>, which is \<open>-1\<close> as \<open>int32_t\<close>.\<close>

fun find_pos :: "'a list \<Rightarrow> 'a list \<Rightarrow> nat \<Rightarrow> int" where
  "find_pos sub [] i = (if sub = [] then int i else -1)"
| "find_pos sub (x # xs) i = (if take (length sub) (x # xs) = sub then int i else find_pos sub xs (Suc i))"

lemma find_pos_bounds:
  "find_pos sub t i = -1 \<or> (int i \<le> find_pos sub t i \<and> find_pos sub t i \<le> int (i + length t) \<and>
     take (length sub) (drop (nat (find_pos sub t i) - i) t) = sub)"
proof (induction t arbitrary: i)
  case (Cons x xs)
  show ?case
  proof (cases "take (length sub) (x # xs) = sub")
    case False
    with Cons [of "Suc i"] show ?thesis by (auto simp: drop_Cons' nat_diff_distrib')
  qed simp
qed simp

lemma find_pos_found: "\<exists>a b. t = a @ sub @ b \<Longrightarrow> find_pos sub t i \<noteq> -1"
proof (induction t arbitrary: i)
  case (Cons x xs)
  then obtain a b where ab: "x # xs = a @ sub @ b" by blast
  show ?case
  proof (cases a)
    case Nil
    with ab have "take (length sub) (x # xs) = sub" by simp
    then show ?thesis by simp
  next
    case (Cons y ys)
    with ab Cons.IH [of "Suc i"] show ?thesis by auto
  qed
qed simp

lemma find_pos_shift: "find_pos sub t i = -1 \<longleftrightarrow> find_pos sub t j = -1"
  by (induction t arbitrary: i j) auto

lemma find_pos_sep:
  assumes "c \<notin> set tok" and "tok \<noteq> []"
  shows "find_pos tok (a @ c # r) i = (if find_pos tok a i = -1 then find_pos tok r (i + length a + 1) else find_pos tok a i)"
proof (induction a arbitrary: i)
  case Nil
  have "take (length tok) (c # r) \<noteq> tok" using assms by (cases tok) auto
  then show ?case using assms(2) by simp
next
  case (Cons x xs)
  have eq: "take (length tok) (x # xs @ c # r) = tok \<longleftrightarrow> take (length tok) (x # xs) = tok"
  proof (cases "length tok \<le> length (x # xs)")
    case True
    then have "take (length tok) ((x # xs) @ c # r) = take (length tok) (x # xs)" by (simp only: take_append) simp
    then show ?thesis by simp
  next
    case False
    then have "c \<in> set (take (length tok) ((x # xs) @ c # r))" by (cases "length tok - length (x # xs)") (auto simp: take_Cons')
    moreover have "take (length tok) (x # xs) = x # xs" using False by simp
    ultimately show ?thesis using assms(1) False by auto
  qed
  have "int i \<noteq> -1" by simp
  with Cons [of "Suc i"] show ?case by (simp only: append_Cons find_pos.simps eq) (auto simp: add_ac)
qed

end
