(* ===== verification/Str_Utils.thy ===== *)
theory Str_Utils
  imports Prelude
begin

text \<open>
  \<^verbatim>\<open>instinct-core/include/tools/StringUtils.hpp\<close>, \<^verbatim>\<open>Assertions.hpp\<close> and
  the SQL template callbacks of \<^verbatim>\<open>instinct-data/include/DataGlobals.hpp\<close>.
  A \<open>std::string\<close> is a list of bytes (\<open>string\<close>); the \<open><cctype>\<close>
  functions are those of the C locale.

  The main results: \<open>Trim\<close> removes exactly the surrounding white space, and the
  literal that the \<open>text\<close> callback writes into a statement is read back by an SQL
  scanner as the value that was put in, whatever that value is.
\<close>

section \<open>Characters of the C locale\<close>

definition isspace :: "char \<Rightarrow> bool" where
  "isspace c \<longleftrightarrow> c \<in> set [CHR 0x20, CHR 0x09, CHR 0x0A, CHR 0x0B, CHR 0x0C, CHR 0x0D]"

definition isupper :: "char \<Rightarrow> bool" where
  "isupper c \<longleftrightarrow> 65 \<le> (of_char c :: nat) \<and> (of_char c :: nat) \<le> 90"

definition islower :: "char \<Rightarrow> bool" where
  "islower c \<longleftrightarrow> 97 \<le> (of_char c :: nat) \<and> (of_char c :: nat) \<le> 122"

definition tolower :: "char \<Rightarrow> char" where
  "tolower c = (if isupper c then char_of ((of_char c :: nat) + 32) else c)"

definition toupper :: "char \<Rightarrow> char" where
  "toupper c = (if islower c then char_of ((of_char c :: nat) - 32) else c)"

section \<open>StringUtils\<close>

fun CopiesOf :: "int \<Rightarrow> string \<Rightarrow> string" where
  "CopiesOf n text = (if n > 0 then text @ CopiesOf (n - 1) text else [])"

declare CopiesOf.simps [simp del]

definition ToLower :: "string \<Rightarrow> string" where
  "ToLower data = map tolower data"

definition ToUpper :: "string \<Rightarrow> string" where
  "ToUpper data = map toupper data"

definition Join :: "string list \<Rightarrow> string" where
  "Join parts = foldl (@) [] parts"

text \<open>
  The loop of \<open>JoinWith\<close>: the counter is incremented before it is compared with the
  number of parts, so no separator follows the last part.
\<close>

fun JoinWith_loop :: "nat \<Rightarrow> nat \<Rightarrow> string list \<Rightarrow> string \<Rightarrow> string \<Rightarrow> string" where
  "JoinWith_loop len i [] sep buf = buf"
| "JoinWith_loop len i (part # parts) sep buf =
     (let buf = buf @ part; i = i + 1
      in JoinWith_loop len i parts sep (if i < len then buf @ sep else buf))"

definition JoinWith :: "string list \<Rightarrow> string \<Rightarrow> string" where
  "JoinWith parts sep = JoinWith_loop (length parts) 0 parts sep []"

definition Trim :: "string \<Rightarrow> string" where
  "Trim input =
     (let s = dropWhile isspace input
      in rev (dropWhile isspace (rev s)))"

definition IsBlankString :: "string \<Rightarrow> bool" where
  "IsBlankString s \<longleftrightarrow> s = [] \<or> Trim s = []"

definition IsNotBlankString :: "string \<Rightarrow> bool" where
  "IsNotBlankString s \<longleftrightarrow> \<not> IsBlankString s"

definition GetWithDefault :: "string \<Rightarrow> string \<Rightarrow> string" where
  "GetWithDefault value fallback = (if IsBlankString value then fallback else value)"

text \<open>
  \<open>str[0]\<close> of an empty \<open>const std::string\<close> is the terminating zero byte, which the
  code appends to the result.
\<close>

definition SnakeToCamel :: "string \<Rightarrow> string" where
  "SnakeToCamel str =
     tolower (case str of [] \<Rightarrow> CHR 0x00 | c # _ \<Rightarrow> c) #
     concat (map (\<lambda>ch. if isupper ch then [CHR ''_'', tolower ch] else [ch]) (drop 1 str))"

definition CHARS_ESCAPE_MAP :: "char \<Rightarrow> string option" where
  "CHARS_ESCAPE_MAP =
     [CHR 0x27 \<mapsto> [CHR 0x27, CHR 0x27], CHR 0x22 \<mapsto> [CHR 0x22]]"

fun EscapeSQLText :: "string \<Rightarrow> string" where
  "EscapeSQLText [] = []"
| "EscapeSQLText (c # s) =
     (case CHARS_ESCAPE_MAP c of Some r \<Rightarrow> r | None \<Rightarrow> [c]) @ EscapeSQLText s"

text \<open>
  \<open>ReSplit\<close> at a pattern that matches one or more characters of a class: a text without one is one field,
  also when it is empty; nothing follows the separators at the end, an empty field precedes those at the start.
\<close>

lemma dropWhile_field_shorter:
  assumes "dropWhile P (dropWhile (\<lambda>c. \<not> P c) s) \<noteq> []"
  shows "length (dropWhile P (dropWhile (\<lambda>c. \<not> P c) s)) < length s"
proof -
  obtain x xs where x: "dropWhile (\<lambda>c. \<not> P c) s = x # xs" using assms by (cases "dropWhile (\<lambda>c. \<not> P c) s") auto
  then have "P x" using hd_dropWhile [of "\<lambda>c. \<not> P c" s] by simp
  then show ?thesis
    using x length_dropWhile_le [of P xs] length_dropWhile_le [of "\<lambda>c. \<not> P c" s] by simp
qed

function ReSplit :: "(char \<Rightarrow> bool) \<Rightarrow> string \<Rightarrow> string list" where
  "ReSplit P s =
     (let field = takeWhile (\<lambda>c. \<not> P c) s; rest = dropWhile (\<lambda>c. \<not> P c) s in
      if rest = [] then [field]
      else if dropWhile P rest = [] then [field]
      else field # ReSplit P (dropWhile P rest))"
  by pat_completeness auto
termination
  by (relation "measure (\<lambda>(P, s). length s)") (simp_all add: dropWhile_field_shorter)

declare ReSplit.simps [simp del]

text \<open>\<open>std::stoi\<close>\<close>

abbreviation "INT32_MAX \<equiv> 2147483647 :: int"
abbreviation "INT32_MIN \<equiv> - 2147483648 :: int"

definition stoi :: "string \<Rightarrow> int result" where
  "stoi s =
     (let s = dropWhile isspace s;
          neg = (case s of c # _ \<Rightarrow> c = CHR ''-'' | [] \<Rightarrow> False);
          body = (case s of c # cs \<Rightarrow> if c = CHR ''-'' \<or> c = CHR ''+'' then cs else s | [] \<Rightarrow> []);
          ds = takeWhile (\<lambda>c. CHR ''0'' \<le> c \<and> c \<le> CHR ''9'') body;
          n = fold (\<lambda>c n. 10 * n + (of_char c - 48)) ds 0;
          v = (if neg then - n else n) in
      if ds = [] then Inl InvalidArgument
      else if INT32_MIN \<le> v \<and> v \<le> INT32_MAX then Inr v else Inl OutOfRange)"

section \<open>Assertions\<close>

fun check_equality_loop :: "'a list \<Rightarrow> 'a list \<Rightarrow> bool" where
  "check_equality_loop (a # as) (b # bs) = (if a \<noteq> b then False else check_equality_loop as bs)"
| "check_equality_loop _ _ = True"

definition check_equality :: "'a list \<Rightarrow> 'a list \<Rightarrow> bool" where
  "check_equality a b = (if length a \<noteq> length b then False else check_equality_loop a b)"

definition assert_true :: "bool \<Rightarrow> string \<Rightarrow> ('s, unit) eff" where
  "assert_true v message = (if \<not> v then throw (ClientException message) else ret ())"

definition assert_positive :: "int \<Rightarrow> string \<Rightarrow> ('s, unit) eff" where
  "assert_positive a message = (if \<not> a > 0 then throw (ClientException message) else ret ())"

definition assert_gt :: "int \<Rightarrow> int \<Rightarrow> string \<Rightarrow> ('s, unit) eff" where
  "assert_gt a b message = (if \<not> a > b then throw (ClientException message) else ret ())"

definition assert_gte :: "int \<Rightarrow> int \<Rightarrow> string \<Rightarrow> ('s, unit) eff" where
  "assert_gte a b message = (if \<not> a \<ge> b then throw (ClientException message) else ret ())"

definition assert_lt :: "int \<Rightarrow> int \<Rightarrow> string \<Rightarrow> ('s, unit) eff" where
  "assert_lt a b message = (if \<not> a < b then throw (ClientException message) else ret ())"

definition assert_lte :: "int \<Rightarrow> int \<Rightarrow> string \<Rightarrow> ('s, unit) eff" where
  "assert_lte a b message = (if \<not> a \<le> b then throw (ClientException message) else ret ())"

definition assert_non_empty_range :: "'a list \<Rightarrow> string \<Rightarrow> ('s, unit) eff" where
  "assert_non_empty_range r message =
     (if \<not> length r > 0 then throw (ClientException message) else ret ())"

definition assert_equal_size :: "'a list \<Rightarrow> 'b list \<Rightarrow> string \<Rightarrow> ('s, unit) eff" where
  "assert_equal_size r1 r2 message =
     (if \<not> length r1 = length r2 then throw (ClientException message) else ret ())"

definition assert_not_blank :: "string \<Rightarrow> string \<Rightarrow> ('s, unit) eff" where
  "assert_not_blank v msg = (if IsBlankString v then throw (ClientException msg) else ret ())"

section \<open>SQL template callbacks\<close>

datatype json =
    JNull
  | JBool bool
  | JNumber int
  | JString string
  | JArray "json list"
  | JObject "(string \<times> json) list"

definition sql_text :: "json \<Rightarrow> string" where
  "sql_text arg =
     (case arg of
        JString v \<Rightarrow>
          (if v \<noteq> [] then [CHR 0x27] @ EscapeSQLText v @ [CHR 0x27] else ''NULL'')
      | _ \<Rightarrow> ''NULL'')"

text \<open>\<open>dump\<close> stands for \<open>nlohmann::json::dump\<close>.\<close>

definition sql_stringify :: "(json \<Rightarrow> string) \<Rightarrow> json \<Rightarrow> string" where
  "sql_stringify dump arg =
     (case arg of
        JArray _ \<Rightarrow> [CHR 0x27] @ EscapeSQLText (dump arg) @ [CHR 0x27]
      | JObject _ \<Rightarrow> [CHR 0x27] @ EscapeSQLText (dump arg) @ [CHR 0x27]
      | _ \<Rightarrow> ''NULL'')"

text \<open>
  What an SQL scanner reads for a character literal: a quote opens it, a doubled quote is a
  quote of the value, any other quote closes it. The result is the value and the text left.
\<close>

fun scan_body :: "string \<Rightarrow> (string \<times> string) option" where
  "scan_body [] = None"
| "scan_body (c # s) =
     (if c = CHR 0x27 then
        (case s of
           d # s' \<Rightarrow> if d = CHR 0x27 then map_option (apfst (Cons d)) (scan_body s') else Some ([], s)
         | [] \<Rightarrow> Some ([], []))
      else map_option (apfst (Cons c)) (scan_body s))"

fun scan_literal :: "string \<Rightarrow> (string \<times> string) option" where
  "scan_literal [] = None"
| "scan_literal (c # s) = (if c = CHR 0x27 then scan_body s else None)"

section \<open>Lemmas\<close>

subsection \<open>Trim and blank strings\<close>

lemma Trim_split:
  obtains pre post where "s = pre @ Trim s @ post"
    "\<forall>c \<in> set pre. isspace c" "\<forall>c \<in> set post. isspace c"
proof
  let ?d = "dropWhile isspace s"
  have d: "?d = Trim s @ rev (takeWhile isspace (rev ?d))"
  proof -
    have "rev ?d = takeWhile isspace (rev ?d) @ dropWhile isspace (rev ?d)" by simp
    then have "?d = rev (dropWhile isspace (rev ?d)) @ rev (takeWhile isspace (rev ?d))"
      by (metis rev_append rev_rev_ident)
    then show ?thesis by (simp add: Trim_def Let_def)
  qed
  then show "s = takeWhile isspace s @ Trim s @ rev (takeWhile isspace (rev ?d))"
    by (metis takeWhile_dropWhile_id)
  show "\<forall>c \<in> set (takeWhile isspace s). isspace c" by (auto dest: set_takeWhileD)
  show "\<forall>c \<in> set (rev (takeWhile isspace (rev ?d))). isspace c" by (auto dest: set_takeWhileD)
qed

lemma Trim_ends:
  assumes "Trim s \<noteq> []"
  shows "\<not> isspace (hd (Trim s))" and "\<not> isspace (last (Trim s))"
proof -
  let ?d = "dropWhile isspace s"
  have ne: "dropWhile isspace (rev ?d) \<noteq> []" using assms by (simp add: Trim_def Let_def)
  then have d: "?d \<noteq> []" by (metis dropWhile.simps(1) rev.simps(1))
  show "\<not> isspace (last (Trim s))"
    using hd_dropWhile [OF ne] by (simp add: Trim_def Let_def last_rev)
  have "hd (Trim s) = last (dropWhile isspace (rev ?d))"
    by (simp add: Trim_def Let_def hd_rev)
  also have "\<dots> = hd ?d" using last_dropWhile [OF ne] by (simp add: last_rev)
  finally show "\<not> isspace (hd (Trim s))" using hd_dropWhile [OF d] by simp
qed

lemma Trim_eq_Nil_iff: "Trim s = [] \<longleftrightarrow> (\<forall>c \<in> set s. isspace c)"
proof -
  have "Trim s = [] \<longleftrightarrow> (\<forall>c \<in> set (dropWhile isspace s). isspace c)"
    by (simp add: Trim_def Let_def dropWhile_eq_Nil_iff)
  also have "\<dots> \<longleftrightarrow> (\<forall>c \<in> set s. isspace c)"
    by (simp flip: dropWhile_eq_Nil_iff)
  finally show ?thesis .
qed

lemma IsBlankString_iff: "IsBlankString s \<longleftrightarrow> (\<forall>c \<in> set s. isspace c)"
  by (auto simp: IsBlankString_def Trim_eq_Nil_iff)

lemma IsBlankString_Nil [simp]: "IsBlankString []"
  by (simp add: IsBlankString_def)

lemma IsBlankString_Cons [simp]:
  "IsBlankString (c # s) \<longleftrightarrow> isspace c \<and> IsBlankString s"
  by (simp add: IsBlankString_iff)

lemma isspace_lit [simp]:
  "isspace (Char b0 b1 b2 b3 b4 b5 b6 b7) \<longleftrightarrow>
     (let n = of_char (Char b0 b1 b2 b3 b4 b5 b6 b7) :: nat in n = 32 \<or> (9 \<le> n \<and> n \<le> 13))"
  by (cases b0; cases b1; cases b2; cases b3; cases b4; cases b5; cases b6; cases b7)
    (simp_all add: isspace_def of_char_def)

subsection \<open>Assertions evaluate\<close>

lemma assert_simps [simp]:
  "bindE (assert_true v msg) f s = (if v then f () s else (Inl (ClientException msg), s))"
  "bindE (assert_not_blank v' msg) f s =
     (if IsBlankString v' then (Inl (ClientException msg), s) else f () s)"
  "bindE (assert_gt a b msg) f s = (if a > b then f () s else (Inl (ClientException msg), s))"
  "bindE (assert_positive a msg) f s = (if a > 0 then f () s else (Inl (ClientException msg), s))"
  by (simp_all add: assert_true_def assert_not_blank_def assert_gt_def assert_positive_def)

lemma preserves_assert [eff_rules]:
  "preserves P (assert_true v msg)" "preserves P (assert_not_blank w msg)"
  "preserves P (assert_gt a b msg)" "preserves P (assert_positive a msg)"
  by (simp_all add: assert_true_def assert_not_blank_def assert_gt_def assert_positive_def
      preserves_pure)

lemma check_equality_loop_iff:
  "length a = length b \<Longrightarrow> check_equality_loop a b \<longleftrightarrow> a = b"
  by (induction a b rule: check_equality_loop.induct) auto

lemma check_equality_iff: "check_equality a b \<longleftrightarrow> a = b"
  by (auto simp: check_equality_def check_equality_loop_iff)

subsection \<open>Joining\<close>

fun intersperse_join :: "string \<Rightarrow> string list \<Rightarrow> string" where
  "intersperse_join sep [] = []"
| "intersperse_join sep [p] = p"
| "intersperse_join sep (p # ps) = p @ sep @ intersperse_join sep ps"

lemma intersperse_join_Cons:
  "intersperse_join sep (p # ps) = (if ps = [] then p else p @ sep @ intersperse_join sep ps)"
  by (cases ps) auto

lemma JoinWith_loop_eq:
  "len = i + length parts \<Longrightarrow> JoinWith_loop len i parts sep buf = buf @ intersperse_join sep parts"
  by (induction parts arbitrary: i buf) (auto simp: Let_def intersperse_join_Cons)

lemma JoinWith_eq: "JoinWith parts sep = intersperse_join sep parts"
  by (simp add: JoinWith_def JoinWith_loop_eq)

lemma Join_eq: "Join parts = concat parts"
proof -
  have "foldl (@) acc parts = acc @ concat parts" for acc :: string
    by (induction parts arbitrary: acc) auto
  then show ?thesis by (simp add: Join_def)
qed

lemma CopiesOf_eq: "CopiesOf n t = concat (replicate (nat n) t)"
proof (induction n t rule: CopiesOf.induct)
  case (1 n t)
  show ?case
  proof (cases "n > 0")
    case True
    then have "nat n = Suc (nat (n - 1))" by simp
    with True 1 show ?thesis by (simp add: CopiesOf.simps [of n])
  qed (simp add: CopiesOf.simps [of n])
qed

subsection \<open>Properties\<close>

lemma scan_body_escape:
  assumes "rest = [] \<or> hd rest \<noteq> CHR 0x27"
  shows "scan_body (EscapeSQLText v @ CHR 0x27 # rest) = Some (v, rest)"
proof (induction v)
  case Nil
  then show ?case using assms by (auto split: list.splits)
next
  case (Cons c v)
  then show ?case by (auto simp: CHARS_ESCAPE_MAP_def)
qed

text \<open>
  C28: whatever value is handed to the \<open>text\<close> callback, an SQL scanner reads the literal it
  produces as that value and stops exactly behind it: no value can end the literal early and
  continue as SQL (no injection), and no value is altered.
\<close>

theorem sql_text_roundtrip:
  assumes "v \<noteq> []" and "rest = [] \<or> hd rest \<noteq> CHR 0x27"
  shows "scan_literal (sql_text (JString v) @ rest) = Some (v, rest)"
  using scan_body_escape [OF assms(2), of v] assms(1) by (simp add: sql_text_def)

theorem sql_text_roundtrip_witness:
  "scan_literal (sql_text (JString [CHR ''a'', CHR 0x27, CHR '';'']) @ '');'') =
     Some ([CHR ''a'', CHR 0x27, CHR '';''], '');'')"
  by (rule sql_text_roundtrip) simp_all

text \<open>
  \<open>Trim\<close> removes a prefix and a suffix made of white space only, what is left neither
  starts nor ends with white space, and it is empty exactly for the strings that
  \<open>IsBlankString\<close> accepts, the strings of white space only.
\<close>

theorem Trim_correct:
  "(\<exists>pre post. s = pre @ Trim s @ post \<and> list_all isspace pre \<and> list_all isspace post) \<and>
   (Trim s = [] \<longleftrightarrow> IsBlankString s) \<and> (IsBlankString s \<longleftrightarrow> list_all isspace s) \<and>
   \<not> (Trim s \<noteq> [] \<and> (isspace (hd (Trim s)) \<or> isspace (last (Trim s))))"
proof -
  obtain pre post where "s = pre @ Trim s @ post"
    "\<forall>c \<in> set pre. isspace c" "\<forall>c \<in> set post. isspace c" by (rule Trim_split)
  then have "\<exists>pre post. s = pre @ Trim s @ post \<and> list_all isspace pre \<and> list_all isspace post"
    by (auto simp: list_all_iff)
  then show ?thesis
    using Trim_ends [of s] Trim_eq_Nil_iff [of s] IsBlankString_iff [of s]
    by (auto simp: list_all_iff)
qed

section \<open>Splitting\<close>

lemma ReSplit_line: "l \<noteq> [] \<Longrightarrow> \<forall>c \<in> set l. \<not> P c \<Longrightarrow> ReSplit P l = [l]"
  by (subst ReSplit.simps) simp

lemma ReSplit_append:
  assumes "P sep" and "a \<noteq> []" and "\<not> P (last a)" and "l \<noteq> []" and "\<not> P (hd l)"
  shows "ReSplit P (a @ sep # l) = ReSplit P a @ ReSplit P l"
  using assms
proof (induction P a rule: ReSplit.induct)
  case (1 P s)
  let ?p = "\<lambda>c. \<not> P c"
  have l: "dropWhile P l = l" using 1(5,6) by (cases l) auto
  show ?case
  proof (cases "dropWhile ?p s = []")
    case True
    then have "\<forall>c \<in> set s. ?p c" by simp
    then have eq: "dropWhile ?p (s @ sep # l) = sep # l" "takeWhile ?p (s @ sep # l) = s" "takeWhile ?p s = s"
      using 1(2) by (simp_all add: dropWhile_append3)
    have "dropWhile P (sep # l) = l" using 1(2) l by simp
    then have "ReSplit P (s @ sep # l) = s # ReSplit P l"
      by (subst ReSplit.simps) (simp only: eq Let_def list.simps 1(5) if_False)
    moreover have "ReSplit P s = [s]" by (subst ReSplit.simps) (simp only: True eq Let_def, simp)
    ultimately show ?thesis by simp
  next
    case False
    let ?r = "dropWhile ?p s"
    have lr: "last ?r = last s" by (rule last_dropWhile [OF False])
    then have "\<exists>c \<in> set ?r. \<not> P c" using 1(4) False last_in_set by metis
    then have a: "dropWhile P ?r \<noteq> []" by auto
    obtain c where c: "c \<in> set s" "P c" using False by auto
    then have app: "dropWhile ?p (s @ sep # l) = ?r @ sep # l" "takeWhile ?p (s @ sep # l) = takeWhile ?p s"
      by simp_all
    from a have app2: "dropWhile P (?r @ sep # l) = dropWhile P ?r @ sep # l"
      by (meson dropWhile_append1 dropWhile_eq_Nil_conv)
    have ih: "ReSplit P (dropWhile P ?r @ sep # l) =
        ReSplit P (dropWhile P ?r) @ ReSplit P l"
      by (rule 1(1)) (use False a lr 1(2,4-6) last_dropWhile [OF a] in \<open>simp_all del: dropWhile_eq_Nil_conv\<close>)
    have "ReSplit P (s @ sep # l) = takeWhile ?p s # ReSplit P (dropWhile P ?r @ sep # l)"
      by (subst ReSplit.simps) (simp only: app app2 Let_def, simp)
    moreover have "ReSplit P s = takeWhile ?p s # ReSplit P (dropWhile P ?r)"
      by (subst ReSplit.simps) (simp only: Let_def False a if_False)
    ultimately show ?thesis by (simp only: ih append_Cons)
  qed
qed

end
