(* ===== verification/Document_Utils.thy ===== *)
theory Document_Utils
  imports Str_Utils Complex_Main
begin

text \<open>
  \<^verbatim>\<open>instinct-core/include/tools/DocumentUtils.hpp\<close> and
  \<^verbatim>\<open>MetadataSchemaBuilder.hpp\<close>: documents, their metadata and the schema the metadata are
  validated against. The metadata of a document are a list of named values in which a name may occur
  more than once: \<open>GetMetadataFieldValue\<close> finds the first, a store writes the last.

  \<open>float\<close> and \<open>double\<close> values are rationals. The order in which an
  \<open>unordered_set\<close> is walked is not fixed; the names missing at the end of a validation are
  listed in the order of the schema.
\<close>

section \<open>Documents and schemas\<close>

datatype PrimitiveKind =
    ValueNotSet
  | IntValue int
  | LongValue int
  | FloatValue rat
  | DoubleValue rat
  | BoolValue bool
  | StringValue string
  | BytesValue string

record PrimitiveVariable =
  pv_name :: string
  pv_value :: PrimitiveKind
  pv_is_null :: bool

record Document =
  doc_id :: string
  doc_text :: string
  metadata :: "PrimitiveVariable list"

datatype PrimitiveType = Unknown_type | INT32 | INT64 | FLOAT | DOUBLE | BOOL | VARCHAR

record MetadataFieldSchema =
  fs_name :: string
  fs_type :: PrimitiveType

type_synonym MetadataSchema = "MetadataFieldSchema list"

definition ROOT_DOC_ID :: string where "ROOT_DOC_ID = ''ROOT''"

definition METADATA_SCHEMA_PARENT_DOC_ID_KEY :: string where "METADATA_SCHEMA_PARENT_DOC_ID_KEY = ''parent_doc_id''"

definition METADATA_SCHEMA_PAGE_NO_KEY :: string where "METADATA_SCHEMA_PAGE_NO_KEY = ''page_no''"

definition METADATA_SCHEMA_FILE_SOURCE_KEY :: string where "METADATA_SCHEMA_FILE_SOURCE_KEY = ''file_source''"

definition METADATA_SCHEMA_CHUNK_START_INDEX_KEY :: string where "METADATA_SCHEMA_CHUNK_START_INDEX_KEY = ''start_index''"

definition METADATA_SCHEMA_CHUNK_END_INDEX_KEY :: string where "METADATA_SCHEMA_CHUNK_END_INDEX_KEY = ''end_index''"

lemmas metadata_keys = METADATA_SCHEMA_PARENT_DOC_ID_KEY_def METADATA_SCHEMA_PAGE_NO_KEY_def
  METADATA_SCHEMA_FILE_SOURCE_KEY_def METADATA_SCHEMA_CHUNK_START_INDEX_KEY_def METADATA_SCHEMA_CHUNK_END_INDEX_KEY_def

definition to_int32 :: "int \<Rightarrow> int" where
  "to_int32 x = signed_take_bit 31 x"

lemma to_int32_id: "- (2 ^ 31) \<le> x \<Longrightarrow> x < 2 ^ 31 \<Longrightarrow> to_int32 x = x"
  by (simp add: to_int32_def signed_take_bit_int_eq_self)

definition int_field :: "string \<Rightarrow> int \<Rightarrow> PrimitiveVariable" where
  "int_field name n = \<lparr>pv_name = name, pv_value = IntValue n, pv_is_null = False\<rparr>"

definition string_field :: "string \<Rightarrow> string \<Rightarrow> PrimitiveVariable" where
  "string_field name s = \<lparr>pv_name = name, pv_value = StringValue s, pv_is_null = False\<rparr>"

section \<open>Fields of a document\<close>

fun CombineDocuments :: "Document list \<Rightarrow> string" where
  "CombineDocuments [] = []"
| "CombineDocuments (doc # docs) = doc_text doc @ [CHR 0x0A] @ CombineDocuments docs"

definition HasMetadataField :: "Document \<Rightarrow> string \<Rightarrow> bool" where
  "HasMetadataField document name = list_ex (\<lambda>m. pv_name m = name) (metadata document)"

definition GetMetadataFieldValue :: "Document \<Rightarrow> string \<Rightarrow> PrimitiveVariable option" where
  "GetMetadataFieldValue document name = find (\<lambda>m. pv_name m = name) (metadata document)"

text \<open>The getter of a member of the \<open>oneof\<close> that is not the one set gives the default.\<close>

definition string_value :: "PrimitiveVariable \<Rightarrow> string" where
  "string_value v = (case pv_value v of StringValue s \<Rightarrow> s | _ \<Rightarrow> [])"

definition int_value :: "PrimitiveVariable \<Rightarrow> int" where
  "int_value v = (case pv_value v of IntValue n \<Rightarrow> n | _ \<Rightarrow> 0)"

definition GetStringValueMetadataField :: "Document \<Rightarrow> string \<Rightarrow> string option" where
  "GetStringValueMetadataField document name = map_option string_value (GetMetadataFieldValue document name)"

definition GetIntValueMetadataField :: "Document \<Rightarrow> string \<Rightarrow> int option" where
  "GetIntValueMetadataField document name = map_option int_value (GetMetadataFieldValue document name)"

fun set_field :: "PrimitiveVariable list \<Rightarrow> string \<Rightarrow> PrimitiveKind \<Rightarrow> PrimitiveVariable list" where
  "set_field [] name v = [\<lparr>pv_name = name, pv_value = v, pv_is_null = False\<rparr>]"
| "set_field (f # fs) name v = (if pv_name f = name then f\<lparr>pv_value := v\<rparr> # fs else f # set_field fs name v)"

definition SetIntValueMetadataFiled :: "Document \<Rightarrow> string \<Rightarrow> int \<Rightarrow> Document" where
  "SetIntValueMetadataFiled document name n = document\<lparr>metadata := set_field (metadata document) name (IntValue n)\<rparr>"

definition SetStringValueMetadataFiled :: "Document \<Rightarrow> string \<Rightarrow> string \<Rightarrow> Document" where
  "SetStringValueMetadataFiled document name s = document\<lparr>metadata := set_field (metadata document) name (StringValue s)\<rparr>"

definition add_missing :: "PrimitiveVariable \<Rightarrow> Document \<Rightarrow> Document" where
  "add_missing f document =
     (if HasMetadataField document (pv_name f) then document else document\<lparr>metadata := metadata document @ [f]\<rparr>)"

definition AddMissingPresetMetadataFields :: "Document \<Rightarrow> Document" where
  "AddMissingPresetMetadataFields document =
     add_missing (int_field METADATA_SCHEMA_CHUNK_END_INDEX_KEY 0)
      (add_missing (int_field METADATA_SCHEMA_CHUNK_START_INDEX_KEY 0)
        (add_missing (int_field METADATA_SCHEMA_PAGE_NO_KEY 0)
          (add_missing (string_field METADATA_SCHEMA_FILE_SOURCE_KEY [])
            (add_missing (string_field METADATA_SCHEMA_PARENT_DOC_ID_KEY []) document))))"

definition AddPresetMetadataFields :: "Document \<Rightarrow> string \<Rightarrow> int \<Rightarrow> string \<Rightarrow> int \<Rightarrow> int \<Rightarrow> Document" where
  "AddPresetMetadataFields document parent_doc_id page_no source start end' =
     document\<lparr>metadata := metadata document @
       [string_field METADATA_SCHEMA_PARENT_DOC_ID_KEY parent_doc_id, int_field METADATA_SCHEMA_PAGE_NO_KEY page_no,
        string_field METADATA_SCHEMA_FILE_SOURCE_KEY source, int_field METADATA_SCHEMA_CHUNK_START_INDEX_KEY start,
        int_field METADATA_SCHEMA_CHUNK_END_INDEX_KEY end']\<rparr>"

section \<open>Validation\<close>

datatype ConstraintViolationCategory = kUnknownViolation | kIllegalFieldValue | kIllegalMetadataFormat

record ConstraintViolation =
  violation_category :: ConstraintViolationCategory
  violation_field :: string
  violation_message :: string

definition violation :: "string \<Rightarrow> string \<Rightarrow> ConstraintViolation" where
  "violation name message = \<lparr>violation_category = kIllegalFieldValue, violation_field = name, violation_message = message\<rparr>"

definition ConvertToMetadataSchemaMap :: "MetadataSchema \<Rightarrow> string \<rightharpoonup> MetadataFieldSchema" where
  "ConvertToMetadataSchemaMap schema = map_of (rev (map (\<lambda>f. (fs_name f, f)) schema))"

fun kind_type :: "PrimitiveKind \<Rightarrow> PrimitiveType option" where
  "kind_type (IntValue _) = Some INT32"
| "kind_type (LongValue _) = Some INT64"
| "kind_type (FloatValue _) = Some FLOAT"
| "kind_type (DoubleValue _) = Some DOUBLE"
| "kind_type (BoolValue _) = Some BOOL"
| "kind_type (StringValue _) = Some VARCHAR"
| "kind_type _ = None"

fun kind_name :: "PrimitiveKind \<Rightarrow> string" where
  "kind_name ValueNotSet = []"
| "kind_name (IntValue _) = ''int32''"
| "kind_name (LongValue _) = ''int64''"
| "kind_name (FloatValue _) = ''float''"
| "kind_name (DoubleValue _) = ''double''"
| "kind_name (BoolValue _) = ''bool''"
| "kind_name (StringValue _) = ''string''"
| "kind_name (BytesValue _) = ''bytes''"

fun type_name :: "PrimitiveType \<Rightarrow> string" where
  "type_name Unknown_type = []"
| "type_name INT32 = ''int32''"
| "type_name INT64 = ''int64''"
| "type_name FLOAT = ''float''"
| "type_name DOUBLE = ''double''"
| "type_name BOOL = ''bool''"
| "type_name VARCHAR = ''string''"

text \<open>
  One field of the metadata: a violation, or none. The schema of the field is looked up with
  \<open>at\<close>, also for a field that may be unknown.
\<close>

definition validate_field :: "(string \<rightharpoonup> MetadataFieldSchema) \<Rightarrow> bool \<Rightarrow> PrimitiveVariable \<Rightarrow> ConstraintViolation option result" where
  "validate_field schema_map bypass_unknown_fields f =
     (let name = pv_name f in
      if \<not> bypass_unknown_fields \<and> schema_map name = None
      then Inr (Some (violation name ''Metadata cannot contain field not defined by schema.''))
      else case schema_map name of
        None \<Rightarrow> Inl OutOfRange
      | Some field_schema \<Rightarrow>
          if pv_value f = ValueNotSet then Inr (Some (violation name ''Field value is not set.''))
          else if fs_type field_schema = Unknown_type then Inr (Some (violation name ''Field has unknown value type.''))
          else if kind_type (pv_value f) \<noteq> Some (fs_type field_schema)
          then Inr (Some (violation name (''Field '' @ name @ '' should have value of type '' @ type_name (fs_type field_schema) @
                 '', but value of '' @ kind_name (pv_value f) @ '' is given.'')))
          else Inr None)"

fun validate_fields :: "(string \<rightharpoonup> MetadataFieldSchema) \<Rightarrow> bool \<Rightarrow> PrimitiveVariable list \<Rightarrow> string list \<Rightarrow>
    ConstraintViolation list result" where
  "validate_fields schema_map bypass [] known = Inr (map (\<lambda>n. violation n ''Field is missing in metadata'') known)"
| "validate_fields schema_map bypass (f # fs) known =
     bindR (validate_field schema_map bypass f) (\<lambda>v.
       case v of
         Some x \<Rightarrow> Inr [x]
       | None \<Rightarrow> validate_fields schema_map bypass fs (removeAll (pv_name f) known))"

definition ValidateDocument :: "Document \<Rightarrow> MetadataSchema option \<Rightarrow> bool \<Rightarrow> ConstraintViolation list result" where
  "ValidateDocument doc metadata_schema bypass_unknown_fields =
     (if IsBlankString (doc_text doc) then Inr [violation ''text'' ''text cannot be blank'']
      else case metadata_schema of
        None \<Rightarrow> Inr []
      | Some schema \<Rightarrow>
          if schema = [] then Inr []
          else validate_fields (ConvertToMetadataSchemaMap schema) bypass_unknown_fields (metadata doc)
                 (remdups (map fs_name schema)))"

section \<open>Preset schemas\<close>

definition DefineString :: "string \<Rightarrow> MetadataSchema \<Rightarrow> MetadataSchema" where
  "DefineString name schema = schema @ [\<lparr>fs_name = name, fs_type = VARCHAR\<rparr>]"

definition DefineInt32 :: "string \<Rightarrow> MetadataSchema \<Rightarrow> MetadataSchema" where
  "DefineInt32 name schema = schema @ [\<lparr>fs_name = name, fs_type = INT32\<rparr>]"

definition DefineInt64 :: "string \<Rightarrow> MetadataSchema \<Rightarrow> MetadataSchema" where
  "DefineInt64 name schema = schema @ [\<lparr>fs_name = name, fs_type = INT64\<rparr>]"

definition DefineFloat :: "string \<Rightarrow> MetadataSchema \<Rightarrow> MetadataSchema" where
  "DefineFloat name schema = schema @ [\<lparr>fs_name = name, fs_type = FLOAT\<rparr>]"

definition DefineDouble :: "string \<Rightarrow> MetadataSchema \<Rightarrow> MetadataSchema" where
  "DefineDouble name schema = schema @ [\<lparr>fs_name = name, fs_type = DOUBLE\<rparr>]"

definition DefineBool :: "string \<Rightarrow> MetadataSchema \<Rightarrow> MetadataSchema" where
  "DefineBool name schema = schema @ [\<lparr>fs_name = name, fs_type = BOOL\<rparr>]"

definition CreateDocStorePresetMetadataSchema :: MetadataSchema where
  "CreateDocStorePresetMetadataSchema =
     DefineInt32 METADATA_SCHEMA_CHUNK_END_INDEX_KEY
      (DefineInt32 METADATA_SCHEMA_CHUNK_START_INDEX_KEY
        (DefineString METADATA_SCHEMA_FILE_SOURCE_KEY
          (DefineInt32 METADATA_SCHEMA_PAGE_NO_KEY
            (DefineString METADATA_SCHEMA_PARENT_DOC_ID_KEY []))))"

definition CreateVectorStorePresetMetadataSchema :: MetadataSchema where
  "CreateVectorStorePresetMetadataSchema = CreateDocStorePresetMetadataSchema"

end
