(* ===== verification/Snowflake.thy ===== *)
theory Snowflake
  imports Prelude
begin

text \<open>
  \<^verbatim>\<open>instinct-core/include/tools/SnowflakeIDGenerator.hpp\<close> and the object ids built on it
  (\<^verbatim>\<open>generate_next_object_id\<close> of \<^verbatim>\<open>instinct-llm/include/LLMGlobals.hpp\<close>).

  The clock is the environment: \<open>clk i\<close> is the \<open>i\<close>-th reading of
  \<open>millsecond()\<close> and a position counts the readings made so far. \<open>std::steady_clock\<close>
  never goes back, which is the hypothesis \<open>mono clk\<close> where it is needed.
  \<open>wait_next_millis\<close> reads the clock until it has moved on, so it may run forever:
  \<open>None\<close> is "does not return".

  The results: ids of one generator are strictly increasing (hence unique), generation
  returns whenever the clock keeps moving, and the decimal object ids keep that order as
  strings exactly as long as the number of digits stays the same.
\<close>

unbundle bit_operations_syntax

section \<open>The generator\<close>

definition WORKER_ID_BITS :: nat where "WORKER_ID_BITS = 5"
definition DATACENTER_ID_BITS :: nat where "DATACENTER_ID_BITS = 5"
definition MAX_WORKER_ID :: int where "MAX_WORKER_ID = push_bit WORKER_ID_BITS 1 - 1"
definition MAX_DATACENTER_ID :: int where "MAX_DATACENTER_ID = push_bit DATACENTER_ID_BITS 1 - 1"
definition SEQUENCE_BITS :: nat where "SEQUENCE_BITS = 12"
definition WORKER_ID_SHIFT :: nat where "WORKER_ID_SHIFT = SEQUENCE_BITS"
definition DATACENTER_ID_SHIFT :: nat where
  "DATACENTER_ID_SHIFT = SEQUENCE_BITS + WORKER_ID_BITS"
definition TIMESTAMP_LEFT_SHIFT :: nat where
  "TIMESTAMP_LEFT_SHIFT = SEQUENCE_BITS + WORKER_ID_BITS + DATACENTER_ID_BITS"
definition SEQUENCE_MASK :: int where "SEQUENCE_MASK = push_bit SEQUENCE_BITS 1 - 1"

lemmas snowflake_consts = WORKER_ID_BITS_def DATACENTER_ID_BITS_def MAX_WORKER_ID_def
  MAX_DATACENTER_ID_def SEQUENCE_BITS_def WORKER_ID_SHIFT_def DATACENTER_ID_SHIFT_def
  TIMESTAMP_LEFT_SHIFT_def SEQUENCE_MASK_def

record SnowflakeIDGenerator =
  last_timestamp :: int
  workerid :: int
  datacenterid :: int
  sequence :: int

definition new_generator :: SnowflakeIDGenerator where
  "new_generator = \<lparr>last_timestamp = -1, workerid = 0, datacenterid = 0, sequence = 0\<rparr>"

definition Init :: "int \<Rightarrow> int \<Rightarrow> SnowflakeIDGenerator \<Rightarrow> SnowflakeIDGenerator result" where
  "Init wid dcid g =
     (if wid > MAX_WORKER_ID \<or> wid < 0
      then Inl (RuntimeError ''worker Id can't be greater than 31 or less than 0'')
      else if dcid > MAX_DATACENTER_ID \<or> dcid < 0
      then Inl (RuntimeError ''datacenter Id can't be greater than 31 or less than 0'')
      else Inr (g\<lparr>workerid := wid, datacenterid := dcid\<rparr>))"

partial_function (option) wait_next_millis :: "(nat \<Rightarrow> int) \<Rightarrow> nat \<Rightarrow> int \<Rightarrow> (int \<times> nat) option" where
  "wait_next_millis clk i last_ts =
     (if clk i \<le> last_ts then wait_next_millis clk (Suc i) last_ts else Some (clk i, Suc i))"

text \<open>A signed 64-bit value; since C++20 a left shift of one is modulo \<open>2 ^ 64\<close>.\<close>

definition to_int64 :: "int \<Rightarrow> int" where
  "to_int64 x = signed_take_bit 63 x"

definition make_id :: "int \<Rightarrow> SnowflakeIDGenerator \<Rightarrow> int" where
  "make_id TWEPOCH g =
     to_int64 (push_bit TIMESTAMP_LEFT_SHIFT (last_timestamp g - TWEPOCH))
       OR (push_bit DATACENTER_ID_SHIFT (datacenterid g)
       OR (push_bit WORKER_ID_SHIFT (workerid g)
       OR sequence g))"

text \<open>
  \<open>NextID TWEPOCH clk i g\<close>: the id, the clock position after the call and the new
  generator.
\<close>

definition NextID :: "int \<Rightarrow> (nat \<Rightarrow> int) \<Rightarrow> nat \<Rightarrow> SnowflakeIDGenerator \<Rightarrow>
    (int \<times> nat \<times> SnowflakeIDGenerator) option" where
  "NextID TWEPOCH clk i g =
     (let timestamp = clk i; i = Suc i in
      if last_timestamp g = timestamp then
        (let sq = (sequence g + 1) AND SEQUENCE_MASK in
         if sq = 0 then
           (case wait_next_millis clk i (last_timestamp g) of
              None \<Rightarrow> None
            | Some (timestamp, i) \<Rightarrow>
                (let g = g\<lparr>last_timestamp := timestamp, sequence := sq\<rparr>
                 in Some (make_id TWEPOCH g, i, g)))
         else
           (let g = g\<lparr>last_timestamp := timestamp, sequence := sq\<rparr>
            in Some (make_id TWEPOCH g, i, g)))
      else
        (let g = g\<lparr>last_timestamp := timestamp, sequence := 0\<rparr>
         in Some (make_id TWEPOCH g, i, g)))"

fun NextIDs :: "int \<Rightarrow> (nat \<Rightarrow> int) \<Rightarrow> nat \<Rightarrow> nat \<Rightarrow> SnowflakeIDGenerator \<Rightarrow>
    (int list \<times> nat \<times> SnowflakeIDGenerator) option" where
  "NextIDs TWEPOCH clk 0 i g = Some ([], i, g)"
| "NextIDs TWEPOCH clk (Suc n) i g =
     (case NextID TWEPOCH clk i g of
        None \<Rightarrow> None
      | Some (x, i, g) \<Rightarrow>
          (case NextIDs TWEPOCH clk n i g of
             None \<Rightarrow> None
           | Some (xs, i, g) \<Rightarrow> Some (x # xs, i, g)))"

section \<open>Object ids\<close>

definition OBJECT_ID_EPOCH :: int where "OBJECT_ID_EPOCH = 1534832906275"

definition digit_char :: "nat \<Rightarrow> char" where
  "digit_char d = char_of (48 + d)"

fun show_nat :: "nat \<Rightarrow> string" where
  "show_nat n = (if n < 10 then [digit_char n] else show_nat (n div 10) @ [digit_char (n mod 10)])"

declare show_nat.simps [simp del]

definition show_int :: "int \<Rightarrow> string" where
  "show_int x = (if x < 0 then CHR ''-'' # show_nat (nat (- x)) else show_nat (nat x))"

definition object_id :: "string \<Rightarrow> int \<Rightarrow> string" where
  "object_id prefix n = prefix @ ''_'' @ show_int n"

definition generate_next_object_id :: "string \<Rightarrow> (nat \<Rightarrow> int) \<Rightarrow> nat \<Rightarrow> SnowflakeIDGenerator \<Rightarrow>
    (string \<times> nat \<times> SnowflakeIDGenerator) option" where
  "generate_next_object_id prefix clk i g =
     map_option (apfst (object_id prefix)) (NextID OBJECT_ID_EPOCH clk i g)"

section \<open>Bit fields\<close>

lemma or_push_bit:
  fixes a b :: int
  assumes "0 \<le> b" "b < 2 ^ n"
  shows "(push_bit n a OR b) = a * 2 ^ n + b"
proof -
  have b: "take_bit n b = b" using assms by (simp add: take_bit_int_eq_self)
  have "(push_bit n a AND b) = 0"
    by (subst b [symmetric]) (auto simp: bit_eq_iff bit_simps)
  moreover have "(push_bit n a AND b) + (push_bit n a OR b) = push_bit n a + b"
    by (rule plus_and_or)
  ultimately show ?thesis by (simp add: push_bit_eq_mult)
qed

lemma sequence_mask: "((x :: int) AND SEQUENCE_MASK) = x mod 4096"
proof -
  have "SEQUENCE_MASK = mask 12" by (simp add: snowflake_consts mask_eq_exp_minus_1)
  then have "(x AND SEQUENCE_MASK) = take_bit 12 x" by (simp only: take_bit_eq_mask)
  then show ?thesis by (simp add: take_bit_eq_mod)
qed

definition generator_ok :: "SnowflakeIDGenerator \<Rightarrow> bool" where
  "generator_ok g \<longleftrightarrow>
     0 \<le> workerid g \<and> workerid g < 32 \<and> 0 \<le> datacenterid g \<and> datacenterid g < 32 \<and>
     0 \<le> sequence g \<and> sequence g < 4096"

text \<open>The 41 bits a timestamp has left before the shift would run into the sign bit.\<close>

definition epoch_ok :: "int \<Rightarrow> int \<Rightarrow> bool" where
  "epoch_ok TWEPOCH t \<longleftrightarrow> TWEPOCH \<le> t \<and> t < TWEPOCH + 2 ^ 41"

lemma make_id_eq:
  assumes "generator_ok g" "epoch_ok TWEPOCH (last_timestamp g)"
  shows "make_id TWEPOCH g =
    (last_timestamp g - TWEPOCH) * 2 ^ 22 + datacenterid g * 2 ^ 17 + workerid g * 2 ^ 12 + sequence g"
proof -
  let ?d = "last_timestamp g - TWEPOCH"
  have d: "0 \<le> ?d" "?d < 2 ^ 41" using assms(2) by (auto simp: epoch_ok_def)
  have g: "0 \<le> workerid g" "workerid g < 32" "0 \<le> datacenterid g" "datacenterid g < 32"
    "0 \<le> sequence g" "sequence g < 2 ^ 12"
    using assms(1) by (auto simp: generator_ok_def)
  have shift: "to_int64 (push_bit 22 ?d) = push_bit 22 ?d"
    unfolding to_int64_def by (rule signed_take_bit_int_eq_self) (use d in \<open>auto simp: push_bit_eq_mult\<close>)
  have w: "(push_bit 12 (workerid g) OR sequence g) = workerid g * 2 ^ 12 + sequence g"
    by (rule or_push_bit) (use g in auto)
  have dc: "(push_bit 17 (datacenterid g) OR (workerid g * 2 ^ 12 + sequence g)) =
      datacenterid g * 2 ^ 17 + (workerid g * 2 ^ 12 + sequence g)"
    by (rule or_push_bit) (use g in auto)
  have t: "(push_bit 22 ?d OR (datacenterid g * 2 ^ 17 + (workerid g * 2 ^ 12 + sequence g))) =
      ?d * 2 ^ 22 + (datacenterid g * 2 ^ 17 + (workerid g * 2 ^ 12 + sequence g))"
    by (rule or_push_bit) (use g in auto)
  have "make_id TWEPOCH g = (push_bit 22 ?d OR (push_bit 17 (datacenterid g) OR
      (push_bit 12 (workerid g) OR sequence g)))"
    by (simp add: make_id_def snowflake_consts shift)
  then show ?thesis by (simp only: w dc t)
qed

section \<open>One call\<close>

lemma wait_next_millis_Some:
  assumes "wait_next_millis clk i l = Some (t, j)"
  shows "l < t \<and> i < j \<and> t = clk (j - 1)"
proof -
  have *: "\<forall>t j. r = (t, j) \<longrightarrow> l < t \<and> i < j \<and> t = clk (j - 1)"
    if "wait_next_millis clk i l = Some r" for clk i l r
    by (rule wait_next_millis.raw_induct
        [where P = "\<lambda>clk i l r. \<forall>t j. r = (t, j) \<longrightarrow> l < t \<and> i < j \<and> t = clk (j - 1)", OF _ that])
      (fastforce split: if_splits)
  show ?thesis using * [OF assms] by blast
qed

lemma wait_next_millis_returns:
  assumes "i \<le> j" "l < clk j"
  shows "wait_next_millis clk i l \<noteq> None"
  using assms
proof (induction "j - i" arbitrary: i)
  case 0
  then show ?case by (simp add: wait_next_millis.simps)
next
  case (Suc n)
  then show ?case by (subst wait_next_millis.simps) (auto simp: not_less_eq_eq)
qed

lemma NextID_step:
  assumes "NextID TWEPOCH clk i g = Some (x, j, g')"
    and "generator_ok g" and "mono clk" and "last_timestamp g \<le> clk i"
  shows "generator_ok g' \<and> x = make_id TWEPOCH g' \<and> i < j \<and> last_timestamp g' = clk (j - 1) \<and>
    workerid g' = workerid g \<and> datacenterid g' = datacenterid g \<and>
    (last_timestamp g < last_timestamp g' \<or>
     last_timestamp g = last_timestamp g' \<and> sequence g < sequence g')"
proof -
  let ?sq = "(sequence g + 1) mod 4096"
  have sq: "0 \<le> ?sq" "?sq < 4096" by simp_all
  have seq: "0 \<le> sequence g" "sequence g < 4096" using assms(2) by (auto simp: generator_ok_def)
  then have grow: "sequence g < ?sq" if "?sq \<noteq> 0"
    using that by (cases "sequence g = 4095") auto
  consider (fresh) "last_timestamp g \<noteq> clk i"
    | (same) "last_timestamp g = clk i" "?sq \<noteq> 0"
    | (wait) "last_timestamp g = clk i" "?sq = 0"
    by (cases "last_timestamp g = clk i"; cases "?sq = 0") iprover+
  then show ?thesis
  proof cases
    case fresh
    with assms show ?thesis by (auto simp: NextID_def Let_def generator_ok_def)
  next
    case same
    with assms sq grow show ?thesis
      by (auto simp: NextID_def Let_def generator_ok_def sequence_mask)
  next
    case wait
    then obtain t where w: "wait_next_millis clk (Suc i) (last_timestamp g) = Some (t, j)"
      and g': "g' = g\<lparr>last_timestamp := t, sequence := 0\<rparr>" and x: "x = make_id TWEPOCH g'"
      using assms(1) by (auto simp: NextID_def Let_def sequence_mask split: option.splits)
    then show ?thesis
      using wait_next_millis_Some [OF w] assms(2) by (auto simp: generator_ok_def)
  qed
qed

lemma make_id_less:
  assumes "generator_ok g" "generator_ok g'"
    and "epoch_ok TWEPOCH (last_timestamp g)" "epoch_ok TWEPOCH (last_timestamp g')"
    and "workerid g' = workerid g" "datacenterid g' = datacenterid g"
    and "last_timestamp g < last_timestamp g' \<or>
      last_timestamp g = last_timestamp g' \<and> sequence g < sequence g'"
  shows "make_id TWEPOCH g < make_id TWEPOCH g'"
  using assms by (auto simp: make_id_eq generator_ok_def)

section \<open>Runs\<close>

lemma NextIDs_increasing:
  assumes "NextIDs TWEPOCH clk n i g = Some (xs, j, g')"
    and "generator_ok g" "mono clk" "last_timestamp g \<le> clk i" "\<forall>k. epoch_ok TWEPOCH (clk k)"
  shows "sorted_wrt (<) xs \<and> list_all (\<lambda>x. 0 \<le> x \<and> x < 2 ^ 63) xs \<and>
    (epoch_ok TWEPOCH (last_timestamp g) \<longrightarrow> (\<forall>x \<in> set xs. make_id TWEPOCH g < x))"
  using assms(1,2,4)
proof (induction n arbitrary: i g xs)
  case 0
  then show ?case by simp
next
  case (Suc n)
  then obtain x i1 g1 ys where step: "NextID TWEPOCH clk i g = Some (x, i1, g1)"
    and rest: "NextIDs TWEPOCH clk n i1 g1 = Some (ys, j, g')" and xs: "xs = x # ys"
    by (auto split: option.splits)
  note s = NextID_step [OF step Suc.prems(2) assms(3) Suc.prems(3)]
  have last1: "last_timestamp g1 = clk (i1 - 1)" and "i1 - 1 \<le> i1" using s by auto
  then have le: "last_timestamp g1 \<le> clk i1" using assms(3) by (simp add: monoD)
  have e1: "epoch_ok TWEPOCH (last_timestamp g1)" using last1 assms(5) by simp
  have ih: "sorted_wrt (<) ys" "list_all (\<lambda>x. 0 \<le> x \<and> x < 2 ^ 63) ys" "\<forall>y \<in> set ys. x < y"
    using Suc.IH [OF rest _ le] s e1 by auto
  have x: "x = make_id TWEPOCH g1" and ok1: "generator_ok g1" using s by auto
  have "0 \<le> x \<and> x < 2 ^ 63"
    using make_id_eq [OF ok1 e1] ok1 e1 x by (auto simp: generator_ok_def epoch_ok_def)
  moreover have "make_id TWEPOCH g < x" if "epoch_ok TWEPOCH (last_timestamp g)"
    unfolding x by (rule make_id_less) (use s e1 ok1 Suc.prems(2) that in auto)
  ultimately show ?case using ih xs by fastforce
qed

lemma NextID_returns:
  assumes "mono clk" "\<exists>j. last_timestamp g < clk j"
  shows "NextID TWEPOCH clk i g \<noteq> None"
proof -
  from assms(2) obtain j where j: "last_timestamp g < clk j" by blast
  have "last_timestamp g < clk (max (Suc i) j)"
    using j monoD [OF assms(1), of j "max (Suc i) j"] by simp
  then have "wait_next_millis clk (Suc i) (last_timestamp g) \<noteq> None"
    by (intro wait_next_millis_returns [of "Suc i" "max (Suc i) j"]) simp
  then show ?thesis by (auto simp: NextID_def Let_def)
qed

section \<open>Decimal order\<close>

lemma digit_char_less: "a < 10 \<Longrightarrow> b < 10 \<Longrightarrow> digit_char a < digit_char b \<longleftrightarrow> a < b"
  by (simp add: digit_char_def less_char_def)

lemma digit_char_inj: "a < 10 \<Longrightarrow> b < 10 \<Longrightarrow> digit_char a = digit_char b \<longleftrightarrow> a = b"
  using digit_char_less [of a b] digit_char_less [of b a] by (metis less_irrefl linorder_neqE)

lemma append_less_same_prefix: "(p @ xs < p @ ys) \<longleftrightarrow> xs < (ys :: string)"
  by (induction p) auto

lemma snoc_less:
  "length xs = length ys \<Longrightarrow> (xs @ [c] < ys @ [d]) \<longleftrightarrow> xs < ys \<or> xs = ys \<and> c < (d :: char)"
  by (induction xs ys rule: list_induct2) auto

lemma length_show_nat_pos: "0 < length (show_nat n)"
  by (subst show_nat.simps) simp

lemma div_mod_10_less:
  fixes a b :: nat
  shows "a < b \<longleftrightarrow> a div 10 < b div 10 \<or> a div 10 = b div 10 \<and> a mod 10 < b mod 10"
    and "a = b \<longleftrightarrow> a div 10 = b div 10 \<and> a mod 10 = b mod 10"
proof -
  have "a = 10 * (a div 10) + a mod 10" "a mod 10 < 10"
    "b = 10 * (b div 10) + b mod 10" "b mod 10 < 10" by simp_all
  then show "a < b \<longleftrightarrow> a div 10 < b div 10 \<or> a div 10 = b div 10 \<and> a mod 10 < b mod 10"
    by linarith
  show "a = b \<longleftrightarrow> a div 10 = b div 10 \<and> a mod 10 = b mod 10"
    by (metis div_mult_mod_eq)
qed

lemma show_nat_less:
  "length (show_nat a) = length (show_nat b) \<Longrightarrow>
     (show_nat a < show_nat b \<longleftrightarrow> a < b) \<and> (show_nat a = show_nat b \<longleftrightarrow> a = b)"
proof (induction a arbitrary: b rule: show_nat.induct)
  case (1 a)
  show ?case
  proof (cases "a < 10")
    case True
    then have "length (show_nat b) = 1" using 1(2) by (simp add: show_nat.simps [of a])
    then have "b < 10" using length_show_nat_pos [of "b div 10"]
      by (auto simp: show_nat.simps [of b] split: if_splits)
    with True show ?thesis
      by (simp add: show_nat.simps [of a] show_nat.simps [of b] digit_char_less digit_char_inj)
  next
    case False
    have b: "\<not> b < 10"
      using 1(2) False length_show_nat_pos [of "a div 10"]
      by (auto simp: show_nat.simps [of a] show_nat.simps [of b] split: if_splits)
    have len: "length (show_nat (a div 10)) = length (show_nat (b div 10))"
      using 1(2) False b by (simp add: show_nat.simps [of a] show_nat.simps [of b])
    note ih = 1(1) [OF False len]
    show ?thesis
      using ih False b len div_mod_10_less [of a b]
      by (simp add: show_nat.simps [of a] show_nat.simps [of b] snoc_less digit_char_less digit_char_inj)
  qed
qed

section \<open>Properties\<close>

text \<open>
  C32: with a clock that never goes back and stays within the 41 bits left for it, the ids a
  generator hands out, however many, are strictly increasing, so no two are equal, and none
  is negative or leaves the signed 64-bit range.
\<close>

theorem NextIDs_strictly_increasing:
  assumes "mono clk" and "\<forall>k. epoch_ok TWEPOCH (clk k)" and "0 \<le> TWEPOCH"
    and "NextIDs TWEPOCH clk n 0 new_generator = Some (xs, j, g')"
  shows "sorted_wrt (<) xs \<and> distinct xs \<and> list_all (\<lambda>x. 0 \<le> x \<and> x < 2 ^ 63) xs"
proof -
  have "TWEPOCH \<le> clk 0" using assms(2) by (simp add: epoch_ok_def)
  then have "last_timestamp new_generator \<le> clk 0" using assms(3) by (simp add: new_generator_def)
  moreover have "generator_ok new_generator" by (simp add: new_generator_def generator_ok_def)
  ultimately show ?thesis
    using NextIDs_increasing [OF assms(4) _ assms(1) _ assms(2)] strict_sorted_iff by blast
qed

theorem NextIDs_strictly_increasing_witness:
  "\<exists>xs j g'. NextIDs 0 (\<lambda>i. if i < 2 then 5 else 6) 3 0 new_generator = Some (xs, j, g') \<and>
     xs = [20971520, 20971521, 25165824] \<and> sorted_wrt (<) xs \<and> distinct xs"
proof -
  let ?clk = "\<lambda>i :: nat. if i < 2 then 5 else 6 :: int"
  have run: "NextIDs 0 ?clk 3 0 new_generator =
      Some ([20971520, 20971521, 25165824], 3, \<lparr>last_timestamp = 6, workerid = 0, datacenterid = 0, sequence = 0\<rparr>)"
    by (simp add: numeral_3_eq_3 NextID_def new_generator_def Let_def sequence_mask make_id_def
        snowflake_consts to_int64_def signed_take_bit_int_eq_self push_bit_eq_mult or_push_bit
        flip: push_bit_eq_mult)
  have "sorted_wrt (<) [20971520, 20971521, 25165824 :: int] \<and> distinct [20971520, 20971521, 25165824 :: int] \<and>
      list_all (\<lambda>x. 0 \<le> x \<and> x < 2 ^ 63) [20971520, 20971521, 25165824 :: int]"
    by (rule NextIDs_strictly_increasing [OF _ _ _ run]) (auto simp: mono_def epoch_ok_def)
  with run show ?thesis by blast
qed

text \<open>
  a call of \<open>NextID\<close> returns as soon as the clock keeps moving, also when the 4096
  ids of a millisecond are used up and the call has to wait for the next one.
\<close>

theorem NextID_terminates:
  assumes "mono clk" and "\<forall>b. \<exists>j. b < clk j"
  shows "\<exists>x j g'. NextID TWEPOCH clk i g = Some (x, j, g')"
  using NextID_returns [OF assms(1), of g TWEPOCH i] assms(2) by (cases "NextID TWEPOCH clk i g") auto

theorem NextID_terminates_witness:
  "\<exists>x j g'. NextID 0 (\<lambda>k. int k) 7 \<lparr>last_timestamp = 7, workerid = 0, datacenterid = 0, sequence = 4095\<rparr>
     = Some (x, j, g')"
proof (rule NextID_terminates)
  show "\<forall>b. \<exists>j. b < int j" by (metis int_nat_eq less_add_one order_le_less_trans zle_iff_zadd
      linorder_not_less nat_int_comparison(2) zless_nat_eq_int_zless)
qed (simp add: mono_def)

lemma object_id_less:
  assumes "length (show_int a) = length (show_int b)" "0 \<le> a" "0 \<le> b"
  shows "object_id p a < object_id p b \<longleftrightarrow> a < b"
  using assms show_nat_less [of "nat a" "nat b"]
  by (auto simp: object_id_def show_int_def append_less_same_prefix)

text \<open>
  as strings, which is how the tables compare them, two object ids of one kind are ordered
  like their numbers as long as both have the same number of digits. At the step from 18
  to 19 digits, which the generator reaches at millisecond 1773251485377 of the
  Unix clock, the order is reversed: the younger id sorts before the older one.
\<close>

theorem object_id_order:
  fixes g g'
  defines "g \<equiv> new_generator\<lparr>last_timestamp := 1773251485376\<rparr>"
    and "g' \<equiv> new_generator\<lparr>last_timestamp := 1773251485377\<rparr>"
  shows "(length (show_int a) = length (show_int b) \<and> 0 \<le> a \<and> 0 \<le> b \<longrightarrow>
     (object_id p a < object_id p b \<longleftrightarrow> a < b)) \<and>
   make_id OBJECT_ID_EPOCH g < make_id OBJECT_ID_EPOCH g' \<and>
   object_id p (make_id OBJECT_ID_EPOCH g') < object_id p (make_id OBJECT_ID_EPOCH g)"
proof -
  have g: "make_id OBJECT_ID_EPOCH g = 999999999997640704"
    unfolding g_def by (subst make_id_eq) (auto simp: generator_ok_def epoch_ok_def OBJECT_ID_EPOCH_def new_generator_def)
  have g': "make_id OBJECT_ID_EPOCH g' = 1000000000001835008"
    unfolding g'_def by (subst make_id_eq) (auto simp: generator_ok_def epoch_ok_def OBJECT_ID_EPOCH_def new_generator_def)
  have "show_nat 1000000000001835008 < show_nat 999999999997640704"
    by (simp add: show_nat.simps digit_char_def less_char_def)
  then have "object_id p (make_id OBJECT_ID_EPOCH g') < object_id p (make_id OBJECT_ID_EPOCH g)"
    by (simp add: g g' object_id_def show_int_def append_less_same_prefix)
  with object_id_less g g' show ?thesis by auto
qed

theorem object_id_order_witness:
  "length (show_int 41) = length (show_int 57) \<and> object_id ''run'' 41 < object_id ''run'' 57"
proof -
  have "length (show_int 41) = length (show_int 57)"
    by (simp add: show_int_def show_nat.simps)
  with object_id_order [of 41 57 "''run''"] show ?thesis by simp
qed

end
