(* ===== verification/Task_Scheduler.thy ===== *)
theory Task_Scheduler
  imports Prelude "HOL-Library.Multiset"
begin

text \<open>
  \<^verbatim>\<open>instinct-data/include/task_scheduler/\<close>: the handler registry of
  \<^verbatim>\<open>BaseTaskScheduler\<close>, the queue \<^verbatim>\<open>InProcessTaskQueue\<close> and the thread pool
  \<^verbatim>\<open>ThreadPoolTaskScheduler\<close>.

  Handlers and callbacks are user code: records of effects on a world \<open>'w\<close> that may throw.
  The concurrent queue is \<^verbatim>\<open>moodycamel::BlockingConcurrentQueue\<close>, code outside the
  repository: the locale \<open>concurrent_queue\<close> states what its documentation promises, and
  the thread pool relies only on "what was put in comes out once, in some order".

  The thread pool is a step relation: every consumer thread is in its loop test, blocked in
  \<open>Dequeue\<close>, busy with a task, or has left its loop. The results: one call of
  \<open>HandleTask\<close> never throws and reports exactly what happened; no task is lost or
  handled twice; a shutdown always comes to an end.
\<close>

section \<open>Tasks, handlers, callbacks\<close>

record 'p Task =
  task_id :: string
  category :: string
  payload :: 'p

text \<open>\<open>handler_ptr\<close> is the address behind the \<open>shared_ptr\<close>, which is what \<open>==\<close> compares.\<close>

record ('w, 'p) ITaskHandler =
  handler_ptr :: nat
  Accept :: "'p Task \<Rightarrow> ('w, bool) eff"
  Handle :: "'p Task \<Rightarrow> ('w, unit) eff"

record ('w, 'p) ITaskHandlerCallbacks =
  OnUnhandledTask :: "'p Task \<Rightarrow> ('w, unit) eff"
  OnFailedTask :: "('w, 'p) ITaskHandler \<Rightarrow> 'p Task \<Rightarrow> exn \<Rightarrow> ('w, unit) eff"
  OnHandledTask :: "('w, 'p) ITaskHandler \<Rightarrow> 'p Task \<Rightarrow> ('w, unit) eff"

definition NoOpTaskHandlerCallbacks :: "('w, 'p) ITaskHandlerCallbacks" where
  "NoOpTaskHandlerCallbacks =
     \<lparr>OnUnhandledTask = \<lambda>_. ret (), OnFailedTask = \<lambda>_ _ _. ret (), OnHandledTask = \<lambda>_ _. ret ()\<rparr>"

definition effective_callbacks ::
    "('w, 'p) ITaskHandlerCallbacks option \<Rightarrow> ('w, 'p) ITaskHandlerCallbacks" where
  "effective_callbacks callbacks =
     (case callbacks of None \<Rightarrow> NoOpTaskHandlerCallbacks | Some c \<Rightarrow> c)"

section \<open>The handler registry\<close>

definition RegisterHandler :: "('w, 'p) ITaskHandler \<Rightarrow> ('w, 'p) ITaskHandler list \<Rightarrow>
    bool \<times> ('w, 'p) ITaskHandler list" where
  "RegisterHandler handler task_handlers = (True, task_handlers @ [handler])"

fun RemoveHandler :: "('w, 'p) ITaskHandler \<Rightarrow> ('w, 'p) ITaskHandler list \<Rightarrow>
    bool \<times> ('w, 'p) ITaskHandler list" where
  "RemoveHandler handler [] = (False, [])"
| "RemoveHandler handler (h # hs) =
     (if handler_ptr h = handler_ptr handler then (True, hs)
      else (case RemoveHandler handler hs of (b, hs') \<Rightarrow> (b, h # hs')))"

section \<open>HandleTask\<close>

text \<open>\<open>tryE m\<close> makes the outcome of \<open>m\<close> a value, as a \<open>try\<close> block around it does.\<close>

definition tryE :: "('s, 'a) eff \<Rightarrow> ('s, 'a result) eff" where
  "tryE m = (\<lambda>s. case m s of (r, s') \<Rightarrow> (Inr r, s'))"

definition HandleTask_failed :: "('w, 'p) ITaskHandlerCallbacks \<Rightarrow> 'p Task \<Rightarrow> ('w, 'p) ITaskHandler \<Rightarrow>
    bool \<Rightarrow> exn \<Rightarrow> ('w, bool \<times> bool) eff" where
  "HandleTask_failed cbs task handler handled e =
     bindE (tryE (OnFailedTask cbs handler task e)) (\<lambda>_. ret (handled, True))"

text \<open>One iteration: the flag \<open>handled\<close> after it, and whether an exception was caught.\<close>

definition HandleTask_one :: "('w, 'p) ITaskHandlerCallbacks \<Rightarrow> 'p Task \<Rightarrow> ('w, 'p) ITaskHandler \<Rightarrow>
    bool \<Rightarrow> ('w, bool \<times> bool) eff" where
  "HandleTask_one cbs task handler handled =
     bindE (tryE (Accept handler task)) (\<lambda>r. case r of
       Inl e \<Rightarrow> HandleTask_failed cbs task handler handled e
     | Inr accepted \<Rightarrow>
         if accepted then
           bindE (tryE (Handle handler task)) (\<lambda>r. case r of
             Inl e \<Rightarrow> HandleTask_failed cbs task handler True e
           | Inr _ \<Rightarrow> bindE (tryE (OnHandledTask cbs handler task)) (\<lambda>_. ret (True, False)))
         else ret (handled, False))"

fun HandleTask_loop :: "('w, 'p) ITaskHandlerCallbacks \<Rightarrow> 'p Task \<Rightarrow> ('w, 'p) ITaskHandler list \<Rightarrow>
    bool \<Rightarrow> bool \<Rightarrow> ('w, bool \<times> bool) eff" where
  "HandleTask_loop cbs task [] handled has_exception = ret (handled, has_exception)"
| "HandleTask_loop cbs task (h # hs) handled has_exception =
     bindE (HandleTask_one cbs task h handled) (\<lambda>(handled, caught).
       HandleTask_loop cbs task hs handled (has_exception \<or> caught))"

definition HandleTask :: "('w, 'p) ITaskHandler list \<Rightarrow> ('w, 'p) ITaskHandlerCallbacks \<Rightarrow> 'p Task \<Rightarrow>
    ('w, unit) eff" where
  "HandleTask handlers cbs task =
     bindE (HandleTask_loop cbs task handlers False False) (\<lambda>(handled, has_exception).
       if \<not> handled \<and> \<not> has_exception
       then bindE (tryE (OnUnhandledTask cbs task)) (\<lambda>_. ret ())
       else ret ())"

section \<open>The queue\<close>

text \<open>The loop of \<open>Drain\<close> over \<open>try_dequeue_bulk\<close>, with its buffer of 100 entries.\<close>

partial_function (option) Drain_loop :: "('q \<Rightarrow> nat \<Rightarrow> 'a list \<times> 'q) \<Rightarrow> 'q \<Rightarrow> 'a list \<Rightarrow>
    ('a list \<times> 'q) option" where
  "Drain_loop try_dequeue_bulk q tasks =
     (if fst (try_dequeue_bulk q 100) = [] then Some (tasks, snd (try_dequeue_bulk q 100))
      else Drain_loop try_dequeue_bulk (snd (try_dequeue_bulk q 100))
             (tasks @ fst (try_dequeue_bulk q 100)))"

definition Drain :: "('q \<Rightarrow> nat \<Rightarrow> 'a list \<times> 'q) \<Rightarrow> 'q \<Rightarrow> ('a list \<times> 'q) option" where
  "Drain try_dequeue_bulk q = Drain_loop try_dequeue_bulk q []"

section \<open>The thread pool\<close>

datatype 'p pc = Checking | Waiting | Busy "'p Task" | Exited

datatype 'p phase = Accepting | Joining | Drained "'p Task list"

text \<open>\<open>enqueued\<close> and \<open>processed\<close> record history; the code has no such fields.\<close>

record 'p ThreadPool =
  queue :: "'p Task multiset"
  running :: bool
  consumer_threads :: "'p pc list"
  phase :: "'p phase"
  enqueued :: "'p Task multiset"
  processed :: "'p Task multiset"

definition new_pool :: "'p ThreadPool" where
  "new_pool = \<lparr>queue = {#}, running = False, consumer_threads = [], phase = Accepting,
     enqueued = {#}, processed = {#}\<rparr>"

definition Start :: "nat \<Rightarrow> 'p ThreadPool \<Rightarrow> 'p ThreadPool" where
  "Start consumer_thread_count s =
     s\<lparr>running := True,
       consumer_threads := consumer_threads s @ replicate consumer_thread_count Checking\<rparr>"

definition Enqueue :: "'p Task \<Rightarrow> 'p ThreadPool \<Rightarrow> 'p ThreadPool" where
  "Enqueue task s = s\<lparr>queue := add_mset task (queue s), enqueued := add_mset task (enqueued s)\<rparr>"

text \<open>The consumer loop \<open>while (running_) { if (Dequeue(task)) HandleTask(task); }\<close>.\<close>

inductive consumer_step :: "'p ThreadPool \<Rightarrow> 'p ThreadPool \<Rightarrow> bool" where
  enter: "i < length (consumer_threads s) \<Longrightarrow> consumer_threads s ! i = Checking \<Longrightarrow> running s \<Longrightarrow>
    consumer_step s (s\<lparr>consumer_threads := (consumer_threads s)[i := Waiting]\<rparr>)"
| leave: "i < length (consumer_threads s) \<Longrightarrow> consumer_threads s ! i = Checking \<Longrightarrow> \<not> running s \<Longrightarrow>
    consumer_step s (s\<lparr>consumer_threads := (consumer_threads s)[i := Exited]\<rparr>)"
| timeout: "i < length (consumer_threads s) \<Longrightarrow> consumer_threads s ! i = Waiting \<Longrightarrow>
    consumer_step s (s\<lparr>consumer_threads := (consumer_threads s)[i := Checking]\<rparr>)"
| dequeue: "i < length (consumer_threads s) \<Longrightarrow> consumer_threads s ! i = Waiting \<Longrightarrow> t \<in># queue s \<Longrightarrow>
    consumer_step s (s\<lparr>consumer_threads := (consumer_threads s)[i := Busy t],
                       queue := queue s - {#t#}\<rparr>)"
| handled: "i < length (consumer_threads s) \<Longrightarrow> consumer_threads s ! i = Busy t \<Longrightarrow>
    consumer_step s (s\<lparr>consumer_threads := (consumer_threads s)[i := Checking],
                       processed := add_mset t (processed s)\<rparr>)"

text \<open>
  \<open>Terminate\<close> clears \<open>running_\<close>, joins every consumer and returns what
  \<open>Drain\<close> finds. \<open>Start\<close> is not called any more once \<open>Terminate\<close> was.
\<close>

inductive pool_step :: "'p ThreadPool \<Rightarrow> 'p ThreadPool \<Rightarrow> bool" where
  start: "phase s = Accepting \<Longrightarrow> pool_step s (Start n s)"
| enqueue: "pool_step s (Enqueue t s)"
| consume: "consumer_step s s' \<Longrightarrow> pool_step s s'"
| terminate: "phase s = Accepting \<Longrightarrow> pool_step s (s\<lparr>running := False, phase := Joining\<rparr>)"
| drain: "phase s = Joining \<Longrightarrow> \<forall>p \<in> set (consumer_threads s). p = Exited \<Longrightarrow> mset ts = queue s \<Longrightarrow>
    pool_step s (s\<lparr>queue := {#}, phase := Drained ts\<rparr>)"

inductive pool_reachable :: "'p ThreadPool \<Rightarrow> bool" where
  init: "pool_reachable new_pool"
| step: "pool_reachable s \<Longrightarrow> pool_step s s' \<Longrightarrow> pool_reachable s'"

inductive_cases consumer_stepE: "consumer_step s s'"
inductive_cases pool_stepE: "pool_step s s'"

section \<open>Lemmas: registry and dispatch\<close>

lemma RemoveHandler_spec:
  "RemoveHandler h hs =
     (if \<exists>x \<in> set hs. handler_ptr x = handler_ptr h
      then (True, takeWhile (\<lambda>x. handler_ptr x \<noteq> handler_ptr h) hs @
                  tl (dropWhile (\<lambda>x. handler_ptr x \<noteq> handler_ptr h) hs))
      else (False, hs))"
  by (induction hs) auto

lemma tryE_bind [simp]: "bindE (tryE m) f s = f (fst (m s)) (snd (m s))"
  by (simp add: bindE_def tryE_def split: prod.splits)

lemma HandleTask_failed_apply [simp]:
  "HandleTask_failed cbs t h handled e s = (Inr (handled, True), snd (OnFailedTask cbs h t e s))"
  by (simp add: HandleTask_failed_def)

lemma HandleTask_one_returns: "\<exists>r s'. HandleTask_one cbs t h handled s = (Inr r, s')"
  by (auto simp: HandleTask_one_def split: sum.splits)

lemma HandleTask_loop_returns: "\<exists>r s'. HandleTask_loop cbs t hs handled hx s = (Inr r, s')"
proof (induction hs arbitrary: handled hx s)
  case (Cons h hs)
  obtain b c s' where "HandleTask_one cbs t h handled s = (Inr (b, c), s')"
    using HandleTask_one_returns [of cbs t h handled s] by auto
  with Cons show ?case by (simp add: bindE_ret)
qed simp

text \<open>
  A handler and callbacks that write down every call; \<open>outcome\<close> lets the callbacks throw
  after they did.
\<close>

datatype 'p sched_event =
    EvHandle nat "'p Task" | EvHandled nat "'p Task" | EvFailed nat "'p Task" exn | EvUnhandled "'p Task"

type_synonym 'p handler_code = "nat \<times> ('p Task \<Rightarrow> bool result) \<times> ('p Task \<Rightarrow> unit result)"

fun logging_handler :: "'p handler_code \<Rightarrow> ('p sched_event list, 'p) ITaskHandler" where
  "logging_handler (p, acc, hnd) =
     \<lparr>handler_ptr = p, Accept = \<lambda>t w. (acc t, w), Handle = \<lambda>t w. (hnd t, w @ [EvHandle p t])\<rparr>"

definition logging_callbacks ::
    "('p sched_event \<Rightarrow> unit result) \<Rightarrow> ('p sched_event list, 'p) ITaskHandlerCallbacks" where
  "logging_callbacks outcome =
     \<lparr>OnUnhandledTask = \<lambda>t w. (outcome (EvUnhandled t), w @ [EvUnhandled t]),
      OnFailedTask = \<lambda>h t e w. (outcome (EvFailed (handler_ptr h) t e), w @ [EvFailed (handler_ptr h) t e]),
      OnHandledTask = \<lambda>h t w. (outcome (EvHandled (handler_ptr h) t), w @ [EvHandled (handler_ptr h) t])\<rparr>"

fun handler_events :: "'p Task \<Rightarrow> 'p handler_code \<Rightarrow> 'p sched_event list" where
  "handler_events t (p, acc, hnd) =
     (case acc t of
        Inl e \<Rightarrow> [EvFailed p t e]
      | Inr False \<Rightarrow> []
      | Inr True \<Rightarrow> (case hnd t of
            Inl e \<Rightarrow> [EvHandle p t, EvFailed p t e]
          | Inr _ \<Rightarrow> [EvHandle p t, EvHandled p t]))"

definition declines :: "'p Task \<Rightarrow> 'p handler_code \<Rightarrow> bool" where
  "declines t h \<longleftrightarrow> fst (snd h) t = Inr False"

lemma HandleTask_one_log:
  "\<exists>b c. HandleTask_one (logging_callbacks out) t (logging_handler h) handled w =
     (Inr (b, c), w @ handler_events t h) \<and>
     (declines t h \<longrightarrow> b = handled \<and> \<not> c) \<and> (\<not> declines t h \<longrightarrow> b \<or> c)"
  by (cases h)
    (auto simp: HandleTask_one_def logging_callbacks_def declines_def split: sum.splits bool.splits)

lemma HandleTask_loop_log:
  "\<exists>b c. HandleTask_loop (logging_callbacks out) t (map logging_handler hs) handled hx w =
     (Inr (b, c), w @ concat (map (handler_events t) hs)) \<and>
     (\<not> b \<and> \<not> c \<longleftrightarrow> \<not> handled \<and> \<not> hx \<and> list_all (declines t) hs)"
proof (induction hs arbitrary: handled hx w)
  case (Cons h hs)
  obtain b c where one: "HandleTask_one (logging_callbacks out) t (logging_handler h) handled w =
      (Inr (b, c), w @ handler_events t h)"
    and bc: "declines t h \<longrightarrow> b = handled \<and> \<not> c" "\<not> declines t h \<longrightarrow> b \<or> c"
    using HandleTask_one_log by metis
  obtain b' c' where rest: "HandleTask_loop (logging_callbacks out) t (map logging_handler hs) b (hx \<or> c)
      (w @ handler_events t h) =
      (Inr (b', c'), (w @ handler_events t h) @ concat (map (handler_events t) hs))"
    and b': "\<not> b' \<and> \<not> c' \<longleftrightarrow> \<not> b \<and> \<not> (hx \<or> c) \<and> list_all (declines t) hs"
    using Cons.IH by metis
  from one rest b' bc show ?case by (simp add: bindE_ret) blast
qed simp

section \<open>The queue contract\<close>

text \<open>
  What the scheduler needs of a task queue: \<open>contents\<close> is what is in it; draining returns
  all of it and leaves the queue empty.
\<close>

locale task_queue =
  fixes contents :: "'q \<Rightarrow> 'a multiset"
    and put :: "'a \<Rightarrow> 'q \<Rightarrow> 'q"
    and drain_all :: "'q \<Rightarrow> ('a list \<times> 'q) option"
  assumes contents_put: "contents (put x q) = add_mset x (contents q)"
    and drain_all: "\<exists>ts q'. drain_all q = Some (ts, q') \<and> mset ts = contents q \<and> contents q' = {#}"
begin

lemma contents_puts: "contents (fold put xs q) = contents q + mset xs"
  by (induction xs arbitrary: q) (auto simp: contents_put)

lemma drain_after_puts:
  "\<exists>ts q'. drain_all (fold put xs q) = Some (ts, q') \<and> mset ts = contents q + mset xs \<and> contents q' = {#}"
  using drain_all [of "fold put xs q"] by (simp add: contents_puts)

end

text \<open>
  What the documentation of the concurrent queue promises: an enqueued element is added, a bulk
  dequeue hands out at most as many elements as asked for, takes exactly those out, and hands
  out none only when the queue is empty.
\<close>

locale concurrent_queue =
  fixes contents :: "'q \<Rightarrow> 'a multiset"
    and enqueue :: "'a \<Rightarrow> 'q \<Rightarrow> 'q"
    and try_dequeue_bulk :: "'q \<Rightarrow> nat \<Rightarrow> 'a list \<times> 'q"
  assumes enqueue_contents: "contents (enqueue x q) = add_mset x (contents q)"
    and bulk_contents: "contents q = mset (fst (try_dequeue_bulk q n)) + contents (snd (try_dequeue_bulk q n))"
    and bulk_bound: "length (fst (try_dequeue_bulk q n)) \<le> n"
    and bulk_empty: "0 < n \<Longrightarrow> fst (try_dequeue_bulk q n) = [] \<Longrightarrow> contents q = {#}"
begin

lemma Drain_loop_all:
  "\<exists>ts q'. Drain_loop try_dequeue_bulk q acc = Some (acc @ ts, q') \<and> mset ts = contents q \<and>
     contents q' = {#}"
proof (induction "size (contents q)" arbitrary: q acc rule: less_induct)
  case less
  let ?b = "try_dequeue_bulk q 100"
  have split: "contents q = mset (fst ?b) + contents (snd ?b)" by (rule bulk_contents)
  show ?case
  proof (cases "fst ?b = []")
    case True
    with bulk_empty [of 100 q] split show ?thesis by (simp add: Drain_loop.simps)
  next
    case False
    then have "size (contents (snd ?b)) < size (contents q)" by (simp add: split)
    from less [OF this, of "acc @ fst ?b"] False split show ?thesis
      by (subst Drain_loop.simps) (auto intro: exI [of _ "fst ?b @ _"])
  qed
qed

end

sublocale concurrent_queue \<subseteq> in_process: task_queue contents enqueue "Drain try_dequeue_bulk"
  by unfold_locales (use Drain_loop_all [of _ "[]"] in \<open>auto simp: enqueue_contents Drain_def\<close>)

context concurrent_queue
begin

lemma Drain_after_enqueues:
  "\<exists>ts q'. Drain try_dequeue_bulk (fold enqueue xs q) = Some (ts, q') \<and>
     mset ts = contents q + mset xs \<and> contents q' = {#}"
  by (rule in_process.drain_after_puts)

end

definition fifo_bulk :: "'a list \<Rightarrow> nat \<Rightarrow> 'a list \<times> 'a list" where
  "fifo_bulk q n = (take n q, drop n q)"

interpretation fifo: concurrent_queue mset "\<lambda>x q. q @ [x]" fifo_bulk
  by unfold_locales (simp, auto simp: fifo_bulk_def simp flip: mset_append)

section \<open>The thread pool: invariant and termination\<close>

fun task_of :: "'p pc \<Rightarrow> 'p Task multiset" where
  "task_of (Busy t) = {#t#}"
| "task_of _ = {#}"

definition in_flight :: "'p pc list \<Rightarrow> 'p Task multiset" where
  "in_flight ps = sum_list (map task_of ps)"

definition drained :: "'p phase \<Rightarrow> 'p Task multiset" where
  "drained p = (case p of Drained ts \<Rightarrow> mset ts | _ \<Rightarrow> {#})"

definition pool_inv :: "'p ThreadPool \<Rightarrow> bool" where
  "pool_inv s \<longleftrightarrow>
     enqueued s = queue s + in_flight (consumer_threads s) + processed s + drained (phase s) \<and>
     (phase s \<noteq> Accepting \<longrightarrow> \<not> running s) \<and>
     (\<forall>ts. phase s = Drained ts \<longrightarrow> (\<forall>p \<in> set (consumer_threads s). p = Exited))"

lemma in_flight_update:
  "i < length ps \<Longrightarrow> in_flight (ps[i := p]) + task_of (ps ! i) = in_flight ps + task_of p"
  by (induction ps arbitrary: i) (auto simp: in_flight_def split: nat.splits)

lemma in_flight_replicate [simp]: "in_flight (ps @ replicate n Checking) = in_flight ps"
  by (induction n) (auto simp: in_flight_def)

lemma in_flight_exited: "\<forall>p \<in> set ps. p = Exited \<Longrightarrow> in_flight ps = {#}"
  by (induction ps) (auto simp: in_flight_def)

lemma consumer_step_thread:
  assumes "consumer_step s s'"
  obtains i p where "i < length (consumer_threads s)" "consumer_threads s ! i \<noteq> Exited"
    "consumer_threads s' = (consumer_threads s)[i := p]" "phase s' = phase s" "running s' = running s"
  using assms by (cases rule: consumer_step.cases) (auto intro: that)

lemma consumer_step_inv:
  assumes "consumer_step s s'" "pool_inv s" shows "pool_inv s'"
proof -
  obtain i p where i: "i < length (consumer_threads s)" "consumer_threads s ! i \<noteq> Exited"
    "phase s' = phase s" "running s' = running s"
    using assms(1) by (rule consumer_step_thread)
  then have nd: "phase s \<noteq> Drained ts" for ts
    using assms(2) nth_mem [OF i(1)] by (auto simp: pool_inv_def)
  have "enqueued s' = queue s' + in_flight (consumer_threads s') + processed s' + drained (phase s')"
    using assms(1)
  proof (cases rule: consumer_step.cases)
    case (dequeue i t)
    with in_flight_update [of i "consumer_threads s" "Busy t"] assms(2) show ?thesis
      by (auto simp: pool_inv_def dest!: multi_member_split)
  next
    case (handled i t)
    with in_flight_update [of i "consumer_threads s" Checking] assms(2) show ?thesis
      by (auto simp: pool_inv_def)
  next
    case (enter i)
    with in_flight_update [of i "consumer_threads s" Waiting] assms(2) show ?thesis
      by (auto simp: pool_inv_def)
  next
    case (leave i)
    with in_flight_update [of i "consumer_threads s" Exited] assms(2) show ?thesis
      by (auto simp: pool_inv_def)
  next
    case (timeout i)
    with in_flight_update [of i "consumer_threads s" Checking] assms(2) show ?thesis
      by (auto simp: pool_inv_def)
  qed
  with i nd assms(2) show ?thesis by (auto simp: pool_inv_def)
qed

lemma pool_step_inv:
  assumes "pool_step s s'" "pool_inv s" shows "pool_inv s'"
  using assms
proof (cases rule: pool_step.cases)
  case (consume)
  then show ?thesis using assms(2) by (rule consumer_step_inv)
next
  case (drain ts)
  then show ?thesis using assms(2) by (auto simp: pool_inv_def drained_def in_flight_exited)
qed (auto simp: pool_inv_def Start_def Enqueue_def drained_def)

lemma pool_reachable_inv: "pool_reachable s \<Longrightarrow> pool_inv s"
proof (induction rule: pool_reachable.induct)
  case init
  show ?case by (simp add: pool_inv_def new_pool_def in_flight_def drained_def)
next
  case (step s s')
  then show ?case by (blast intro: pool_step_inv)
qed

fun pc_rank :: "'p pc \<Rightarrow> nat" where
  "pc_rank Exited = 0"
| "pc_rank Checking = 1"
| "pc_rank (Busy _) = 2"
| "pc_rank Waiting = 3"

definition pool_rank :: "'p ThreadPool \<Rightarrow> nat" where
  "pool_rank s = sum_list (map pc_rank (consumer_threads s))"

lemma sum_list_map_update_less:
  fixes f :: "'a \<Rightarrow> nat"
  shows "i < length xs \<Longrightarrow> f x < f (xs ! i) \<Longrightarrow> sum_list (map f (xs[i := x])) < sum_list (map f xs)"
  by (induction xs arbitrary: i) (auto split: nat.splits)

lemma consumer_step_rank:
  assumes "consumer_step s s'" "\<not> running s"
  shows "pool_rank s' < pool_rank s \<and> \<not> running s'"
  using assms
  by (cases rule: consumer_step.cases) (auto simp: pool_rank_def intro!: sum_list_map_update_less)

lemma consumer_progress:
  assumes "p \<in> set (consumer_threads s)" "p \<noteq> Exited"
  shows "\<exists>s'. consumer_step s s'"
proof -
  obtain i where i: "i < length (consumer_threads s)" "consumer_threads s ! i = p"
    using assms(1) by (auto simp: in_set_conv_nth)
  show ?thesis
  proof (cases p)
    case Checking
    with i show ?thesis by (cases "running s") (blast intro: consumer_step.intros)+
  qed (use i assms(2) in \<open>blast intro: consumer_step.intros\<close>)+
qed

section \<open>Properties\<close>

text \<open>
  C20: handling a task never throws out of the consumer loop, whatever the handlers and the
  callbacks throw. Every handler is asked in the order of registration, each one that accepts
  is run once and then reported, as handled or as failed with its exception; a handler whose
  \<open>Accept\<close> throws is reported as failed; the task is reported as unhandled exactly when
  all handlers declined it.
\<close>

theorem HandleTask_reports:
  "HandleTask (map logging_handler hs) (logging_callbacks outcome) t w =
     (Inr (), w @ concat (map (handler_events t) hs) @
        (if list_all (declines t) hs then [EvUnhandled t] else []))"
proof -
  obtain b c where "HandleTask_loop (logging_callbacks outcome) t (map logging_handler hs) False False w =
      (Inr (b, c), w @ concat (map (handler_events t) hs))"
    and "\<not> b \<and> \<not> c \<longleftrightarrow> list_all (declines t) hs"
    using HandleTask_loop_log [of outcome t hs False False w] by auto
  then show ?thesis
    by (auto simp: HandleTask_def bindE_ret) (simp add: logging_callbacks_def)
qed

text \<open>
  C19: a task is never lost and never handled twice. In every reachable state of the thread
  pool the tasks put in are exactly those still queued, those a consumer is busy with, those
  handled and those handed back by \<open>Terminate\<close>; and once \<open>Terminate\<close> has
  returned, no consumer is busy with one.
\<close>

theorem scheduler_exactly_once:
  assumes "pool_reachable s"
  shows "enqueued s = queue s + in_flight (consumer_threads s) + processed s + drained (phase s) \<and>
    (\<forall>ts. phase s = Drained ts \<longrightarrow> in_flight (consumer_threads s) = {#} \<and> \<not> running s)"
  using pool_reachable_inv [OF assms] by (auto simp: pool_inv_def in_flight_exited)

theorem scheduler_exactly_once_witness:
  "pool_reachable (Enqueue \<lparr>task_id = ''a'', category = ''c'', payload = ()\<rparr> (Start 1 new_pool)) \<and>
   enqueued (Enqueue \<lparr>task_id = ''a'', category = ''c'', payload = ()\<rparr> (Start 1 new_pool)) =
     {#\<lparr>task_id = ''a'', category = ''c'', payload = ()\<rparr>#}"
proof -
  let ?t = "\<lparr>task_id = ''a'', category = ''c'', payload = ()\<rparr>"
  have r: "pool_reachable (Enqueue ?t (Start 1 new_pool))"
    by (rule pool_reachable.step [OF pool_reachable.step [OF pool_reachable.init pool_step.start [where n = 1]]])
      (simp_all add: new_pool_def pool_step.enqueue)
  from scheduler_exactly_once [OF r] r show ?thesis
    by (simp add: Enqueue_def Start_def new_pool_def in_flight_def drained_def)
qed

text \<open>
  C26: a shutdown comes to an end. Once \<open>running_\<close> is cleared every consumer step lowers a
  rank, so there is no endless sequence of consumer steps, and as long as some consumer has
  not left its loop it can take a step: all consumers leave, and the join of
  \<open>Terminate\<close> returns.
\<close>

theorem scheduler_shutdown_terminates:
  assumes "\<not> running s"
  shows "(\<forall>s'. consumer_step s s' \<longrightarrow> pool_rank s' < pool_rank s \<and> \<not> running s') \<and>
    (\<exists>s'. consumer_step\<^sup>*\<^sup>* s s' \<and> (\<forall>p \<in> set (consumer_threads s'). p = Exited))"
proof -
  have "\<exists>s'. consumer_step\<^sup>*\<^sup>* s s' \<and> (\<forall>p \<in> set (consumer_threads s'). p = Exited)"
    using assms
  proof (induction "pool_rank s" arbitrary: s rule: less_induct)
    case less
    show ?case
    proof (cases "\<forall>p \<in> set (consumer_threads s). p = Exited")
      case False
      then obtain s' where s': "consumer_step s s'" using consumer_progress by blast
      from less.hyps consumer_step_rank [OF this less.prems] obtain u where
        "consumer_step\<^sup>*\<^sup>* s' u" "\<forall>p \<in> set (consumer_threads u). p = Exited" by blast
      with s' show ?thesis by (meson converse_rtranclp_into_rtranclp)
    qed blast
  qed
  with consumer_step_rank [OF _ assms] show ?thesis by blast
qed

theorem scheduler_shutdown_terminates_witness:
  "\<exists>s'. consumer_step\<^sup>*\<^sup>* ((new_pool :: unit ThreadPool)\<lparr>consumer_threads := [Waiting, Checking]\<rparr>) s' \<and>
     (\<forall>p \<in> set (consumer_threads s'). p = Exited)"
proof -
  have "\<not> running ((new_pool :: unit ThreadPool)\<lparr>consumer_threads := [Waiting, Checking]\<rparr>)"
    by (simp add: new_pool_def)
  from scheduler_shutdown_terminates [OF this] show ?thesis by blast
qed

text \<open>
  with a concurrent queue that keeps its contract, the loop of \<open>Drain\<close> ends and
  returns every task that was in the queue or was put in since exactly once, however many
  batches of 100 that takes, and leaves the queue empty.
\<close>

theorem Drain_returns_all:
  assumes "concurrent_queue contents enq bulk"
  shows "\<exists>ts q'. Drain bulk (fold enq xs q) = Some (ts, q') \<and>
    mset ts = contents q + mset xs \<and> contents q' = {#}"
  by (rule concurrent_queue.Drain_after_enqueues [OF assms])

theorem Drain_returns_all_witness:
  "\<exists>ts q'. Drain fifo_bulk (fold (\<lambda>x q. q @ [x]) [0 :: nat ..< 251] []) = Some (ts, q') \<and>
     mset ts = mset [0 ..< 251]"
  using Drain_returns_all [OF fifo.concurrent_queue_axioms, of "[0 :: nat ..< 251]" "[]"]
  by (simp only: mset.simps(1) add_0_left) blast

end
