(* ===== verification/Lifecycle.thy ===== *)
theory Lifecycle
  imports Prelude "HOL-Library.Multiset"
begin

text \<open>
  \<^verbatim>\<open>instinct-core/include/ioc/ManagedApplicationContext.hpp\<close>: objects with a priority that
  are started from the highest to the lowest and stopped the other way round.

  \<open>std::priority_queue\<close> leaves open which of several elements of equal priority is on top:
  \<open>pick\<close> is that choice, an index into the elements still queued, and \<open>is_top\<close> is
  all that is known of it, that nothing queued is larger in the queue's order.
\<close>

section \<open>Objects and the priority queue\<close>

record 'w ILifeCycle =
  Start :: "('w, unit) eff"
  Stop :: "('w, unit) eff"
  GetPriority :: nat

definition Manage :: "'w ILifeCycle option \<Rightarrow> 'w ILifeCycle list \<Rightarrow> 'w ILifeCycle list" where
  "Manage cast managed = (case cast of Some life_cycle \<Rightarrow> managed @ [life_cycle] | None \<Rightarrow> managed)"

definition is_top :: "('a \<Rightarrow> 'a \<Rightarrow> bool) \<Rightarrow> ('a list \<Rightarrow> nat) \<Rightarrow> bool" where
  "is_top cmp pick \<longleftrightarrow>
     (\<forall>xs. xs \<noteq> [] \<longrightarrow> pick xs < length xs \<and> (\<forall>y \<in> set xs. \<not> cmp (xs ! pick xs) y))"

definition remove_nth :: "nat \<Rightarrow> 'a list \<Rightarrow> 'a list" where
  "remove_nth i xs = take i xs @ drop (Suc i) xs"

text \<open>\<open>while (!pq.empty()) { item = pq.top(); ...; pq.pop(); }\<close>: the order of the items.\<close>

function pq_order :: "('a list \<Rightarrow> nat) \<Rightarrow> 'a list \<Rightarrow> 'a list" where
  "pq_order pick xs =
     (if pick xs < length xs then (xs ! pick xs) # pq_order pick (remove_nth (pick xs) xs) else [])"
  by pat_completeness auto
termination
  by (relation "measure (length \<circ> snd)") (auto simp: remove_nth_def)

declare pq_order.simps [simp del]

definition startup_cmp :: "'w ILifeCycle \<Rightarrow> 'w ILifeCycle \<Rightarrow> bool" where
  "startup_cmp a b \<longleftrightarrow> GetPriority b > GetPriority a"

definition shutdown_cmp :: "'w ILifeCycle \<Rightarrow> 'w ILifeCycle \<Rightarrow> bool" where
  "shutdown_cmp a b \<longleftrightarrow> GetPriority a > GetPriority b"

definition Startup :: "('w ILifeCycle list \<Rightarrow> nat) \<Rightarrow> 'w ILifeCycle list \<Rightarrow> ('w, unit) eff" where
  "Startup pick managed = forE Start (pq_order pick managed)"

definition Shutdown :: "('w ILifeCycle list \<Rightarrow> nat) \<Rightarrow> 'w ILifeCycle list \<Rightarrow> ('w, unit) eff" where
  "Shutdown pick managed = forE (\<lambda>item. catchE (Stop item) (\<lambda>_. ret ())) (pq_order pick managed)"

section \<open>The order of the queue\<close>

lemma mset_remove_nth: "i < length xs \<Longrightarrow> mset xs = add_mset (xs ! i) (mset (remove_nth i xs))"
  by (metis id_take_nth_drop mset_append mset.simps(2) remove_nth_def union_mset_add_mset_right)

lemma mset_pq_order:
  assumes "is_top cmp pick" shows "mset (pq_order pick xs) = mset xs"
proof (induction "length xs" arbitrary: xs rule: less_induct)
  case less
  show ?case
  proof (cases "xs = []")
    case True
    then show ?thesis by (simp add: pq_order.simps)
  next
    case False
    with assms have i: "pick xs < length xs" by (simp add: is_top_def)
    then have "length (remove_nth (pick xs) xs) < length xs" by (auto simp: remove_nth_def)
    from less [OF this] i mset_remove_nth [OF i] show ?thesis by (simp add: pq_order.simps [of pick xs])
  qed
qed

lemma sorted_pq_order:
  assumes "is_top cmp pick" shows "sorted_wrt (\<lambda>a b. \<not> cmp a b) (pq_order pick xs)"
proof (induction "length xs" arbitrary: xs rule: less_induct)
  case less
  show ?case
  proof (cases "xs = []")
    case True
    then show ?thesis by (simp add: pq_order.simps)
  next
    case False
    with assms have i: "pick xs < length xs" and top: "\<forall>y \<in> set xs. \<not> cmp (xs ! pick xs) y"
      by (auto simp: is_top_def)
    have sub: "set (pq_order pick (remove_nth (pick xs) xs)) \<subseteq> set xs"
      using mset_eq_setD [OF mset_pq_order [OF assms, of "remove_nth (pick xs) xs"]]
      by (auto simp: remove_nth_def dest: in_set_takeD in_set_dropD)
    have "length (remove_nth (pick xs) xs) < length xs" using i by (auto simp: remove_nth_def)
    from less [OF this] i top sub show ?thesis by (auto simp: pq_order.simps [of pick xs])
  qed
qed

section \<open>Objects that write down their calls\<close>

datatype life_event = Started nat | Stopped nat

definition logging_object :: "nat \<Rightarrow> (nat \<Rightarrow> unit result) \<Rightarrow> (nat \<Rightarrow> unit result) \<Rightarrow> nat \<Rightarrow>
    life_event list ILifeCycle" where
  "logging_object prio on_start on_stop i =
     \<lparr>Start = \<lambda>w. (on_start i, w @ [Started i]), Stop = \<lambda>w. (on_stop i, w @ [Stopped i]),
      GetPriority = prio\<rparr>"

lemma Shutdown_loop_log:
  assumes "\<forall>x \<in> set xs. \<exists>f. Stop x = (\<lambda>w. (f, w @ [e x]))"
  shows "forE (\<lambda>item. catchE (Stop item) (\<lambda>_. ret ())) xs w = (Inr (), w @ map e xs)"
  using assms
proof (induction xs arbitrary: w)
  case (Cons x xs)
  then obtain f where "Stop x = (\<lambda>w. (f, w @ [e x]))" by auto
  with Cons show ?case by (cases f) (auto simp: bindE_def catchE_def)
qed simp

lemma Startup_loop_log:
  assumes "\<forall>x \<in> set xs. Start x = (\<lambda>w. (out x, w @ [e x]))"
  shows "forE Start xs w =
    (case dropWhile (\<lambda>x. out x = Inr ()) xs of
       [] \<Rightarrow> (Inr (), w @ map e xs)
     | x # _ \<Rightarrow> (case out x of Inl ex \<Rightarrow> Inl ex | Inr _ \<Rightarrow> Inr (),
                 w @ map e (takeWhile (\<lambda>x. out x = Inr ()) xs) @ [e x]))"
  using assms
proof (induction xs arbitrary: w)
  case (Cons x xs)
  then show ?case
    by (cases "out x"; cases "dropWhile (\<lambda>x. out x = Inr ()) xs") (simp_all add: bindE_def del: dropWhile_eq_Nil_conv)
qed simp

section \<open>Properties\<close>

text \<open>
  a shutdown stops every managed object exactly once, from the lowest priority to the
  highest, and goes on when one of them throws: the call itself never throws.
\<close>

theorem Shutdown_stops_all:
  assumes "is_top shutdown_cmp pick" and "\<forall>x \<in> set managed. \<exists>f. Stop x = (\<lambda>w. (f, w @ [e x]))"
  shows "\<exists>order. mset order = mset managed \<and> sorted (map GetPriority order) \<and>
    Shutdown pick managed w = (Inr (), w @ map e order)"
proof (intro exI conjI)
  let ?o = "pq_order pick managed"
  show m: "mset ?o = mset managed" by (rule mset_pq_order [OF assms(1)])
  have "sorted_wrt (\<lambda>a b. \<not> shutdown_cmp a b) ?o" by (rule sorted_pq_order [OF assms(1)])
  then show "sorted (map GetPriority ?o)"
    unfolding sorted_map by (rule sorted_wrt_mono_rel [rotated]) (simp add: shutdown_cmp_def)
  show "Shutdown pick managed w = (Inr (), w @ map e ?o)"
    unfolding Shutdown_def
    by (rule Shutdown_loop_log) (use assms(2) m in \<open>auto dest: mset_eq_setD\<close>)
qed

definition first_at :: "(nat set \<Rightarrow> nat) \<Rightarrow> 'w ILifeCycle list \<Rightarrow> nat" where
  "first_at m xs = length (takeWhile (\<lambda>x. GetPriority x \<noteq> m (GetPriority ` set xs)) xs)"

lemma takeWhile_shorter: "\<exists>x \<in> set xs. \<not> P x \<Longrightarrow> length (takeWhile P xs) < length xs"
  by (induction xs) auto

lemma first_at_nth:
  assumes "m (GetPriority ` set xs) \<in> GetPriority ` set xs"
  shows "first_at m xs < length xs" "GetPriority (xs ! first_at m xs) = m (GetPriority ` set xs)"
proof -
  have "\<exists>x \<in> set xs. \<not> GetPriority x \<noteq> m (GetPriority ` set xs)" using assms by fastforce
  then show i: "first_at m xs < length xs"
    unfolding first_at_def by (rule takeWhile_shorter)
  show "GetPriority (xs ! first_at m xs) = m (GetPriority ` set xs)"
    using nth_length_takeWhile [of "\<lambda>x. GetPriority x \<noteq> m (GetPriority ` set xs)" xs] i
    by (simp add: first_at_def)
qed

lemma first_at_Min_top: "is_top shutdown_cmp (first_at Min)"
  unfolding is_top_def
proof (intro allI impI)
  fix xs :: "'w ILifeCycle list" assume "xs \<noteq> []"
  then have "Min (GetPriority ` set xs) \<in> GetPriority ` set xs" by (intro Min_in) auto
  from first_at_nth [where m = Min and xs = xs, OF this]
  show "first_at Min xs < length xs \<and> (\<forall>y \<in> set xs. \<not> shutdown_cmp (xs ! first_at Min xs) y)"
    by (auto simp: shutdown_cmp_def leD)
qed

lemma first_at_Max_top: "is_top startup_cmp (first_at Max)"
  unfolding is_top_def
proof (intro allI impI)
  fix xs :: "'w ILifeCycle list" assume "xs \<noteq> []"
  then have "Max (GetPriority ` set xs) \<in> GetPriority ` set xs" by (intro Max_in) auto
  from first_at_nth [where m = Max and xs = xs, OF this]
  show "first_at Max xs < length xs \<and> (\<forall>y \<in> set xs. \<not> startup_cmp (xs ! first_at Max xs) y)"
    by (auto simp: startup_cmp_def leD)
qed

theorem Shutdown_stops_all_witness:
  "Shutdown (first_at Min) [logging_object 10 (\<lambda>_. Inr ()) (\<lambda>_. Inl OutOfRange) 1,
     logging_object 10 (\<lambda>_. Inr ()) (\<lambda>_. Inr ()) 1] [] = (Inr (), [Stopped 1, Stopped 1])"
proof -
  let ?m = "[logging_object 10 (\<lambda>_. Inr ()) (\<lambda>_. Inl OutOfRange) 1,
       logging_object 10 (\<lambda>_. Inr ()) (\<lambda>_. Inr ()) 1]"
  have "Stop (logging_object 10 (\<lambda>_. Inr ()) f 1) = (\<lambda>w. (f 1, w @ [Stopped 1]))" for f
    by (simp add: logging_object_def)
  then have "\<forall>x \<in> set ?m. \<exists>f. Stop x = (\<lambda>w. (f, w @ [Stopped 1]))"
    by (simp only: list.set ball_simps simp_thms) blast
  from Shutdown_stops_all [OF first_at_Min_top this, of "[]"] obtain order where
    "mset order = mset ?m" "Shutdown (first_at Min) ?m [] = (Inr (), [] @ map (\<lambda>_. Stopped 1) order)" by blast
  moreover from this(1) have "length order = length ?m" by (rule mset_eq_length)
  ultimately show ?thesis by (auto simp: length_Suc_conv)
qed

text \<open>
  a startup goes through the managed objects from the highest priority to the lowest; it
  starts each once, and when one throws it stops there with that exception: those before it in
  the order are started, it was tried, and no object of lower priority is touched.
\<close>

theorem Startup_order:
  assumes "is_top startup_cmp pick" and "\<forall>x \<in> set managed. Start x = (\<lambda>w. (out x, w @ [e x]))"
  shows "\<exists>order. mset order = mset managed \<and> sorted (rev (map GetPriority order)) \<and>
    Startup pick managed w =
      (case dropWhile (\<lambda>x. out x = Inr ()) order of
         [] \<Rightarrow> (Inr (), w @ map e order)
       | x # _ \<Rightarrow> (case out x of Inl ex \<Rightarrow> Inl ex | Inr _ \<Rightarrow> Inr (),
                   w @ map e (takeWhile (\<lambda>x. out x = Inr ()) order) @ [e x]))"
proof (intro exI conjI)
  let ?o = "pq_order pick managed"
  show m: "mset ?o = mset managed" by (rule mset_pq_order [OF assms(1)])
  have "sorted_wrt (\<lambda>a b. \<not> startup_cmp a b) ?o" by (rule sorted_pq_order [OF assms(1)])
  then have "sorted_wrt (\<lambda>a b. GetPriority a \<ge> GetPriority b) ?o"
    by (rule sorted_wrt_mono_rel [rotated]) (simp add: startup_cmp_def)
  then show "sorted (rev (map GetPriority ?o))" by (simp add: sorted_wrt_rev sorted_wrt_map)
  show "Startup pick managed w = (case dropWhile (\<lambda>x. out x = Inr ()) ?o of
         [] \<Rightarrow> (Inr (), w @ map e ?o)
       | x # _ \<Rightarrow> (case out x of Inl ex \<Rightarrow> Inl ex | Inr _ \<Rightarrow> Inr (),
                   w @ map e (takeWhile (\<lambda>x. out x = Inr ()) ?o) @ [e x]))"
    unfolding Startup_def
    by (rule Startup_loop_log) (use assms(2) m in \<open>auto dest: mset_eq_setD\<close>)
qed

theorem Startup_order_witness:
  "\<exists>order. mset order = mset [logging_object 3 (\<lambda>_. Inl OutOfRange) (\<lambda>_. Inr ()) 7] \<and>
     Startup (first_at Max) [logging_object 3 (\<lambda>_. Inl OutOfRange) (\<lambda>_. Inr ()) 7] [] = (Inl OutOfRange, [Started 7])"
proof -
  let ?m = "[logging_object 3 (\<lambda>_. Inl OutOfRange) (\<lambda>_. Inr ()) 7]"
  have "\<forall>x \<in> set ?m. Start x = (\<lambda>w. ((\<lambda>_. Inl OutOfRange) x, w @ [(\<lambda>_. Started 7) x]))"
    by (simp add: logging_object_def)
  from Startup_order [OF first_at_Max_top this, of "[]"] obtain order where
    o: "mset order = mset ?m"
    "Startup (first_at Max) ?m [] = (case dropWhile (\<lambda>_. False) order of
         [] \<Rightarrow> (Inr (), map (\<lambda>_. Started 7) order)
       | x # _ \<Rightarrow> (Inl OutOfRange, map (\<lambda>_. Started 7) (takeWhile (\<lambda>_. False) order) @ [Started 7]))"
    by auto
  moreover have "order \<noteq> []" using o(1) by auto
  ultimately show ?thesis by (cases order) auto
qed

end
