(* ===== verification/Connection_Pool.thy ===== *)
theory Connection_Pool
  imports Prelude
begin

text \<open>
  \<^verbatim>\<open>instinct-data/include/database/BaseConnectionPool.hpp\<close>,
  \<^verbatim>\<open>ManagedConnection.hpp\<close> and \<^verbatim>\<open>duckdb/DuckDBConnectionPool.hpp\<close>, with the
  acquire/guard/release discipline every method of \<^verbatim>\<open>DuckDBDataTemplate.hpp\<close> follows.

  A connection is its identity and the time it was last active. The environment of
  \<open>TryAcquire\<close> is a list of wake-ups of the condition variable: whether the wait timed
  out, and what the deque holds when the lock is taken again, since other threads release
  meanwhile. When the wake-ups run out the caller is still blocked, the result \<open>None\<close>.
\<close>

section \<open>Connections and the pool\<close>

record Connection =
  conn_id :: nat
  last_active_time_point :: int

record Pool =
  pool :: "Connection list"
  created :: nat

record ConnectionPoolOptions =
  initial_connection_count :: int
  max_idle_duration :: int

definition UpdateActiveTime :: "int \<Rightarrow> Connection \<Rightarrow> Connection" where
  "UpdateActiveTime now c = c\<lparr>last_active_time_point := now\<rparr>"

definition Create :: "int \<Rightarrow> Pool \<Rightarrow> Connection \<times> Pool" where
  "Create now p = (\<lparr>conn_id = created p, last_active_time_point = now\<rparr>, p\<lparr>created := created p + 1\<rparr>)"

text \<open>\<open>DuckDBConnectionPool::Check\<close>.\<close>

definition DuckDB_Check :: "Connection \<Rightarrow> bool" where
  "DuckDB_Check c = True"

function Initialize_loop :: "int \<Rightarrow> int \<Rightarrow> Pool \<Rightarrow> Pool" where
  "Initialize_loop count now p =
     (if count > 0
      then (case Create now p of (c, p) \<Rightarrow> Initialize_loop (count - 1) now (p\<lparr>pool := pool p @ [c]\<rparr>))
      else p)"
  by pat_completeness auto
termination
  by (relation "measure (\<lambda>(count, _). nat count)") auto

declare Initialize_loop.simps [simp del]

definition Initialize :: "ConnectionPoolOptions \<Rightarrow> int \<Rightarrow> Pool \<Rightarrow> Pool" where
  "Initialize opts now p = Initialize_loop (initial_connection_count opts) now p"

text \<open>\<open>while (pool_.empty()) if (wait_for(...) == timeout) return nullptr;\<close>\<close>

fun wait_for_connection :: "(bool \<times> Connection list) list \<Rightarrow> Connection list \<Rightarrow>
    (Connection list \<times> bool) option" where
  "wait_for_connection ws (c # cs) = Some (c # cs, True)"
| "wait_for_connection [] [] = None"
| "wait_for_connection ((timed_out, cs) # ws) [] =
     (if timed_out then Some (cs, False) else wait_for_connection ws cs)"

definition TryAcquire :: "(Connection \<Rightarrow> bool) \<Rightarrow> ConnectionPoolOptions \<Rightarrow> int \<Rightarrow>
    (bool \<times> Connection list) list \<Rightarrow> Pool \<Rightarrow> (Connection option \<times> Pool) option" where
  "TryAcquire Check opts now waits p =
     (case wait_for_connection waits (pool p) of
        None \<Rightarrow> None
      | Some (cs, False) \<Rightarrow> Some (None, p\<lparr>pool := cs\<rparr>)
      | Some (cs, True) \<Rightarrow>
          (let conn = hd cs; p = p\<lparr>pool := tl cs\<rparr> in
           if Check conn \<and> last_active_time_point conn - now < max_idle_duration opts
           then Some (Some (UpdateActiveTime now conn), p)
           else (case Create now p of (c, p) \<Rightarrow> Some (Some c, p))))"

definition Acquire :: "(Connection \<Rightarrow> bool) \<Rightarrow> ConnectionPoolOptions \<Rightarrow> int \<Rightarrow>
    (bool \<times> Connection list) list \<Rightarrow> Pool \<Rightarrow> (Connection result \<times> Pool) option" where
  "Acquire Check opts now waits p =
     (case TryAcquire Check opts now waits p of
        None \<Rightarrow> None
      | Some (Some conn, p) \<Rightarrow> Some (Inr conn, p)
      | Some (None, p) \<Rightarrow>
          Some (Inl (InstinctException ''Cannot acquire connection from connection pool''), p))"

definition Release :: "(Connection \<Rightarrow> bool) \<Rightarrow> int \<Rightarrow> Connection option \<Rightarrow> Pool \<Rightarrow> Pool" where
  "Release Check now connection p =
     (case connection of
        None \<Rightarrow> (case Create now p of (c, p) \<Rightarrow> p\<lparr>pool := pool p @ [c]\<rparr>)
      | Some c \<Rightarrow>
          if \<not> Check c then (case Create now p of (c, p) \<Rightarrow> p\<lparr>pool := pool p @ [c]\<rparr>)
          else p\<lparr>pool := pool p @ [c]\<rparr>)"

text \<open>
  \<open>auto conn = pool->Acquire(); GuardConnection guard {pool, conn}; ... body ...\<close>: the guard
  is destroyed before \<open>conn\<close>, so it still finds the connection alive and releases it,
  also when the body throws.
\<close>

definition with_connection :: "(Connection \<Rightarrow> bool) \<Rightarrow> ConnectionPoolOptions \<Rightarrow> int \<Rightarrow> int \<Rightarrow>
    (bool \<times> Connection list) list \<Rightarrow> (Connection \<Rightarrow> ('w, 'a) eff) \<Rightarrow> Pool \<times> 'w \<Rightarrow>
    ('a result \<times> Pool \<times> 'w) option" where
  "with_connection Check opts t1 t2 waits body s =
     (case s of (p, w) \<Rightarrow>
       (case Acquire Check opts t1 waits p of
          None \<Rightarrow> None
        | Some (Inl e, p) \<Rightarrow> Some (Inl e, p, w)
        | Some (Inr conn, p) \<Rightarrow>
            (case body conn w of (r, w) \<Rightarrow> Some (r, Release Check t2 (Some conn) p, w))))"

section \<open>Lemmas\<close>

lemma Initialize_loop_length:
  "length (pool (Initialize_loop count now p)) = length (pool p) + nat count"
proof (induction count now p rule: Initialize_loop.induct)
  case (1 count now p)
  then show ?case by (cases "count > 0") (auto simp: Initialize_loop.simps [of count] Create_def)
qed

lemma Release_length [simp]: "length (pool (Release Check now c p)) = Suc (length (pool p))"
  by (auto simp: Release_def Create_def split: option.splits)

lemma wait_nonempty:
  "wait_for_connection ws cs = Some (cs', True) \<Longrightarrow> cs' \<noteq> []"
  by (induction ws cs rule: wait_for_connection.induct) (auto split: if_splits)

text \<open>What the deque holds when the wait is over.\<close>

definition pool_seen :: "(bool \<times> Connection list) list \<Rightarrow> Pool \<Rightarrow> Connection list" where
  "pool_seen waits p =
     (case wait_for_connection waits (pool p) of Some (cs, _) \<Rightarrow> cs | None \<Rightarrow> [])"

lemma Acquire_cases:
  assumes "Acquire Check opts now waits p = Some (r, p')"
  obtains (timeout) "r = Inl (InstinctException ''Cannot acquire connection from connection pool'')"
      "pool p' = pool_seen waits p"
  | (got) c where "r = Inr c" "Suc (length (pool p')) = length (pool_seen waits p)"
proof (cases "wait_for_connection waits (pool p)")
  case None
  then show thesis using assms by (simp add: Acquire_def TryAcquire_def)
next
  case (Some x)
  obtain cs b where x: "x = (cs, b)" by (cases x)
  show thesis
  proof (cases b)
    case True
    then have "cs \<noteq> []" using Some x wait_nonempty [of waits "pool p" cs] by simp
    then show thesis using assms Some x True
      by (auto simp: Acquire_def TryAcquire_def pool_seen_def Create_def Let_def split: if_splits
          intro!: got)
  next
    case False
    then show thesis using assms Some x
      by (intro timeout) (auto simp: Acquire_def TryAcquire_def pool_seen_def)
  qed
qed

section \<open>Properties\<close>

text \<open>
  C33: a statement run under the guard gives its connection back. When the call comes back at
  all, by returning or by throwing, the pool holds as many connections as it held when the
  wait for one ended; and when the wait timed out the only effect is the exception.
\<close>

theorem with_connection_no_leak:
  assumes "with_connection Check opts t1 t2 waits body (p, w) = Some (r, p', w')"
  shows "length (pool p') = length (pool_seen waits p) \<and>
    (r = Inl (InstinctException ''Cannot acquire connection from connection pool'') \<and> w' = w \<or>
     (\<exists>c. body c w = (r, w')))"
proof -
  obtain ra pa where a: "Acquire Check opts t1 waits p = Some (ra, pa)"
    using assms by (auto simp: with_connection_def split: option.splits)
  from a show ?thesis
    by (cases rule: Acquire_cases) (use assms a in \<open>auto simp: with_connection_def split: prod.splits\<close>)
qed

theorem with_connection_no_leak_witness:
  "\<exists>r p' w'. with_connection DuckDB_Check \<lparr>initial_connection_count = 2, max_idle_duration = 60\<rparr> 0 1 []
       (\<lambda>c w. (Inl OutOfRange :: unit result, w + 1 :: nat))
       (Initialize \<lparr>initial_connection_count = 2, max_idle_duration = 60\<rparr> 0 \<lparr>pool = [], created = 0\<rparr>, 0)
     = Some (r, p', w') \<and> length (pool p') = 2 \<and> r = Inl OutOfRange \<and> w' = 1"
proof -
  let ?o = "\<lparr>initial_connection_count = 2, max_idle_duration = 60\<rparr>"
  let ?p = "Initialize ?o 0 \<lparr>pool = [], created = 0\<rparr>"
  have p: "?p = \<lparr>pool = [\<lparr>conn_id = 0, last_active_time_point = 0\<rparr>, \<lparr>conn_id = 1, last_active_time_point = 0\<rparr>],
      created = 2\<rparr>"
    by (simp add: Initialize_def Initialize_loop.simps Create_def)
  obtain p' where run: "with_connection DuckDB_Check ?o 0 1 [] (\<lambda>c w. (Inl OutOfRange :: unit result, w + 1 :: nat)) (?p, 0)
      = Some (Inl OutOfRange, p', 1)"
    by (simp add: p with_connection_def Acquire_def TryAcquire_def DuckDB_Check_def Let_def)
  from with_connection_no_leak [OF run] have "length (pool p') = 2"
    by (simp add: p pool_seen_def)
  with run show ?thesis by blast
qed

text \<open>
  the idle check of \<open>TryAcquire\<close> subtracts the current time from the last activity, so
  for a healthy connection that was last active now or earlier the difference is never
  positive: the connection is handed out again however long it was idle, and
  \<open>max_idle_duration\<close> never has an effect.
\<close>

theorem TryAcquire_ignores_idle_time:
  assumes "pool p = c # cs" and "Check c" and "last_active_time_point c \<le> now" and "0 < max_idle_duration opts"
  shows "TryAcquire Check opts now waits p = Some (Some (UpdateActiveTime now c), p\<lparr>pool := cs\<rparr>)"
  using assms by (simp add: TryAcquire_def Let_def)

theorem TryAcquire_ignores_idle_time_witness:
  "TryAcquire DuckDB_Check \<lparr>initial_connection_count = 1, max_idle_duration = 3600\<rparr> 1000000 []
     \<lparr>pool = [\<lparr>conn_id = 0, last_active_time_point = 0\<rparr>], created = 1\<rparr> =
   Some (Some \<lparr>conn_id = 0, last_active_time_point = 1000000\<rparr>, \<lparr>pool = [], created = 1\<rparr>)"
  using TryAcquire_ignores_idle_time [of "\<lparr>pool = [\<lparr>conn_id = 0, last_active_time_point = 0\<rparr>], created = 1\<rparr>"
      "\<lparr>conn_id = 0, last_active_time_point = 0\<rparr>" "[]" DuckDB_Check 1000000
      "\<lparr>initial_connection_count = 1, max_idle_duration = 3600\<rparr>" "[]"]
  by (simp add: DuckDB_Check_def UpdateActiveTime_def)

end
