(* ===== verification/Text_Splitter.thy ===== *)
theory Text_Splitter
  imports Document_Utils
begin

text \<open>
  \<^verbatim>\<open>instinct-llm/include/document/\<close>: \<^verbatim>\<open>TextSplitter.hpp\<close>,
  \<^verbatim>\<open>BaseTextSplitter.hpp\<close>, \<^verbatim>\<open>CharacterTextSplitter.hpp\<close>,
  \<^verbatim>\<open>RecursiveCharacterTextSplitter.hpp\<close>, with \<^verbatim>\<open>U32StringUtils::SplitWithRegex\<close>
  and \<^verbatim>\<open>escape_for_regular_expression\<close>.

  An ICU \<open>UnicodeString\<close> is the list of its code points. ICU itself is outside the
  repository and a parameter of the splitter: \<open>icu_split pattern text n\<close> is
  \<open>RegexMatcher::split\<close> (at most \<open>n\<close> fields), \<open>icu_graphemes\<close> the pieces of the
  character break iterator, \<open>icu_trim\<close> is \<open>UnicodeString::trim\<close>, and \<open>fromUTF8\<close> and
  \<open>toUTF8String\<close> are its conversions.

  \<open>size_t\<close> sums of lengths of strings in memory stay far below \<open>2 ^ 64\<close>; the one
  subtraction the code does is written with its wrap-around, and the \<open>int\<close> options are
  converted to \<open>size_t\<close> where they are compared with one. The recursion of
  \<open>SplitText_\<close> does not always end and has fuel: \<open>None\<close> is "out of fuel".
\<close>

type_synonym ustring = "nat list"

definition u :: "string \<Rightarrow> ustring" where
  "u s = map of_char s"

section \<open>Options\<close>

record BaseTextSplitter =
  chunk_size :: int
  chunk_overlap :: int
  keep_separator :: bool
  strip_whitespace :: bool
  GetLength :: "ustring \<Rightarrow> nat"
  icu_split :: "ustring \<Rightarrow> ustring \<Rightarrow> nat \<Rightarrow> ustring list"
  icu_graphemes :: "ustring \<Rightarrow> ustring list"
  icu_trim :: "ustring \<Rightarrow> ustring"
  fromUTF8 :: "string \<Rightarrow> ustring"
  toUTF8String :: "ustring \<Rightarrow> string"

definition StringLengthCalculator :: "ustring \<Rightarrow> nat" where
  "StringLengthCalculator s = length s"

definition DEFAULT_SEPARATOR_FOR_TEXT_SPLITTER :: "ustring list" where
  "DEFAULT_SEPARATOR_FOR_TEXT_SPLITTER = [[10, 10], [10], u '' '', []]"

definition size_t_of_int :: "int \<Rightarrow> nat" where
  "size_t_of_int x = nat (x mod 2 ^ 64)"

definition size_t_sub :: "nat \<Rightarrow> nat \<Rightarrow> nat" where
  "size_t_sub a b = (if b \<le> a then a - b else a + 2 ^ 64 - b)"

section \<open>Splitting by a separator\<close>

definition regex_special :: "ustring" where
  "regex_special = u [CHR 0x5C, CHR ''.'', CHR ''^'', CHR ''$'', CHR ''-'', CHR ''+'', CHR ''('', CHR '')'',
     CHR ''['', CHR '']'', CHR ''{'', CHR ''}'', CHR ''|'', CHR ''?'', CHR ''*'']"

definition escape_for_regular_expression :: "ustring \<Rightarrow> ustring" where
  "escape_for_regular_expression s = concat (map (\<lambda>c. if c \<in> set regex_special then [92, c] else [c]) s)"

partial_function (option) SplitWithRegex_loop :: "(ustring \<Rightarrow> ustring \<Rightarrow> nat \<Rightarrow> ustring list) \<Rightarrow> ustring \<Rightarrow>
    ustring \<Rightarrow> ustring list \<Rightarrow> ustring list option" where
  "SplitWithRegex_loop split seperator text result =
     (if split seperator text 19 = [] then Some result
      else if length (split seperator text 19) = 19
      then SplitWithRegex_loop split seperator (last (split seperator text 19))
             (result @ butlast (split seperator text 19))
      else Some ((result @ butlast (split seperator text 19)) @ [last (split seperator text 19)]))"

declare SplitWithRegex_loop.simps [code]

definition SplitWithRegex :: "(ustring \<Rightarrow> ustring \<Rightarrow> nat \<Rightarrow> ustring list) \<Rightarrow> ustring \<Rightarrow> ustring \<Rightarrow> ustring list option" where
  "SplitWithRegex split text seperator = SplitWithRegex_loop split seperator text []"

text \<open>
  The pair-wise merge of a separator with the field behind it: \<open>splits[i] + splits[i+1]\<close> for
  \<open>i = 1, 3, \<dots>\<close>. With an even number of entries the last step reads past the end.
\<close>

fun merge_pairs :: "ustring list \<Rightarrow> ustring list result" where
  "merge_pairs [] = Inr []"
| "merge_pairs [sep] = Inl UndefinedBehaviour"
| "merge_pairs (sep # field # rest) = bindR (merge_pairs rest) (\<lambda>r. Inr ((sep @ field) # r))"

definition split_text_with_seperator :: "BaseTextSplitter \<Rightarrow> ustring \<Rightarrow> ustring \<Rightarrow> bool \<Rightarrow>
    ustring list result option" where
  "split_text_with_seperator c text seperator keep =
     map_option (\<lambda>r. bindR r (\<lambda>result. Inr (filter (\<lambda>v. v \<noteq> []) result)))
       (if seperator \<noteq> [] then
          (if keep then
             map_option (\<lambda>splits. case splits of
                 [] \<Rightarrow> Inl UndefinedBehaviour
               | s0 # rest \<Rightarrow> bindR (merge_pairs rest) (\<lambda>r. Inr (s0 # r)))
               (SplitWithRegex (icu_split c) text (u ''('' @ seperator @ u '')''))
           else map_option Inr (SplitWithRegex (icu_split c) text seperator))
        else Some (Inr (icu_graphemes c text)))"

section \<open>MergeSplits_\<close>

fun JoinDocs_loop :: "ustring \<Rightarrow> ustring list \<Rightarrow> ustring" where
  "JoinDocs_loop separator [] = []"
| "JoinDocs_loop separator [d] = d"
| "JoinDocs_loop separator (d # ds) = d @ separator @ JoinDocs_loop separator ds"

definition JoinDocs :: "BaseTextSplitter \<Rightarrow> ustring list \<Rightarrow> ustring \<Rightarrow> ustring" where
  "JoinDocs c docs separator =
     (let text = JoinDocs_loop separator docs
      in if strip_whitespace c then icu_trim c text else text)"

text \<open>
  The inner \<open>while\<close>: drop entries from the front until what is left fits the overlap.
  \<open>front()\<close> of an empty vector is undefined.
\<close>

function drop_front :: "BaseTextSplitter \<Rightarrow> nat \<Rightarrow> nat \<Rightarrow> ustring list \<Rightarrow> nat \<Rightarrow> (ustring list \<times> nat) result" where
  "drop_front c s_len d_len current_doc tot =
     (if tot > size_t_of_int (chunk_overlap c) \<or>
         (tot + d_len + (if current_doc = [] then s_len else 0) > size_t_of_int (chunk_size c) \<and> tot > 0)
      then (case current_doc of
              [] \<Rightarrow> Inl UndefinedBehaviour
            | d # ds \<Rightarrow>
                drop_front c s_len d_len ds
                  (size_t_sub tot (GetLength c d + (if length current_doc > 1 then s_len else 0))))
      else Inr (current_doc, tot))"
  by pat_completeness auto
termination by (relation "measure (\<lambda>(c, s_len, d_len, current_doc, tot). length current_doc)") auto

declare drop_front.simps [simp del]

definition merge_one :: "BaseTextSplitter \<Rightarrow> ustring \<Rightarrow> ustring \<Rightarrow> ustring list \<times> ustring list \<times> nat \<Rightarrow>
    (ustring list \<times> ustring list \<times> nat) result" where
  "merge_one c separator s st =
     (case st of (docs, current_doc, tot) \<Rightarrow>
      let s_len = GetLength c separator; d_len = GetLength c s in
      bindR
        (if tot + d_len + (if current_doc = [] then 0 else s_len) > size_t_of_int (chunk_size c)
            \<and> current_doc \<noteq> []
         then (let doc = JoinDocs c current_doc separator;
                   docs = (if doc \<noteq> [] then docs @ [doc] else docs)
               in bindR (drop_front c s_len d_len current_doc tot)
                    (\<lambda>(current_doc, tot). Inr (docs, current_doc, tot)))
         else Inr (docs, current_doc, tot))
        (\<lambda>(docs, current_doc, tot).
           let current_doc = current_doc @ [s]
           in Inr (docs, current_doc, tot + d_len + (if length current_doc > 1 then s_len else 0))))"

fun merge_loop :: "BaseTextSplitter \<Rightarrow> ustring \<Rightarrow> ustring list \<Rightarrow> ustring list \<times> ustring list \<times> nat \<Rightarrow>
    (ustring list \<times> ustring list \<times> nat) result" where
  "merge_loop c separator [] st = Inr st"
| "merge_loop c separator (s # splits) st = bindR (merge_one c separator s st) (merge_loop c separator splits)"

definition MergeSplits :: "BaseTextSplitter \<Rightarrow> ustring list \<Rightarrow> ustring \<Rightarrow> ustring list \<Rightarrow> ustring list result" where
  "MergeSplits c splits separator docs =
     bindR (merge_loop c separator splits (docs, [], 0)) (\<lambda>(docs, current_doc, tot).
       let rest = JoinDocs c current_doc separator
       in Inr (if rest \<noteq> [] then docs @ [rest] else docs))"

section \<open>The splitters\<close>

definition CharacterTextSplitter_SplitText :: "BaseTextSplitter \<Rightarrow> ustring \<Rightarrow> ustring \<Rightarrow>
    ustring list result option" where
  "CharacterTextSplitter_SplitText c separator text =
     (let sep = escape_for_regular_expression separator in
      map_option (\<lambda>r. bindR r (\<lambda>splits. MergeSplits c splits sep []))
        (split_text_with_seperator c text sep (keep_separator c)))"

text \<open>\<open>text.indexOf(sep) != -1\<close>\<close>

fun contains_sub :: "ustring \<Rightarrow> ustring \<Rightarrow> bool" where
  "contains_sub sep [] = (sep = [])"
| "contains_sub sep (x # xs) = (take (length sep) (x # xs) = sep \<or> contains_sub sep xs)"

text \<open>
  The search for a separator: the chosen one, escaped, and the separators that remain. The
  list is the caller's own vector, passed by reference, so later calls see it shortened.
\<close>

fun choose_separator :: "ustring \<Rightarrow> ustring \<Rightarrow> ustring list \<Rightarrow> ustring list \<Rightarrow> ustring \<times> ustring list" where
  "choose_separator text fallback tried [] = (fallback, tried)"
| "choose_separator text fallback tried (sep # seps) =
     (if sep = [] then ([], [])
      else if contains_sub sep text then (escape_for_regular_expression sep, tried @ seps)
      else choose_separator text fallback (tried @ [sep]) seps)"

function (sequential)
  SplitText_rec :: "BaseTextSplitter \<Rightarrow> nat \<Rightarrow> ustring \<Rightarrow> ustring list \<Rightarrow> ustring list \<Rightarrow>
    (ustring list \<times> ustring list) result option" and
  SplitText_loop :: "BaseTextSplitter \<Rightarrow> nat \<Rightarrow> ustring list \<Rightarrow> ustring \<Rightarrow> ustring list \<Rightarrow> ustring list \<Rightarrow>
    ustring list \<Rightarrow> (ustring list \<times> ustring list) result option" where
  "SplitText_rec c 0 text separators final_chunks = None"
| "SplitText_rec c (Suc fuel) text separators final_chunks =
     (if separators = [] then Some (Inl UndefinedBehaviour)
      else (case choose_separator text (escape_for_regular_expression (last separators)) [] separators of
        (separator, separators) \<Rightarrow>
          (case split_text_with_seperator c text separator (keep_separator c) of
             None \<Rightarrow> None
           | Some (Inl e) \<Rightarrow> Some (Inl e)
           | Some (Inr splits) \<Rightarrow>
               SplitText_loop c fuel splits (if keep_separator c then [] else separator) separators []
                 final_chunks)))"
| "SplitText_loop c fuel [] merging separators good final_chunks =
     Some (if good \<noteq> []
           then bindR (MergeSplits c good merging final_chunks) (\<lambda>fc. Inr (separators, fc))
           else Inr (separators, final_chunks))"
| "SplitText_loop c fuel (s # splits) merging separators good final_chunks =
     (if GetLength c s < size_t_of_int (chunk_size c)
      then SplitText_loop c fuel splits merging separators (good @ [s]) final_chunks
      else (case (if good \<noteq> [] then MergeSplits c good merging final_chunks else Inr final_chunks) of
              Inl e \<Rightarrow> Some (Inl e)
            | Inr fc \<Rightarrow>
                if separators = []
                then SplitText_loop c fuel splits merging separators [] (fc @ [s])
                else (case SplitText_rec c fuel s separators fc of
                        None \<Rightarrow> None
                      | Some (Inl e) \<Rightarrow> Some (Inl e)
                      | Some (Inr (separators, fc)) \<Rightarrow>
                          SplitText_loop c fuel splits merging separators [] fc)))"
  by pat_completeness auto
termination
  by (relation "measures [\<lambda>x. case x of Inl (_, fuel, _) \<Rightarrow> fuel | Inr (_, fuel, _) \<Rightarrow> fuel,
       \<lambda>x. case x of Inl _ \<Rightarrow> 0 | Inr (_, _, splits, _) \<Rightarrow> Suc (length splits)]") auto

definition RecursiveCharacterTextSplitter_SplitText :: "BaseTextSplitter \<Rightarrow> nat \<Rightarrow> ustring list \<Rightarrow> ustring \<Rightarrow>
    ustring list result option" where
  "RecursiveCharacterTextSplitter_SplitText c fuel separators text =
     map_option (\<lambda>r. bindR r (\<lambda>(_, result). Inr result)) (SplitText_rec c fuel text separators [])"

section \<open>Documents\<close>

definition chunk_document :: "BaseTextSplitter \<Rightarrow> Document \<Rightarrow> ustring \<Rightarrow> Document" where
  "chunk_document c doc chunk =
     (let t = toUTF8String c chunk;
          start = to_int32 (find_pos t (doc_text doc) 0)
      in \<lparr>doc_id = [], doc_text = t,
          metadata = (metadata doc @ [int_field METADATA_SCHEMA_CHUNK_START_INDEX_KEY start]) @
            [int_field METADATA_SCHEMA_CHUNK_END_INDEX_KEY (to_int32 (start + int (length t)))]\<rparr>)"

definition SplitDocument :: "BaseTextSplitter \<Rightarrow> (ustring \<Rightarrow> ustring list result option) \<Rightarrow> Document \<Rightarrow>
    Document list result option" where
  "SplitDocument c SplitText doc =
     map_option (\<lambda>r. bindR r (\<lambda>chunks. Inr (map (chunk_document c doc) chunks)))
       (SplitText (fromUTF8 c (doc_text doc)))"

section \<open>Lengths and merging\<close>

lemma size_t_of_int_nat: "0 \<le> x \<Longrightarrow> x < 2 ^ 63 \<Longrightarrow> size_t_of_int x = nat x"
  by (simp add: size_t_of_int_def)

lemma size_t_sub_add: "size_t_sub (a + b) a = b"
  by (simp add: size_t_sub_def)

lemma JoinDocs_loop_Cons: "JoinDocs_loop sep (d # ds) = (if ds = [] then d else d @ sep @ JoinDocs_loop sep ds)"
  by (cases ds) simp_all

lemma JoinDocs_loop_snoc: "JoinDocs_loop sep (ds @ [d]) = (if ds = [] then d else JoinDocs_loop sep ds @ sep @ d)"
  by (induction ds) (auto simp: JoinDocs_loop_Cons)

lemma JoinDocs_loop_empty_separator: "JoinDocs_loop [] ds = concat ds"
  by (induction ds) (auto simp: JoinDocs_loop_Cons)

text \<open>
  What merging needs of a length: it adds up over a concatenation and only the empty string
  has length 0.
\<close>

locale length_calculator =
  fixes len :: "ustring \<Rightarrow> nat"
  assumes len_append: "len (a @ b) = len a + len b"
    and len_pos: "s \<noteq> [] \<Longrightarrow> 0 < len s"
begin

lemma len_Nil: "len [] = 0"
  using len_append [of "[]" "[]"] by simp

lemma len_zero_iff: "len s = 0 \<longleftrightarrow> s = []"
  using len_pos [of s] len_Nil by (cases "s = []") auto

lemma len_JoinDocs_snoc: "len (JoinDocs_loop sep (ds @ [d])) =
    len (JoinDocs_loop sep ds) + len d + (if ds = [] then 0 else len sep)"
  by (simp add: JoinDocs_loop_snoc len_append len_Nil)

lemma drop_front_ok:
  assumes "GetLength c = len"
  shows "\<exists>pre cur'. cur = pre @ cur' \<and>
    drop_front c (len sep) d_len cur (len (JoinDocs_loop sep cur)) = Inr (cur', len (JoinDocs_loop sep cur')) \<and>
    len (JoinDocs_loop sep cur') \<le> size_t_of_int (chunk_overlap c) \<and>
    (len (JoinDocs_loop sep cur') = 0 \<or>
     len (JoinDocs_loop sep cur') + d_len + (if cur' = [] then len sep else 0) \<le> size_t_of_int (chunk_size c))"
proof (induction cur)
  case Nil
  show ?case by (subst drop_front.simps) (simp add: len_Nil)
next
  case (Cons d ds)
  let ?go = "size_t_of_int (chunk_overlap c) < len (JoinDocs_loop sep (d # ds)) \<or>
     size_t_of_int (chunk_size c) < len (JoinDocs_loop sep (d # ds)) + d_len \<and> 0 < len (JoinDocs_loop sep (d # ds))"
  show ?case
  proof (cases ?go)
    case False
    then show ?thesis
      by (intro exI [of _ "[]"] exI [of _ "d # ds"], subst drop_front.simps) auto
  next
    case True
    have "size_t_sub (len (JoinDocs_loop sep (d # ds))) (len d + (if 1 < length (d # ds) then len sep else 0))
        = len (JoinDocs_loop sep ds)"
      by (cases ds) (simp_all only: JoinDocs_loop_Cons len_append size_t_sub_def, simp_all add: len_Nil len_append)
    with True assms have step: "drop_front c (len sep) d_len (d # ds) (len (JoinDocs_loop sep (d # ds))) =
        drop_front c (len sep) d_len ds (len (JoinDocs_loop sep ds))"
      by (subst drop_front.simps) simp
    from Cons obtain pre cur' where "ds = pre @ cur'" and
      "drop_front c (len sep) d_len ds (len (JoinDocs_loop sep ds)) = Inr (cur', len (JoinDocs_loop sep cur'))" and
      "len (JoinDocs_loop sep cur') \<le> size_t_of_int (chunk_overlap c)" and
      "len (JoinDocs_loop sep cur') = 0 \<or>
       len (JoinDocs_loop sep cur') + d_len + (if cur' = [] then len sep else 0) \<le> size_t_of_int (chunk_size c)"
      by blast
    with step show ?thesis by (intro exI [of _ "d # pre"] exI [of _ cur']) simp
  qed
qed

lemma merge_one_cases [consumes 1, case_names grow flush]:
  assumes "GetLength c = len"
  obtains (grow) "merge_one c sep s (docs, cur, len (JoinDocs_loop sep cur)) =
        Inr (docs, cur @ [s], len (JoinDocs_loop sep (cur @ [s])))"
      and "cur = [] \<or> len (JoinDocs_loop sep (cur @ [s])) \<le> size_t_of_int (chunk_size c)"
    | (flush) pre cur' where "cur \<noteq> []" and "cur = pre @ cur'"
      and "merge_one c sep s (docs, cur, len (JoinDocs_loop sep cur)) =
        Inr (if JoinDocs c cur sep \<noteq> [] then docs @ [JoinDocs c cur sep] else docs,
             cur' @ [s], len (JoinDocs_loop sep (cur' @ [s])))"
      and "len (JoinDocs_loop sep cur') \<le> size_t_of_int (chunk_overlap c)"
      and "len (JoinDocs_loop sep cur') = 0 \<or>
        len (JoinDocs_loop sep cur') + len s + (if cur' = [] then len sep else 0) \<le> size_t_of_int (chunk_size c)"
proof (cases "len (JoinDocs_loop sep cur) + len s + (if cur = [] then 0 else len sep) > size_t_of_int (chunk_size c)
    \<and> cur \<noteq> []")
  case False
  have "merge_one c sep s (docs, cur, len (JoinDocs_loop sep cur)) =
      Inr (docs, cur @ [s], len (JoinDocs_loop sep (cur @ [s])))"
    unfolding merge_one_def prod.case Let_def assms if_not_P [OF False] bindR_def sum.case
    by (simp add: len_JoinDocs_snoc)
  moreover have "cur = [] \<or> len (JoinDocs_loop sep (cur @ [s])) \<le> size_t_of_int (chunk_size c)"
    using False by (cases "cur = []") (simp_all only: len_JoinDocs_snoc if_False if_True simp_thms not_less)
  ultimately show thesis by (rule grow)
next
  case True
  obtain pre cur' where d: "cur = pre @ cur'"
    "drop_front c (len sep) (len s) cur (len (JoinDocs_loop sep cur)) = Inr (cur', len (JoinDocs_loop sep cur'))"
    "len (JoinDocs_loop sep cur') \<le> size_t_of_int (chunk_overlap c)"
    "len (JoinDocs_loop sep cur') = 0 \<or>
     len (JoinDocs_loop sep cur') + len s + (if cur' = [] then len sep else 0) \<le> size_t_of_int (chunk_size c)"
    using drop_front_ok [OF assms, of cur sep "len s"] by blast
  have "merge_one c sep s (docs, cur, len (JoinDocs_loop sep cur)) =
      Inr (if JoinDocs c cur sep \<noteq> [] then docs @ [JoinDocs c cur sep] else docs,
           cur' @ [s], len (JoinDocs_loop sep (cur' @ [s])))"
    unfolding merge_one_def prod.case Let_def assms if_P [OF True] bindR_def sum.case d(2)
    by (simp add: len_JoinDocs_snoc)
  from flush [OF conjunct2 [OF True] d(1) this d(3,4)] show thesis .
qed

text \<open>A bound on every chunk: one separator more than \<open>chunk_size\<close>.\<close>

definition fits :: "BaseTextSplitter \<Rightarrow> ustring \<Rightarrow> ustring list \<Rightarrow> bool" where
  "fits c sep ds \<longleftrightarrow> len (JoinDocs_loop sep ds) \<le> size_t_of_int (chunk_size c) + len sep"

lemma merge_loop_bound:
  assumes c: "GetLength c = len" and trim: "\<And>t. strip_whitespace c \<Longrightarrow> len (icu_trim c t) \<le> len t"
    and "\<forall>s \<in> set splits. len s \<le> size_t_of_int (chunk_size c)" and "fits c sep cur"
  shows "\<exists>docs' cur'. merge_loop c sep splits (docs, cur, len (JoinDocs_loop sep cur)) =
      Inr (docs @ docs', cur', len (JoinDocs_loop sep cur')) \<and> fits c sep cur' \<and>
      (\<forall>d \<in> set docs'. d \<noteq> [] \<and> len d \<le> size_t_of_int (chunk_size c) + len sep)"
  using assms(3,4)
proof (induction splits arbitrary: docs cur)
  case Nil
  then show ?case by (intro exI [of _ "[]"] exI [of _ cur]) simp
next
  case (Cons s splits)
  then have s: "len s \<le> size_t_of_int (chunk_size c)" by simp
  have joined: "len (JoinDocs c cur sep) \<le> size_t_of_int (chunk_size c) + len sep"
    using trim [of "JoinDocs_loop sep cur"] Cons.prems(2)
    by (cases "strip_whitespace c") (simp_all add: JoinDocs_def fits_def Let_def)
  from c show ?case
  proof (cases rule: merge_one_cases [where sep = sep and s = s and docs = docs and cur = cur])
    case grow
    then have "fits c sep (cur @ [s])" using s unfolding fits_def by (cases "cur = []") simp_all
    with Cons grow(1) show ?thesis by (simp add: bindR_def)
  next
    case (flush pre cur')
    have "fits c sep (cur' @ [s])"
      using flush(5) s unfolding fits_def len_JoinDocs_snoc by (elim disjE) (simp_all split: if_splits)
    from Cons.IH [OF _ this, of "if JoinDocs c cur sep \<noteq> [] then docs @ [JoinDocs c cur sep] else docs"] Cons.prems(1)
    obtain docs' cur'' where "merge_loop c sep splits
          (if JoinDocs c cur sep \<noteq> [] then docs @ [JoinDocs c cur sep] else docs, cur' @ [s],
           len (JoinDocs_loop sep (cur' @ [s]))) =
        Inr ((if JoinDocs c cur sep \<noteq> [] then docs @ [JoinDocs c cur sep] else docs) @ docs', cur'',
           len (JoinDocs_loop sep cur''))" and "fits c sep cur''"
      and "\<forall>d \<in> set docs'. d \<noteq> [] \<and> len d \<le> size_t_of_int (chunk_size c) + len sep" by auto
    with flush(3) joined show ?thesis
      by (intro exI [of _ "(if JoinDocs c cur sep \<noteq> [] then [JoinDocs c cur sep] else []) @ docs'"] exI [of _ cur''])
        (auto simp: bindR_def)
  qed
qed

lemma MergeSplits_bound:
  assumes c: "GetLength c = len" and trim: "\<And>t. strip_whitespace c \<Longrightarrow> len (icu_trim c t) \<le> len t"
    and "\<forall>s \<in> set splits. len s \<le> size_t_of_int (chunk_size c)"
  shows "\<exists>docs'. MergeSplits c splits sep docs = Inr (docs @ docs') \<and>
    (\<forall>d \<in> set docs'. d \<noteq> [] \<and> len d \<le> size_t_of_int (chunk_size c) + len sep)"
proof -
  have "fits c sep []" by (simp add: fits_def len_Nil)
  from merge_loop_bound [OF assms this, of docs] obtain docs' cur where
    m: "merge_loop c sep splits (docs, [], 0) = Inr (docs @ docs', cur, len (JoinDocs_loop sep cur))"
    "fits c sep cur" "\<forall>d \<in> set docs'. d \<noteq> [] \<and> len d \<le> size_t_of_int (chunk_size c) + len sep"
    by (auto simp: len_Nil)
  have "len (JoinDocs c cur sep) \<le> size_t_of_int (chunk_size c) + len sep"
    using trim [of "JoinDocs_loop sep cur"] m(2)
    by (cases "strip_whitespace c") (simp_all add: JoinDocs_def fits_def Let_def)
  with m(1,3) show ?thesis
    by (intro exI [of _ "docs' @ (if JoinDocs c cur sep \<noteq> [] then [JoinDocs c cur sep] else [])"])
      (auto simp: MergeSplits_def bindR_def Let_def)
qed

text \<open>Without overlap, separator and stripping nothing is lost or repeated.\<close>

lemma merge_loop_lossless:
  assumes c: "GetLength c = len" and "\<not> strip_whitespace c" and "chunk_overlap c = 0"
    and "[] \<notin> set splits" and "[] \<notin> set cur"
  shows "\<exists>docs' cur'. merge_loop c [] splits (docs, cur, len (concat cur)) = Inr (docs @ docs', cur', len (concat cur')) \<and>
      concat docs' @ concat cur' = concat cur @ concat splits"
  using assms(4,5)
proof (induction splits arbitrary: docs cur)
  case Nil
  then show ?case by simp
next
  case (Cons s splits)
  from c show ?case
  proof (cases rule: merge_one_cases [where sep = "[]" and s = s and docs = docs and cur = cur])
    case grow
    with Cons.IH [of "cur @ [s]" docs] Cons.prems show ?thesis
      by (simp add: bindR_def JoinDocs_loop_empty_separator)
  next
    case (flush pre cur')
    from flush(4) assms(3) have "concat cur' = []"
      by (simp add: size_t_of_int_def JoinDocs_loop_empty_separator len_zero_iff)
    with flush(2) Cons.prems(2) have "cur' = []" by (cases cur') auto
    have ne: "JoinDocs c cur [] = concat cur"
      using assms(2) by (simp add: JoinDocs_def JoinDocs_loop_empty_separator)
    have "hd cur \<noteq> []" using flush(1) Cons.prems(2) hd_in_set by metis
    with flush(1) have ne': "concat cur \<noteq> []" by (cases cur) simp_all
    from Cons.IH [of "[s]" "docs @ [concat cur]"] Cons.prems(1) obtain docs' cur'' where
      "merge_loop c [] splits (docs @ [concat cur], [s], len s) =
        Inr ((docs @ [concat cur]) @ docs', cur'', len (concat cur''))"
      "concat docs' @ concat cur'' = s @ concat splits" by auto
    moreover from flush(3) ne ne' \<open>cur' = []\<close> have "merge_loop c [] (s # splits) (docs, cur, len (concat cur)) =
        merge_loop c [] splits (docs @ [concat cur], [s], len s)"
      by (simp add: bindR_def JoinDocs_loop_empty_separator del: concat_eq_Nil_conv)
    ultimately show ?thesis by (intro exI [of _ "concat cur # docs'"] exI [of _ cur'']) simp
  qed
qed

lemma MergeSplits_lossless:
  assumes "GetLength c = len" and "\<not> strip_whitespace c" and "chunk_overlap c = 0" and "[] \<notin> set splits"
  shows "\<exists>docs'. MergeSplits c splits [] docs = Inr (docs @ docs') \<and> concat docs' = concat splits"
proof -
  from merge_loop_lossless [OF assms, of "[]" docs] obtain docs' cur where
    m: "merge_loop c [] splits (docs, [], 0) = Inr (docs @ docs', cur, len (concat cur))"
    "concat docs' @ concat cur = concat splits" by (auto simp: len_Nil)
  then show ?thesis
  proof (cases "concat cur = []")
    case True
    with m show ?thesis using assms(2)
      by (intro exI [of _ docs']) (simp only: MergeSplits_def bindR_def Let_def JoinDocs_def
          JoinDocs_loop_empty_separator sum.case prod.case if_False simp_thms append_Nil2)
  next
    case False
    with m show ?thesis using assms(2)
      by (intro exI [of _ "docs' @ [concat cur]"]) (simp add: MergeSplits_def bindR_def Let_def JoinDocs_def
          JoinDocs_loop_empty_separator del: concat_eq_Nil_conv)
  qed
qed

end

interpretation code_points: length_calculator StringLengthCalculator
  by unfold_locales (auto simp: StringLengthCalculator_def)

end
