(* ===== verification/Language_Splitters.thy ===== *)
theory Language_Splitters
  imports Text_Splitter
begin

text \<open>
  \<^verbatim>\<open>instinct-llm/include/document/LanguageSplitters.hpp\<close>: the separators for each language, from
  the coarsest to the finest, and \<open>SEPERATORS_FOR_LANGUAGE\<close> as a partial map.
\<close>

datatype Language = UNKNOWN | CPP | GO | JAVA | KOTLIN | JS | TS | PHP | PROTO | PYTHON | RST | RUBY | RUST | SCALA | SWIFT | MARKDOWN | LATEX | HTML | CSHARP | SOL | COBOL

definition CPP_SEPERATORS :: "ustring list" where
  "CPP_SEPERATORS = [
     [10] @ u ''class '', [10] @ u ''void '', [10] @ u ''int '', [10] @ u ''float '',
     [10] @ u ''double '', [10] @ u ''if '', [10] @ u ''for '', [10] @ u ''while '',
     [10] @ u ''switch '', [10] @ u ''case '', [10] @ [10], [10], u '' '', []]"

definition GO_SEPERATORS :: "ustring list" where
  "GO_SEPERATORS = [
     [10] @ u ''func '', [10] @ u ''var '', [10] @ u ''const '', [10] @ u ''type '',
     [10] @ u ''if '', [10] @ u ''for '', [10] @ u ''switch '', [10] @ u ''case '', [10] @ [10],
     [10], u '' '', []]"

definition JAVA_SEPERATORS :: "ustring list" where
  "JAVA_SEPERATORS = [
     [10] @ u ''class '', [10] @ u ''public '', [10] @ u ''protected '', [10] @ u ''private '',
     [10] @ u ''static '', [10] @ u ''if '', [10] @ u ''for '', [10] @ u ''while '',
     [10] @ u ''switch '', [10] @ u ''case '', [10] @ [10], [10], u '' '', []]"

definition KOTLIN_SEPERATORS :: "ustring list" where
  "KOTLIN_SEPERATORS = [
     [10] @ u ''class '', [10] @ u ''public '', [10] @ u ''protected '', [10] @ u ''private '',
     [10] @ u ''internal '', [10] @ u ''companion '', [10] @ u ''fun '', [10] @ u ''val '',
     [10] @ u ''var '', [10] @ u ''if '', [10] @ u ''for '', [10] @ u ''while '',
     [10] @ u ''when '', [10] @ u ''case '', [10] @ u ''else '', [10] @ [10], [10], u '' '', []]"

definition JS_SEPERATORS :: "ustring list" where
  "JS_SEPERATORS = [
     [10] @ u ''function '', [10] @ u ''const '', [10] @ u ''let '', [10] @ u ''var '',
     [10] @ u ''class '', [10] @ u ''if '', [10] @ u ''for '', [10] @ u ''while '',
     [10] @ u ''switch '', [10] @ u ''case '', [10] @ u ''default '', [10] @ [10], [10],
     u '' '', []]"

definition TS_SEPERATORS :: "ustring list" where
  "TS_SEPERATORS = [
     [10] @ u ''enum '', [10] @ u ''interface '', [10] @ u ''namespace '', [10] @ u ''type '',
     [10] @ u ''class '', [10] @ u ''function '', [10] @ u ''const '', [10] @ u ''let '',
     [10] @ u ''var '', [10] @ u ''if '', [10] @ u ''for '', [10] @ u ''while '',
     [10] @ u ''switch '', [10] @ u ''case '', [10] @ u ''default '', [10] @ [10], [10],
     u '' '', []]"

definition PHP_SEPERATORS :: "ustring list" where
  "PHP_SEPERATORS = [
     [10] @ u ''function '', [10] @ u ''class '', [10] @ u ''if '', [10] @ u ''foreach '',
     [10] @ u ''while '', [10] @ u ''do '', [10] @ u ''switch '', [10] @ u ''case '',
     [10] @ [10], [10], u '' '', []]"

definition PROTO_SEPERATORS :: "ustring list" where
  "PROTO_SEPERATORS = [
     [10] @ u ''message '', [10] @ u ''service '', [10] @ u ''enum '', [10] @ u ''option '',
     [10] @ u ''import '', [10] @ u ''syntax '', [10] @ [10], [10], u '' '', []]"

definition PYTHON_SEPERATORS :: "ustring list" where
  "PYTHON_SEPERATORS = [
     [10] @ u ''class '', [10] @ u ''def '', [10] @ [9] @ u ''def '', [10] @ [10], [10],
     u '' '', []]"

definition RST_SEPERATORS :: "ustring list" where
  "RST_SEPERATORS = [
     [10] @ u ''=+'' @ [10], [10] @ u ''-+'' @ [10], [10] @ [92] @ u ''*+'' @ [10],
     [10] @ [10] @ u ''.. *'' @ [10] @ [10], [10] @ [10], [10], u '' '', []]"

definition RUBY_SEPERATORS :: "ustring list" where
  "RUBY_SEPERATORS = [
     [10] @ u ''def '', [10] @ u ''class '', [10] @ u ''if '', [10] @ u ''unless '',
     [10] @ u ''while '', [10] @ u ''for '', [10] @ u ''do '', [10] @ u ''begin '',
     [10] @ u ''rescue '', [10] @ [10], [10], u '' '', []]"

definition RUST_SEPERATORS :: "ustring list" where
  "RUST_SEPERATORS = [
     [10] @ u ''fn '', [10] @ u ''const '', [10] @ u ''let '', [10] @ u ''if '',
     [10] @ u ''while '', [10] @ u ''for '', [10] @ u ''loop '', [10] @ u ''match '',
     [10] @ u ''const '', [10] @ [10], [10], u '' '', []]"

definition SCALA_SEPERATORS :: "ustring list" where
  "SCALA_SEPERATORS = [
     [10] @ u ''class '', [10] @ u ''object '', [10] @ u ''def '', [10] @ u ''val '',
     [10] @ u ''var '', [10] @ u ''if '', [10] @ u ''for '', [10] @ u ''while '',
     [10] @ u ''match '', [10] @ u ''case '', [10] @ [10], [10], u '' '', []]"

definition SWIFT_SEPERATORS :: "ustring list" where
  "SWIFT_SEPERATORS = [
     [10] @ u ''func '', [10] @ u ''class '', [10] @ u ''struct '', [10] @ u ''enum '',
     [10] @ u ''if '', [10] @ u ''for '', [10] @ u ''while '', [10] @ u ''do '',
     [10] @ u ''switch '', [10] @ u ''case '', [10] @ [10], [10], u '' '', []]"

definition MARKDOWN_SEPERATORS :: "ustring list" where
  "MARKDOWN_SEPERATORS = [
     [10] @ u ''#{1,6} '', [96] @ [96] @ [96] @ [10],
     [10] @ [92] @ u ''*'' @ [92] @ u ''*'' @ [92] @ u ''*+'' @ [10], [10] @ u ''---+'' @ [10],
     [10] @ u ''___+'' @ [10], [10] @ [10], [10], u '' '', []]"

definition LATEX_SEPERATORS :: "ustring list" where
  "LATEX_SEPERATORS = [
     [10] @ [92] @ [92] @ u ''chapter{'', [10] @ [92] @ [92] @ u ''section{'',
     [10] @ [92] @ [92] @ u ''subsection{'', [10] @ [92] @ [92] @ u ''subsubsection{'',
     [10] @ [92] @ [92] @ u ''begin{enumerate}'', [10] @ [92] @ [92] @ u ''begin{itemize}'',
     [10] @ [92] @ [92] @ u ''begin{description}'', [10] @ [92] @ [92] @ u ''begin{list}'',
     [10] @ [92] @ [92] @ u ''begin{quote}'', [10] @ [92] @ [92] @ u ''begin{quotation}'',
     [10] @ [92] @ [92] @ u ''begin{verse}'', [10] @ [92] @ [92] @ u ''begin{verbatim}'',
     [10] @ [92] @ [8] @ u ''egin{align}'', u ''$$'', u ''$'', u '' '', []]"

definition HTML_SEPERATORS :: "ustring list" where
  "HTML_SEPERATORS = [
     u ''<body'', u ''<div'', u ''<p'', u ''<br'', u ''<li'', u ''<h1'', u ''<h2'', u ''<h3'',
     u ''<h4'', u ''<h5'', u ''<h6'', u ''<span'', u ''<table'', u ''<tr'', u ''<td'',
     u ''<th'', u ''<ul'', u ''<ol'', u ''<header'', u ''<footer'', u ''<nav'', u ''<head'',
     u ''<style'', u ''<script'', u ''<meta'', u ''<title'', []]"

definition CSHARP_SEPERATORS :: "ustring list" where
  "CSHARP_SEPERATORS = [
     [10] @ u ''interface '', [10] @ u ''enum '', [10] @ u ''implements '',
     [10] @ u ''delegate '', [10] @ u ''event '', [10] @ u ''class '', [10] @ u ''abstract '',
     [10] @ u ''public '', [10] @ u ''protected '', [10] @ u ''private '', [10] @ u ''static '',
     [10] @ u ''return '', [10] @ u ''if '', [10] @ u ''continue '', [10] @ u ''for '',
     [10] @ u ''foreach '', [10] @ u ''while '', [10] @ u ''switch '', [10] @ u ''break '',
     [10] @ u ''case '', [10] @ u ''else '', [10] @ u ''try '', [10] @ u ''throw '',
     [10] @ u ''finally '', [10] @ u ''catch '', [10] @ [10], [10], u '' '', []]"

definition SOL_SEPERATORS :: "ustring list" where
  "SOL_SEPERATORS = [
     [10] @ u ''pragma '', [10] @ u ''using '', [10] @ u ''contract '', [10] @ u ''interface '',
     [10] @ u ''library '', [10] @ u ''constructor '', [10] @ u ''type '',
     [10] @ u ''function '', [10] @ u ''event '', [10] @ u ''modifier '', [10] @ u ''error '',
     [10] @ u ''struct '', [10] @ u ''enum '', [10] @ u ''if '', [10] @ u ''for '',
     [10] @ u ''while '', [10] @ u ''do while '', [10] @ u ''assembly '', [10] @ [10], [10],
     u '' '', []]"

definition COBOL_SEPERATORS :: "ustring list" where
  "COBOL_SEPERATORS = [
     [10] @ u ''IDENTIFICATION DIVISION.'', [10] @ u ''ENVIRONMENT DIVISION.'',
     [10] @ u ''DATA DIVISION.'', [10] @ u ''PROCEDURE DIVISION.'',
     [10] @ u ''WORKING-STORAGE SECTION.'', [10] @ u ''LINKAGE SECTION.'',
     [10] @ u ''FILE SECTION.'', [10] @ u ''INPUT-OUTPUT SECTION.'', [10] @ u ''OPEN '',
     [10] @ u ''CLOSE '', [10] @ u ''READ '', [10] @ u ''WRITE '', [10] @ u ''IF '',
     [10] @ u ''ELSE '', [10] @ u ''MOVE '', [10] @ u ''PERFORM '', [10] @ u ''UNTIL '',
     [10] @ u ''VARYING '', [10] @ u ''ACCEPT '', [10] @ u ''DISPLAY '', [10] @ u ''STOP RUN.'',
     [10], u '' '', []]"

fun SEPERATORS_FOR_LANGUAGE :: "Language \<Rightarrow> ustring list option" where
  "SEPERATORS_FOR_LANGUAGE UNKNOWN = None"
| "SEPERATORS_FOR_LANGUAGE CPP = Some CPP_SEPERATORS"
| "SEPERATORS_FOR_LANGUAGE GO = Some GO_SEPERATORS"
| "SEPERATORS_FOR_LANGUAGE JAVA = Some JAVA_SEPERATORS"
| "SEPERATORS_FOR_LANGUAGE KOTLIN = Some KOTLIN_SEPERATORS"
| "SEPERATORS_FOR_LANGUAGE JS = Some JS_SEPERATORS"
| "SEPERATORS_FOR_LANGUAGE TS = Some TS_SEPERATORS"
| "SEPERATORS_FOR_LANGUAGE PHP = Some PHP_SEPERATORS"
| "SEPERATORS_FOR_LANGUAGE PROTO = Some PROTO_SEPERATORS"
| "SEPERATORS_FOR_LANGUAGE PYTHON = Some PYTHON_SEPERATORS"
| "SEPERATORS_FOR_LANGUAGE RST = Some RST_SEPERATORS"
| "SEPERATORS_FOR_LANGUAGE RUBY = Some RUBY_SEPERATORS"
| "SEPERATORS_FOR_LANGUAGE RUST = Some RUST_SEPERATORS"
| "SEPERATORS_FOR_LANGUAGE SCALA = Some SCALA_SEPERATORS"
| "SEPERATORS_FOR_LANGUAGE SWIFT = Some SWIFT_SEPERATORS"
| "SEPERATORS_FOR_LANGUAGE MARKDOWN = Some MARKDOWN_SEPERATORS"
| "SEPERATORS_FOR_LANGUAGE LATEX = Some LATEX_SEPERATORS"
| "SEPERATORS_FOR_LANGUAGE HTML = Some HTML_SEPERATORS"
| "SEPERATORS_FOR_LANGUAGE CSHARP = Some CSHARP_SEPERATORS"
| "SEPERATORS_FOR_LANGUAGE SOL = Some SOL_SEPERATORS"
| "SEPERATORS_FOR_LANGUAGE COBOL = Some COBOL_SEPERATORS"

lemmas language_tables = CPP_SEPERATORS_def GO_SEPERATORS_def JAVA_SEPERATORS_def KOTLIN_SEPERATORS_def JS_SEPERATORS_def TS_SEPERATORS_def PHP_SEPERATORS_def PROTO_SEPERATORS_def PYTHON_SEPERATORS_def RST_SEPERATORS_def RUBY_SEPERATORS_def RUST_SEPERATORS_def SCALA_SEPERATORS_def SWIFT_SEPERATORS_def MARKDOWN_SEPERATORS_def LATEX_SEPERATORS_def HTML_SEPERATORS_def CSHARP_SEPERATORS_def SOL_SEPERATORS_def COBOL_SEPERATORS_def

end
