(* ===== verification/Splitter_Correct.thy ===== *)
theory Splitter_Correct
  imports Language_Splitters "HOL-Library.Sublist"
begin

text \<open>
  Correctness of the recursive splitter over the contract of ICU. The locale \<open>icu_text\<close> holds what
  the ICU documentation says of \<open>RegexMatcher::split\<close> for a quoted literal in a capturing
  group and of the character break iterator; \<open>literal_splitter\<close> is an implementation of it.
\<close>

section \<open>What ICU promises\<close>

definition kept_group :: "ustring \<Rightarrow> ustring" where
  "kept_group s = u ''('' @ escape_for_regular_expression s @ u '')''"

locale icu_text =
  fixes c :: BaseTextSplitter
  assumes graphemes_concat: "concat (icu_graphemes c t) = t"
    and split_concat: "s \<noteq> [] \<Longrightarrow> concat (icu_split c (kept_group s) t 19) = t"
    and split_odd: "s \<noteq> [] \<Longrightarrow> t \<noteq> [] \<Longrightarrow> odd (length (icu_split c (kept_group s) t 19))"
    and split_rest: "s \<noteq> [] \<Longrightarrow> length (icu_split c (kept_group s) t 19) = 19 \<Longrightarrow>
      length (last (icu_split c (kept_group s) t 19)) < length t"
    and split_empty: "icu_split c p [] 19 = []"

text \<open>
  The 19 fields of one call are used up exactly at the end of the text: the text ends with its
  ninth separator.
\<close>

definition ends_at_capacity :: "BaseTextSplitter \<Rightarrow> ustring \<Rightarrow> ustring \<Rightarrow> bool" where
  "ends_at_capacity c s t \<longleftrightarrow> length (icu_split c (kept_group s) t 19) = 19 \<and>
     last (icu_split c (kept_group s) t 19) = []"

lemma escape_Nil_iff: "escape_for_regular_expression s = [] \<longleftrightarrow> s = []"
  by (cases s) (auto simp: escape_for_regular_expression_def)

lemma concat_filter_nonempty: "concat (filter (\<lambda>v. v \<noteq> []) xs) = concat xs"
  by (induction xs) auto

lemma merge_pairs_even: "even (length xs) \<Longrightarrow> \<exists>r. merge_pairs xs = Inr r \<and> concat r = concat xs"
  by (induction xs rule: merge_pairs.induct) (auto simp: bindR_def)

lemma merge_pairs_odd: "odd (length xs) \<Longrightarrow> merge_pairs xs = Inl UndefinedBehaviour"
  by (induction xs rule: merge_pairs.induct) (auto simp: bindR_def)

lemma last_suffix_concat: "xs \<noteq> [] \<Longrightarrow> suffix (last xs) (concat xs)"
  by (induction xs) (auto intro: suffix_appendI)

context icu_text
begin

lemma split_Nil_iff: "s \<noteq> [] \<Longrightarrow> icu_split c (kept_group s) t 19 = [] \<longleftrightarrow> t = []"
  using split_concat [of s t] split_empty by fastforce

lemma SplitWithRegex_loop_ok:
  assumes "s \<noteq> []" and "t \<noteq> []" and "\<And>t'. suffix t' t \<Longrightarrow> \<not> ends_at_capacity c s t'"
  shows "\<exists>ps. SplitWithRegex_loop (icu_split c) (kept_group s) t acc = Some (acc @ ps) \<and> concat ps = t \<and> odd (length ps)"
  using assms(2,3)
proof (induction "length t" arbitrary: t acc rule: less_induct)
  case less
  define ps where "ps = icu_split c (kept_group s) t 19"
  have ps: "ps \<noteq> []" "concat ps = t" "odd (length ps)"
    using split_Nil_iff split_concat split_odd assms(1) less.prems(1) unfolding ps_def by auto
  show ?case
  proof (cases "length ps = 19")
    case False
    have "SplitWithRegex_loop (icu_split c) (kept_group s) t acc = Some ((acc @ butlast ps) @ [last ps])"
      using False ps(1) unfolding ps_def by (subst SplitWithRegex_loop.simps) simp
    with ps show ?thesis by (intro exI [of _ ps]) simp
  next
    case True
    have rec: "SplitWithRegex_loop (icu_split c) (kept_group s) t acc =
        SplitWithRegex_loop (icu_split c) (kept_group s) (last ps) (acc @ butlast ps)"
      using True ps(1) unfolding ps_def by (subst SplitWithRegex_loop.simps) simp
    have suf: "suffix (last ps) t" using last_suffix_concat [OF ps(1)] ps(2) by simp
    have "last ps \<noteq> []" using less.prems(2) [of t] True unfolding ends_at_capacity_def ps_def by simp
    moreover have "length (last ps) < length t" using split_rest [OF assms(1)] True unfolding ps_def by blast
    moreover have "\<And>t'. suffix t' (last ps) \<Longrightarrow> \<not> ends_at_capacity c s t'"
      using less.prems(2) suf suffix_order.trans by blast
    ultimately obtain qs where qs: "SplitWithRegex_loop (icu_split c) (kept_group s) (last ps) (acc @ butlast ps) =
        Some ((acc @ butlast ps) @ qs)" "concat qs = last ps" "odd (length qs)"
      using less.hyps by blast
    have "concat (butlast ps @ qs) = t"
      using qs(2) ps(1,2) by (metis append_butlast_last_id concat.simps(1,2) concat_append append_Nil2)
    moreover have "odd (length (butlast ps @ qs))" using True qs(3) by simp
    ultimately show ?thesis using rec qs(1) by (intro exI [of _ "butlast ps @ qs"]) simp
  qed
qed

lemma split_text_keep_ok:
  assumes "s \<noteq> []" and "t \<noteq> []" and "\<And>t'. suffix t' t \<Longrightarrow> \<not> ends_at_capacity c s t'"
  shows "\<exists>splits. split_text_with_seperator c t (escape_for_regular_expression s) True = Some (Inr splits) \<and>
    concat splits = t \<and> [] \<notin> set splits"
proof -
  from SplitWithRegex_loop_ok [OF assms, of "[]"] obtain ps where
    ps: "SplitWithRegex (icu_split c) t (kept_group s) = Some ps" "concat ps = t" "odd (length ps)"
    by (auto simp: SplitWithRegex_def)
  then obtain p0 rest where p: "ps = p0 # rest" "even (length rest)" by (cases ps) auto
  from merge_pairs_even [OF p(2)] obtain r where r: "merge_pairs rest = Inr r" "concat r = concat rest" by blast
  have "split_text_with_seperator c t (escape_for_regular_expression s) True =
      Some (Inr (filter (\<lambda>v. v \<noteq> []) (p0 # r)))"
    using ps(1) p(1) r(1) assms(1)
    by (simp add: split_text_with_seperator_def escape_Nil_iff bindR_def kept_group_def)
  moreover have "concat (filter (\<lambda>v. v \<noteq> []) (p0 # r)) = t"
    unfolding concat_filter_nonempty using r(2) p(1) ps(2) by simp
  ultimately show ?thesis by (intro exI [of _ "filter (\<lambda>v. v \<noteq> []) (p0 # r)"]) auto
qed

lemma split_text_empty_separator:
  "split_text_with_seperator c t [] keep = Some (Inr (filter (\<lambda>v. v \<noteq> []) (icu_graphemes c t)))"
  by (simp add: split_text_with_seperator_def bindR_def)

text \<open>The defect at nine separators: one call too many on an empty rest leaves an even number of pieces.\<close>

lemma split_text_keep_undefined:
  assumes "s \<noteq> []" and "ends_at_capacity c s t"
  shows "split_text_with_seperator c t (escape_for_regular_expression s) True = Some (Inl UndefinedBehaviour)"
proof -
  define ps where "ps = icu_split c (kept_group s) t 19"
  have ps: "length ps = 19" "last ps = []" using assms(2) by (auto simp: ends_at_capacity_def ps_def)
  have "SplitWithRegex_loop (icu_split c) (kept_group s) t [] = SplitWithRegex_loop (icu_split c) (kept_group s) [] (butlast ps)"
    using ps unfolding ps_def by (subst SplitWithRegex_loop.simps) auto
  also have "\<dots> = Some (butlast ps)"
    by (subst SplitWithRegex_loop.simps) (simp add: split_empty)
  finally have run: "SplitWithRegex (icu_split c) t (kept_group s) = Some (butlast ps)" by (simp add: SplitWithRegex_def)
  obtain p0 rest where p: "butlast ps = p0 # rest" "odd (length rest)"
    using ps(1) by (cases "butlast ps") (auto dest: arg_cong [where f = length])
  from run p(1) merge_pairs_odd [OF p(2)] assms(1) show ?thesis
    by (simp add: split_text_with_seperator_def escape_Nil_iff bindR_def kept_group_def)
qed

end

section \<open>The recursion\<close>

lemma contains_sub_nonempty: "contains_sub s t \<Longrightarrow> s \<noteq> [] \<Longrightarrow> t \<noteq> []"
  by (cases t) auto

lemma choose_separator_cases [consumes 1, case_names characters found]:
  assumes "[] \<in> set seps"
  obtains "choose_separator t fb tried seps = ([], [])"
    | s xs where "s \<in> set seps" "s \<noteq> []" "contains_sub s t" "[] \<in> set xs" "set xs \<subseteq> set seps"
      "length xs < length seps" "choose_separator t fb tried seps = (escape_for_regular_expression s, tried @ xs)"
proof -
  have "choose_separator t fb tried seps = ([], []) \<or>
    (\<exists>s xs ys. s \<in> set seps \<and> s \<noteq> [] \<and> contains_sub s t \<and> [] \<in> set xs \<and> seps = ys @ s # xs \<and>
      choose_separator t fb tried seps = (escape_for_regular_expression s, tried @ ys @ xs))"
    using assms
  proof (induction seps arbitrary: tried)
    case (Cons sep seps)
    show ?case
    proof (cases "sep = [] \<or> contains_sub sep t")
      case True
      with Cons.prems show ?thesis by (cases "sep = []") (auto intro: exI [of _ "[] :: ustring list"])
    next
      case False
      with Cons.prems have "[] \<in> set seps" by auto
      from Cons.IH [OF this, of "tried @ [sep]"] False show ?thesis
      proof (elim disjE exE conjE)
        fix s xs ys
        assume "s \<noteq> []" "contains_sub s t" "[] \<in> set xs" "seps = ys @ s # xs"
          "choose_separator t fb (tried @ [sep]) seps = (escape_for_regular_expression s, (tried @ [sep]) @ ys @ xs)"
        with False show ?thesis
          by (intro disjI2 exI [of _ s] exI [of _ xs] exI [of _ "sep # ys"]) simp
      qed simp
    qed
  qed simp
  then show thesis
  proof (elim disjE exE conjE)
    fix s xs ys
    assume "s \<noteq> []" "contains_sub s t" "[] \<in> set xs" "seps = ys @ s # xs"
      "choose_separator t fb tried seps = (escape_for_regular_expression s, tried @ ys @ xs)"
    then show thesis by (intro that(2) [of s "ys @ xs"]) auto
  qed (rule that(1))
qed

definition shrinks :: "ustring list \<Rightarrow> ustring list \<Rightarrow> bool" where
  "shrinks seps' seps \<longleftrightarrow> (seps' = [] \<or> [] \<in> set seps') \<and> set seps' \<subseteq> set seps \<and> length seps' \<le> length seps"

definition splits_cleanly :: "BaseTextSplitter \<Rightarrow> ustring list \<Rightarrow> ustring \<Rightarrow> bool" where
  "splits_cleanly c seps t \<longleftrightarrow> (\<forall>s t'. s \<in> set seps \<and> s \<noteq> [] \<and> sublist t' t \<longrightarrow> \<not> ends_at_capacity c s t')"

lemma splits_cleanly_mono:
  "splits_cleanly c seps t \<Longrightarrow> set seps' \<subseteq> set seps \<Longrightarrow> sublist t' t \<Longrightarrow> splits_cleanly c seps' t'"
  unfolding splits_cleanly_def by (meson sublist_order.order.trans subsetD)

lemma sublist_concat: "s \<in> set xs \<Longrightarrow> sublist s (concat xs)"
  by (metis concat.simps(2) concat_append sublist_appendI split_list)

lemma shrinks_trans: "shrinks a b \<Longrightarrow> shrinks b d \<Longrightarrow> shrinks a d"
  unfolding shrinks_def by auto

locale lossless_splitter = icu_text +
  assumes counts: "GetLength c = StringLengthCalculator"
    and keeps: "keep_separator c" "\<not> strip_whitespace c" "chunk_overlap c = 0"
begin

lemmas merge_good = code_points.MergeSplits_lossless [OF counts keeps(2,3)]

lemma merge_good_if:
  assumes "[] \<notin> set good"
  shows "\<exists>new. (if good \<noteq> [] then MergeSplits c good [] fc else Inr fc) = Inr (fc @ new) \<and> concat new = concat good"
  using merge_good [OF assms, of fc] by (cases "good = []") (auto intro: exI [of _ "[]"])

lemma SplitText_loop_ok:
  assumes rec: "\<And>t seps fc. [] \<in> set seps \<Longrightarrow> length seps \<le> fuel \<Longrightarrow> splits_cleanly c seps t \<Longrightarrow>
      \<exists>seps' new. SplitText_rec c fuel t seps fc = Some (Inr (seps', fc @ new)) \<and> concat new = t \<and> shrinks seps' seps"
    and "seps = [] \<or> [] \<in> set seps" and "length seps \<le> fuel"
    and "\<And>s. s \<in> set splits \<Longrightarrow> splits_cleanly c seps s" and "[] \<notin> set splits" and "[] \<notin> set good"
  shows "\<exists>seps' new. SplitText_loop c fuel splits [] seps good fc = Some (Inr (seps', fc @ new)) \<and>
    concat new = concat good @ concat splits \<and> shrinks seps' seps"
  using assms(2-6)
proof (induction splits arbitrary: seps good fc)
  case Nil
  have "shrinks seps seps" using Nil.prems(1) by (auto simp: shrinks_def)
  moreover obtain new where "(if good \<noteq> [] then MergeSplits c good [] fc else Inr fc) = Inr (fc @ new)"
    "concat new = concat good" using merge_good_if [OF Nil.prems(5), of fc] by blast
  ultimately show ?case
    by (intro exI [of _ seps] exI [of _ new]) (auto simp: bindR_def split: if_splits)
next
  case (Cons s splits)
  show ?case
  proof (cases "GetLength c s < size_t_of_int (chunk_size c)")
    case True
    have "[] \<notin> set (good @ [s])" using Cons.prems(4,5) by auto
    from Cons.IH [OF Cons.prems(1,2) _ _ this, of fc] Cons.prems(3,4) True show ?thesis by simp
  next
    case False
    obtain m where m: "(if good \<noteq> [] then MergeSplits c good [] fc else Inr fc) = Inr (fc @ m)"
      "concat m = concat good" using merge_good_if [OF Cons.prems(5), of fc] by blast
    show ?thesis
    proof (cases "seps = []")
      case True
      from Cons.IH [OF Cons.prems(1,2), of "[]" "fc @ m @ [s]"] Cons.prems(3,4) obtain seps' new where
        "SplitText_loop c fuel splits [] seps [] (fc @ m @ [s]) = Some (Inr (seps', (fc @ m @ [s]) @ new))"
        "concat new = concat splits" "shrinks seps' seps" by auto
      with False True m show ?thesis by (intro exI [of _ seps'] exI [of _ "m @ [s] @ new"]) simp
    next
      case non_empty: False
      with Cons.prems(1-3) rec [of seps s "fc @ m"] obtain seps1 new1 where
        r: "SplitText_rec c fuel s seps (fc @ m) = Some (Inr (seps1, (fc @ m) @ new1))" "concat new1 = s"
        "shrinks seps1 seps" by auto
      have "seps1 = [] \<or> [] \<in> set seps1" "length seps1 \<le> fuel" "\<And>x. x \<in> set splits \<Longrightarrow> splits_cleanly c seps1 x"
        using r(3) Cons.prems(2,3) by (auto simp: shrinks_def intro: splits_cleanly_mono)
      from Cons.IH [OF this, of "[]" "fc @ m @ new1"] Cons.prems(4) obtain seps' new where
        n: "SplitText_loop c fuel splits [] seps1 [] (fc @ m @ new1) = Some (Inr (seps', (fc @ m @ new1) @ new))"
        "concat new = concat splits" "shrinks seps' seps1" by auto
      have "SplitText_loop c fuel (s # splits) [] seps good fc = Some (Inr (seps', fc @ (m @ new1 @ new)))"
        using False non_empty m(1) r(1) n(1) by simp
      then show ?thesis using m(2) r(2) n(2) shrinks_trans [OF n(3) r(3)]
        by (intro exI [of _ seps'] exI [of _ "m @ new1 @ new"]) simp
    qed
  qed
qed

lemma SplitText_rec_ok:
  assumes "[] \<in> set seps" and "length seps \<le> fuel" and "splits_cleanly c seps t"
  shows "\<exists>seps' new. SplitText_rec c fuel t seps fc = Some (Inr (seps', fc @ new)) \<and> concat new = t \<and> shrinks seps' seps"
  using assms
proof (induction fuel arbitrary: t seps fc)
  case (Suc fuel)
  have step: "\<exists>seps' new. SplitText_rec c (Suc fuel) t seps fc = Some (Inr (seps', fc @ new)) \<and>
      concat new = t \<and> shrinks seps' seps"
    if ch: "choose_separator t (escape_for_regular_expression (last seps)) [] seps = (sep, seps1)"
      and sp: "split_text_with_seperator c t sep True = Some (Inr splits)" "concat splits = t" "[] \<notin> set splits"
      and sh: "shrinks seps1 seps" and le: "length seps1 \<le> fuel" for sep seps1 splits
  proof -
    have "\<And>x. x \<in> set splits \<Longrightarrow> splits_cleanly c seps1 x"
      using sp(2) Suc.prems(3) sh sublist_concat splits_cleanly_mono unfolding shrinks_def by blast
    then obtain seps' new where "SplitText_loop c fuel splits [] seps1 [] fc = Some (Inr (seps', fc @ new))"
      "concat new = concat splits" "shrinks seps' seps1"
      using SplitText_loop_ok [OF Suc.IH, of seps1 splits "[]" fc] sh sp(3) le by (auto simp: shrinks_def)
    moreover have "seps \<noteq> []" using Suc.prems(1) by auto
    ultimately show ?thesis using ch sp(1,2) keeps(1) shrinks_trans [OF _ sh] by simp
  qed
  from Suc.prems(1) show ?case
  proof (cases rule: choose_separator_cases
      [where t = t and fb = "escape_for_regular_expression (last seps)" and tried = "[]"])
    case characters
    show ?thesis
    proof (rule step [OF characters split_text_empty_separator])
      show "concat (filter (\<lambda>v. v \<noteq> []) (icu_graphemes c t)) = t"
        unfolding concat_filter_nonempty by (rule graphemes_concat)
    qed (simp_all add: shrinks_def)
  next
    case (found s xs)
    have "\<And>t'. suffix t' t \<Longrightarrow> \<not> ends_at_capacity c s t'"
      using Suc.prems(3) found(1,2) suffix_imp_sublist unfolding splits_cleanly_def by blast
    from split_text_keep_ok [OF found(2) contains_sub_nonempty [OF found(3,2)] this] obtain splits where
      "split_text_with_seperator c t (escape_for_regular_expression s) True = Some (Inr splits)"
      "concat splits = t" "[] \<notin> set splits" by blast
    from step [OF _ this] found Suc.prems(2) show ?thesis by (auto simp: shrinks_def)
  qed
qed auto

end

section \<open>An implementation of the contract\<close>

fun unescape :: "ustring \<Rightarrow> ustring" where
  "unescape (x # y # r) = (if x = 92 then y # unescape r else x # unescape (y # r))"
| "unescape xs = xs"

fun break_on :: "ustring \<Rightarrow> ustring \<Rightarrow> (ustring \<times> ustring) option" where
  "break_on lit [] = None"
| "break_on lit (x # xs) =
     (if take (length lit) (x # xs) = lit then Some ([], drop (length lit) (x # xs))
      else map_option (\<lambda>(a, b). (x # a, b)) (break_on lit xs))"

fun fields :: "ustring \<Rightarrow> bool \<Rightarrow> nat \<Rightarrow> ustring \<Rightarrow> ustring list" where
  "fields lit keep 0 t = [t]"
| "fields lit keep (Suc k) t =
     (case break_on lit t of None \<Rightarrow> [t] | Some (a, b) \<Rightarrow> a # (if keep then [lit] else []) @ fields lit keep k b)"

definition literal_split :: "ustring \<Rightarrow> ustring \<Rightarrow> nat \<Rightarrow> ustring list" where
  "literal_split pat t n =
     (if t = [] then []
      else if take 1 pat = [40] then fields (unescape (butlast (tl pat))) True ((n - 1) div 2) t
      else fields (unescape pat) False (n - 1) t)"

definition literal_splitter :: "int \<Rightarrow> int \<Rightarrow> bool \<Rightarrow> bool \<Rightarrow> BaseTextSplitter" where
  "literal_splitter n overlap keep strip =
     \<lparr>chunk_size = n, chunk_overlap = overlap, keep_separator = keep, strip_whitespace = strip,
      GetLength = StringLengthCalculator, icu_split = literal_split, icu_graphemes = map (\<lambda>x. [x]),
      icu_trim = (\<lambda>t. rev (dropWhile (\<lambda>x. x \<in> {32, 9, 10, 13}) (rev (dropWhile (\<lambda>x. x \<in> {32, 9, 10, 13}) t)))),
      fromUTF8 = map of_char, toUTF8String = map char_of\<rparr>"

lemma fields_numeral: "fields lit keep (numeral k) t =
    (case break_on lit t of None \<Rightarrow> [t]
     | Some (a, b) \<Rightarrow> a # (if keep then [lit] else []) @ fields lit keep (pred_numeral k) b)"
  by (simp add: numeral_eq_Suc)

lemma regex_special_backslash: "92 \<in> set regex_special"
  by (simp add: regex_special_def u_def)

lemma unescape_escape: "unescape (escape_for_regular_expression s) = s"
proof (induction s)
  case (Cons x s)
  have "escape_for_regular_expression (x # s) =
      (if x \<in> set regex_special then [92, x] else [x]) @ escape_for_regular_expression s"
    by (simp add: escape_for_regular_expression_def)
  moreover have "x \<notin> set regex_special \<Longrightarrow> x \<noteq> 92" using regex_special_backslash by auto
  ultimately show ?case using Cons by (cases "escape_for_regular_expression s") simp_all
qed (simp add: escape_for_regular_expression_def)

lemma break_on_Some: "break_on lit t = Some (a, b) \<Longrightarrow> t = a @ lit @ b"
  by (induction t arbitrary: a) (auto split: if_splits, metis append_take_drop_id length_Cons take_Suc_Cons)

lemma fields_concat: "concat (fields lit True k t) = t"
  by (induction lit True k t rule: fields.induct) (auto split: option.splits dest: break_on_Some)

lemma fields_odd: "odd (length (fields lit True k t))"
  by (induction lit True k t rule: fields.induct) (auto split: option.splits)

lemma fields_full:
  "length (fields lit True k t) = Suc (2 * k) \<Longrightarrow> length (last (fields lit True k t)) + k * length lit \<le> length t"
proof (induction k arbitrary: t)
  case (Suc k)
  then obtain a b where ab: "break_on lit t = Some (a, b)" by (auto split: option.splits)
  with Suc.prems have "length (fields lit True k b) = Suc (2 * k)" by simp
  moreover from this have "fields lit True k b \<noteq> []" by auto
  ultimately show ?case using Suc.IH [of b] break_on_Some [OF ab] ab by simp
qed simp

lemma literal_split_group:
  "literal_split (kept_group s) t 19 = (if t = [] then [] else fields s True 9 t)"
proof -
  have "kept_group s = 40 # escape_for_regular_expression s @ [41]" by (simp add: kept_group_def u_def)
  then show ?thesis by (simp add: literal_split_def unescape_escape)
qed

interpretation literal: icu_text "literal_splitter n overlap keep strip"
proof unfold_locales
  fix s t p :: ustring
  let ?split = "icu_split (literal_splitter n overlap keep strip)"
  show "concat (icu_graphemes (literal_splitter n overlap keep strip) t) = t"
    by (induction t) (simp_all add: literal_splitter_def)
  show "?split p [] 19 = []" by (simp add: literal_splitter_def literal_split_def)
  assume "s \<noteq> []"
  show "concat (?split (kept_group s) t 19) = t"
    by (simp add: literal_splitter_def literal_split_group fields_concat)
  show "t \<noteq> [] \<Longrightarrow> odd (length (?split (kept_group s) t 19))"
    using fields_odd [of s 9 t] by (simp add: literal_splitter_def literal_split_group)
  assume "length (?split (kept_group s) t 19) = 19"
  then have "t \<noteq> []" "length (fields s True 9 t) = Suc (2 * 9)"
    by (auto simp: literal_splitter_def literal_split_group split: if_splits)
  with \<open>s \<noteq> []\<close> fields_full [of s 9 t] have "length (last (fields s True 9 t)) < length t" by (cases s) simp_all
  with \<open>t \<noteq> []\<close> show "length (last (?split (kept_group s) t 19)) < length t"
    by (simp add: literal_splitter_def literal_split_group)
qed

interpretation literal_lossless: lossless_splitter "literal_splitter n 0 True False"
  by unfold_locales (simp_all add: literal_splitter_def)

lemma literal_splits_cleanly:
  assumes "length t < 9"
  shows "splits_cleanly (literal_splitter n overlap keep strip) seps t"
proof -
  have False if "s \<noteq> []" "sublist t' t" "ends_at_capacity (literal_splitter n overlap keep strip) s t'" for s t'
  proof -
    from that(3) have "length (fields s True 9 t') = 19"
      by (auto simp: ends_at_capacity_def literal_splitter_def literal_split_group split: if_splits)
    with fields_full [of s 9 t'] have "9 * length s \<le> length t'" by simp
    moreover have "length t' \<le> length t" using that(2) by (auto simp: sublist_def)
    moreover have "1 \<le> length s" using that(1) by (cases s) auto
    ultimately show False using assms by linarith
  qed
  then show ?thesis unfolding splits_cleanly_def by blast
qed

section \<open>Properties\<close>



lemma language_table_empty_separator: "SEPERATORS_FOR_LANGUAGE lang = Some seps \<Longrightarrow> [] \<in> set seps"
  by (cases lang) (auto simp: language_tables)

text \<open>
  the same for every language: splitting with any table of
  \<open>SEPERATORS_FOR_LANGUAGE\<close> returns, since each table ends with the empty separator, and
  loses nothing.
\<close>

theorem language_SplitText_lossless:
  assumes "SEPERATORS_FOR_LANGUAGE lang = Some separators" and "lossless_splitter c"
    and "splits_cleanly c separators text"
  shows "\<exists>chunks. RecursiveCharacterTextSplitter_SplitText c (length separators) separators text = Some (Inr chunks) \<and>
    concat chunks = text"
  using lossless_splitter.SplitText_rec_ok [OF assms(2) language_table_empty_separator [OF assms(1)] order_refl assms(3), of "[]"]
  by (auto simp: RecursiveCharacterTextSplitter_SplitText_def bindR_def)

theorem language_SplitText_lossless_witness:
  "\<exists>chunks. RecursiveCharacterTextSplitter_SplitText (literal_splitter 3 0 True False) (length PYTHON_SEPERATORS)
      PYTHON_SEPERATORS (u ''if x: y'') = Some (Inr chunks) \<and> concat chunks = u ''if x: y''"
  using language_SplitText_lossless [of PYTHON, OF _ literal_lossless.lossless_splitter_axioms [of 3], of _
      "u ''if x: y''"] literal_splits_cleanly [of "u ''if x: y''"]
  by (simp add: u_def)

text \<open>
  without an empty separator the recursion need not end. If none of the separators occurs in
  a text of at least \<open>chunk_size\<close>, the text is split into itself with the separators
  unchanged, and no depth of recursion is enough.
\<close>

theorem SplitText_diverges:
  assumes "separators \<noteq> []" and "[] \<notin> set separators" and "\<forall>s \<in> set separators. \<not> contains_sub s text"
    and "text \<noteq> []" and "size_t_of_int (chunk_size c) \<le> GetLength c text"
    and "icu_split c (if keep_separator c then kept_group (last separators)
           else escape_for_regular_expression (last separators)) text 19 = [text]"
  shows "RecursiveCharacterTextSplitter_SplitText c fuel separators text = None"
proof -
  have choose: "choose_separator text fb tried seps = (fb, tried @ seps)"
    if "[] \<notin> set seps" "\<forall>s \<in> set seps. \<not> contains_sub s text" for fb tried seps
    using that by (induction seps arbitrary: tried) auto
  define sep where "sep = escape_for_regular_expression (last separators)"
  have "last separators \<noteq> []" using assms(1,2) last_in_set by metis
  then have "sep \<noteq> []" by (simp add: sep_def escape_Nil_iff)
  have split: "split_text_with_seperator c text sep (keep_separator c) = Some (Inr [text])"
  proof (cases "keep_separator c")
    case True
    with assms(6) have "SplitWithRegex (icu_split c) text (u ''('' @ sep @ u '')'') = Some [text]"
      by (simp add: SplitWithRegex_def SplitWithRegex_loop.simps kept_group_def sep_def)
    with True \<open>sep \<noteq> []\<close> assms(4) show ?thesis by (simp add: split_text_with_seperator_def bindR_def)
  next
    case False
    with assms(6) have "SplitWithRegex (icu_split c) text sep = Some [text]"
      by (simp add: SplitWithRegex_def SplitWithRegex_loop.simps sep_def)
    with False \<open>sep \<noteq> []\<close> assms(4) show ?thesis by (simp add: split_text_with_seperator_def bindR_def)
  qed
  have pick: "choose_separator text (escape_for_regular_expression (last separators)) [] separators = (sep, separators)"
    using choose [OF assms(2,3)] by (simp add: sep_def)
  have long: "\<not> GetLength c text < size_t_of_int (chunk_size c)" using assms(5) by (simp only: not_less)
  have "SplitText_rec c fuel text separators fc = None" for fc
  proof (induction fuel arbitrary: fc)
    case (Suc fuel)
    with assms(1) pick split long show ?case by simp
  qed simp
  then show ?thesis by (simp add: RecursiveCharacterTextSplitter_SplitText_def)
qed

theorem SplitText_diverges_witness:
  "RecursiveCharacterTextSplitter_SplitText (literal_splitter 3 0 True True) 1000000 [u '',''] (u ''abcd'') = None"
  by (rule SplitText_diverges)
    (simp_all add: u_def literal_splitter_def size_t_of_int_def StringLengthCalculator_def literal_split_group
      fields_numeral)

text \<open>
  with separators kept, a text that ends exactly with its ninth separator (in general: where
  the 19 fields of a call end with the text) makes the pair-wise merge read behind the last
  piece, which is undefined: the empty last field is split once more, gives no field and is
  dropped, and an even number of pieces is left.
\<close>

theorem ninth_separator_undefined:
  assumes "icu_text c" and "s \<noteq> []" and "ends_at_capacity c s text"
  shows "split_text_with_seperator c text (escape_for_regular_expression s) True = Some (Inl UndefinedBehaviour)"
  using icu_text.split_text_keep_undefined [OF assms] .

theorem ninth_separator_undefined_witness:
  "split_text_with_seperator (literal_splitter 100 0 True True) (u ''a,a,a,a,a,a,a,a,a,'')
     (escape_for_regular_expression (u '','')) True = Some (Inl UndefinedBehaviour)"
  by (rule ninth_separator_undefined [OF literal.icu_text_axioms])
    (simp_all add: u_def ends_at_capacity_def literal_splitter_def literal_split_group fields_numeral)

text \<open>
  merging always succeeds (no access to an empty list, no wrap-around of the running total)
  and appends chunks that are not empty and exceed \<open>chunk_size\<close> by at most the length of
  one separator, when no single piece is longer than \<open>chunk_size\<close>.
\<close>

theorem MergeSplits_chunk_bound:
  assumes "GetLength c = StringLengthCalculator"
    and "\<forall>t. strip_whitespace c \<longrightarrow> length (icu_trim c t) \<le> length t"
    and "\<forall>s \<in> set splits. length s \<le> size_t_of_int (chunk_size c)"
  shows "\<exists>docs'. MergeSplits c splits sep docs = Inr (docs @ docs') \<and>
    (\<forall>d \<in> set docs'. d \<noteq> [] \<and> length d \<le> size_t_of_int (chunk_size c) + length sep)"
  using code_points.MergeSplits_bound [OF assms(1), of splits sep docs] assms(2,3)
  by (simp add: StringLengthCalculator_def)

text \<open>
  The bound is reached: pieces \<open>aa\<close>, \<open>bb\<close>, \<open>ccc\<close> and the separator \<open>,\<close> with
  \<open>chunk_size = 5\<close> and \<open>chunk_overlap = 2\<close> give the chunk \<open>bb,ccc\<close> of length 6.
\<close>

theorem MergeSplits_chunk_bound_witness:
  "MergeSplits (literal_splitter 5 2 False False) [u ''aa'', u ''bb'', u ''ccc''] (u '','') [] =
     Inr [u ''aa,bb'', u ''bb,ccc''] \<and>
   list_all (\<lambda>d. length d \<le> 5 + 1) [u ''aa,bb'', u ''bb,ccc'']"
proof -
  have run: "MergeSplits (literal_splitter 5 2 False False) [u ''aa'', u ''bb'', u ''ccc''] (u '','') [] =
     Inr [u ''aa,bb'', u ''bb,ccc'']"
    by (simp add: MergeSplits_def merge_one_def literal_splitter_def StringLengthCalculator_def u_def
        size_t_of_int_def Let_def bindR_def JoinDocs_def drop_front.simps size_t_sub_def)
  have "\<exists>docs'. MergeSplits (literal_splitter 5 2 False False) [u ''aa'', u ''bb'', u ''ccc''] (u '','') [] = Inr ([] @ docs') \<and>
    (\<forall>d \<in> set docs'. d \<noteq> [] \<and> length d \<le> size_t_of_int (chunk_size (literal_splitter 5 2 False False)) + length (u '',''))"
    by (rule MergeSplits_chunk_bound) (simp_all add: literal_splitter_def u_def size_t_of_int_def)
  with run show ?thesis by (simp add: literal_splitter_def u_def size_t_of_int_def)
qed

text \<open>
  the recursive splitter does not respect \<open>chunk_size\<close>, although the text could be cut
  anywhere. The list of separators is passed down by reference: when the first long piece is
  split into characters the list is empty afterwards, also for its caller, and the following
  long pieces are emitted whole. Here the second paragraph of 5 code points comes out as one
  chunk with \<open>chunk_size = 2\<close>.
\<close>

theorem SplitText_oversized_chunk:
  "RecursiveCharacterTextSplitter_SplitText (literal_splitter 2 0 True False) 4
      DEFAULT_SEPARATOR_FOR_TEXT_SPLITTER (u ''aaa'' @ [10, 10] @ u ''bbb'') =
        Some (Inr [u ''aa'', u ''a'', [10, 10] @ u ''bbb'']) \<and>
    chunk_size (literal_splitter 2 0 True False) < int (length ([10, 10] @ u ''bbb''))"
  by code_simp

text \<open>
  \<open>CharacterTextSplitter\<close> puts pieces together with the separator in its escaped form: the
  chunk made from the text \<open>a.b\<close> with the separator \<open>.\<close> is \<open>a\.b\<close>, which does not occur in
  the text.
\<close>

theorem CharacterTextSplitter_escaped_join:
  "\<exists>chunk. CharacterTextSplitter_SplitText (literal_splitter 10 0 False True) (u ''.'') (u ''a.b'') = Some (Inr [chunk]) \<and>
     chunk = [97, 92, 46, 98] \<and> \<not> contains_sub chunk (u ''a.b'')"
  by (simp add: CharacterTextSplitter_SplitText_def u_def split_text_with_seperator_def SplitWithRegex_def
      SplitWithRegex_loop.simps escape_for_regular_expression_def regex_special_def literal_splitter_def literal_split_def
      StringLengthCalculator_def size_t_of_int_def MergeSplits_def merge_one_def JoinDocs_def bindR_def Let_def fields_numeral)

text \<open>
  the positions stored with a chunk are right: for a text below 2 GiB, the bytes of the
  document from \<open>start_index\<close> to \<open>end_index\<close> are the text of the chunk, whenever that text
  occurs in the document at all, and the document's own metadata come first.
\<close>

theorem chunk_document_positions:
  assumes "toUTF8String c chunk = t" and "\<exists>a b. doc_text doc = a @ t @ b" and "length (doc_text doc) < 2 ^ 31"
  shows "\<exists>i j. chunk_document c doc chunk =
      \<lparr>doc_id = [], doc_text = t, metadata = metadata doc @ [int_field ''start_index'' (int i), int_field ''end_index'' (int j)]\<rparr> \<and>
    i \<le> j \<and> j \<le> length (doc_text doc) \<and> take (j - i) (drop i (doc_text doc)) = t"
proof -
  define p where "p = find_pos t (doc_text doc) 0"
  have p: "0 \<le> p" "p \<le> int (length (doc_text doc))" "take (length t) (drop (nat p) (doc_text doc)) = t"
    using find_pos_bounds [of t "doc_text doc" 0] find_pos_found [OF assms(2), of 0] unfolding p_def by auto
  have "length (take (length t) (drop (nat p) (doc_text doc))) = length t" using p(3) by simp
  then have le: "nat p + length t \<le> length (doc_text doc)" using p(1,2) by (simp add: min_def split: if_splits)
  then have "to_int32 p = p" "to_int32 (p + int (length t)) = p + int (length t)"
    using p(1) assms(3) by (auto intro!: to_int32_id)
  with p le show ?thesis
    by (intro exI [of _ "nat p"] exI [of _ "nat p + length t"])
      (simp add: chunk_document_def Let_def assms(1) p_def [symmetric] metadata_keys)
qed

theorem chunk_document_positions_witness:
  "\<exists>i j. chunk_document (literal_splitter 4 0 True False) \<lparr>doc_id = [], doc_text = ''one two'', metadata = []\<rparr> (u ''two'') =
     \<lparr>doc_id = [], doc_text = ''two'', metadata = [int_field ''start_index'' (int i), int_field ''end_index'' (int j)]\<rparr> \<and>
     take (j - i) (drop i ''one two'') = ''two''"
proof -
  have "\<exists>a b. doc_text \<lparr>doc_id = [], doc_text = ''one two'', metadata = []\<rparr> = a @ ''two'' @ b"
    by (intro exI [of _ "''one ''"] exI [of _ "[]"]) simp
  moreover have "toUTF8String (literal_splitter 4 0 True False) (u s) = s" for s
    by (induction s) (simp_all add: literal_splitter_def u_def)
  ultimately show ?thesis
    using chunk_document_positions [of "literal_splitter 4 0 True False" "u ''two''" "''two''"
        "\<lparr>doc_id = [], doc_text = ''one two'', metadata = []\<rparr>"] by auto
qed

end
