(* ===== verification/Agent_Types.thy ===== *)
theory Agent_Types
  imports Str_Utils
begin

text \<open>
  The messages of \<^verbatim>\<open>instinct-proto/src/agent.proto\<close>, \<^verbatim>\<open>chat_completion_api.proto\<close> and
  \<^verbatim>\<open>llm.proto\<close> that agents, workers and the run handler exchange. A \<open>oneof\<close> is a datatype
  with one more constructor for "not set"; a message field whose presence is tested is an option;
  a \<open>google.protobuf.Any\<close> that only ever holds a task graph is an option of a task graph.
\<close>

record ToolCallObject =
  tc_id :: string
  tc_is_function :: bool
  fn_name :: string
  fn_arguments :: string

record Message =
  msg_role :: string
  msg_content :: string
  tool_calls :: "ToolCallObject list"
  tool_call_id :: string

datatype PromptValue = NoPrompt | StringPrompt string | ChatPrompt "Message list"

record FunctionToolSchema =
  tool_name :: string
  tool_description :: string

record FunctionToolResult =
  invocation_id :: string
  return_value :: string
  has_error :: bool
  tool_exception :: string

record LLMCompilerTask =
  task_index :: int
  task_call :: ToolCallObject
  dependencies :: "int list"
  task_thought :: string
  task_result :: "Message option"

record LLMCompilerJoinerResult =
  is_replan :: bool
  joiner_answer :: string
  joiner_thought :: string

record LLMCompilerTaskGraph =
  tasks :: "LLMCompilerTask list"
  question :: string
  joiner_result :: "LLMCompilerJoinerResult option"

datatype CommonErrorType = unknown_error_type | server_error | rate_limit_exceeded | invalid_prompt | invalid_request_error

record RunStepError =
  error_type :: CommonErrorType
  error_message :: string

text \<open>\<open>finish_error\<close> is the error of the \<open>RunEarlyStopDetails\<close> in \<open>details\<close>, if there is one.\<close>

record AgentFinish =
  response :: string
  is_cancelled :: bool
  is_expired :: bool
  is_failed :: bool
  finish_custom :: "LLMCompilerTaskGraph option"
  finish_error :: "RunStepError option"

datatype AgentThought =
    NoThought
  | Continuation (continuation_message: "Message option") (continuation_custom: "LLMCompilerTaskGraph option")
  | Pause (completed: "Message list") (pause_message: "Message option") (pause_custom: "LLMCompilerTaskGraph option")
  | Finish AgentFinish

record AgentObservation =
  tool_messages :: "Message list"
  observation_custom :: "LLMCompilerTaskGraph option"

datatype AgentStep = NoStep | Thought AgentThought | Observation AgentObservation

record AgentState =
  previous_steps :: "AgentStep list"
  state_input :: PromptValue
  function_tools :: "FunctionToolSchema list"

definition empty_message :: Message where
  "empty_message = \<lparr>msg_role = [], msg_content = [], tool_calls = [], tool_call_id = []\<rparr>"

definition empty_call :: ToolCallObject where
  "empty_call = \<lparr>tc_id = [], tc_is_function = False, fn_name = [], fn_arguments = []\<rparr>"

definition empty_finish :: AgentFinish where
  "empty_finish = \<lparr>response = [], is_cancelled = False, is_expired = False, is_failed = False, finish_custom = None,
     finish_error = None\<rparr>"

fun has_observation :: "AgentStep \<Rightarrow> bool" where
  "has_observation (Observation _) = True"
| "has_observation _ = False"

fun has_continuation :: "AgentStep \<Rightarrow> bool" where
  "has_continuation (Thought (Continuation _ _)) = True"
| "has_continuation _ = False"

text \<open>\<open>MessageUtils::ExtractLatestPromptString\<close>\<close>

fun ExtractLatestPromptString :: "PromptValue \<Rightarrow> string" where
  "ExtractLatestPromptString (ChatPrompt msgs) = (if msgs = [] then [] else msg_content (last msgs))"
| "ExtractLatestPromptString (StringPrompt s) = s"
| "ExtractLatestPromptString NoPrompt = []"

text \<open>\<open>state.add_previous_steps()->CopyFrom(step)\<close>\<close>

definition add_step :: "AgentStep \<Rightarrow> AgentState \<Rightarrow> AgentState" where
  "add_step s st = st\<lparr>previous_steps := previous_steps st @ [s]\<rparr>"

lemma previous_steps_add_step [simp]: "previous_steps (add_step s st) = previous_steps st @ [s]"
  by (simp add: add_step_def)

text \<open>How many pairs of a tool call and a message with its id there are.\<close>

definition count_completed :: "ToolCallObject list \<Rightarrow> Message list \<Rightarrow> nat" where
  "count_completed calls msgs =
     sum_list (map (\<lambda>call. length (filter (\<lambda>m. tool_call_id m = tc_id call) msgs)) calls)"

lemma filter_eq_distinct: "distinct xs \<Longrightarrow> x \<in> set xs \<Longrightarrow> filter (\<lambda>y. y = x) xs = [x]"
  by (induction xs) (auto simp: filter_empty_conv)

lemma count_completed_answered:
  assumes "map tool_call_id msgs = map tc_id calls" and "distinct (map tc_id calls)"
  shows "count_completed calls msgs = length calls"
proof -
  have "length (filter (\<lambda>m. tool_call_id m = tc_id call) msgs) = 1" if "call \<in> set calls" for call
  proof -
    have "length (filter (\<lambda>m. tool_call_id m = tc_id call) msgs) =
        length (filter (\<lambda>x. x = tc_id call) (map tool_call_id msgs))" by (simp add: filter_map comp_def)
    also have "\<dots> = 1" using assms that by (simp add: filter_eq_distinct)
    finally show ?thesis .
  qed
  then have "map (\<lambda>call. length (filter (\<lambda>m. tool_call_id m = tc_id call) msgs)) calls = map (\<lambda>_. 1) calls" by simp
  then show ?thesis unfolding count_completed_def by (simp only:) (simp add: sum_list_triv)
qed

end
