(* ===== verification/Toolkit.thy ===== *)
theory Toolkit
  imports Agent_Types
begin

text \<open>
  \<^verbatim>\<open>instinct-llm/include/toolkit/\<close> \<^verbatim>\<open>BaseFunctionTool.hpp\<close>, \<^verbatim>\<open>BaseFunctionToolkit.hpp\<close>,
  \<^verbatim>\<open>LocalToolkit.hpp\<close> and \<^verbatim>\<open>agent/LocalToolkitsWorker.hpp\<close>.

  A tool's \<open>Execute\<close> has effects on a world \<open>'w\<close> that it shares with the other tools and
  may throw. Only \<open>std::runtime_error\<close> is caught by the retry loop; the exceptions of the
  library itself derive from \<open>cpptrace::exception_with_message\<close>, which is a
  \<open>std::exception\<close> but not a \<open>std::runtime_error\<close>. The retry counter is a
  \<open>uint8_t\<close> that is increased only while it is below \<open>max_attempts\<close>, also a
  \<open>uint8_t\<close>, so it never wraps and is a natural number here.
\<close>

section \<open>Tools\<close>

record 'w BaseFunctionTool =
  GetSchema :: FunctionToolSchema
  Execute :: "string \<Rightarrow> ('w, string) eff"
  max_attempts :: nat

fun is_runtime_error :: "exn \<Rightarrow> bool" where
  "is_runtime_error (RuntimeError _) = True"
| "is_runtime_error _ = False"

fun what :: "exn \<Rightarrow> string" where
  "what (ClientException s) = s"
| "what (InstinctException s) = s"
| "what (RuntimeError s) = s"
| "what (RenderError s) = s"
| "what _ = []"

function InvokeWithRetry :: "('w, string) eff \<Rightarrow> 'w BaseFunctionTool \<Rightarrow> ToolCallObject \<Rightarrow> nat \<Rightarrow>
    ('w, FunctionToolResult) eff" where
  "InvokeWithRetry uuid tool invocation retry_count w =
     (case (if IsBlankString (tc_id invocation) then uuid w else (Inr (tc_id invocation), w)) of
        (Inl e, w) \<Rightarrow> (Inl e, w)
      | (Inr ident, w) \<Rightarrow>
          (case Execute tool (fn_arguments invocation) w of
             (Inr v, w) \<Rightarrow> (Inr \<lparr>invocation_id = ident, return_value = v, has_error = False, tool_exception = []\<rparr>, w)
           | (Inl e, w) \<Rightarrow>
               if \<not> is_runtime_error e then (Inl e, w)
               else if retry_count + 1 < max_attempts tool
               then InvokeWithRetry uuid tool invocation (retry_count + 1) w
               else (Inr \<lparr>invocation_id = ident, return_value = [], has_error = False, tool_exception = what e\<rparr>, w)))"
  by pat_completeness auto
termination by (relation "measure (\<lambda>(uuid, tool, invocation, retry_count, w). max_attempts tool - retry_count)") auto

declare InvokeWithRetry.simps [simp del]

definition Tool_Invoke :: "('w, string) eff \<Rightarrow> 'w BaseFunctionTool \<Rightarrow> ToolCallObject \<Rightarrow> ('w, FunctionToolResult) eff" where
  "Tool_Invoke uuid tool invocation = InvokeWithRetry uuid tool invocation 0"

section \<open>Toolkits\<close>

record 'w LocalFunctionToolkit =
  functions_map :: "string \<rightharpoonup> 'w BaseFunctionTool"
  schemas :: "FunctionToolSchema list"

definition new_toolkit :: "'w LocalFunctionToolkit" where
  "new_toolkit = \<lparr>functions_map = Map.empty, schemas = []\<rparr>"

definition RegisterFunctionTool :: "'w BaseFunctionTool \<Rightarrow> 'w LocalFunctionToolkit \<Rightarrow> bool \<times> 'w LocalFunctionToolkit" where
  "RegisterFunctionTool tool tk =
     (let fn = tool_name (GetSchema tool) in
      if functions_map tk fn \<noteq> None then (False, tk)
      else (True, tk\<lparr>functions_map := (functions_map tk)(fn \<mapsto> tool), schemas := schemas tk @ [GetSchema tool]\<rparr>))"

definition UnregisterFunctionTool :: "string \<Rightarrow> 'w LocalFunctionToolkit \<Rightarrow> bool \<times> 'w LocalFunctionToolkit" where
  "UnregisterFunctionTool fn tk =
     (if functions_map tk fn = None then (False, tk)
      else (True, tk\<lparr>functions_map := (functions_map tk)(fn := None),
                     schemas := filter (\<lambda>t. tool_name t \<noteq> fn) (schemas tk)\<rparr>))"

definition GetFunctionToolNames :: "'w LocalFunctionToolkit \<Rightarrow> string set" where
  "GetFunctionToolNames tk = dom (functions_map tk)"

definition LookupFunctionTool :: "string \<Rightarrow> 'w LocalFunctionToolkit \<Rightarrow> 'w BaseFunctionTool option result" where
  "LookupFunctionTool by_name tk =
     (if \<not> IsNotBlankString by_name then Inl (ClientException ''Lookup by name is supported only.'')
      else Inr (functions_map tk by_name))"

definition CreateLocalToolkit :: "'w BaseFunctionTool list \<Rightarrow> 'w LocalFunctionToolkit" where
  "CreateLocalToolkit ts = fold (\<lambda>t tk. snd (RegisterFunctionTool t tk)) ts new_toolkit"

definition Toolkit_Invoke :: "('w, string) eff \<Rightarrow> 'w LocalFunctionToolkit \<Rightarrow> ToolCallObject \<Rightarrow>
    ('w, FunctionToolResult) eff" where
  "Toolkit_Invoke uuid tk invocation =
     bindE (liftR (LookupFunctionTool (fn_name invocation) tk)) (\<lambda>found. case found of
       Some tool \<Rightarrow> Tool_Invoke uuid tool invocation
     | None \<Rightarrow> ret \<lparr>invocation_id = tc_id invocation, return_value = [], has_error = False,
         tool_exception = ''Failed to lookup function tool in this toolkit. Target function name: '' @ fn_name invocation\<rparr>)"

section \<open>The worker\<close>

text \<open>
  One entry per toolkit that knows the tool: a call two toolkits can serve is listed twice.
\<close>

fun filter_calls :: "'w LocalFunctionToolkit list \<Rightarrow> ToolCallObject list \<Rightarrow> ToolCallObject list result" where
  "filter_calls tks [] = Inr []"
| "filter_calls tks (call # calls) =
     bindR (mapR (LookupFunctionTool (fn_name call)) tks) (\<lambda>found.
     bindR (filter_calls tks calls) (\<lambda>rest.
       Inr (replicate (length (filter (\<lambda>f. f \<noteq> None) found)) call @ rest)))"

text \<open>Task \<open>i\<close> of \<open>submit_sequence\<close>: \<open>filtered_tool_calls.at(i)\<close> throws when out of range.\<close>

fun invoke_first :: "('w, string) eff \<Rightarrow> 'w LocalFunctionToolkit list \<Rightarrow> ToolCallObject \<Rightarrow> ('w, FunctionToolResult) eff" where
  "invoke_first uuid [] call = throw (InstinctException (''Unresolved invocation: id='' @ tc_id call @ '', name='' @ fn_name call))"
| "invoke_first uuid (tk # tks) call =
     bindE (liftR (LookupFunctionTool (fn_name call) tk)) (\<lambda>found.
       if found \<noteq> None then Toolkit_Invoke uuid tk call else invoke_first uuid tks call)"

definition worker_task :: "('w, string) eff \<Rightarrow> 'w LocalFunctionToolkit list \<Rightarrow> ToolCallObject list \<Rightarrow> nat \<Rightarrow>
    ('w, FunctionToolResult) eff" where
  "worker_task uuid tks filtered i = (if i < length filtered then invoke_first uuid tks (filtered ! i) else throw OutOfRange)"

definition result_message :: "FunctionToolResult \<Rightarrow> Message result" where
  "result_message r =
     (if has_error r then Inl (InstinctException (tool_exception r))
      else Inr \<lparr>msg_role = ''tool'', msg_content = return_value r, tool_calls = [], tool_call_id = invocation_id r\<rparr>)"

text \<open>
  The futures are read in the order of the tasks; the first that holds an exception ends the loop.
  The tasks run on a thread pool; here they run in the order of their index.
\<close>

definition attempt :: "('w, 'a) eff \<Rightarrow> ('w, 'a result) eff" where
  "attempt m w = (case m w of (r, w') \<Rightarrow> (Inr r, w'))"

definition LocalToolkitsWorker_Invoke :: "('w, string) eff \<Rightarrow> 'w LocalFunctionToolkit list \<Rightarrow> AgentThought \<Rightarrow>
    ('w, AgentObservation) eff" where
  "LocalToolkitsWorker_Invoke uuid tks input =
     (let calls = (case input of Continuation (Some m) _ \<Rightarrow> tool_calls m | _ \<Rightarrow> []) in
      bindE (liftR (filter_calls tks calls)) (\<lambda>filtered.
        if filtered = [] then ret \<lparr>tool_messages = [], observation_custom = None\<rparr>
        else bindE (mapE (\<lambda>i. attempt (worker_task uuid tks filtered i)) [0 ..< length calls]) (\<lambda>futures.
             bindE (liftR (mapR (\<lambda>f. bindR f result_message) futures)) (\<lambda>msgs.
               ret \<lparr>tool_messages = msgs, observation_custom = None\<rparr>))))"

section \<open>The interface of a toolkit\<close>

text \<open>
  What the users of a toolkit rely on: the first tool registered under a name stays until it is
  removed, and removal affects its own name only.
\<close>

locale function_toolkit =
  fixes fresh :: 'tk
    and register :: "'t \<Rightarrow> 'tk \<Rightarrow> 'tk"
    and unregister :: "string \<Rightarrow> 'tk \<Rightarrow> 'tk"
    and lookup :: "'tk \<Rightarrow> string \<rightharpoonup> 't"
    and names :: "'tk \<Rightarrow> string list"
    and name_of :: "'t \<Rightarrow> string"
    and ok :: "'tk \<Rightarrow> bool"
  assumes lookup_fresh: "lookup fresh n = None"
    and lookup_register: "lookup (register t tk) n =
      (if n = name_of t \<and> lookup tk n = None then Some t else lookup tk n)"
    and lookup_unregister: "lookup (unregister m tk) n = (if n = m then None else lookup tk n)"
    and ok_fresh: "ok fresh"
    and ok_register: "ok tk \<Longrightarrow> ok (register t tk)"
    and ok_unregister: "ok tk \<Longrightarrow> ok (unregister m tk)"
    and ok_names: "ok tk \<Longrightarrow> distinct (names tk) \<and> set (names tk) = dom (lookup tk)"
begin

lemma lookup_fold_register: "lookup (fold register ts tk) n =
    (case lookup tk n of Some t \<Rightarrow> Some t | None \<Rightarrow> find (\<lambda>t. name_of t = n) ts)"
  by (induction ts arbitrary: tk) (auto simp: lookup_register split: option.splits)

lemma lookup_all: "lookup (fold register ts fresh) n = find (\<lambda>t. name_of t = n) ts"
  by (simp add: lookup_fold_register lookup_fresh)

lemma ok_fold_register: "ok tk \<Longrightarrow> ok (fold register ts tk)"
  by (induction ts arbitrary: tk) (auto intro: ok_register)

lemma names_all: "distinct (names (fold register ts fresh)) \<and> set (names (fold register ts fresh)) = name_of ` set ts"
proof -
  have "lookup (fold register ts fresh) n \<noteq> None \<longleftrightarrow> n \<in> name_of ` set ts" for n
    using find_None_iff [of "\<lambda>t. name_of t = n" ts] by (auto simp: lookup_all)
  then have "dom (lookup (fold register ts fresh)) = name_of ` set ts" unfolding dom_def by simp
  with ok_names [OF ok_fold_register [OF ok_fresh]] show ?thesis by simp
qed

end

definition toolkit_ok :: "'w LocalFunctionToolkit \<Rightarrow> bool" where
  "toolkit_ok tk \<longleftrightarrow> distinct (map tool_name (schemas tk)) \<and> set (map tool_name (schemas tk)) = dom (functions_map tk)"

interpretation local_toolkit: function_toolkit "new_toolkit :: 'w LocalFunctionToolkit" "\<lambda>t tk. snd (RegisterFunctionTool t tk)"
  "\<lambda>n tk. snd (UnregisterFunctionTool n tk)" functions_map "\<lambda>tk. map tool_name (schemas tk)"
  "\<lambda>t. tool_name (GetSchema t)" toolkit_ok
proof unfold_locales
  fix tk :: "'w LocalFunctionToolkit" and t :: "'w BaseFunctionTool" and m
  assume ok: "toolkit_ok tk"
  have "tool_name (GetSchema t) \<notin> dom (functions_map tk) \<Longrightarrow> tool_name (GetSchema t) \<notin> set (map tool_name (schemas tk))"
    using ok unfolding toolkit_ok_def by simp
  with ok show "toolkit_ok (snd (RegisterFunctionTool t tk))"
    by (auto simp: toolkit_ok_def RegisterFunctionTool_def Let_def)
  have "distinct (map tool_name (filter (\<lambda>t. tool_name t \<noteq> m) (schemas tk)))"
    using ok by (intro distinct_map_filter) (simp add: toolkit_ok_def)
  moreover have "tool_name ` {t \<in> set (schemas tk). tool_name t \<noteq> m} = dom (functions_map tk) - {m}"
    using ok by (auto simp: toolkit_ok_def)
  ultimately show "toolkit_ok (snd (UnregisterFunctionTool m tk))"
    using ok by (simp add: toolkit_ok_def UnregisterFunctionTool_def)
  show "distinct (map tool_name (schemas tk)) \<and> set (map tool_name (schemas tk)) = dom (functions_map tk)"
    using ok by (simp add: toolkit_ok_def)
qed (auto simp: new_toolkit_def RegisterFunctionTool_def UnregisterFunctionTool_def toolkit_ok_def Let_def)

section \<open>Retries\<close>

lemma InvokeWithRetry_run:
  assumes exec: "Execute tool = (\<lambda>a w. (outcome w, Suc w))" and "\<not> IsBlankString (tc_id call)"
    and "n = max_attempts tool - Suc k"
    and retry: "\<forall>i < n'. \<exists>s. outcome (w + i) = Inl (RuntimeError s)" and "n' \<le> n"
  shows "InvokeWithRetry uuid tool call k w = InvokeWithRetry uuid tool call (k + n') (w + n')"
  using retry \<open>n' \<le> n\<close>
proof (induction n')
  case (Suc i)
  then obtain s where "outcome (w + i) = Inl (RuntimeError s)" by auto
  moreover have "k + i + 1 < max_attempts tool" using Suc.prems(2) assms(3) by simp
  ultimately have "InvokeWithRetry uuid tool call (k + i) (w + i) = InvokeWithRetry uuid tool call (k + Suc i) (w + Suc i)"
    using exec assms(2) by (subst InvokeWithRetry.simps) simp
  with Suc show ?case by simp
qed simp

section \<open>The worker\<close>

lemma attempt_apply: "m w = (r, w') \<Longrightarrow> attempt m w = (Inr r, w')"
  by (simp add: attempt_def)

lemma mapE_attempt: "mapE (\<lambda>i. attempt (f i)) xs w = (Inr fs, w') \<Longrightarrow> length fs = length xs"
  by (induction xs arbitrary: w fs w') (auto simp: bindE_def split: prod.splits sum.splits)

lemma mapE_attempt_returns: "\<exists>fs w'. mapE (\<lambda>i. attempt (f i)) xs w = (Inr fs, w')"
  by (induction xs arbitrary: w) (auto simp: bindE_def attempt_def split: prod.splits sum.splits, metis Inl_Inr_False Pair_inject)

lemma mapR_Inl_member: "f x = Inl e \<Longrightarrow> x \<in> set xs \<Longrightarrow> \<exists>e. mapR f xs = Inl e"
  by (induction xs) (auto simp: bindR_def split: sum.splits)

lemma mapE_attempt_snoc_throws:
  assumes "\<And>w. f x w = (Inl e, w)" and "mapE (\<lambda>i. attempt (f i)) (xs @ [x]) w = (Inr fs, w')"
  shows "Inl e \<in> set fs"
  using assms(2) by (induction xs arbitrary: w fs) (auto simp: bindE_def attempt_def assms(1) split: prod.splits sum.splits)

definition served :: "'w LocalFunctionToolkit list \<Rightarrow> ToolCallObject \<Rightarrow> bool" where
  "served tks call \<longleftrightarrow> \<not> IsBlankString (tc_id call) \<and> IsNotBlankString (fn_name call) \<and>
     length (filter (\<lambda>tk. functions_map tk (fn_name call) \<noteq> None) tks) = 1"

text \<open>Tools that fail only with \<open>std::runtime_error\<close>.\<close>

definition tame_tool :: "'w BaseFunctionTool \<Rightarrow> bool" where
  "tame_tool tool \<longleftrightarrow> (\<forall>a w e w'. Execute tool a w = (Inl e, w') \<longrightarrow> is_runtime_error e)"

definition tame :: "'w LocalFunctionToolkit list \<Rightarrow> bool" where
  "tame tks \<longleftrightarrow> (\<forall>tk \<in> set tks. \<forall>n tool. functions_map tk n = Some tool \<longrightarrow> tame_tool tool)"

lemma lookup_not_blank: "IsNotBlankString n \<Longrightarrow> LookupFunctionTool n tk = Inr (functions_map tk n)"
  by (simp add: LookupFunctionTool_def)

lemma filter_calls_served:
  assumes "\<forall>call \<in> set calls. served tks call"
  shows "filter_calls tks calls = Inr calls"
  using assms
proof (induction calls)
  case (Cons call calls)
  then have s: "IsNotBlankString (fn_name call)"
    "length (filter (\<lambda>tk. functions_map tk (fn_name call) \<noteq> None) tks) = 1" by (auto simp: served_def)
  have "mapR (LookupFunctionTool (fn_name call)) tks = Inr (map (\<lambda>tk. functions_map tk (fn_name call)) tks)"
    by (rule mapR_all_Inr) (rule lookup_not_blank [OF s(1)])
  with Cons s(2) show ?case by (simp add: filter_map comp_def)
qed simp

definition answers :: "('w, FunctionToolResult) eff \<Rightarrow> ToolCallObject \<Rightarrow> bool" where
  "answers m call \<longleftrightarrow> (\<forall>w. \<exists>r w'. m w = (Inr r, w') \<and> invocation_id r = tc_id call \<and> \<not> has_error r)"

lemma InvokeWithRetry_answers:
  assumes "\<not> IsBlankString (tc_id call)" and "tame_tool tool"
  shows "\<exists>r w'. InvokeWithRetry uuid tool call k w = (Inr r, w') \<and> invocation_id r = tc_id call \<and> \<not> has_error r"
proof (induction "max_attempts tool - k" arbitrary: k w rule: less_induct)
  case less
  obtain out w' where out: "Execute tool (fn_arguments call) w = (out, w')" by fastforce
  show ?case
  proof (cases out)
    case (Inr v)
    with out assms(1) show ?thesis by (subst InvokeWithRetry.simps) simp
  next
    case (Inl e)
    with out assms(2) have e: "is_runtime_error e" by (auto simp: tame_tool_def)
    show ?thesis
    proof (cases "k + 1 < max_attempts tool")
      case True
      then have "InvokeWithRetry uuid tool call k w = InvokeWithRetry uuid tool call (k + 1) w'"
        using out Inl e assms(1) by (subst InvokeWithRetry.simps) simp
      with less.hyps [of "k + 1" w'] True show ?thesis by simp
    next
      case False
      with out Inl e assms(1) show ?thesis by (subst InvokeWithRetry.simps) simp
    qed
  qed
qed

lemma invoke_first_answers:
  assumes "served tks call" and "tame tks"
  shows "answers (invoke_first uuid tks call) call"
proof -
  have "\<exists>tk \<in> set tks. functions_map tk (fn_name call) \<noteq> None"
  proof (rule ccontr)
    assume "\<not> ?thesis"
    then have "filter (\<lambda>tk. functions_map tk (fn_name call) \<noteq> None) tks = []" by (simp add: filter_empty_conv)
    with assms(1) show False by (simp add: served_def)
  qed
  with assms(2) show ?thesis
  proof (induction tks)
    case (Cons tk tks)
    have nb: "IsNotBlankString (fn_name call)" "\<not> IsBlankString (tc_id call)" using assms(1) by (auto simp: served_def)
    show ?case
    proof (cases "functions_map tk (fn_name call)")
      case None
      with Cons show ?thesis by (auto simp: answers_def lookup_not_blank [OF nb(1)] tame_def)
    next
      case (Some tool)
      with Cons.prems(1) have "tame_tool tool" by (auto simp: tame_def)
      with Some InvokeWithRetry_answers [OF nb(2)] show ?thesis
        by (auto simp: answers_def lookup_not_blank [OF nb(1)] Toolkit_Invoke_def Tool_Invoke_def)
    qed
  qed simp
qed

lemma mapE_attempt_answers:
  assumes "\<forall>i \<in> set is. answers (f i) (g i)"
  shows "\<exists>rs w'. mapE (\<lambda>i. attempt (f i)) is w = (Inr (map Inr rs), w') \<and>
    map invocation_id rs = map (\<lambda>i. tc_id (g i)) is \<and> (\<forall>r \<in> set rs. \<not> has_error r)"
  using assms
proof (induction "is" arbitrary: w)
  case (Cons i "is")
  then obtain r w1 where r: "f i w = (Inr r, w1)" "invocation_id r = tc_id (g i)" "\<not> has_error r"
    unfolding answers_def by fastforce
  from Cons obtain rs w2 where "mapE (\<lambda>i. attempt (f i)) is w1 = (Inr (map Inr rs), w2)"
    "map invocation_id rs = map (\<lambda>i. tc_id (g i)) is" "\<forall>r \<in> set rs. \<not> has_error r" by fastforce
  with r show ?case by (intro exI [of _ "r # rs"] exI [of _ w2]) (simp add: bindE_def attempt_apply)
qed simp

text \<open>Whatever all tools keep of the world, the worker keeps.\<close>

lemma preserves_InvokeWithRetry:
  assumes "preserves P uuid" and "\<And>a. preserves P (Execute tool a)"
  shows "preserves P (InvokeWithRetry uuid tool call k)"
proof -
  have "P w \<Longrightarrow> P (snd (InvokeWithRetry uuid tool call k w))" for w
  proof (induction "max_attempts tool - k" arbitrary: k w rule: less_induct)
    case less
    obtain i w1 where i: "(if IsBlankString (tc_id call) then uuid w else (Inr (tc_id call), w)) = (i, w1)" by fastforce
    then have P1: "P w1" using assms(1) less.prems by (auto split: if_splits dest: preservesD)
    obtain out w2 where out: "Execute tool (fn_arguments call) w1 = (out, w2)" by fastforce
    then have P2: "P w2" using assms(2) P1 by (auto dest: preservesD)
    from less.hyps [of "k + 1" w2] P1 P2 i out show ?case
      by (subst InvokeWithRetry.simps) (auto split: sum.splits)
  qed
  then show ?thesis by (rule preservesI)
qed

lemma preserves_invoke_first:
  assumes "preserves P uuid" and "\<forall>tk \<in> set tks. \<forall>n tool a. functions_map tk n = Some tool \<longrightarrow> preserves P (Execute tool a)"
  shows "preserves P (invoke_first uuid tks call)"
  using assms(2)
proof (induction tks)
  case (Cons tk tks)
  have "preserves P (Toolkit_Invoke uuid tk call)"
  proof (rule preservesI)
    fix s assume P: "P s"
    have "P (snd (InvokeWithRetry uuid tool call 0 s))" if "functions_map tk (fn_name call) = Some tool" for tool
    proof -
      have "preserves P (InvokeWithRetry uuid tool call 0)"
        by (rule preserves_InvokeWithRetry [OF assms(1)]) (use Cons.prems that in auto)
      with P show ?thesis by (simp add: preserves_def)
    qed
    with P show "P (snd (Toolkit_Invoke uuid tk call s))"
      by (auto simp: Toolkit_Invoke_def Tool_Invoke_def LookupFunctionTool_def split: option.splits)
  qed
  with Cons show ?case by (auto intro!: eff_rules)
qed (simp add: eff_rules)

lemma preserves_attempt [eff_rules]: "preserves P m \<Longrightarrow> preserves P (attempt m)"
  by (auto simp: preserves_def attempt_def split: prod.splits)

lemma preserves_worker:
  assumes "preserves P uuid" and "\<forall>tk \<in> set tks. \<forall>n tool a. functions_map tk n = Some tool \<longrightarrow> preserves P (Execute tool a)"
  shows "preserves P (LocalToolkitsWorker_Invoke uuid tks input)"
  unfolding LocalToolkitsWorker_Invoke_def Let_def worker_task_def
  by (intro eff_rules preserves_invoke_first [OF assms])

lemma result_messages_ok:
  "\<forall>r \<in> set rs. \<not> has_error r \<Longrightarrow> mapR (\<lambda>f. bindR f result_message) (map Inr rs) =
     Inr (map (\<lambda>r. \<lparr>msg_role = ''tool'', msg_content = return_value r, tool_calls = [], tool_call_id = invocation_id r\<rparr>) rs)"
  by (induction rs) (auto simp: result_message_def)

lemma worker_answers:
  assumes "\<forall>call \<in> set (tool_calls m). served tks call" and "tame tks"
  shows "\<exists>obs w'. LocalToolkitsWorker_Invoke uuid tks (Continuation (Some m) custom) w = (Inr obs, w') \<and>
    map tool_call_id (tool_messages obs) = map tc_id (tool_calls m)"
proof -
  let ?cs = "tool_calls m"
  have "\<forall>i \<in> set [0 ..< length ?cs]. answers (worker_task uuid tks ?cs i) (?cs ! i)"
  proof
    fix i assume "i \<in> set [0 ..< length ?cs]"
    then have i: "i < length ?cs" by simp
    then have "served tks (?cs ! i)" using assms(1) nth_mem by blast
    from invoke_first_answers [OF this assms(2)] i show "answers (worker_task uuid tks ?cs i) (?cs ! i)"
      by (simp only: worker_task_def if_True)
  qed
  from mapE_attempt_answers [OF this, of w] obtain rs w' where
    rs: "mapE (\<lambda>i. attempt (worker_task uuid tks ?cs i)) [0 ..< length ?cs] w = (Inr (map Inr rs), w')"
    "map invocation_id rs = map (\<lambda>i. tc_id (?cs ! i)) [0 ..< length ?cs]" "\<forall>r \<in> set rs. \<not> has_error r" by blast
  let ?msg = "\<lambda>r. \<lparr>msg_role = ''tool'', msg_content = return_value r, tool_calls = [], tool_call_id = invocation_id r\<rparr>"
  have "mapR (\<lambda>f. bindR f result_message) (map Inr rs) = Inr (map ?msg rs)"
    by (rule result_messages_ok [OF rs(3)])
  moreover have "map (\<lambda>i. tc_id (?cs ! i)) [0 ..< length ?cs] = map tc_id ?cs"
    by (rule nth_equalityI) simp_all
  moreover have "map tool_call_id (map ?msg rs) = map invocation_id rs" by (simp add: comp_def)
  ultimately have msgs: "mapR (\<lambda>f. bindR f result_message) (map Inr rs) = Inr (map ?msg rs)"
    "map tool_call_id (map ?msg rs) = map tc_id ?cs" using rs(2) by (simp_all only:)
  show ?thesis
  proof (cases "?cs = []")
    case True
    then show ?thesis by (simp add: LocalToolkitsWorker_Invoke_def)
  next
    case False
    have "LocalToolkitsWorker_Invoke uuid tks (Continuation (Some m) custom) w =
        (Inr \<lparr>tool_messages = map ?msg rs, observation_custom = None\<rparr>, w')"
      unfolding LocalToolkitsWorker_Invoke_def Let_def bindE_def
      using False rs(1) msgs(1) filter_calls_served [OF assms(1)] by simp
    then show ?thesis
      by (intro exI [of _ "\<lparr>tool_messages = map ?msg rs, observation_custom = None\<rparr>"] exI [of _ w'] conjI)
        (simp_all only: AgentObservation.select_convs msgs(2))
  qed
qed

section \<open>Properties\<close>

text \<open>
  a toolkit made from a list of tools knows, under each name, the first tool of that name;
  its list of schemas has one entry per name, and exactly the names of the tools.
\<close>

theorem CreateLocalToolkit_lookup:
  "functions_map (CreateLocalToolkit ts) n = find (\<lambda>t. tool_name (GetSchema t) = n) ts \<and>
   distinct (map tool_name (schemas (CreateLocalToolkit ts))) \<and>
   set (map tool_name (schemas (CreateLocalToolkit ts))) = (\<lambda>t. tool_name (GetSchema t)) ` set ts"
  using local_toolkit.lookup_all [of ts n] local_toolkit.names_all [of ts] by (simp add: CreateLocalToolkit_def)

text \<open>
  retrying. When the first \<open>k\<close> attempts fail with a \<open>std::runtime_error\<close>, fewer than
  allowed, the next attempt decides: its value is returned, any other exception escapes. When all
  allowed attempts fail (one, if \<open>max_attempts\<close> is 0) the result holds the message of the
  last failure, but \<open>has_error\<close> is not set.
\<close>

theorem Tool_Invoke_retries:
  fixes n :: nat
  assumes "Execute tool = (\<lambda>a w. (outcome w, Suc w))" and "\<not> IsBlankString (tc_id call)"
    and "\<forall>i < k. \<exists>s. outcome (w + i) = Inl (RuntimeError s)" and "n = max 1 (max_attempts tool)"
  shows "(k < n \<and> outcome (w + k) = Inr v \<longrightarrow> Tool_Invoke uuid tool call w =
        (Inr \<lparr>invocation_id = tc_id call, return_value = v, has_error = False, tool_exception = []\<rparr>, w + k + 1)) \<and>
    (k < n \<and> outcome (w + k) = Inl e \<and> \<not> is_runtime_error e \<longrightarrow> Tool_Invoke uuid tool call w = (Inl e, w + k + 1)) \<and>
    (k = n \<and> outcome (w + k - 1) = Inl e \<longrightarrow> Tool_Invoke uuid tool call w =
        (Inr \<lparr>invocation_id = tc_id call, return_value = [], has_error = False, tool_exception = what e\<rparr>, w + k))"
proof -
  have run: "Tool_Invoke uuid tool call w = InvokeWithRetry uuid tool call j (w + j)" if "j < n" "j \<le> k" for j
    using InvokeWithRetry_run [OF assms(1,2) refl, of j w 0 uuid] assms(3,4) that by (simp add: Tool_Invoke_def)
  have step: "InvokeWithRetry uuid tool call j (w + j) = (case outcome (w + j) of
      Inr v \<Rightarrow> (Inr \<lparr>invocation_id = tc_id call, return_value = v, has_error = False, tool_exception = []\<rparr>, w + j + 1)
    | Inl e \<Rightarrow> if \<not> is_runtime_error e then (Inl e, w + j + 1)
               else if j + 1 < max_attempts tool then InvokeWithRetry uuid tool call (j + 1) (w + j + 1)
               else (Inr \<lparr>invocation_id = tc_id call, return_value = [], has_error = False, tool_exception = what e\<rparr>, w + j + 1))" for j
    using assms(1,2) by (subst InvokeWithRetry.simps) (auto split: sum.splits)
  have "Tool_Invoke uuid tool call w =
      (Inr \<lparr>invocation_id = tc_id call, return_value = [], has_error = False, tool_exception = what e\<rparr>, w + k)"
    if "k = n" "outcome (w + k - 1) = Inl e"
  proof -
    have k: "0 < k" "w + k - 1 = w + (k - 1)" "\<not> k - 1 + 1 < max_attempts tool" using that(1) assms(4) by auto
    moreover have "is_runtime_error e" using assms(3) k(1,2) that(2)
      by (metis Inl_inject diff_less is_runtime_error.simps(1) less_numeral_extra(1))
    ultimately show ?thesis using run [of "k - 1"] step [of "k - 1"] that by simp
  qed
  with run [of k] step [of k] show ?thesis by (intro conjI impI; elim conjE) simp_all
qed

theorem Tool_Invoke_retries_witness:
  "Tool_Invoke (ret ''u'')
     \<lparr>GetSchema = \<lparr>tool_name = ''t'', tool_description = []\<rparr>,
      Execute = (\<lambda>a w. (if w = 0 then Inl (RuntimeError ''x'') else Inr ''ok'', Suc w)), max_attempts = 3\<rparr>
     (empty_call\<lparr>tc_id := ''c1''\<rparr>) 0 =
   (Inr \<lparr>invocation_id = ''c1'', return_value = ''ok'', has_error = False, tool_exception = []\<rparr>, 2)"
proof -
  let ?tool = "\<lparr>GetSchema = \<lparr>tool_name = ''t'', tool_description = []\<rparr>,
      Execute = (\<lambda>a w. (if w = 0 then Inl (RuntimeError ''x'') else Inr ''ok'', Suc w)), max_attempts = 3\<rparr>"
  have "\<not> IsBlankString (tc_id (empty_call\<lparr>tc_id := ''c1''\<rparr>))" by (simp add: IsBlankString_iff isspace_def)
  from Tool_Invoke_retries [of ?tool "\<lambda>w. if w = 0 then Inl (RuntimeError ''x'') else Inr ''ok''", OF _ this,
      of 1 0 3 "''ok''" "ret ''u''"]
  show ?thesis by (simp add: empty_call_def numeral_2_eq_2)
qed

text \<open>
  C40: when every tool call of a thought has an id and is served by exactly one toolkit, and tools
  fail only with \<open>std::runtime_error\<close>, the worker returns one tool message per call, in the
  order of the calls and with their ids.
\<close>

theorem worker_answers_every_call:
  assumes "\<forall>call \<in> set (tool_calls m). served tks call" and "tame tks"
  shows "\<exists>obs w'. LocalToolkitsWorker_Invoke uuid tks (Continuation (Some m) custom) w = (Inr obs, w') \<and>
    map tool_call_id (tool_messages obs) = map tc_id (tool_calls m)"
  by (rule worker_answers [OF assms])

theorem worker_answers_every_call_witness:
  "\<exists>obs w'. LocalToolkitsWorker_Invoke (ret ''u'')
      [CreateLocalToolkit [\<lparr>GetSchema = \<lparr>tool_name = ''t'', tool_description = []\<rparr>,
         Execute = (\<lambda>a w. (Inr a, w)), max_attempts = 1\<rparr>]]
      (Continuation (Some (empty_message\<lparr>tool_calls := [\<lparr>tc_id = ''c1'', tc_is_function = True, fn_name = ''t'', fn_arguments = ''x''\<rparr>]\<rparr>)) None)
      (0 :: nat) = (Inr obs, w') \<and> map tool_call_id (tool_messages obs) = [''c1'']"
proof -
  let ?tool = "\<lparr>GetSchema = \<lparr>tool_name = ''t'', tool_description = []\<rparr>,
         Execute = (\<lambda>a w. (Inr a, w)), max_attempts = 1\<rparr> :: nat BaseFunctionTool"
  let ?m = "empty_message\<lparr>tool_calls := [\<lparr>tc_id = ''c1'', tc_is_function = True, fn_name = ''t'', fn_arguments = ''x''\<rparr>]\<rparr>"
  have "functions_map (CreateLocalToolkit [?tool]) = [''t'' \<mapsto> ?tool]"
    by (simp add: CreateLocalToolkit_def RegisterFunctionTool_def new_toolkit_def Let_def)
  then have "\<forall>call \<in> set (tool_calls ?m). served [CreateLocalToolkit [?tool]] call" "tame [CreateLocalToolkit [?tool]]"
    by (auto simp: served_def tame_def tame_tool_def IsBlankString_iff IsNotBlankString_def isspace_def split: if_splits)
  from worker_answers_every_call [OF this, of "ret ''u''" None 0] show ?thesis by simp
qed

text \<open>
  a failing tool is not reported as an error. Its result has no value and \<open>has_error\<close> is
  not set, so the worker turns it into a tool message with empty content.
\<close>

theorem failed_tool_gives_empty_message:
  assumes "tool_calls m = [call]" and "served [tk] call" and "functions_map tk (fn_name call) = Some tool"
    and "\<forall>a w. Execute tool a w = (Inl (RuntimeError s), w)"
  shows "LocalToolkitsWorker_Invoke uuid [tk] (Continuation (Some m) custom) w =
    (Inr \<lparr>tool_messages = [\<lparr>msg_role = ''tool'', msg_content = [], tool_calls = [], tool_call_id = tc_id call\<rparr>],
      observation_custom = None\<rparr>, w)"
proof -
  have nb: "\<not> IsBlankString (tc_id call)" "IsNotBlankString (fn_name call)" using assms(2) by (auto simp: served_def)
  have "InvokeWithRetry uuid tool call k w =
      (Inr \<lparr>invocation_id = tc_id call, return_value = [], has_error = False, tool_exception = s\<rparr>, w)" for k
    by (induction "max_attempts tool - k" arbitrary: k rule: less_induct)
      (use nb(1) assms(4) in \<open>subst InvokeWithRetry.simps, simp\<close>)
  then have "invoke_first uuid [tk] call w =
      (Inr \<lparr>invocation_id = tc_id call, return_value = [], has_error = False, tool_exception = s\<rparr>, w)"
    using assms(3) by (simp add: lookup_not_blank [OF nb(2)] Toolkit_Invoke_def Tool_Invoke_def)
  then have "attempt (worker_task uuid [tk] [call] 0) w =
      (Inr (Inr \<lparr>invocation_id = tc_id call, return_value = [], has_error = False, tool_exception = s\<rparr>), w)"
    by (simp add: attempt_apply worker_task_def)
  then show ?thesis using filter_calls_served [of "[call]" "[tk]"] assms(1,2)
    by (simp add: LocalToolkitsWorker_Invoke_def bindE_def result_message_def)
qed

theorem failed_tool_gives_empty_message_witness:
  "LocalToolkitsWorker_Invoke (ret ''u'')
      [\<lparr>functions_map = [''t'' \<mapsto> \<lparr>GetSchema = \<lparr>tool_name = ''t'', tool_description = []\<rparr>,
         Execute = (\<lambda>a w. (Inl (RuntimeError ''boom''), w)), max_attempts = 2\<rparr>], schemas = []\<rparr>]
      (Continuation (Some (empty_message\<lparr>tool_calls := [\<lparr>tc_id = ''c1'', tc_is_function = True, fn_name = ''t'', fn_arguments = ''x''\<rparr>]\<rparr>)) None)
      (0 :: nat) =
   (Inr \<lparr>tool_messages = [\<lparr>msg_role = ''tool'', msg_content = [], tool_calls = [], tool_call_id = ''c1''\<rparr>],
      observation_custom = None\<rparr>, 0)"
  by (subst failed_tool_gives_empty_message [where call = "\<lparr>tc_id = ''c1'', tc_is_function = True, fn_name = ''t'', fn_arguments = ''x''\<rparr>"
        and s = "''boom''"])
    (auto simp: served_def IsBlankString_iff IsNotBlankString_def isspace_def)

text \<open>
  when the worker can serve only some of the calls, it throws instead of answering those: the
  thread pool gets one task per call, but the tasks index the shorter list of calls it can serve,
  and the last one is out of range.
\<close>

theorem worker_partial_calls_throw:
  assumes "filter_calls tks (tool_calls m) = Inr filtered" and "filtered \<noteq> []" and "length filtered < length (tool_calls m)"
  shows "\<exists>e. fst (LocalToolkitsWorker_Invoke uuid tks (Continuation (Some m) custom) w) = Inl e"
proof -
  let ?n = "length (tool_calls m)"
  have idx: "[0 ..< ?n] = [0 ..< ?n - 1] @ [?n - 1]" using assms(3) by (cases ?n) auto
  have last: "worker_task uuid tks filtered (?n - 1) w = (Inl OutOfRange, w)" for w
  proof -
    have "\<not> ?n - 1 < length filtered" using assms(3) by linarith
    then show ?thesis unfolding worker_task_def by (simp only: if_False throw_apply)
  qed
  obtain fs w' where fs: "mapE (\<lambda>i. attempt (worker_task uuid tks filtered i)) [0 ..< ?n] w = (Inr fs, w')"
    using mapE_attempt_returns [of "worker_task uuid tks filtered" "[0 ..< ?n]" w] by blast
  then have "mapE (\<lambda>i. attempt (worker_task uuid tks filtered i)) ([0 ..< ?n - 1] @ [?n - 1]) w = (Inr fs, w')"
    unfolding idx .
  then have "Inl OutOfRange \<in> set fs"
    by (rule mapE_attempt_snoc_throws [where f = "worker_task uuid tks filtered", rotated]) (rule last)
  from mapR_Inl_member [OF _ this, of "\<lambda>f. bindR f result_message" OutOfRange] obtain e where
    "mapR (\<lambda>f. bindR f result_message) fs = Inl e" by auto
  with fs assms(1,2) show ?thesis by (auto simp: LocalToolkitsWorker_Invoke_def bindE_def)
qed

theorem worker_partial_calls_throw_witness:
  "\<exists>e. fst (LocalToolkitsWorker_Invoke (ret ''u'')
      [\<lparr>functions_map = [''t'' \<mapsto> \<lparr>GetSchema = \<lparr>tool_name = ''t'', tool_description = []\<rparr>,
         Execute = (\<lambda>a w. (Inr a, w)), max_attempts = 2\<rparr>], schemas = []\<rparr>]
      (Continuation (Some (empty_message\<lparr>tool_calls :=
         [\<lparr>tc_id = ''c1'', tc_is_function = True, fn_name = ''t'', fn_arguments = ''x''\<rparr>,
          \<lparr>tc_id = ''c2'', tc_is_function = True, fn_name = ''user_tool'', fn_arguments = ''x''\<rparr>]\<rparr>)) None)
      (0 :: nat)) = Inl e"
  by (rule worker_partial_calls_throw [where filtered = "[\<lparr>tc_id = ''c1'', tc_is_function = True, fn_name = ''t'', fn_arguments = ''x''\<rparr>]"])
    (auto simp: LookupFunctionTool_def IsBlankString_iff IsNotBlankString_def isspace_def)

end
