(* ===== verification/OpenAI_Agent.thy ===== *)
theory OpenAI_Agent
  imports Toolkit
begin

text \<open>
  \<^verbatim>\<open>instinct-llm/include/agent/executor/BaseAgentExecutor.hpp\<close> (the execution loop) and
  \<^verbatim>\<open>agent/patterns/openai_tool/\<close> (planner and executor).

  The chat model is outside the repository: \<open>chat_model\<close> is an effect from a prompt to a
  message. The loop of \<open>Stream\<close> ends only when the agent stops, so it has fuel, and
  \<open>None\<close> is "still running".
\<close>

type_synonym 'w StopPredicate = "AgentState \<Rightarrow> ('w, bool \<times> AgentStep) eff"

definition NoStopPredicate :: "'w StopPredicate" where
  "NoStopPredicate _ = ret (False, NoStep)"

section \<open>Planner\<close>

text \<open>\<open>mutable_chat()\<close> turns any other prompt into an empty chat.\<close>

definition add_chat_messages :: "Message list \<Rightarrow> PromptValue \<Rightarrow> PromptValue" where
  "add_chat_messages msgs pv =
     (if msgs = [] then pv else ChatPrompt ((case pv of ChatPrompt ms \<Rightarrow> ms | _ \<Rightarrow> []) @ msgs))"

fun step_messages :: "AgentStep \<Rightarrow> Message list" where
  "step_messages (Thought (Continuation (Some m) _)) = [m]"
| "step_messages (Observation obs) = tool_messages obs"
| "step_messages _ = []"

definition OpenAIToolAgentPlanner_Invoke :: "(FunctionToolSchema list \<Rightarrow> PromptValue \<Rightarrow> ('w, Message) eff) \<Rightarrow>
    AgentState \<Rightarrow> ('w, AgentThought) eff" where
  "OpenAIToolAgentPlanner_Invoke chat_model state =
     (let prompt_value = fold (\<lambda>step pv. add_chat_messages (step_messages step) pv) (previous_steps state) (state_input state)
      in bindE (chat_model (function_tools state) prompt_value) (\<lambda>message.
           if tool_calls message \<noteq> [] then ret (Continuation (Some message) None)
           else ret (Finish (empty_finish\<lparr>response := msg_content message\<rparr>))))"

section \<open>Executor\<close>

text \<open>The stop predicate gives its step through a reference; the state then stays as it is.\<close>

definition OpenAI_ResolveNextStep :: "'w StopPredicate \<Rightarrow> (AgentState \<Rightarrow> ('w, AgentThought) eff) \<Rightarrow>
    (AgentThought \<Rightarrow> ('w, AgentObservation) eff) \<Rightarrow> AgentState \<Rightarrow> ('w, AgentStep \<times> AgentState) eff" where
  "OpenAI_ResolveNextStep should_early_stop planner worker state =
     bindE (should_early_stop state) (\<lambda>(stop, stop_step).
      let steps = previous_steps state; emit = (\<lambda>step. ret (step, add_step step state)) in
      if stop then ret (stop_step, state)
      else if steps = [] \<or> has_observation (last steps)
      then bindE (planner state) (\<lambda>thought. emit (Thought thought))
      else
        (case last steps of
           Thought (Pause done (Some m) _) \<Rightarrow>
             if length (tool_calls m) = length done
             then emit (Observation \<lparr>tool_messages = done, observation_custom = None\<rparr>)
             else throw (InstinctException ''IllegalState for OpenAIToolAgentExecutor'')
         | Thought (Continuation (Some m) cu) \<Rightarrow>
             if tool_calls m \<noteq> []
             then bindE (worker (Continuation (Some m) cu)) (\<lambda>obs.
               if count_completed (tool_calls m) (tool_messages obs) \<noteq> length (tool_calls m)
               then emit (Thought (Pause (tool_messages obs) (Some m) None))
               else emit (Observation obs))
             else throw (InstinctException ''IllegalState for OpenAIToolAgentExecutor'')
         | _ \<Rightarrow> throw (InstinctException ''IllegalState for OpenAIToolAgentExecutor'')))"

section \<open>The execution loop\<close>

definition goes_on :: "AgentStep \<Rightarrow> bool" where
  "goes_on step \<longleftrightarrow> has_observation step \<or> has_continuation step"

text \<open>The states given to the observer, the last outcome (an error ends the stream), and the world.\<close>

fun Stream_loop :: "(AgentState \<Rightarrow> ('w, AgentStep \<times> AgentState) eff) \<Rightarrow> nat \<Rightarrow> AgentStep \<Rightarrow> AgentState \<Rightarrow>
    AgentState list \<Rightarrow> 'w \<Rightarrow> (AgentState list \<times> unit result \<times> 'w) option" where
  "Stream_loop ResolveNextStep fuel step state out w =
     (if \<not> goes_on step then Some (out, Inr (), w)
      else (case fuel of
              0 \<Rightarrow> None
            | Suc fuel \<Rightarrow>
                (case ResolveNextStep state w of
                   (Inl e, w) \<Rightarrow> Some (out, Inl e, w)
                 | (Inr (step, state), w) \<Rightarrow> Stream_loop ResolveNextStep fuel step state (out @ [state]) w)))"

declare Stream_loop.simps [simp del]

definition Stream :: "(AgentState \<Rightarrow> ('w, AgentStep \<times> AgentState) eff) \<Rightarrow> nat \<Rightarrow> AgentState \<Rightarrow> 'w \<Rightarrow>
    (AgentState list \<times> unit result \<times> 'w) option" where
  "Stream ResolveNextStep fuel state w =
     (case ResolveNextStep state w of
        (Inl e, w) \<Rightarrow> Some ([], Inl e, w)
      | (Inr (step, state), w) \<Rightarrow> Stream_loop ResolveNextStep fuel step state [state] w)"

definition InitializeState :: "PromptValue \<Rightarrow> AgentState" where
  "InitializeState input = \<lparr>previous_steps = [], state_input = input, function_tools = []\<rparr>"

section \<open>The shape of a run\<close>

text \<open>Which step may follow which: an observation answers the calls of its thought.\<close>

fun follows :: "AgentStep \<Rightarrow> AgentStep \<Rightarrow> bool" where
  "follows (Observation _) b = (\<exists>t. b = Thought t)"
| "follows (Thought (Continuation (Some m) _)) b =
     (tool_calls m \<noteq> [] \<and>
      (case b of
         Observation obs \<Rightarrow> count_completed (tool_calls m) (tool_messages obs) = length (tool_calls m)
       | Thought (Pause done (Some m') _) \<Rightarrow> m' = m \<and> count_completed (tool_calls m) done \<noteq> length (tool_calls m)
       | _ \<Rightarrow> False))"
| "follows (Thought (Pause done (Some m) _)) b =
     (case b of Observation obs \<Rightarrow> tool_messages obs = done \<and> length done = length (tool_calls m) | _ \<Rightarrow> False)"
| "follows _ _ = False"

definition wf_steps :: "AgentStep list \<Rightarrow> bool" where
  "wf_steps steps \<longleftrightarrow> (steps = [] \<or> (\<exists>t. hd steps = Thought t)) \<and> successively follows steps"

lemma wf_steps_snoc:
  "wf_steps (steps @ [s]) \<longleftrightarrow> wf_steps steps \<and> (if steps = [] then \<exists>t. s = Thought t else follows (last steps) s)"
  by (auto simp: wf_steps_def successively_append_iff)

text \<open>The stream extends the steps by one per emitted state.\<close>

fun grows_from :: "AgentState \<Rightarrow> AgentState list \<Rightarrow> bool" where
  "grows_from state [] = True"
| "grows_from state (s # ss) = ((\<exists>step. s = add_step step state) \<and> grows_from s ss)"

lemma grows_from_snoc: "grows_from st (ss @ [s]) \<longleftrightarrow>
    grows_from st ss \<and> (\<exists>step. s = add_step step (if ss = [] then st else last ss))"
  by (induction ss arbitrary: st) auto

text \<open>
  What the loop needs of an executor: a step that returns adds itself to the state and keeps the shape
  of the transcript.
\<close>

locale step_machine =
  fixes resolve :: "AgentState \<Rightarrow> ('w, AgentStep \<times> AgentState) eff" and shape :: "AgentStep list \<Rightarrow> bool"
  assumes resolve_step: "resolve state w = (Inr (step, state'), w') \<Longrightarrow> shape (previous_steps state) \<Longrightarrow>
      state' = add_step step state \<and> shape (previous_steps state')"
begin

lemma Stream_loop_shape:
  assumes "Stream_loop resolve fuel step state out w = Some (out', r, w')"
    and "shape (previous_steps state)" and "out \<noteq> []" and "last out = state" and "last (previous_steps state) = step"
    and "\<forall>s \<in> set out. shape (previous_steps s)" and "grows_from st0 out"
  shows "(\<forall>s \<in> set out'. shape (previous_steps s)) \<and> grows_from st0 out' \<and>
    (r = Inr () \<longrightarrow> out' \<noteq> [] \<and> \<not> goes_on (last (previous_steps (last out'))))"
  using assms
proof (induction fuel arbitrary: step state out w)
  case 0
  then show ?case by (subst (asm) Stream_loop.simps) (auto split: if_splits)
next
  case (Suc fuel)
  show ?case
  proof (cases "goes_on step")
    case False
    with Suc.prems show ?thesis by (subst (asm) Stream_loop.simps) auto
  next
    case True
    obtain res w1 where res: "resolve state w = (res, w1)" by fastforce
    show ?thesis
    proof (cases res)
      case (Inl e)
      with Suc.prems True res show ?thesis by (subst (asm) Stream_loop.simps) auto
    next
      case (Inr p)
      obtain step1 state1 where p: "p = (step1, state1)" by fastforce
      have st: "state1 = add_step step1 state \<and> shape (previous_steps state1)"
        by (rule resolve_step [of state w step1 state1 w1]) (use res Inr p Suc.prems(2) in simp_all)
      have "grows_from st0 (out @ [state1])" using Suc.prems(3,4,7) st by (auto simp: grows_from_snoc)
      moreover have "Stream_loop resolve fuel step1 state1 (out @ [state1]) w1 = Some (out', r, w')"
        using Suc.prems(1) True res Inr p by (subst (asm) Stream_loop.simps) simp
      ultimately show ?thesis using Suc.IH [of step1 state1 "out @ [state1]" w1] Suc.prems(6) st by auto
    qed
  qed
qed

lemma Stream_shape:
  assumes "Stream resolve fuel state w = Some (out, r, w')" and "shape (previous_steps state)"
  shows "(\<forall>s \<in> set out. shape (previous_steps s)) \<and> grows_from state out \<and>
    (r = Inr () \<longrightarrow> out \<noteq> [] \<and> \<not> goes_on (last (previous_steps (last out))))"
proof -
  obtain res w1 where res: "resolve state w = (res, w1)" by fastforce
  show ?thesis
  proof (cases res)
    case (Inl e)
    with res assms(1) show ?thesis by (auto simp: Stream_def)
  next
    case (Inr p)
    obtain step1 state1 where p: "p = (step1, state1)" by fastforce
    have st: "state1 = add_step step1 state \<and> shape (previous_steps state1)"
      by (rule resolve_step [of state w step1 state1 w1]) (use res Inr p assms(2) in simp_all)
    have "Stream_loop resolve fuel step1 state1 [state1] w1 = Some (out, r, w')"
      using assms(1) res Inr p by (simp add: Stream_def)
    moreover have "grows_from state [state1]" using st by (auto simp del: previous_steps_add_step)
    ultimately show ?thesis using Stream_loop_shape [of fuel step1 state1 "[state1]" w1 out r w' state] conjunct1 [OF st] conjunct2 [OF st] by simp
  qed
qed

end

lemma OpenAI_ResolveNextStep_step:
  assumes "OpenAI_ResolveNextStep NoStopPredicate planner worker state w = (Inr (step, state'), w')"
  shows "state' = add_step step state \<and>
    (if previous_steps state = [] then \<exists>t. step = Thought t else follows (last (previous_steps state)) step)"
proof (cases "previous_steps state = [] \<or> has_observation (last (previous_steps state))")
  case True
  then have "(if previous_steps state = [] then \<exists>t. Thought th = Thought t else follows (last (previous_steps state)) (Thought th))" for th
    by (cases "last (previous_steps state)") auto
  with True assms show ?thesis
    by (auto simp: OpenAI_ResolveNextStep_def NoStopPredicate_def Let_def elim!: bindE_InrE)
next
  case False
  with assms show ?thesis
    by (auto simp: OpenAI_ResolveNextStep_def NoStopPredicate_def Let_def
        split: AgentStep.splits AgentThought.splits option.splits if_splits elim!: bindE_InrE)
qed

interpretation openai_machine: step_machine "OpenAI_ResolveNextStep NoStopPredicate planner worker" wf_steps
  for planner :: "AgentState \<Rightarrow> ('w, AgentThought) eff" and worker :: "AgentThought \<Rightarrow> ('w, AgentObservation) eff"
proof unfold_locales
  fix state w step state' w'
  assume "OpenAI_ResolveNextStep NoStopPredicate planner worker state w = (Inr (step, state'), w')"
    and "wf_steps (previous_steps state)"
  with OpenAI_ResolveNextStep_step show "state' = add_step step state \<and> wf_steps (previous_steps state')"
    by (fastforce simp: wf_steps_snoc)
qed

section \<open>A run comes to an end\<close>

text \<open>
  What the executor needs of its worker to get an answer: for a message it can serve, an
  observation with the ids of the calls. \<open>script\<close> is the part of the world the chat model
  reads, which tools leave alone.
\<close>

locale answering_worker =
  fixes worker :: "AgentThought \<Rightarrow> ('w, AgentObservation) eff"
    and can :: "Message \<Rightarrow> bool"
    and script :: "'w \<Rightarrow> Message list"
    and advance :: "'w \<Rightarrow> 'w"
  assumes observes: "can m \<Longrightarrow> \<exists>obs w'. worker (Continuation (Some m) cu) w = (Inr obs, w') \<and>
      map tool_call_id (tool_messages obs) = map tc_id (tool_calls m) \<and> script w' = script w"
    and script_advance: "script (advance w) = tl (script w)"
begin

text \<open>A chat model that answers from the script.\<close>

definition scripted :: "FunctionToolSchema list \<Rightarrow> PromptValue \<Rightarrow> ('w, Message) eff" where
  "scripted tools pv w = (if script w = [] then (Inl OutOfRange, w) else (Inr (hd (script w)), advance w))"

abbreviation "resolve \<equiv> OpenAI_ResolveNextStep NoStopPredicate (OpenAIToolAgentPlanner_Invoke scripted) worker"

definition asks :: "Message \<Rightarrow> bool" where
  "asks m \<longleftrightarrow> can m \<and> tool_calls m \<noteq> [] \<and> distinct (map tc_id (tool_calls m))"

lemma plan_step:
  assumes "previous_steps state = [] \<or> has_observation (last (previous_steps state))" and "script w = m # ms"
  shows "\<exists>w'. script w' = ms \<and> resolve state w =
    (let step = Thought (if tool_calls m \<noteq> [] then Continuation (Some m) None
                         else Finish (empty_finish\<lparr>response := msg_content m\<rparr>))
     in (Inr (step, add_step step state), w'))"
proof -
  have "OpenAIToolAgentPlanner_Invoke scripted state w = (Inr (if tool_calls m \<noteq> [] then Continuation (Some m) None
      else Finish (empty_finish\<lparr>response := msg_content m\<rparr>)), advance w)"
    using assms(2) by (simp add: OpenAIToolAgentPlanner_Invoke_def Let_def scripted_def bindE_def)
  moreover have "script (advance w) = ms" using assms(2) by (simp add: script_advance)
  ultimately show ?thesis using assms(1)
    by (intro exI [of _ "advance w"]) (simp add: OpenAI_ResolveNextStep_def NoStopPredicate_def bindE_def Let_def)
qed

lemma work_step:
  assumes "previous_steps state \<noteq> []" and "last (previous_steps state) = Thought (Continuation (Some m) None)" and "asks m"
  shows "\<exists>obs w'. script w' = script w \<and> resolve state w = (Inr (Observation obs, add_step (Observation obs) state), w')"
proof -
  obtain obs w' where o: "worker (Continuation (Some m) None) w = (Inr obs, w')"
    "map tool_call_id (tool_messages obs) = map tc_id (tool_calls m)" "script w' = script w"
    using observes assms(3) unfolding asks_def by blast
  from o(2) assms(3) have "count_completed (tool_calls m) (tool_messages obs) = length (tool_calls m)"
    by (simp add: count_completed_answered asks_def)
  with o assms show ?thesis
    by (intro exI [of _ obs] exI [of _ w'])
      (simp add: OpenAI_ResolveNextStep_def NoStopPredicate_def asks_def bindE_def)
qed

lemma Stream_loop_finishes:
  assumes "\<forall>m \<in> set ms. asks m" and "tool_calls final = []" and "script w = ms @ final # rest"
    and "previous_steps state \<noteq> []" and "has_observation (last (previous_steps state))"
  shows "\<exists>out' w'. Stream_loop resolve (2 * length ms + 1) (last (previous_steps state)) state out w = Some (out', Inr (), w') \<and>
    out' \<noteq> [] \<and> last (previous_steps (last out')) = Thought (Finish (empty_finish\<lparr>response := msg_content final\<rparr>)) \<and> script w' = rest"
  using assms
proof (induction ms arbitrary: state out w)
  case Nil
  let ?s = "Thought (Finish (empty_finish\<lparr>response := msg_content final\<rparr>))"
  from Nil.prems plan_step [of state w final rest] obtain w' where
    "resolve state w = (Inr (?s, add_step ?s state), w')" "script w' = rest" by (auto simp: Let_def)
  moreover have "goes_on (last (previous_steps state))" using Nil.prems(5) by (simp add: goes_on_def)
  ultimately show ?case
    by (simp add: Stream_loop.simps goes_on_def)
next
  case (Cons m ms)
  let ?s = "Thought (Continuation (Some m) None)"
  have m: "asks m" "tool_calls m \<noteq> []" using Cons.prems(1) by (auto simp: asks_def)
  from Cons.prems m(2) plan_step [of state w m "ms @ final # rest"] obtain w1 where
    p: "resolve state w = (Inr (?s, add_step ?s state), w1)" "script w1 = ms @ final # rest" by (auto simp: Let_def)
  from work_step [of "add_step ?s state" m w1] m(1) obtain obs w2 where
    o: "resolve (add_step ?s state) w1 = (Inr (Observation obs, add_step (Observation obs) (add_step ?s state)), w2)"
    "script w2 = script w1" by auto
  let ?st = "add_step (Observation obs) (add_step ?s state)"
  have "goes_on (last (previous_steps state))" using Cons.prems(5) by (simp add: goes_on_def)
  then have "Stream_loop resolve (2 * length (m # ms) + 1) (last (previous_steps state)) state out w =
      Stream_loop resolve (2 * length ms + 1) (last (previous_steps ?st)) ?st (out @ [add_step ?s state, ?st]) w2"
    using p(1) o(1) by (subst Stream_loop.simps, simp, subst Stream_loop.simps, simp add: goes_on_def)
  moreover have "has_observation (last (previous_steps ?st))" by simp
  ultimately show ?case
    using Cons.IH [of w2 ?st "out @ [add_step ?s state, ?st]"] Cons.prems(1,2) p(2) o(2) by simp
qed

lemma Stream_finishes:
  assumes "\<forall>m \<in> set ms. asks m" and "tool_calls final = []" and "script w = ms @ [final]" and "previous_steps state = []"
  shows "\<exists>out w'. Stream resolve (2 * length ms) state w = Some (out, Inr (), w') \<and> out \<noteq> [] \<and>
    last (previous_steps (last out)) = Thought (Finish (empty_finish\<lparr>response := msg_content final\<rparr>))"
proof (cases ms)
  case Nil
  let ?s = "Thought (Finish (empty_finish\<lparr>response := msg_content final\<rparr>))"
  from Nil assms plan_step [of state w final "[]"] obtain w' where
    "resolve state w = (Inr (?s, add_step ?s state), w')" by (auto simp: Let_def)
  with Nil show ?thesis by (simp add: Stream_def Stream_loop.simps goes_on_def)
next
  case (Cons m ms')
  let ?s = "Thought (Continuation (Some m) None)"
  have m: "asks m" "tool_calls m \<noteq> []" using assms(1) Cons by (auto simp: asks_def)
  from m(2) plan_step [of state w m "ms' @ [final]"] Cons assms(3,4) obtain w1 where
    p: "resolve state w = (Inr (?s, add_step ?s state), w1)" "script w1 = ms' @ [final]" by (auto simp: Let_def)
  from work_step [of "add_step ?s state" m w1] m(1) obtain obs w2 where
    o: "resolve (add_step ?s state) w1 = (Inr (Observation obs, add_step (Observation obs) (add_step ?s state)), w2)"
    "script w2 = script w1" by auto
  let ?st = "add_step (Observation obs) (add_step ?s state)"
  have "Stream resolve (2 * length ms) state w =
      Stream_loop resolve (2 * length ms' + 1) (last (previous_steps ?st)) ?st [add_step ?s state, ?st] w2"
    using p(1) o(1) Cons by (simp add: Stream_def, subst Stream_loop.simps, simp add: goes_on_def)
  moreover have "has_observation (last (previous_steps ?st))" "script w2 = ms' @ final # []" using o(2) p(2) by simp_all
  ultimately show ?thesis
    using Stream_loop_finishes [of ms' final w2 "[]" ?st "[add_step ?s state, ?st]"] assms(1,2) Cons by auto
qed

end

text \<open>Local tools that compute an answer, or fail, without touching the world.\<close>

definition pure_tool :: "string \<times> (string \<Rightarrow> string + string) \<Rightarrow> 'w BaseFunctionTool" where
  "pure_tool p = \<lparr>GetSchema = \<lparr>tool_name = fst p, tool_description = []\<rparr>,
     Execute = (\<lambda>a w. (case snd p a of Inl s \<Rightarrow> Inl (RuntimeError s) | Inr v \<Rightarrow> Inr v, w)), max_attempts = 1\<rparr>"

definition pure_toolkit :: "(string \<times> (string \<Rightarrow> string + string)) list \<Rightarrow> 'w LocalFunctionToolkit" where
  "pure_toolkit fs = CreateLocalToolkit (map pure_tool fs)"

lemma pure_toolkit_lookup:
  fixes tool :: "'w BaseFunctionTool"
  assumes "functions_map (pure_toolkit fs) n = Some tool"
  shows "\<exists>p. tool = pure_tool p"
proof -
  from assms
  have "find (\<lambda>t. tool_name (GetSchema t) = n) (map pure_tool fs) = Some tool"
    using local_toolkit.lookup_all [of "map pure_tool fs :: 'w BaseFunctionTool list" n] by (simp add: pure_toolkit_def CreateLocalToolkit_def)
  then have "tool \<in> set (map pure_tool fs)" by (auto simp: find_Some_iff)
  then show ?thesis by auto
qed

abbreviation "pure_worker fs \<equiv> LocalToolkitsWorker_Invoke (ret ''id'') [pure_toolkit fs]"

interpretation pure_worker: answering_worker "pure_worker fs"
  "\<lambda>m. \<forall>call \<in> set (tool_calls m). served [pure_toolkit fs :: Message list LocalFunctionToolkit] call" id tl
proof unfold_locales
  fix m :: Message and cu and w :: "Message list"
  assume "\<forall>call \<in> set (tool_calls m). served [pure_toolkit fs :: Message list LocalFunctionToolkit] call"
  moreover have "tame [pure_toolkit fs :: Message list LocalFunctionToolkit]"
    by (auto simp: tame_def tame_tool_def pure_tool_def dest!: pure_toolkit_lookup split: sum.splits)
  ultimately obtain obs w' where o: "pure_worker fs (Continuation (Some m) cu) w = (Inr obs, w')"
    "map tool_call_id (tool_messages obs) = map tc_id (tool_calls m)"
    using worker_answers [of m "[pure_toolkit fs :: Message list LocalFunctionToolkit]" "ret ''id''" cu w] by blast
  have "preserves (\<lambda>s. s = w) (pure_worker fs (Continuation (Some m) cu))"
    by (rule preserves_worker) (auto intro: eff_rules simp: preserves_def pure_tool_def dest!: pure_toolkit_lookup)
  from preservesD [OF this refl o(1)] o show "\<exists>obs w'. pure_worker fs (Continuation (Some m) cu) w = (Inr obs, w') \<and>
      map tool_call_id (tool_messages obs) = map tc_id (tool_calls m) \<and> id w' = id w" by auto
qed simp

section \<open>Properties\<close>



text \<open>
  C39: a run comes to an end. When the model asks for served tools a number of times and then
  answers without tool calls, the stream, started on a fresh state, completes after at most two steps per
  request and one more, and its last step is the final answer.
\<close>

theorem agent_run_finishes:
  assumes "\<forall>m \<in> set ms. pure_worker.asks fs m" and "tool_calls final = []"
  shows "\<exists>out w'. Stream (OpenAI_ResolveNextStep NoStopPredicate
        (OpenAIToolAgentPlanner_Invoke pure_worker.scripted) (pure_worker fs))
      (2 * length ms) (InitializeState input) (ms @ [final]) = Some (out, Inr (), w') \<and> out \<noteq> [] \<and>
    last (previous_steps (last out)) = Thought (Finish (empty_finish\<lparr>response := msg_content final\<rparr>))"
  by (rule pure_worker.Stream_finishes) (use assms in \<open>simp_all add: InitializeState_def\<close>)

theorem agent_run_finishes_witness:
  "\<exists>out w'. Stream (OpenAI_ResolveNextStep NoStopPredicate
        (OpenAIToolAgentPlanner_Invoke pure_worker.scripted) (pure_worker [(''t'', Inr)]))
      2 (InitializeState (StringPrompt ''q''))
      [empty_message\<lparr>tool_calls := [\<lparr>tc_id = ''c1'', tc_is_function = True, fn_name = ''t'', fn_arguments = ''x''\<rparr>]\<rparr>,
       empty_message\<lparr>msg_content := ''done''\<rparr>] = Some (out, Inr (), w') \<and>
    last (previous_steps (last out)) = Thought (Finish (empty_finish\<lparr>response := ''done''\<rparr>))"
proof -
  let ?m = "empty_message\<lparr>tool_calls := [\<lparr>tc_id = ''c1'', tc_is_function = True, fn_name = ''t'', fn_arguments = ''x''\<rparr>]\<rparr>"
  have "functions_map (pure_toolkit [(''t'', Inr)] :: Message list LocalFunctionToolkit) ''t'' = Some (pure_tool (''t'', Inr))"
    by (simp add: pure_toolkit_def CreateLocalToolkit_def RegisterFunctionTool_def new_toolkit_def pure_tool_def Let_def)
  then have "\<forall>m \<in> set [?m]. pure_worker.asks [(''t'', Inr)] m"
    unfolding pure_worker.asks_def by (simp add: served_def IsBlankString_iff IsNotBlankString_def isspace_def)
  from agent_run_finishes [OF this, of "empty_message\<lparr>msg_content := ''done''\<rparr>" "StringPrompt ''q''"]
  show ?thesis by (auto simp: empty_message_def)
qed

end
