(* ===== verification/LLM_Compiler.thy ===== *)
theory LLM_Compiler
  imports OpenAI_Agent Snowflake
begin

text \<open>
  \<^verbatim>\<open>instinct-llm/include/agent/patterns/llm_compiler/\<close>: the task graph
  (\<^verbatim>\<open>TaskGraphUtils.hpp\<close>), the executor (\<^verbatim>\<open>LLMCompilerAgentExecutor.hpp\<close>) and the parsers of
  the planner's and the joiner's answer (\<^verbatim>\<open>LLMCompilerPlanerThoughtOutputParser.hpp\<close>,
  \<^verbatim>\<open>LLMCompilerJoinerResultOutputParser.hpp\<close>).

  Planner and joiner call a language model and are effects given to the executor. The regular
  expressions of the parsers are written out as matchers with the backtracking of
  \<open>std::regex\<close>; the pattern \<open>\$\{?(\d)\}?\<close> for references is matched by \<open>dep_matches\<close>.
  A plan's ids come from the effect \<open>gen_id\<close>, the generator of object ids.
\<close>

section \<open>The task graph\<close>

definition is_join :: "LLMCompilerTask \<Rightarrow> bool" where
  "is_join task \<longleftrightarrow> fn_name (task_call task) = ''join''"

definition has_answer :: "LLMCompilerTask \<Rightarrow> bool" where
  "has_answer task = (case task_result task of None \<Rightarrow> False | Some m \<Rightarrow> IsNotBlankString (msg_content m))"

definition finished :: "LLMCompilerTaskGraph \<Rightarrow> int set" where
  "finished graph = set (map task_index (filter has_answer (tasks graph)))"

definition FindNextTasks :: "LLMCompilerTaskGraph \<Rightarrow> int list" where
  "FindNextTasks graph =
     map task_index
       (filter (\<lambda>task. \<not> is_join task \<and> task_index task \<notin> finished graph \<and>
                       (list_all (\<lambda>idx. idx \<in> finished graph) (dependencies task) \<or> dependencies task = []))
          (tasks graph))"

definition isdigit :: "char \<Rightarrow> bool" where
  "isdigit c \<longleftrightarrow> c \<in> set ''0123456789''"

definition digit_value :: "char \<Rightarrow> int" where
  "digit_value c = of_char c - 48"

text \<open>The match of the reference pattern at the start of a string: its text and its digit.\<close>

fun dep_match_at :: "string \<Rightarrow> (string \<times> int) option" where
  "dep_match_at (a # b # rest) =
     (if a \<noteq> CHR ''$'' then None
      else if b = CHR ''{'' then
        (case rest of
           [] \<Rightarrow> None
         | d # r \<Rightarrow> if \<not> isdigit d then None
                    else Some (if take 1 r = ''}'' then [a, b, d, CHR ''}''] else [a, b, d], digit_value d))
      else if isdigit b then Some (if take 1 rest = ''}'' then [a, b, CHR ''}''] else [a, b], digit_value b)
      else None)"
| "dep_match_at _ = None"

lemma dep_match_at_length: "dep_match_at s = Some (m, d) \<Longrightarrow> 0 < length m \<and> 0 < length s"
  by (induction s rule: dep_match_at.induct) (auto split: if_splits list.splits)

function dep_matches :: "string \<Rightarrow> (string \<times> int) list" where
  "dep_matches s =
     (case dep_match_at s of
        Some (m, d) \<Rightarrow> (m, d) # dep_matches (drop (length m) s)
      | None \<Rightarrow> (case s of [] \<Rightarrow> [] | _ # r \<Rightarrow> dep_matches r))"
  by pat_completeness auto
termination by (relation "measure length") (auto dest: dep_match_at_length)

declare dep_matches.simps [simp del]

text \<open>\<open>id_index\<close>: the last position with that index; \<open>operator[]\<close> of a missing key gives 0.\<close>

definition id_index :: "LLMCompilerTaskGraph \<Rightarrow> int \<Rightarrow> nat option" where
  "id_index graph ident =
     (let hits = filter (\<lambda>i. task_index (tasks graph ! i) = ident) [0 ..< length (tasks graph)]
      in if hits = [] then None else Some (last hits))"

definition result_content :: "LLMCompilerTask \<Rightarrow> string" where
  "result_content task = (case task_result task of None \<Rightarrow> [] | Some m \<Rightarrow> msg_content m)"

definition replace_first :: "string \<Rightarrow> string \<Rightarrow> string \<Rightarrow> string result" where
  "replace_first args place_holder content =
     (let pos = find_pos place_holder args 0
      in if pos < 0 then Inl OutOfRange
         else Inr (take (nat pos) args @ content @ drop (nat pos + length place_holder) args))"

fun substitute :: "LLMCompilerTaskGraph \<Rightarrow> (string \<times> int) list \<Rightarrow> string \<Rightarrow> string result" where
  "substitute graph [] args = Inr args"
| "substitute graph ((place_holder, action_id) # ms) args =
     (let dep_task = tasks graph ! (case id_index graph action_id of None \<Rightarrow> 0 | Some i \<Rightarrow> i)
      in bindR (replace_first args place_holder (result_content dep_task)) (substitute graph ms))"

definition build_call :: "LLMCompilerTaskGraph \<Rightarrow> int \<Rightarrow> ToolCallObject result" where
  "build_call graph ident =
     (case id_index graph ident of
        None \<Rightarrow> Inl (ClientException (''Assigned task id should exist in graph. id='' @ show_int ident))
      | Some i \<Rightarrow>
          (let call = task_call (tasks graph ! i)
           in bindR (substitute graph (dep_matches (fn_arguments call)) (fn_arguments call))
                (\<lambda>args. Inr (call\<lparr>fn_arguments := args\<rparr>))))"

definition BuildToolCallRequest :: "LLMCompilerTaskGraph \<Rightarrow> int list \<Rightarrow> Message \<Rightarrow> Message result" where
  "BuildToolCallRequest graph next_task_ids request =
     bindR (mapR (build_call graph) next_task_ids) (\<lambda>calls.
       Inr (if next_task_ids = [] then request
            else request\<lparr>tool_calls := tool_calls request @ calls, msg_role := ''assistant''\<rparr>))"

record ScratchPadFormatOptions =
  include_action :: bool
  include_thought :: bool
  include_action_id :: bool

definition scratch_entry :: "ScratchPadFormatOptions \<Rightarrow> LLMCompilerTask \<Rightarrow> string" where
  "scratch_entry opts task =
     (if is_join task \<or> \<not> IsNotBlankString (result_content task) then []
      else (if include_thought opts \<and> IsNotBlankString (task_thought task)
            then ''Thought: '' @ task_thought task @ [CHR 0x0A] else []) @
           (if include_action opts
            then (if include_action_id opts then show_int (task_index task) @ ''.'' else []) @
                 fn_name (task_call task) @ ''('' @ fn_arguments (task_call task) @ '')'' @ [CHR 0x0A] else []) @
           ''Observation: '' @ result_content task @ [CHR 0x0A])"

definition BuildAgentScratchPad :: "ScratchPadFormatOptions \<Rightarrow> LLMCompilerTaskGraph \<Rightarrow> string \<Rightarrow> string" where
  "BuildAgentScratchPad opts graph output = output @ concat (map (scratch_entry opts) (tasks graph))"

section \<open>The executor\<close>

text \<open>Each message goes to the tasks whose call it answers; a later message overwrites an earlier one.\<close>

definition set_results :: "Message list \<Rightarrow> LLMCompilerTaskGraph \<Rightarrow> LLMCompilerTaskGraph" where
  "set_results msgs graph =
     graph\<lparr>tasks := map (\<lambda>task. fold (\<lambda>m task. if tool_call_id m = tc_id (task_call task) then task\<lparr>task_result := Some m\<rparr> else task)
                                   msgs task) (tasks graph)\<rparr>"

definition illegal_state :: exn where
  "illegal_state = InstinctException ''IllegalState for LLMCompilerAgentExectuor''"

definition after_observation :: "(AgentState \<Rightarrow> ('w, AgentThought) eff) \<Rightarrow>
    (LLMCompilerTaskGraph \<Rightarrow> ('w, LLMCompilerJoinerResult) eff) \<Rightarrow> AgentObservation \<Rightarrow> AgentState \<Rightarrow>
    ('w, AgentStep \<times> AgentState) eff" where
  "after_observation planner joiner obs state =
     (case observation_custom obs of
        None \<Rightarrow> throw (ClientException ''should have LLMCompilerTaskGraph as custom data in the observation step'')
      | Some graph \<Rightarrow>
          (let next_ids = FindNextTasks graph in
           if next_ids \<noteq> [] then
             bindE (liftR (BuildToolCallRequest graph next_ids empty_message)) (\<lambda>request.
               let step = Thought (Continuation (Some request) (Some graph)) in ret (step, add_step step state))
           else
             (let graph = graph\<lparr>question := ExtractLatestPromptString (state_input state)\<rparr> in
              bindE (joiner graph) (\<lambda>joined.
                let graph = graph\<lparr>joiner_result := Some joined\<rparr>;
                    state = state\<lparr>previous_steps := butlast (previous_steps state) @
                              [Observation (obs\<lparr>observation_custom := Some graph\<rparr>)]\<rparr> in
                if is_replan joined then
                  bindE (planner state) (\<lambda>thought.
                    bindE (assert_true (case thought of Continuation _ (Some _) \<Rightarrow> True | _ \<Rightarrow> False)
                             ''should have LLMCompilerTaskGraph as custom data in the thought message'') (\<lambda>_.
                      ret (Thought thought, add_step (Thought thought) state)))
                else
                  (let step = Thought (Finish (empty_finish\<lparr>response := joiner_answer joined, finish_custom := Some graph\<rparr>))
                   in ret (step, add_step step state))))))"

definition after_calls :: "(AgentThought \<Rightarrow> ('w, AgentObservation) eff) \<Rightarrow> Message \<Rightarrow> LLMCompilerTaskGraph option \<Rightarrow>
    AgentState \<Rightarrow> ('w, AgentStep \<times> AgentState) eff" where
  "after_calls worker m custom state =
     (case custom of
        None \<Rightarrow> throw (ClientException ''should contain LLMCompilerTaskGraph in custom data in the thought step'')
      | Some graph \<Rightarrow>
          bindE (assert_gt (int (length (tasks graph))) 1 ''There should be more than one task in LLMCompilerTaskGraph'') (\<lambda>_.
          bindE (worker (Continuation (Some m) custom)) (\<lambda>obs.
            let graph = set_results (tool_messages obs) graph;
                step = (if count_completed (tool_calls m) (tool_messages obs) \<noteq> length (tool_calls m)
                        then Thought (Pause (tool_messages obs) (Some m) (Some graph))
                        else Observation (obs\<lparr>observation_custom := Some graph\<rparr>))
            in ret (step, add_step step state))))"

definition LLMCompiler_ResolveNextStep :: "'w StopPredicate \<Rightarrow> (AgentState \<Rightarrow> ('w, AgentThought) eff) \<Rightarrow>
    (AgentThought \<Rightarrow> ('w, AgentObservation) eff) \<Rightarrow> (LLMCompilerTaskGraph \<Rightarrow> ('w, LLMCompilerJoinerResult) eff) \<Rightarrow>
    AgentState \<Rightarrow> ('w, AgentStep \<times> AgentState) eff" where
  "LLMCompiler_ResolveNextStep should_early_stop planner worker joiner state =
     bindE (should_early_stop state) (\<lambda>(stop, stop_step).
      let steps = previous_steps state in
      if stop then ret (stop_step, state)
      else if steps = [] then bindE (planner state) (\<lambda>thought. ret (Thought thought, add_step (Thought thought) state))
      else
        (case last steps of
           Observation obs \<Rightarrow> after_observation planner joiner obs state
         | Thought (Pause done (Some m) custom) \<Rightarrow>
             (case custom of
                None \<Rightarrow> throw (ClientException ''should contain LLMCompilerTaskGraph in custom data in the pause step'')
              | Some graph \<Rightarrow>
                  if length (tool_calls m) = length done
                  then (let step = Observation \<lparr>tool_messages = done, observation_custom = Some (set_results done graph)\<rparr>
                        in ret (step, add_step step state))
                  else throw illegal_state)
         | Thought (Continuation (Some m) custom) \<Rightarrow>
             if tool_calls m \<noteq> [] then after_calls worker m custom state else throw illegal_state
         | _ \<Rightarrow> throw illegal_state))"

section \<open>The regular expressions of the two parsers\<close>

text \<open>
  \<open>.\<close> matches all but line ends. \<open>\s*\<close> takes as much as it can and gives characters back
  one by one when what follows does not match; so does \<open>.+\<close>. \<open>first_some\<close> tries the
  alternatives in that order.
\<close>

definition dot :: "char \<Rightarrow> bool" where
  "dot c \<longleftrightarrow> c \<noteq> CHR 0x0A \<and> c \<noteq> CHR 0x0D"

fun first_some :: "('a \<Rightarrow> 'b option) \<Rightarrow> 'a list \<Rightarrow> 'b option" where
  "first_some f [] = None"
| "first_some f (x # xs) = (case f x of Some y \<Rightarrow> Some y | None \<Rightarrow> first_some f xs)"

definition skips :: "string \<Rightarrow> string list" where
  "skips s = map (\<lambda>k. drop k s) (rev [0 ..< Suc (length (takeWhile isspace s))])"

text \<open>\<open>\s*(.+)\<close>\<close>

definition line_capture :: "string \<Rightarrow> string option" where
  "line_capture s = first_some (\<lambda>r. if takeWhile dot r = [] then None else Some (takeWhile dot r)) (skips s)"

text \<open>\<open>\s*(.+)\(([^\)]*)\)\<close>: the two captures and the rest behind the match.\<close>

definition call_at :: "string \<Rightarrow> nat \<Rightarrow> (string \<times> string \<times> string) option" where
  "call_at r n =
     (case drop n r of
        [] \<Rightarrow> None
      | c # args \<Rightarrow>
          if c = CHR ''('' \<and> CHR '')'' \<in> set args
          then Some (take n r, takeWhile (\<lambda>x. x \<noteq> CHR '')'') args, tl (dropWhile (\<lambda>x. x \<noteq> CHR '')'') args))
          else None)"

definition call_capture :: "string \<Rightarrow> (string \<times> string \<times> string) option" where
  "call_capture s = first_some (\<lambda>r. first_some (call_at r) (rev [1 ..< Suc (length (takeWhile dot r))])) (skips s)"

text \<open>\<open>regex_search\<close> of a literal followed by one of the two.\<close>

fun search_after :: "string \<Rightarrow> (string \<Rightarrow> 'a option) \<Rightarrow> string \<Rightarrow> 'a option" where
  "search_after token f [] = None"
| "search_after token f (x # xs) =
     (case (if take (length token) (x # xs) = token then f (drop (length token) (x # xs)) else None) of
        Some y \<Rightarrow> Some y
      | None \<Rightarrow> search_after token f xs)"

text \<open>\<open>(\d+)\.\s*(.+)\(([^\)]*)\)\<close> at the start of a string, and all matches in a text.\<close>

definition action_at :: "string \<Rightarrow> (string \<times> string \<times> string \<times> string) option" where
  "action_at s =
     (let ds = takeWhile isdigit s; r = dropWhile isdigit s
      in if ds = [] \<or> take 1 r \<noteq> ''.'' then None
         else map_option (\<lambda>(name, args, rest). (ds, name, args, rest)) (call_capture (tl r)))"

lemma first_some_SomeE: "first_some f xs = Some y \<Longrightarrow> \<exists>x \<in> set xs. f x = Some y"
  by (induction xs) (auto split: option.splits)

lemma call_capture_shorter: "call_capture s = Some (name, args, rest) \<Longrightarrow> length rest < length s"
proof -
  assume "call_capture s = Some (name, args, rest)"
  then obtain r n where r: "r \<in> set (skips s)" "call_at r n = Some (name, args, rest)"
    unfolding call_capture_def by (blast dest!: first_some_SomeE)
  from r(2) obtain c a where "drop n r = c # a" "rest = tl (dropWhile (\<lambda>x. x \<noteq> CHR '')'') a)" "CHR '')'' \<in> set a"
    by (auto simp: call_at_def split: list.splits if_splits)
  moreover have "length (tl (dropWhile (\<lambda>x. x \<noteq> CHR '')'') a)) \<le> length a"
    using length_dropWhile_le [of "\<lambda>x. x \<noteq> CHR '')''" a] by simp
  moreover have "length (drop n r) \<le> length s" using r(1) by (auto simp: skips_def)
  ultimately show ?thesis by (metis length_Cons less_Suc_eq_le order_trans not_less)
qed

lemma action_at_shorter: "action_at s = Some (ds, name, args, rest) \<Longrightarrow> length rest < length s"
proof -
  assume "action_at s = Some (ds, name, args, rest)"
  then have "call_capture (tl (dropWhile isdigit s)) = Some (name, args, rest)"
    by (auto simp: action_at_def Let_def split: if_splits)
  from call_capture_shorter [OF this] length_dropWhile_le [of isdigit s] show ?thesis by simp
qed

function action_matches :: "string \<Rightarrow> (string \<times> string \<times> string) list" where
  "action_matches s =
     (case action_at s of
        Some (ds, name, args, rest) \<Rightarrow> (ds, name, args) # action_matches rest
      | None \<Rightarrow> (case s of [] \<Rightarrow> [] | _ # r \<Rightarrow> action_matches r))"
  by pat_completeness auto
termination by (relation "measure length") (auto dest: action_at_shorter)

declare action_matches.simps [simp del]

section \<open>The planner's answer\<close>

definition stol :: "string \<Rightarrow> int result" where
  "stol ds = (let n = fold (\<lambda>c n. 10 * n + digit_value c) ds 0 in if n < 2 ^ 63 then Inr n else Inl OutOfRange)"

definition clip_plan :: "string \<Rightarrow> string" where
  "clip_plan content =
     (let idx = find_pos ''<END_OF_PLAN>'' content 0 in if idx \<noteq> -1 then take (nat idx) content else content)"

definition new_call :: "string \<Rightarrow> string \<Rightarrow> string \<Rightarrow> ToolCallObject" where
  "new_call ident name args = \<lparr>tc_id = ident, tc_is_function = True, fn_name = name, fn_arguments = args\<rparr>"

fun parse_actions :: "('w, string) eff \<Rightarrow> (string \<times> string \<times> string) list \<Rightarrow> ('w, LLMCompilerTask list) eff" where
  "parse_actions gen_id [] = ret []"
| "parse_actions gen_id ((ds, name, args) # ms) =
     bindE (liftR (stol ds)) (\<lambda>idx.
     bindE gen_id (\<lambda>ident.
     bindE (forE (\<lambda>dep. assert_true (dep < idx) ''Resolved invalid dependeant task index.'') (map snd (dep_matches args))) (\<lambda>_.
       let deps = map snd (dep_matches args);
           task = \<lparr>task_index = idx, task_call = new_call ident name args,
                   dependencies = (if name = ''join'' then deps @ [1 .. idx - 1] else deps),
                   task_thought = [], task_result = None\<rparr>
       in if name = ''join'' then ret [task]
          else bindE (parse_actions gen_id ms) (\<lambda>ts. ret (task # ts)))))"

definition Planer_ParseResult :: "('w, string) eff \<Rightarrow> string \<Rightarrow> ('w, AgentThought) eff" where
  "Planer_ParseResult gen_id generation =
     (let content = clip_plan generation;
          thought_line = (case search_after ''Thought:'' line_capture content of None \<Rightarrow> [] | Some t \<Rightarrow> t) in
      bindE (parse_actions gen_id (action_matches content)) (\<lambda>ts.
        if ts = [] then ret (Finish (empty_finish\<lparr>response := content\<rparr>))
        else
          (let first_batch = map task_call (filter (\<lambda>t. \<not> is_join t \<and> dependencies t = []) ts);
               finish = (\<lambda>ts. ret (Continuation (Some (empty_message\<lparr>msg_content := thought_line, tool_calls := first_batch\<rparr>))
                                    (Some \<lparr>tasks = ts, question = [], joiner_result = None\<rparr>))) in
           if list_ex is_join ts then finish ts
           else bindE gen_id (\<lambda>ident.
                  finish (ts @ [\<lparr>task_index = int (length ts) + 1, task_call = new_call ident ''join'' [],
                                 dependencies = [1 .. int (length ts)], task_thought = [], task_result = None\<rparr>])))))"

section \<open>The joiner's answer\<close>

record JoinerParserOptions =
  replan_action_name :: string
  answer_for_unknown :: string

definition default_joiner_options :: JoinerParserOptions where
  "default_joiner_options = \<lparr>replan_action_name = ''Replan'', answer_for_unknown = ''Unknown''\<rparr>"

definition Joiner_ParseResult :: "JoinerParserOptions \<Rightarrow> string \<Rightarrow> LLMCompilerJoinerResult" where
  "Joiner_ParseResult opts content =
     (let result = \<lparr>is_replan = False, joiner_answer = [],
                    joiner_thought = (case search_after ''Thought:'' line_capture content of None \<Rightarrow> [] | Some t \<Rightarrow> t)\<rparr>;
          result = (case search_after ''Action:'' call_capture content of
              None \<Rightarrow> result
            | Some (act, answer, _) \<Rightarrow>
                result\<lparr>is_replan := find_pos (replan_action_name opts) act 0 \<noteq> -1, joiner_answer := answer\<rparr>)
      in if \<not> is_replan result \<and> IsBlankString (joiner_answer result)
         then result\<lparr>joiner_answer := answer_for_unknown opts\<rparr> else result)"

end
