(* ===== verification/LLM_Compiler_Correct.thy ===== *)
theory LLM_Compiler_Correct
  imports LLM_Compiler
begin

text \<open>
  What the plan parser, the task graph and the executor of the LLM compiler guarantee.
\<close>

section \<open>Plans\<close>

definition plan_ok :: "LLMCompilerTask list \<Rightarrow> bool" where
  "plan_ok ts \<longleftrightarrow> (\<forall>t \<in> set ts. task_result t = None \<and> (\<forall>d \<in> set (dependencies t). d < task_index t))"

lemma forE_assert: "forE (\<lambda>x. assert_true (P x) msg) xs w = (Inr (), w') \<Longrightarrow> w' = w \<and> (\<forall>x \<in> set xs. P x)"
  by (induction xs arbitrary: w) (auto simp: bindE_def assert_true_def split: if_splits)

lemma forE_assert_InrE:
  assumes "forE (\<lambda>x. assert_true (P x) msg) xs w = (Inr u, w')"
  obtains "w' = w" "\<forall>x \<in> set xs. P x"
  using forE_assert [of P msg xs w w'] assms by (cases u) blast

text \<open>Only the last task of a parsed list can be the join.\<close>

lemma parse_actions_ok:
  assumes "parse_actions gen_id ms w = (Inr ts, w')"
  shows "plan_ok ts \<and> (\<forall>t \<in> set (butlast ts). \<not> is_join t)"
  using assms
proof (induction gen_id ms arbitrary: ts w w' rule: parse_actions.induct)
  case (1 gen_id)
  then show ?case by (simp add: plan_ok_def)
next
  case (2 gen_id ds name args ms)
  let ?deps = "map snd (dep_matches args)"
  from 2(2) obtain idx w1 ident w2 u w3 where
    s: "forE (\<lambda>dep. assert_true (dep < idx) ''Resolved invalid dependeant task index.'') ?deps w2 = (Inr u, w3)"
    and tail: "(let task = \<lparr>task_index = idx, task_call = new_call ident name args,
           dependencies = (if name = ''join'' then ?deps @ [1 .. idx - 1] else ?deps), task_thought = [], task_result = None\<rparr>
       in if name = ''join'' then ret [task] else bindE (parse_actions gen_id ms) (\<lambda>ts. ret (task # ts))) w3 = (Inr ts, w')"
    by (simp only: parse_actions.simps Let_def) (elim bindE_InrE, blast)
  from s have lt: "\<forall>d \<in> set ?deps. d < idx" by (elim forE_assert_InrE)
  define task where "task = \<lparr>task_index = idx, task_call = new_call ident name args,
       dependencies = (if name = ''join'' then ?deps @ [1 .. idx - 1] else ?deps), task_thought = [], task_result = None\<rparr>"
  have ok: "plan_ok [task]" using lt by (auto simp: plan_ok_def task_def)
  show ?case
  proof (cases "name = ''join''")
    case True
    with tail have "ts = [task]" by (simp add: task_def Let_def)
    with ok show ?thesis by simp
  next
    case False
    with tail obtain ts' where ts: "parse_actions gen_id ms w3 = (Inr ts', w')" "ts = task # ts'"
      by (auto simp: task_def Let_def elim!: bindE_InrE)
    have "\<not> is_join task" using False by (simp add: is_join_def task_def new_call_def)
    with 2(1) [OF refl refl False ts(1)] ok show ?thesis using ts(2) by (auto simp: plan_ok_def)
  qed
qed

lemma finished_fresh: "plan_ok ts \<Longrightarrow> finished \<lparr>tasks = ts, question = q, joiner_result = j\<rparr> = {}"
  by (auto simp: finished_def plan_ok_def has_answer_def)

section \<open>The graph\<close>

definition unfinished :: "LLMCompilerTaskGraph \<Rightarrow> LLMCompilerTask list" where
  "unfinished g = filter (\<lambda>t. \<not> is_join t \<and> \<not> has_answer t) (tasks g)"

definition open_tasks :: "LLMCompilerTaskGraph \<Rightarrow> LLMCompilerTask list" where
  "open_tasks g = filter (\<lambda>t. \<not> is_join t \<and> task_index t \<notin> finished g \<and>
     (list_all (\<lambda>idx. idx \<in> finished g) (dependencies t) \<or> dependencies t = [])) (tasks g)"

lemma FindNextTasks_open: "FindNextTasks g = map task_index (open_tasks g)"
  by (simp add: FindNextTasks_def open_tasks_def)

lemma open_task_unanswered: "t \<in> set (open_tasks g) \<Longrightarrow> t \<in> set (tasks g) \<and> \<not> is_join t \<and> \<not> has_answer t"
  by (auto simp: open_tasks_def finished_def)

lemma finished_member: "i \<in> finished g \<longleftrightarrow> (\<exists>t \<in> set (tasks g). has_answer t \<and> task_index t = i)"
  by (auto simp: finished_def)

lemma id_index_distinct:
  assumes "distinct (map task_index (tasks g))" and "t \<in> set (tasks g)"
  shows "\<exists>i. id_index g (task_index t) = Some i \<and> i < length (tasks g) \<and> tasks g ! i = t"
proof -
  obtain i where i: "i < length (tasks g)" "tasks g ! i = t" using assms(2) by (auto simp: in_set_conv_nth)
  have "filter (\<lambda>j. task_index (tasks g ! j) = task_index t) [0 ..< length (tasks g)] =
      filter (\<lambda>j. j = i) [0 ..< length (tasks g)]"
  proof (rule filter_cong [OF refl])
    fix j assume "j \<in> set [0 ..< length (tasks g)]"
    then have "map task_index (tasks g) ! j = map task_index (tasks g) ! i \<longleftrightarrow> j = i"
      using nth_eq_iff_index_eq [OF assms(1), of j i] i(1) by simp
    with \<open>j \<in> _\<close> i show "task_index (tasks g ! j) = task_index t \<longleftrightarrow> j = i" by simp
  qed
  also have "\<dots> = [i]" using i(1) by (intro filter_eq_distinct) auto
  finally show ?thesis using i by (simp add: id_index_def)
qed

text \<open>What answers do to a task.\<close>

definition answer_task :: "Message list \<Rightarrow> LLMCompilerTask \<Rightarrow> LLMCompilerTask" where
  "answer_task msgs t =
     fold (\<lambda>m task. if tool_call_id m = tc_id (task_call task) then task\<lparr>task_result := Some m\<rparr> else task) msgs t"

lemma answer_task_fields [simp]:
  "task_call (answer_task msgs t) = task_call t" "task_index (answer_task msgs t) = task_index t"
  "dependencies (answer_task msgs t) = dependencies t" "is_join (answer_task msgs t) = is_join t"
proof -
  have "task_call (answer_task msgs t) = task_call t \<and> task_index (answer_task msgs t) = task_index t \<and>
      dependencies (answer_task msgs t) = dependencies t"
    unfolding answer_task_def by (induction msgs arbitrary: t) auto
  then show "task_call (answer_task msgs t) = task_call t" "task_index (answer_task msgs t) = task_index t"
    "dependencies (answer_task msgs t) = dependencies t" "is_join (answer_task msgs t) = is_join t"
    by (simp_all add: is_join_def)
qed

lemma answer_task_other:
  "\<forall>m \<in> set msgs. tool_call_id m \<noteq> tc_id (task_call t) \<Longrightarrow> answer_task msgs t = t"
  unfolding answer_task_def by (induction msgs) auto

lemma answer_task_result:
  "\<exists>m \<in> set msgs. tool_call_id m = tc_id (task_call t) \<Longrightarrow>
   \<exists>m \<in> set msgs. task_result (answer_task msgs t) = Some m"
proof (induction msgs rule: rev_induct)
  case (snoc m msgs)
  have call: "task_call (answer_task msgs t) = task_call t" by simp
  show ?case
  proof (cases "tool_call_id m = tc_id (task_call t)")
    case True
    with call have "task_result (answer_task (msgs @ [m]) t) = Some m" by (simp add: answer_task_def)
    then show ?thesis by auto
  next
    case False
    with call have "answer_task (msgs @ [m]) t = answer_task msgs t" by (simp add: answer_task_def)
    with False snoc show ?thesis by auto
  qed
qed simp

lemma set_results_tasks: "tasks (set_results msgs g) = map (answer_task msgs) (tasks g)"
  by (simp add: set_results_def answer_task_def)

lemma answered_nonblank:
  assumes "\<forall>m \<in> set msgs. IsNotBlankString (msg_content m)"
  shows "has_answer (answer_task msgs t) \<longleftrightarrow> has_answer t \<or> (\<exists>m \<in> set msgs. tool_call_id m = tc_id (task_call t))"
proof (cases "\<exists>m \<in> set msgs. tool_call_id m = tc_id (task_call t)")
  case True
  with answer_task_result [OF this] assms show ?thesis by (auto simp: has_answer_def)
next
  case False
  then show ?thesis by (simp add: answer_task_other)
qed

lemma unfinished_decreases:
  assumes nb: "\<forall>m \<in> set msgs. IsNotBlankString (msg_content m)"
    and t: "t \<in> set (unfinished g)" "\<exists>m \<in> set msgs. tool_call_id m = tc_id (task_call t)"
  shows "length (unfinished (set_results msgs g)) < length (unfinished g)"
proof -
  let ?P = "\<lambda>t. \<not> is_join t \<and> \<not> has_answer t \<and> \<not> (\<exists>m \<in> set msgs. tool_call_id m = tc_id (task_call t))"
  have "length (unfinished (set_results msgs g)) = length (filter ?P (tasks g))"
    by (simp add: unfinished_def set_results_tasks filter_map comp_def answered_nonblank [OF nb] conj_ac)
  also have "filter ?P (tasks g) = filter (\<lambda>t. \<not> (\<exists>m \<in> set msgs. tool_call_id m = tc_id (task_call t))) (unfinished g)"
    by (simp add: unfinished_def conj_ac)
  also have "length \<dots> < length (unfinished g)"
    by (rule length_filter_less [OF t(1)]) (use t(2) in simp)
  finally show ?thesis .
qed

section \<open>One round of the executor\<close>

abbreviation "lc_resolve planner worker joiner \<equiv> LLMCompiler_ResolveNextStep NoStopPredicate planner worker joiner"

lemma resolve_request:
  assumes "previous_steps state \<noteq> []" and "last (previous_steps state) = Observation obs" and "observation_custom obs = Some g"
    and "FindNextTasks g \<noteq> []" and "BuildToolCallRequest g (FindNextTasks g) empty_message = Inr r"
  shows "lc_resolve planner worker joiner state w =
    (Inr (Thought (Continuation (Some r) (Some g)), add_step (Thought (Continuation (Some r) (Some g))) state), w)"
  using assms by (simp add: LLMCompiler_ResolveNextStep_def NoStopPredicate_def after_observation_def Let_def)

lemma resolve_calls:
  assumes "tool_calls r \<noteq> []" and "1 < length (tasks g)" and "worker (Continuation (Some r) (Some g)) w = (Inr obs, w')"
    and "count_completed (tool_calls r) (tool_messages obs) = length (tool_calls r)"
  shows "lc_resolve planner worker joiner (add_step (Thought (Continuation (Some r) (Some g))) state) w =
    (let step = Observation (obs\<lparr>observation_custom := Some (set_results (tool_messages obs) g)\<rparr>)
     in (Inr (step, add_step step (add_step (Thought (Continuation (Some r) (Some g))) state)), w'))"
  using assms by (simp add: LLMCompiler_ResolveNextStep_def NoStopPredicate_def after_calls_def Let_def bindE_ret)

lemma mapR_Inr_map: "mapR f xs = Inr ys \<Longrightarrow> (\<And>x y. x \<in> set xs \<Longrightarrow> f x = Inr y \<Longrightarrow> g y = h x) \<Longrightarrow> map g ys = map h xs"
  by (induction xs arbitrary: ys) (auto simp: bindR_Inr_iff)

text \<open>The requested calls carry the ids of the open tasks.\<close>

lemma request_ids:
  assumes d: "distinct (map task_index (tasks g))" and r: "BuildToolCallRequest g (FindNextTasks g) empty_message = Inr r"
    and "FindNextTasks g \<noteq> []"
  shows "map tc_id (tool_calls r) = map (\<lambda>t. tc_id (task_call t)) (open_tasks g)"
proof -
  from r assms(3) obtain calls where calls: "mapR (build_call g) (map task_index (open_tasks g)) = Inr calls" "tool_calls r = calls"
    by (auto simp: BuildToolCallRequest_def bindR_Inr_iff FindNextTasks_open empty_message_def)
  have "mapR (\<lambda>t. build_call g (task_index t)) (open_tasks g) = Inr calls"
    using calls(1) by (simp only: mapR_map)
  then have "map tc_id calls = map (\<lambda>t. tc_id (task_call t)) (open_tasks g)"
  proof (rule mapR_Inr_map)
    fix t y assume t: "t \<in> set (open_tasks g)" "build_call g (task_index t) = Inr y"
    from t(1) have "t \<in> set (tasks g)" using open_task_unanswered by blast
    from id_index_distinct [OF d this] t(2) show "tc_id y = tc_id (task_call t)"
      by (auto simp: build_call_def bindR_Inr_iff Let_def)
  qed
  with calls(2) show ?thesis by simp
qed

text \<open>A round: the executor asks for all open tasks, the worker answers, the answers go into the graph.\<close>

lemma resolve_round:
  assumes steps: "previous_steps state \<noteq> []" "last (previous_steps state) = Observation obs" "observation_custom obs = Some g"
    and g: "FindNextTasks g \<noteq> []" "distinct (map task_index (tasks g))" "distinct (map (\<lambda>t. tc_id (task_call t)) (tasks g))"
      "1 < length (tasks g)"
    and r: "BuildToolCallRequest g (FindNextTasks g) empty_message = Inr r"
    and wk: "worker (Continuation (Some r) (Some g)) w = (Inr obs', w')"
      "map tool_call_id (tool_messages obs') = map tc_id (tool_calls r)"
  shows "\<exists>state1. lc_resolve planner worker joiner state w = (Inr (Thought (Continuation (Some r) (Some g)), state1), w) \<and>
    (let step = Observation (obs'\<lparr>observation_custom := Some (set_results (tool_messages obs') g)\<rparr>)
     in lc_resolve planner worker joiner state1 w = (Inr (step, add_step step state1), w'))"
proof -
  have ids: "map tc_id (tool_calls r) = map (\<lambda>t. tc_id (task_call t)) (open_tasks g)" by (rule request_ids [OF g(2) r g(1)])
  have "distinct (map tc_id (tool_calls r))"
    unfolding ids using g(3) by (simp add: open_tasks_def distinct_map_filter)
  with wk(2) have cc: "count_completed (tool_calls r) (tool_messages obs') = length (tool_calls r)"
    by (rule count_completed_answered)
  have "tool_calls r \<noteq> []" using ids g(1) by (auto simp: FindNextTasks_open)
  note c = resolve_calls [where worker = worker and w = w, OF this g(4) wk(1) cc, of planner joiner state]
  show ?thesis
    by (rule exI, rule conjI, rule resolve_request [OF steps g(1) r]) (use c in \<open>simp add: Let_def\<close>)
qed

section \<open>Blank answers\<close>

definition blank_answers :: "(AgentThought \<Rightarrow> ('w, AgentObservation) eff) \<Rightarrow> bool" where
  "blank_answers worker \<longleftrightarrow> (\<forall>r cu w. \<exists>obs w'. worker (Continuation (Some r) cu) w = (Inr obs, w') \<and>
     map tool_call_id (tool_messages obs) = map tc_id (tool_calls r) \<and> (\<forall>m \<in> set (tool_messages obs). IsBlankString (msg_content m)))"

definition loops_on :: "LLMCompilerTaskGraph \<Rightarrow> bool" where
  "loops_on g \<longleftrightarrow> FindNextTasks g \<noteq> [] \<and> distinct (map task_index (tasks g)) \<and>
     distinct (map (\<lambda>t. tc_id (task_call t)) (tasks g)) \<and> 1 < length (tasks g) \<and>
     (\<forall>t \<in> set (tasks g). dep_matches (fn_arguments (task_call t)) = [])"

lemma loops_on_request:
  assumes "loops_on g"
  shows "\<exists>r. BuildToolCallRequest g (FindNextTasks g) empty_message = Inr r"
proof -
  have "build_call g (task_index t) = Inr (task_call t)" if "t \<in> set (open_tasks g)" for t
  proof -
    have t: "t \<in> set (tasks g)" using that open_task_unanswered by blast
    with id_index_distinct [of g t] assms show ?thesis by (auto simp: loops_on_def build_call_def Let_def)
  qed
  then have "mapR (build_call g) (FindNextTasks g) = Inr (map task_call (open_tasks g))"
    unfolding FindNextTasks_open mapR_map by (rule mapR_all_Inr)
  then show ?thesis by (simp add: BuildToolCallRequest_def)
qed

lemma loops_on_step:
  assumes g: "loops_on g" and msgs: "map tool_call_id msgs = map (\<lambda>t. tc_id (task_call t)) (open_tasks g)"
    "\<forall>m \<in> set msgs. IsBlankString (msg_content m)"
  shows "loops_on (set_results msgs g)"
proof -
  have same: "has_answer (answer_task msgs t) = has_answer t" if t: "t \<in> set (tasks g)" for t
  proof (cases "\<exists>m \<in> set msgs. tool_call_id m = tc_id (task_call t)")
    case True
    then have "tc_id (task_call t) \<in> set (map tool_call_id msgs)" by force
    then obtain t' where t': "t' \<in> set (open_tasks g)" "tc_id (task_call t') = tc_id (task_call t)" unfolding msgs(1) by auto
    with g t open_task_unanswered [OF t'(1)] have "t' = t" by (auto simp: loops_on_def distinct_map inj_on_def)
    with t'(1) have "\<not> has_answer t" using open_task_unanswered by blast
    moreover from answer_task_result [OF True] msgs(2) have "\<not> has_answer (answer_task msgs t)"
      by (auto simp: has_answer_def IsNotBlankString_def)
    ultimately show ?thesis by simp
  qed (simp add: answer_task_other)
  have fin: "finished (set_results msgs g) = finished g"
    unfolding finished_member set_eq_iff set_results_tasks by (auto simp: same)
  have "FindNextTasks (set_results msgs g) = FindNextTasks g"
    unfolding FindNextTasks_def fin set_results_tasks by (simp add: filter_map comp_def)
  with g show ?thesis by (simp add: loops_on_def set_results_tasks comp_def)
qed

lemma blank_answers_loop:
  assumes wk: "blank_answers worker"
    and "previous_steps state \<noteq> []" "last (previous_steps state) = Observation obs" "observation_custom obs = Some g" "loops_on g"
  shows "Stream_loop (lc_resolve planner worker joiner) fuel (Observation obs) state out w = None"
  using assms(2-5)
proof (induction fuel arbitrary: state obs g out w rule: less_induct)
  case (less fuel)
  obtain r where r: "BuildToolCallRequest g (FindNextTasks g) empty_message = Inr r" using loops_on_request [OF less.prems(4)] by blast
  obtain obs' w' where o: "worker (Continuation (Some r) (Some g)) w = (Inr obs', w')"
    "map tool_call_id (tool_messages obs') = map tc_id (tool_calls r)"
    "\<forall>m \<in> set (tool_messages obs'). IsBlankString (msg_content m)" using wk unfolding blank_answers_def by blast
  let ?g2 = "set_results (tool_messages obs') g"
  let ?o2 = "obs'\<lparr>observation_custom := Some ?g2\<rparr>"
  have L: "FindNextTasks g \<noteq> []" "distinct (map task_index (tasks g))" "distinct (map (\<lambda>t. tc_id (task_call t)) (tasks g))"
    "1 < length (tasks g)" using less.prems(4) by (auto simp: loops_on_def)
  obtain state1 where s1: "lc_resolve planner worker joiner state w = (Inr (Thought (Continuation (Some r) (Some g)), state1), w)"
    "lc_resolve planner worker joiner state1 w = (Inr (Observation ?o2, add_step (Observation ?o2) state1), w')"
    using resolve_round [where worker = worker and w = w, OF less.prems(1-3) L r o(1,2), of planner joiner] by (auto simp: Let_def)
  have g2: "loops_on ?g2" using loops_on_step [OF less.prems(4) _ o(3)] o(2) request_ids [OF L(2) r L(1)] by simp
  show ?case
  proof (cases fuel)
    case 0
    then show ?thesis by (simp add: Stream_loop.simps goes_on_def)
  next
    case (Suc f)
    have run: "Stream_loop (lc_resolve planner worker joiner) fuel (Observation obs) state out w =
        Stream_loop (lc_resolve planner worker joiner) f (Thought (Continuation (Some r) (Some g))) state1 (out @ [state1]) w"
      using Suc s1(1) by (simp add: Stream_loop.simps [of _ "Suc f"] goes_on_def)
    show ?thesis
    proof (cases f)
      case 0
      with run show ?thesis by (simp add: Stream_loop.simps goes_on_def)
    next
      case (Suc f')
      have "Stream_loop (lc_resolve planner worker joiner) f (Thought (Continuation (Some r) (Some g))) state1 (out @ [state1]) w =
          Stream_loop (lc_resolve planner worker joiner) f' (Observation ?o2) (add_step (Observation ?o2) state1)
            ((out @ [state1]) @ [add_step (Observation ?o2) state1]) w'"
        using Suc s1(2) by (simp add: Stream_loop.simps [of _ "Suc f'"] goes_on_def)
      also have "\<dots> = None"
        by (rule less.IH [where g = ?g2]) (use Suc \<open>fuel = Suc f\<close> g2 in simp_all)
      finally show ?thesis using run by simp
    qed
  qed
qed

lemma plan_facts:
  assumes "Planer_ParseResult gen_id s w = (Inr (Continuation (Some m) (Some g)), w')"
  shows "plan_ok (tasks g) \<and> tasks g \<noteq> [] \<and> is_join (last (tasks g)) \<and> (\<forall>t \<in> set (butlast (tasks g)). \<not> is_join t) \<and>
    tool_calls m = map task_call (open_tasks g)"
proof -
  let ?first = "\<lambda>ts. map task_call (filter (\<lambda>t. \<not> is_join t \<and> dependencies t = []) ts)"
  have open_fresh: "map task_call (open_tasks \<lparr>tasks = ts, question = q, joiner_result = j\<rparr>) = ?first ts"
    if "plan_ok ts" for ts q j
    using finished_fresh [OF that] by (auto simp: open_tasks_def list_all_iff intro: filter_cong arg_cong [where f = "map task_call"])
  from assms obtain ts w1 where p: "parse_actions gen_id (action_matches (clip_plan s)) w = (Inr ts, w1)"
    by (auto simp: Planer_ParseResult_def Let_def elim!: bindE_InrE)
  from parse_actions_ok [OF p] have ok: "plan_ok ts" "\<forall>t \<in> set (butlast ts). \<not> is_join t" by auto
  have "ts \<noteq> []" using assms p by (auto simp: Planer_ParseResult_def Let_def bindE_ret)
  show ?thesis
  proof (cases "list_ex is_join ts")
    case True
    with assms p \<open>ts \<noteq> []\<close> have g: "g = \<lparr>tasks = ts, question = [], joiner_result = None\<rparr>" "tool_calls m = ?first ts"
      by (auto simp: Planer_ParseResult_def Let_def bindE_ret)
    have "is_join (last ts)"
      using True ok(2) \<open>ts \<noteq> []\<close> by (auto simp: list_ex_iff) (metis append_butlast_last_id set_append Un_iff empty_iff
          empty_set insert_iff list.set(2))
    with g ok \<open>ts \<noteq> []\<close> open_fresh [OF ok(1)] show ?thesis by simp
  next
    case False
    with assms p \<open>ts \<noteq> []\<close> obtain ident where
      g: "g = \<lparr>tasks = ts @ [\<lparr>task_index = int (length ts) + 1, task_call = new_call ident ''join'' [],
            dependencies = [1 .. int (length ts)], task_thought = [], task_result = None\<rparr>], question = [], joiner_result = None\<rparr>"
         "tool_calls m = ?first ts"
      by (auto simp: Planer_ParseResult_def Let_def bindE_ret elim!: bindE_InrE)
    have "plan_ok (tasks g)" using ok(1) by (auto simp: plan_ok_def g(1))
    moreover have "\<forall>t \<in> set ts. \<not> is_join t" using False by (simp add: list_ex_iff)
    ultimately show ?thesis using g open_fresh [of "tasks g"] by (simp add: is_join_def new_call_def)
  qed
qed

section \<open>A small graph\<close>

definition demo_graph :: LLMCompilerTaskGraph where
  "demo_graph = \<lparr>tasks =
     [\<lparr>task_index = 1, task_call = new_call ''c1'' ''Search'' ''x'', dependencies = [], task_thought = [], task_result = None\<rparr>,
      \<lparr>task_index = 2, task_call = new_call ''c2'' ''join'' [], dependencies = [1], task_thought = [], task_result = None\<rparr>],
     question = [], joiner_result = None\<rparr>"

definition demo_state :: AgentState where
  "demo_state = \<lparr>previous_steps = [Observation \<lparr>tool_messages = [], observation_custom = Some demo_graph\<rparr>],
     state_input = StringPrompt ''q'', function_tools = []\<rparr>"

text \<open>A worker that answers every call with the same text.\<close>

definition const_worker :: "string \<Rightarrow> AgentThought \<Rightarrow> ('w, AgentObservation) eff" where
  "const_worker answer thought w =
     (Inr \<lparr>tool_messages = map (\<lambda>c. \<lparr>msg_role = ''tool'', msg_content = answer, tool_calls = [], tool_call_id = tc_id c\<rparr>)
             (case thought of Continuation (Some r) _ \<Rightarrow> tool_calls r | _ \<Rightarrow> []), observation_custom = None\<rparr>, w)"

lemma demo_next: "FindNextTasks demo_graph = [1]"
  by (simp add: FindNextTasks_def demo_graph_def is_join_def new_call_def finished_def has_answer_def)

lemma demo_request: "BuildToolCallRequest demo_graph [1] empty_message =
    Inr (empty_message\<lparr>tool_calls := [new_call ''c1'' ''Search'' ''x''], msg_role := ''assistant''\<rparr>)"
  by (simp add: BuildToolCallRequest_def build_call_def id_index_def demo_graph_def new_call_def dep_matches.simps empty_message_def)

section \<open>Properties\<close>

text \<open>
  C37: a plan the parser accepts is well formed: every task refers only to tasks of a smaller index,
  there is exactly one join and it comes last, nothing has a result yet, and the first request
  asks for exactly the tasks that can run at once.
\<close>

theorem Planer_ParseResult_plan:
  assumes "Planer_ParseResult gen_id s w = (Inr (Continuation (Some m) (Some g)), w')"
  shows "plan_ok (tasks g) \<and> tasks g \<noteq> [] \<and> is_join (last (tasks g)) \<and> (\<forall>t \<in> set (butlast (tasks g)). \<not> is_join t) \<and>
    tool_calls m = map task_call (open_tasks g)"
  by (rule plan_facts [OF assms])

theorem Planer_ParseResult_plan_witness:
  "\<exists>m g. Planer_ParseResult (ret ''c'') ''1. A(x) 2. join()'' () = (Inr (Continuation (Some m) (Some g)), ()) \<and>
     plan_ok (tasks g) \<and> is_join (last (tasks g))"
proof -
  have "\<not> (case fst (Planer_ParseResult (ret ''c'') ''1. A(x) 2. join()'' ()) of
      Inr (Continuation (Some m) (Some g)) \<Rightarrow> False | _ \<Rightarrow> True)"
    by code_simp
  then obtain m g where "Planer_ParseResult (ret ''c'') ''1. A(x) 2. join()'' () = (Inr (Continuation (Some m) (Some g)), ())"
    by (cases "Planer_ParseResult (ret ''c'') ''1. A(x) 2. join()'' ()") (auto split: sum.splits AgentThought.splits option.splits)
  with Planer_ParseResult_plan [OF this] show ?thesis by blast
qed

text \<open>
  the task graph does not get stuck. When every task depends only on tasks with a smaller index
  that are in the graph (and are not the join), some task can run as long as one has no result.
\<close>

theorem FindNextTasks_no_deadlock:
  assumes "\<forall>t \<in> set (tasks g). \<not> is_join t \<longrightarrow>
      (\<forall>d \<in> set (dependencies t). d < task_index t \<and> (\<exists>t' \<in> set (tasks g). \<not> is_join t' \<and> task_index t' = d))"
    and "\<exists>t \<in> set (tasks g). \<not> is_join t \<and> task_index t \<notin> finished g"
  shows "FindNextTasks g \<noteq> [] \<and> set (FindNextTasks g) \<inter> finished g = {}"
proof -
  let ?U = "task_index ` {t \<in> set (tasks g). \<not> is_join t \<and> task_index t \<notin> finished g}"
  have U: "finite ?U" "?U \<noteq> {}" using assms(2) by auto
  from Min_in [OF U] obtain t where "t \<in> {t \<in> set (tasks g). \<not> is_join t \<and> task_index t \<notin> finished g}" "Min ?U = task_index t"
    by (rule imageE)
  then have t: "t \<in> set (tasks g)" "\<not> is_join t" "task_index t \<notin> finished g" "task_index t = Min ?U" by simp_all
  have "d \<in> finished g" if "d \<in> set (dependencies t)" for d
  proof (rule ccontr)
    assume "d \<notin> finished g"
    moreover from assms(1) t(1,2) that obtain t' where "d < task_index t" "t' \<in> set (tasks g)" "\<not> is_join t'" "task_index t' = d"
      by blast
    ultimately have "d \<in> ?U" by auto
    from Min_le [OF U(1) this] t(4) \<open>d < task_index t\<close> show False by linarith
  qed
  with t have "t \<in> set (open_tasks g)" by (simp add: open_tasks_def list_all_iff)
  then have "FindNextTasks g \<noteq> []" by (auto simp: FindNextTasks_open)
  moreover have "set (FindNextTasks g) \<inter> finished g = {}" by (auto simp: FindNextTasks_open open_tasks_def)
  ultimately show ?thesis by blast
qed

theorem FindNextTasks_no_deadlock_witness:
  "FindNextTasks demo_graph \<noteq> [] \<and> set (FindNextTasks demo_graph) \<inter> finished demo_graph = {}"
  by (rule FindNextTasks_no_deadlock)
    (auto simp: demo_graph_def is_join_def new_call_def finished_def has_answer_def)

text \<open>
  C35: a round makes progress. When the worker answers every requested call with a text that is not
  blank, the two next steps of the executor are the request and an observation, and the graph of
  the observation has fewer unfinished tasks; so the graph is worked off after at most as many
  rounds as it has tasks.
\<close>

theorem LLMCompiler_round_progress:
  assumes "previous_steps state \<noteq> []" "last (previous_steps state) = Observation obs" "observation_custom obs = Some g"
    and "FindNextTasks g \<noteq> []" "distinct (map task_index (tasks g))" "distinct (map (\<lambda>t. tc_id (task_call t)) (tasks g))"
      "1 < length (tasks g)"
    and "BuildToolCallRequest g (FindNextTasks g) empty_message = Inr r"
    and "worker (Continuation (Some r) (Some g)) w = (Inr obs', w')"
      "map tool_call_id (tool_messages obs') = map tc_id (tool_calls r)"
    and "\<forall>m \<in> set (tool_messages obs'). IsNotBlankString (msg_content m)"
  shows "\<exists>state1 obs2 state2 g2.
    lc_resolve planner worker joiner state w = (Inr (Thought (Continuation (Some r) (Some g)), state1), w) \<and>
    lc_resolve planner worker joiner state1 w = (Inr (Observation obs2, state2), w') \<and>
    last (previous_steps state2) = Observation obs2 \<and> observation_custom obs2 = Some g2 \<and>
    length (unfinished g2) < length (unfinished g)"
proof -
  let ?g2 = "set_results (tool_messages obs') g"
  obtain t where t: "t \<in> set (open_tasks g)" using assms(4) by (cases "open_tasks g") (auto simp: FindNextTasks_open)
  then have "tc_id (task_call t) \<in> set (map tool_call_id (tool_messages obs'))"
    unfolding assms(10) request_ids [OF assms(5,8,4)] by simp
  then have "\<exists>m \<in> set (tool_messages obs'). tool_call_id m = tc_id (task_call t)" by auto
  moreover have "t \<in> set (unfinished g)" using open_task_unanswered [OF t] by (simp add: unfinished_def)
  ultimately have "length (unfinished ?g2) < length (unfinished g)" using unfinished_decreases [OF assms(11)] by blast
  with resolve_round [where worker = worker and w = w, OF assms(1-10), of planner joiner] show ?thesis
    by (auto simp: Let_def intro!: exI [of _ "obs'\<lparr>observation_custom := Some ?g2\<rparr>"])
qed

theorem LLMCompiler_round_progress_witness:
  "\<exists>state1 obs2 state2 g2 r.
    lc_resolve (\<lambda>_. throw OutOfRange) (const_worker ''42'') (\<lambda>_. throw OutOfRange) demo_state () =
      (Inr (Thought (Continuation (Some r) (Some demo_graph)), state1), ()) \<and>
    lc_resolve (\<lambda>_. throw OutOfRange) (const_worker ''42'') (\<lambda>_. throw OutOfRange) state1 () = (Inr (Observation obs2, state2), ()) \<and>
    last (previous_steps state2) = Observation obs2 \<and> observation_custom obs2 = Some g2 \<and>
    length (unfinished g2) < length (unfinished demo_graph)"
proof -
  let ?r = "empty_message\<lparr>tool_calls := [new_call ''c1'' ''Search'' ''x''], msg_role := ''assistant''\<rparr>"
  obtain obs' where o: "const_worker ''42'' (Continuation (Some ?r) (Some demo_graph)) () = (Inr obs', ())"
    "map tool_call_id (tool_messages obs') = map tc_id (tool_calls ?r)"
    "\<forall>m \<in> set (tool_messages obs'). IsNotBlankString (msg_content m)"
    by (simp add: const_worker_def new_call_def IsNotBlankString_def IsBlankString_iff isspace_def)
  have "BuildToolCallRequest demo_graph (FindNextTasks demo_graph) empty_message = Inr ?r"
    by (simp add: demo_next demo_request)
  from LLMCompiler_round_progress [where worker = "const_worker ''42''" and w = "()" and state = demo_state, OF _ _ _ _ _ _ _ this o,
      of "\<lparr>tool_messages = [], observation_custom = Some demo_graph\<rparr>" "\<lambda>_. throw OutOfRange" "\<lambda>_. throw OutOfRange"]
  show ?thesis by (auto simp: demo_state_def demo_next) (auto simp: demo_graph_def new_call_def)
qed

text \<open>
  a blank answer is taken for no answer, so the executor asks again, forever. If tools answer
  with blank texts only, which is also what the worker makes of a tool that failed, the stream of
  an agent with an open task never ends.
\<close>

theorem LLMCompiler_blank_result_loops:
  assumes "blank_answers worker" and "previous_steps state \<noteq> []" and "last (previous_steps state) = Observation obs"
    and "observation_custom obs = Some g" and "loops_on g"
  shows "Stream_loop (lc_resolve planner worker joiner) fuel (Observation obs) state out w = None"
  by (rule blank_answers_loop [OF assms])

theorem LLMCompiler_blank_result_loops_witness:
  "Stream_loop (lc_resolve (\<lambda>_. throw OutOfRange) (const_worker []) (\<lambda>_. throw OutOfRange)) 1000000
     (Observation \<lparr>tool_messages = [], observation_custom = Some demo_graph\<rparr>) demo_state [] () = None"
proof (rule LLMCompiler_blank_result_loops)
  show "blank_answers (const_worker [])" by (auto simp: blank_answers_def const_worker_def comp_def)
  show "loops_on demo_graph"
    by (simp add: loops_on_def demo_next) (simp add: demo_graph_def new_call_def dep_matches.simps)
qed (simp_all add: demo_state_def)

text \<open>
  a plan that consists of the join alone cannot be executed. It leads to a continuation without
  tool calls, which the executor does not accept as a last step.
\<close>

theorem join_only_plan_illegal:
  assumes "Planer_ParseResult gen_id s w0 = (Inr (Continuation (Some m) (Some g)), w1)" and "tl (tasks g) = []"
  shows "lc_resolve planner worker joiner (add_step (Thought (Continuation (Some m) (Some g))) state) w = (Inl illegal_state, w)"
proof -
  from plan_facts [OF assms(1)] assms(2) have "tool_calls m = []"
    by (cases "tasks g") (auto simp: open_tasks_def)
  then show ?thesis by (simp add: LLMCompiler_ResolveNextStep_def NoStopPredicate_def)
qed

theorem join_only_plan_illegal_witness:
  "\<exists>m g. Planer_ParseResult (ret ''c'') ''1. join()'' () = (Inr (Continuation (Some m) (Some g)), ()) \<and>
     lc_resolve (\<lambda>_. throw OutOfRange) (const_worker []) (\<lambda>_. throw OutOfRange)
       (add_step (Thought (Continuation (Some m) (Some g))) demo_state) () = (Inl illegal_state, ())"
proof -
  have "(case fst (Planer_ParseResult (ret ''c'') ''1. join()'' ()) of
      Inr (Continuation (Some m) (Some g)) \<Rightarrow> tl (tasks g) = [] | _ \<Rightarrow> False)"
    by code_simp
  then obtain m g where p: "Planer_ParseResult (ret ''c'') ''1. join()'' () = (Inr (Continuation (Some m) (Some g)), ())" "tl (tasks g) = []"
    by (cases "Planer_ParseResult (ret ''c'') ''1. join()'' ()") (auto split: sum.splits AgentThought.splits option.splits)
  from join_only_plan_illegal [OF p, of "\<lambda>_. throw OutOfRange" "const_worker []" "\<lambda>_. throw OutOfRange" demo_state "()"] p(1)
  show ?thesis by (intro exI conjI)
qed

end
