(* ===== verification/Entity_Store.thy ===== *)
theory Entity_Store
  imports Snowflake Task_Scheduler Agent_Types "HOL-Library.Product_Lexorder" Complex_Main
begin

text \<open>
  The entities of \<^verbatim>\<open>instinct-proto/src/assistant_api_v2.proto\<close>, the tables of
  \<^verbatim>\<open>db_migration/001/up.sql\<close>, \<^verbatim>\<open>DuckDBDataTemplate.hpp\<close> and the SQL statements of
  \<^verbatim>\<open>EntitySQLUtils.hpp\<close>.

  A table is the list of its rows in insertion order. A \<open>NULL\<close> column reads back as the
  default value of the field, so rows and entities are the same records. A JSON column keeps its
  message; a sub-message with no field set is written as \<open>null\<close> and reads back as absent.
  A statement the database refuses throws the \<open>ClientException\<close> of
  \<open>assert_query_ok\<close>, whose text is the database's own and is left out. A template variable
  that is not in the context is a \<open>RenderError\<close>.

  Four things come from outside and are fields of the world that no operation changes: the ids of
  the generator, the readings of the clock (\<open>now()\<close> is read once per statement), and how
  the database orders rows with equal \<open>created_at\<close>, which SQL leaves open.
\<close>

section \<open>Entities\<close>

type_synonym float32 = rat

datatype ListRequestOrder = unknown_list_request_order | desc | asc

datatype MessageRole = unknown_message_role | user | assistant

datatype MessageStatus = unknown_message_status | message_completed | message_in_progress | message_incomplete

datatype MessageContentType = unknown_message_content_type | text_content | image_file_content

record TextAnnotation =
  annotation_text :: string
  start_index :: int
  end_index :: int
  citation_file_id :: string
  citation_quote :: string

record MessageContent =
  content_type :: MessageContentType
  text_value :: string
  annotations :: "TextAnnotation list"
  image_files :: "string list"

record MessageObject =
  m_id :: string
  m_created_at :: int
  m_modified_at :: int
  m_thread_id :: string
  m_status :: MessageStatus
  m_completed_at :: int
  m_incompleted_at :: int
  m_role :: MessageRole
  m_content :: "MessageContent list"
  m_assistant_id :: string
  m_run_id :: string
  m_attachments :: "string list"
  m_metadata :: "json option"

datatype AssistantToolType = unknown_assistant_tool_type | code_interpreter | file_search | function_tool

record AssistantToolObject =
  assistant_tool_type :: AssistantToolType
  assistant_tool_function :: FunctionToolSchema

record AssistantToolResources =
  code_interpreter_file_ids :: "string list"
  vector_store_ids :: "string list"

record AssistantObject =
  a_id :: string
  a_model :: string
  a_name :: string
  a_description :: string
  a_instructions :: string
  a_metadata :: "json option"
  a_temperature :: "float32 option"
  a_top_p :: "float32 option"
  a_response_format :: string
  a_tools :: "AssistantToolObject list"
  a_tool_resources :: "AssistantToolResources option"
  a_created_at :: int
  a_modified_at :: int

record ThreadObject =
  t_id :: string
  t_created_at :: int
  t_modified_at :: int
  t_tool_resources :: "AssistantToolResources option"
  t_metadata :: "json option"

datatype RunObjectStatus =
    unknown_run_object_status | run_queued | run_in_progress | run_requires_action | run_cancelling
  | run_cancelled | run_failed | run_completed | run_expired

text \<open>A tool call of a required action; its \<open>function\<close> is the name and the arguments.\<close>

record RequiredToolCall =
  rt_id :: string
  rt_is_function :: bool
  rt_function :: "(string \<times> string) option"

record RequiredAction =
  is_submit_tool_outputs :: bool
  required_tool_calls :: "RequiredToolCall list"

record RunObject =
  r_id :: string
  r_created_at :: int
  r_modified_at :: int
  r_thread_id :: string
  r_assistant_id :: string
  r_status :: RunObjectStatus
  r_required_action :: "RequiredAction option"
  r_expires_at :: int
  r_started_at :: int
  r_cancelled_at :: int
  r_failed_at :: int
  r_completed_at :: int
  r_model :: string
  r_instructions :: string
  r_tools :: "AssistantToolObject list"
  r_metadata :: "json option"
  r_temperature :: "float32 option"
  r_top_p :: "float32 option"
  r_max_prompt_tokens :: int
  r_max_completion_tokens :: int
  r_tool_choice :: string
  r_response_format :: string

datatype RunStepType = unknown_run_step_type | message_creation_step | tool_calls_step

datatype RunStepStatus =
    unknown_run_step_status | step_in_progress | step_cancelled | step_failed | step_completed | step_expired

record FunctionCallDetail =
  fd_name :: string
  fd_arguments :: string
  fd_output :: string

record ToolCallDetail =
  td_id :: string
  td_type :: AssistantToolType
  td_function :: "FunctionCallDetail option"

record RunStepDetails =
  details_type :: RunStepType
  message_creation :: "string option"
  details_tool_calls :: "ToolCallDetail list"
  details_custom :: "LLMCompilerTaskGraph option"

record RunStepObject =
  s_id :: string
  s_created_at :: int
  s_modified_at :: int
  s_assistant_id :: string
  s_thread_id :: string
  s_run_id :: string
  s_type :: RunStepType
  s_status :: RunStepStatus
  s_step_details :: "RunStepDetails option"
  s_last_error :: "RunStepError option"
  s_expired_at :: int
  s_cancelled_at :: int
  s_failed_at :: int
  s_completed_at :: int

section \<open>The world\<close>

record World =
  id_numbers :: "nat \<Rightarrow> int"
  id_count :: nat
  clock :: "nat \<Rightarrow> int"
  ticks :: nat
  tie_rank :: "string \<Rightarrow> nat"
  has_scheduler :: bool
  scheduled :: "RunObject Task list"
  instinct_assistant :: "AssistantObject list"
  instinct_thread :: "ThreadObject list"
  instinct_thread_message :: "MessageObject list"
  instinct_thread_run :: "RunObject list"
  instinct_thread_run_step :: "RunStepObject list"

definition next_object_id :: "string \<Rightarrow> ('x World_scheme, string) eff" where
  "next_object_id prefix =
     bindE (getE (\<lambda>w. object_id prefix (id_numbers w (id_count w)))) (\<lambda>i.
     bindE (modifyE (id_count_update Suc)) (\<lambda>_. ret i))"

definition GetCurrentEpochMicroSeconds :: "('x World_scheme, int) eff" where
  "GetCurrentEpochMicroSeconds =
     bindE (getE (\<lambda>w. clock w (ticks w))) (\<lambda>t. bindE (modifyE (ticks_update Suc)) (\<lambda>_. ret t))"

text \<open>\<open>now()\<close> in a statement.\<close>

abbreviation sql_now :: "('x World_scheme, int) eff" where
  "sql_now \<equiv> GetCurrentEpochMicroSeconds"

definition sql_error :: exn where
  "sql_error = ClientException ''query failed''"

text \<open>A string field of a request is in the template context iff it is not empty.\<close>

definition context_string :: "string \<Rightarrow> ('s, string) eff" where
  "context_string s = (if s = [] then throw (RenderError ''variable not found'') else ret s)"

definition check_presence :: "(string \<times> bool) list \<Rightarrow> ('s, unit) eff" where
  "check_presence names =
     forE (\<lambda>(field, present). assert_true present (''should provide '' @ field @ '' in context'')) names"

section \<open>Data templates\<close>

text \<open>\<open>get\<close> and \<open>upd\<close> select the table, \<open>idf\<close> its primary key.\<close>

definition DT_SelectOne :: "('s \<Rightarrow> 'a list) \<Rightarrow> ('a list \<Rightarrow> 'a list) \<Rightarrow> ('s, 'a option) eff" where
  "DT_SelectOne get query =
     bindE (getE (\<lambda>w. query (get w))) (\<lambda>rows.
       if rows = [] then ret None
       else if length rows > 1 then throw (InstinctException ''More than one rows are returned from SelectOne'')
       else ret (Some (hd rows)))"

definition DT_SelectMany :: "('s \<Rightarrow> 'a list) \<Rightarrow> ('s \<Rightarrow> 'a list \<Rightarrow> 'a list) \<Rightarrow> ('s, 'a list) eff" where
  "DT_SelectMany get query = getE (\<lambda>w. query w (get w))"

definition DT_InsertMany :: "('s \<Rightarrow> 'a list) \<Rightarrow> (('a list \<Rightarrow> 'a list) \<Rightarrow> 's \<Rightarrow> 's) \<Rightarrow> ('a \<Rightarrow> 'k) \<Rightarrow>
    'a list \<Rightarrow> ('s, 'k list) eff" where
  "DT_InsertMany get upd idf rows =
     bindE (getE get) (\<lambda>table.
       if distinct (map idf (table @ rows))
       then bindE (modifyE (upd (\<lambda>t. t @ rows))) (\<lambda>_. ret (map idf rows))
       else throw sql_error)"

definition DT_InsertOne :: "('s \<Rightarrow> 'a list) \<Rightarrow> (('a list \<Rightarrow> 'a list) \<Rightarrow> 's \<Rightarrow> 's) \<Rightarrow> ('a \<Rightarrow> 'k) \<Rightarrow>
    'a \<Rightarrow> ('s, 'k) eff" where
  "DT_InsertOne get upd idf row =
     bindE (DT_InsertMany get upd idf [row]) (\<lambda>result.
     bindE (assert_true (length result = 1) ''should have only one returned id'') (\<lambda>_. ret (hd result)))"

text \<open>\<open>update ... set ... where\<close> and \<open>delete ... where\<close>: the number of rows is the result.\<close>

definition DT_Execute_update :: "('s \<Rightarrow> 'a list) \<Rightarrow> (('a list \<Rightarrow> 'a list) \<Rightarrow> 's \<Rightarrow> 's) \<Rightarrow>
    ('a \<Rightarrow> bool) \<Rightarrow> ('a \<Rightarrow> 'a) \<Rightarrow> ('s, nat) eff" where
  "DT_Execute_update get upd P f =
     bindE (getE (\<lambda>w. length (filter P (get w)))) (\<lambda>n.
     bindE (modifyE (upd (map (\<lambda>r. if P r then f r else r)))) (\<lambda>_. ret n))"

definition DT_Execute_delete :: "('s \<Rightarrow> 'a list) \<Rightarrow> (('a list \<Rightarrow> 'a list) \<Rightarrow> 's \<Rightarrow> 's) \<Rightarrow>
    ('a \<Rightarrow> bool) \<Rightarrow> ('s, nat) eff" where
  "DT_Execute_delete get upd P =
     bindE (getE (\<lambda>w. length (filter P (get w)))) (\<lambda>n.
     bindE (modifyE (upd (filter (\<lambda>r. \<not> P r)))) (\<lambda>_. ret n))"

text \<open>\<open>order by created_at asc|desc limit n\<close>; the database refuses a negative limit.\<close>

definition order_by :: "ListRequestOrder \<Rightarrow> ('a \<Rightarrow> int) \<Rightarrow> ('a \<Rightarrow> string) \<Rightarrow> 'x World_scheme \<Rightarrow> 'a list \<Rightarrow> 'a list" where
  "order_by order created idf w rows =
     (case order of
        asc \<Rightarrow> sort_key (\<lambda>r. (created r, tie_rank w (idf r))) rows
      | desc \<Rightarrow> sort_key (\<lambda>r. (- created r, tie_rank w (idf r))) rows
      | unknown_list_request_order \<Rightarrow> rows)"

section \<open>Evaluation\<close>

named_theorems store_simps

lemmas bindE_nested [store_simps] = bindE_assoc bindE_if

lemma assert_binds [store_simps]:
  "bindE (assert_true b m) f w = (if b then f () w else (Inl (ClientException m), w))"
  "bindE (assert_not_blank v m) f w = (if IsBlankString v then (Inl (ClientException m), w) else f () w)"
  "bindE (assert_gt x y m) f w = (if x > y then f () w else (Inl (ClientException m), w))"
  "bindE (assert_positive x m) f w = (if x > 0 then f () w else (Inl (ClientException m), w))"
  by (simp_all add: assert_true_def assert_not_blank_def assert_gt_def assert_positive_def)

lemma context_string_bind [store_simps]:
  "bindE (context_string s) f w = (if s = [] then (Inl (RenderError ''variable not found''), w) else f s w)"
  by (simp add: context_string_def)

lemma next_object_id_bind [store_simps]:
  "bindE (next_object_id p) f w = f (object_id p (id_numbers w (id_count w))) (id_count_update Suc w)"
  by (simp add: next_object_id_def bindE_def)

lemma now_bind [store_simps]:
  "bindE sql_now f w = f (clock w (ticks w)) (ticks_update Suc w)"
  by (simp add: GetCurrentEpochMicroSeconds_def bindE_def)

lemma not_blank_nonempty: "\<not> IsBlankString v \<Longrightarrow> v \<noteq> []"
  by (auto simp: IsBlankString_def)

section \<open>Tables\<close>

lemma find_append: "find P (xs @ ys) = (case find P xs of None \<Rightarrow> find P ys | Some x \<Rightarrow> Some x)"
  by (induction xs) auto

lemma find_map_update:
  "(\<And>r. P r \<Longrightarrow> P (f r)) \<Longrightarrow> find P (map (\<lambda>r. if P r then f r else r) rows) = map_option f (find P rows)"
  by (induction rows) auto

lemma find_None_filter: "find P (filter (\<lambda>r. \<not> P r) rows) = None"
  by (induction rows) auto

text \<open>
  What the services rely on: a table that is read and written through its own field of the world,
  with a primary key.
\<close>

locale table =
  fixes get :: "'s \<Rightarrow> 'a list" and upd :: "('a list \<Rightarrow> 'a list) \<Rightarrow> 's \<Rightarrow> 's" and idf :: "'a \<Rightarrow> 'k"
  assumes get_upd: "get (upd f w) = f (get w)"
begin

definition keys_ok :: "'s \<Rightarrow> bool" where
  "keys_ok w \<longleftrightarrow> distinct (map idf (get w))"

lemma filter_key:
  assumes "keys_ok w"
  shows "filter (\<lambda>r. idf r = i \<and> Q r) (get w) = (case find (\<lambda>r. idf r = i \<and> Q r) (get w) of None \<Rightarrow> [] | Some r \<Rightarrow> [r])"
proof -
  have "distinct (map idf rows) \<Longrightarrow>
      filter (\<lambda>r. idf r = i \<and> Q r) rows = (case find (\<lambda>r. idf r = i \<and> Q r) rows of None \<Rightarrow> [] | Some r \<Rightarrow> [r])" for rows
  proof (induction rows)
    case (Cons x rows)
    then show ?case
      by (cases "idf x = i \<and> Q x") (auto simp: filter_empty_conv image_iff find_None_iff split: option.split
          dest!: find_Some_iff [THEN iffD1])
  qed simp
  then show ?thesis using assms by (simp add: keys_ok_def)
qed

lemma select_key:
  assumes "keys_ok w"
  shows "DT_SelectOne get (filter (\<lambda>r. idf r = i \<and> Q r)) w = (Inr (find (\<lambda>r. idf r = i \<and> Q r) (get w)), w)"
  by (simp add: DT_SelectOne_def filter_key [OF assms] split: option.split)

lemma select_limit_1:
  "DT_SelectOne get (\<lambda>rows. take 1 (filter P rows)) w = (Inr (find P (get w)), w)"
proof -
  have "take 1 (filter P rows) = (case find P rows of None \<Rightarrow> [] | Some r \<Rightarrow> [r])" for rows
    by (induction rows) auto
  then show ?thesis by (simp add: DT_SelectOne_def split: option.split)
qed

lemma insert_one:
  "DT_InsertOne get upd idf row w =
     (if distinct (map idf (get w @ [row])) then (Inr (idf row), upd (\<lambda>t. t @ [row]) w) else (Inl sql_error, w))"
  by (simp add: DT_InsertOne_def DT_InsertMany_def bindE_def assert_true_def)

lemma insert_one_bind:
  "bindE (DT_InsertOne get upd idf row) f w =
     (if distinct (map idf (get w @ [row])) then f (idf row) (upd (\<lambda>t. t @ [row]) w) else (Inl sql_error, w))"
  by (simp add: bindE_def insert_one)

lemma select_by_key:
  assumes "keys_ok w"
  shows "DT_SelectOne get (filter (\<lambda>r. idf r = i)) w = (Inr (find (\<lambda>r. idf r = i) (get w)), w)"
  using select_key [OF assms, of i "\<lambda>_. True"] by simp

lemma keys_insert_many:
  "keys_ok w \<Longrightarrow> keys_ok (snd (DT_InsertMany get upd idf rows w))"
  by (simp add: DT_InsertMany_def keys_ok_def get_upd)

lemma keys_update:
  assumes "keys_ok w" and "\<And>r. idf (f r) = idf r"
  shows "keys_ok (upd (map (\<lambda>r. if P r then f r else r)) w)"
proof -
  have "map idf (map (\<lambda>r. if P r then f r else r) (get w)) = map idf (get w)" using assms(2) by simp
  then show ?thesis using assms(1) by (simp only: keys_ok_def get_upd)
qed

lemma keys_delete: "keys_ok w \<Longrightarrow> keys_ok (upd (filter P) w)"
  by (simp add: keys_ok_def get_upd distinct_map_filter)

text \<open>Insert, then look up.\<close>

lemma find_inserted:
  assumes "distinct (map idf (get w @ [row]))" and "P row" and "\<And>r. P r \<Longrightarrow> idf r = idf row"
  shows "find P (get (upd (\<lambda>t. t @ [row]) w)) = Some row"
proof -
  have "find P (get w) = None" using assms(1,3) by (auto simp: find_None_iff rev_image_eqI)
  then show ?thesis using assms(2) by (simp add: get_upd find_append)
qed

text \<open>Update, then look up.\<close>

lemma find_updated:
  assumes "\<And>r. P r \<Longrightarrow> P (f r)"
  shows "find P (get (upd (map (\<lambda>r. if P r then f r else r)) w)) = map_option f (find P (get w))"
  using assms by (simp add: get_upd find_map_update)

end

interpretation assistant_table: table instinct_assistant instinct_assistant_update a_id
  by unfold_locales simp

interpretation thread_table: table instinct_thread instinct_thread_update t_id
  by unfold_locales simp

interpretation message_table: table instinct_thread_message instinct_thread_message_update m_id
  by unfold_locales simp

interpretation run_table: table instinct_thread_run instinct_thread_run_update r_id
  by unfold_locales simp

interpretation step_table: table instinct_thread_run_step instinct_thread_run_step_update s_id
  by unfold_locales simp

text \<open>The store: primary keys are unique in every table.\<close>

definition store_ok :: "World \<Rightarrow> bool" where
  "store_ok w \<longleftrightarrow> distinct (map a_id (instinct_assistant w)) \<and> distinct (map t_id (instinct_thread w)) \<and>
     distinct (map m_id (instinct_thread_message w)) \<and> distinct (map r_id (instinct_thread_run w)) \<and>
     distinct (map s_id (instinct_thread_run_step w))"

lemma store_ok_keys:
  assumes "store_ok w"
  shows "assistant_table.keys_ok w" "thread_table.keys_ok w" "message_table.keys_ok w" "run_table.keys_ok w"
    "step_table.keys_ok w"
  using assms by (simp_all add: store_ok_def assistant_table.keys_ok_def thread_table.keys_ok_def
      message_table.keys_ok_def run_table.keys_ok_def step_table.keys_ok_def)

text \<open>Store and scheduler queue; \<open>Q\<close> is what is known of the queue.\<close>

definition world_inv :: "(RunObject Task list \<Rightarrow> bool) \<Rightarrow> World \<Rightarrow> bool" where
  "world_inv Q w \<longleftrightarrow> store_ok w \<and> Q (scheduled w)"

lemma preserves_asserts [eff_rules]:
  "preserves P (assert_true b m)" "preserves P (assert_not_blank v m)" "preserves P (assert_gt x y m)"
  "preserves P (assert_positive x m)" "preserves P (context_string s)"
  by (simp_all add: preserves_def assert_true_def assert_not_blank_def assert_gt_def assert_positive_def context_string_def)

lemma preserves_check_presence [eff_rules]: "preserves P (check_presence fs)"
  unfolding check_presence_def by (intro preserves_forE) (auto intro: eff_rules split: prod.split)

lemma preserves_reads [eff_rules]:
  "preserves P (DT_SelectOne get q)" "preserves P (DT_SelectMany get q')"
  unfolding DT_SelectOne_def DT_SelectMany_def by (auto intro!: eff_rules)

lemma preserves_sources [eff_rules]:
  "preserves (world_inv Q) (next_object_id p)" "preserves (world_inv Q) GetCurrentEpochMicroSeconds"
  unfolding next_object_id_def GetCurrentEpochMicroSeconds_def
  by (auto intro!: eff_rules simp: world_inv_def store_ok_def)

lemma preserves_insert_many [eff_rules]:
  "preserves (world_inv Q) (DT_InsertMany instinct_assistant instinct_assistant_update a_id as)"
  "preserves (world_inv Q) (DT_InsertMany instinct_thread instinct_thread_update t_id ts)"
  "preserves (world_inv Q) (DT_InsertMany instinct_thread_message instinct_thread_message_update m_id ms)"
  "preserves (world_inv Q) (DT_InsertMany instinct_thread_run instinct_thread_run_update r_id rs)"
  "preserves (world_inv Q) (DT_InsertMany instinct_thread_run_step instinct_thread_run_step_update s_id ss)"
  unfolding DT_InsertMany_def preserves_def by (auto simp: world_inv_def store_ok_def)

lemma preserves_insert_one [eff_rules]:
  assumes "preserves (world_inv Q) (DT_InsertMany get upd idf [row])"
  shows "preserves (world_inv Q) (DT_InsertOne get upd idf row)"
  unfolding DT_InsertOne_def by (intro eff_rules assms)

lemma map_key_update: "(\<And>r. idf (f r) = idf r) \<Longrightarrow> map idf (map (\<lambda>r. if P r then f r else r) rows) = map idf rows"
  by simp

lemma preserves_update [eff_rules]:
  "(\<And>r. a_id (fa r) = a_id r) \<Longrightarrow> preserves (world_inv Q) (DT_Execute_update instinct_assistant instinct_assistant_update Pa fa)"
  "(\<And>r. t_id (ft r) = t_id r) \<Longrightarrow> preserves (world_inv Q) (DT_Execute_update instinct_thread instinct_thread_update Pt ft)"
  "(\<And>r. m_id (fm r) = m_id r) \<Longrightarrow> preserves (world_inv Q) (DT_Execute_update instinct_thread_message instinct_thread_message_update Pm fm)"
  "(\<And>r. r_id (fr r) = r_id r) \<Longrightarrow> preserves (world_inv Q) (DT_Execute_update instinct_thread_run instinct_thread_run_update Pr fr)"
  "(\<And>r. s_id (fs r) = s_id r) \<Longrightarrow> preserves (world_inv Q) (DT_Execute_update instinct_thread_run_step instinct_thread_run_step_update Ps fs)"
  unfolding DT_Execute_update_def preserves_def
  by (simp_all add: world_inv_def store_ok_def map_key_update del: map_map)

lemma preserves_delete [eff_rules]:
  "preserves (world_inv Q) (DT_Execute_delete instinct_assistant instinct_assistant_update Pa)"
  "preserves (world_inv Q) (DT_Execute_delete instinct_thread instinct_thread_update Pt)"
  "preserves (world_inv Q) (DT_Execute_delete instinct_thread_message instinct_thread_message_update Pm)"
  "preserves (world_inv Q) (DT_Execute_delete instinct_thread_run instinct_thread_run_update Pr)"
  "preserves (world_inv Q) (DT_Execute_delete instinct_thread_run_step instinct_thread_run_step_update Ps)"
  unfolding DT_Execute_delete_def preserves_def by (simp_all add: world_inv_def store_ok_def distinct_map_filter)

end
