(* ===== verification/Entity_SQL.thy ===== *)
theory Entity_SQL
  imports Entity_Store
begin

text \<open>
  The statements of \<^verbatim>\<open>EntitySQLUtils.hpp\<close> on the tables of \<open>Entity_Store\<close>. The
  JSON context of a statement is given by the request it is converted from: a string is in it iff it
  is not empty, a number or enum iff it is not zero, a message or optional field iff it is set.
  Conditions of the templates that can never hold (\<open>exists("instruction")\<close>,
  \<open>existsIn(msg,"assistantId")\<close>) and tests of a literal (\<open>is_not_blank("after")\<close>)
  are kept as the template has them.
\<close>

section \<open>Assistants\<close>

record ModifyAssistantRequest =
  ma_assistant_id :: string
  ma_model :: string
  ma_name :: string
  ma_description :: string
  ma_instructions :: string
  ma_metadata :: "json option"
  ma_temperature :: float32
  ma_top_p :: float32
  ma_response_format :: string
  ma_tools :: "AssistantToolObject list"
  ma_tool_resources :: "AssistantToolResources option"

text \<open>The \<open>metadata\<close> column is listed without a comma before it.\<close>

definition InsertOneAssistant :: "AssistantObject \<Rightarrow> (World, string) eff" where
  "InsertOneAssistant a =
     bindE (check_presence [(''id'', True), (''model'', True), (''temperature'', a_temperature a \<noteq> None),
       (''top_p'', a_top_p a \<noteq> None)]) (\<lambda>_.
     if a_metadata a \<noteq> None then throw sql_error
     else bindE sql_now (\<lambda>t.
       DT_InsertOne instinct_assistant instinct_assistant_update a_id (a\<lparr>a_created_at := t, a_modified_at := t\<rparr>)))"

definition GetManyAssistant :: "string \<Rightarrow> string \<Rightarrow> ListRequestOrder \<Rightarrow> int \<Rightarrow> (World, AssistantObject list) eff" where
  "GetManyAssistant after before order limit =
     DT_SelectMany instinct_assistant (\<lambda>w rows.
       take (nat limit) (order_by order a_created_at a_id w
         (filter (\<lambda>a. (IsNotBlankString after \<longrightarrow> after < a_id a) \<and> (IsNotBlankString before \<longrightarrow> a_id a < before)) rows)))"

definition GetOneAssistant :: "string \<Rightarrow> (World, AssistantObject option) eff" where
  "GetOneAssistant i = DT_SelectOne instinct_assistant (filter (\<lambda>a. a_id a = i))"

definition SQL_DeleteAssistant :: "string \<Rightarrow> (World, nat) eff" where
  "SQL_DeleteAssistant i = DT_Execute_delete instinct_assistant instinct_assistant_update (\<lambda>a. a_id a = i)"

text \<open>No key \<open>instruction\<close> is ever in the context, and \<open>name\<close> has no clause.\<close>

definition UpdateAssistant :: "ModifyAssistantRequest \<Rightarrow> (World, nat) eff" where
  "UpdateAssistant req =
     bindE (context_string (ma_assistant_id req)) (\<lambda>assistant_id.
     bindE sql_now (\<lambda>t.
       DT_Execute_update instinct_assistant instinct_assistant_update (\<lambda>a. a_id a = assistant_id) (\<lambda>a.
         a\<lparr>a_model := (if IsNotBlankString (ma_model req) then ma_model req else a_model a),
           a_description := (if IsNotBlankString (ma_description req) then ma_description req else a_description a),
           a_metadata := (case ma_metadata req of None \<Rightarrow> a_metadata a | Some m \<Rightarrow> Some m),
           a_temperature := (if ma_temperature req \<noteq> 0 then Some (ma_temperature req) else a_temperature a),
           a_top_p := (if ma_top_p req \<noteq> 0 then Some (ma_top_p req) else a_top_p a),
           a_response_format := (if IsNotBlankString (ma_response_format req) then ma_response_format req else a_response_format a),
           a_tools := (if ma_tools req \<noteq> [] then ma_tools req else a_tools a),
           a_tool_resources := (case ma_tool_resources req of None \<Rightarrow> a_tool_resources a | Some r \<Rightarrow> Some r),
           a_modified_at := t\<rparr>)))"

section \<open>Threads\<close>

definition InsertOneThread :: "ThreadObject \<Rightarrow> (World, string) eff" where
  "InsertOneThread th =
     bindE sql_now (\<lambda>t. DT_InsertOne instinct_thread instinct_thread_update t_id (th\<lparr>t_created_at := t, t_modified_at := t\<rparr>))"

definition UpdateThread :: "string \<Rightarrow> AssistantToolResources option \<Rightarrow> json option \<Rightarrow> (World, nat) eff" where
  "UpdateThread thread_id resources metadata =
     bindE (context_string thread_id) (\<lambda>thread_id.
     bindE sql_now (\<lambda>t.
       DT_Execute_update instinct_thread instinct_thread_update (\<lambda>th. t_id th = thread_id) (\<lambda>th.
         th\<lparr>t_modified_at := t,
            t_tool_resources := (case resources of None \<Rightarrow> t_tool_resources th | Some r \<Rightarrow> Some r),
            t_metadata := (case metadata of None \<Rightarrow> t_metadata th | Some m \<Rightarrow> Some m)\<rparr>)))"

definition SQL_DeleteThread :: "string \<Rightarrow> (World, nat) eff" where
  "SQL_DeleteThread thread_id =
     bindE (context_string thread_id) (\<lambda>thread_id.
       DT_Execute_delete instinct_thread instinct_thread_update (\<lambda>th. t_id th = thread_id))"

section \<open>Messages\<close>

definition UpdateMessage :: "string \<Rightarrow> string \<Rightarrow> json option \<Rightarrow> (World, nat) eff" where
  "UpdateMessage message_id thread_id metadata =
     bindE (context_string message_id) (\<lambda>message_id. bindE (context_string thread_id) (\<lambda>thread_id.
     bindE sql_now (\<lambda>t.
       DT_Execute_update instinct_thread_message instinct_thread_message_update
         (\<lambda>m. m_id m = message_id \<and> m_thread_id m = thread_id) (\<lambda>m.
         m\<lparr>m_modified_at := t, m_metadata := (case metadata of None \<Rightarrow> m_metadata m | Some d \<Rightarrow> Some d)\<rparr>))))"

definition SelectOneMessages :: "string \<Rightarrow> string \<Rightarrow> (World, MessageObject option) eff" where
  "SelectOneMessages message_id thread_id =
     bindE (context_string message_id) (\<lambda>message_id. bindE (context_string thread_id) (\<lambda>thread_id.
       DT_SelectOne instinct_thread_message (filter (\<lambda>m. m_id m = message_id \<and> m_thread_id m = thread_id))))"

text \<open>The template tests the literals \<open>"run_id"\<close>, \<open>"after"\<close>, \<open>"before"\<close> for blankness, so presence decides.\<close>

definition SelectManyMessages :: "string \<Rightarrow> string \<Rightarrow> string \<Rightarrow> string \<Rightarrow> ListRequestOrder \<Rightarrow> int \<Rightarrow>
    (World, MessageObject list) eff" where
  "SelectManyMessages thread_id run_id after before order limit =
     bindE (context_string thread_id) (\<lambda>thread_id.
       DT_SelectMany instinct_thread_message (\<lambda>w rows.
         take (nat limit) (order_by order m_created_at m_id w
           (filter (\<lambda>m. m_thread_id m = thread_id \<and> (run_id \<noteq> [] \<and> IsNotBlankString ''run_id'' \<longrightarrow> m_run_id m = run_id) \<and>
              (after \<noteq> [] \<and> IsNotBlankString ''after'' \<longrightarrow> after < m_id m) \<and>
              (before \<noteq> [] \<and> IsNotBlankString ''before'' \<longrightarrow> m_id m < before)) rows))))"

fun content_item_ok :: "MessageContent \<Rightarrow> (World, unit) eff" where
  "content_item_ok c =
     (case content_type c of
        unknown_message_content_type \<Rightarrow> throw UndefinedBehaviour
      | ty \<Rightarrow> assert_true (ty = text_content \<or> ty = image_file_content) ''content type for message should be text or image_file.'')"

definition message_presence :: "MessageObject \<Rightarrow> (World, unit) eff" where
  "message_presence m =
     check_presence [(''id'', m_id m \<noteq> []), (''thread_id'', m_thread_id m \<noteq> []), (''content'', m_content m \<noteq> []),
       (''role'', m_role m \<noteq> unknown_message_role), (''status'', m_status m \<noteq> unknown_message_status)]"

definition role_ok :: "MessageObject \<Rightarrow> (World, unit) eff" where
  "role_ok m = assert_true (m_role m = user \<or> m_role m = assistant) ''should provide correct role for message''"

text \<open>No key \<open>assistantId\<close> is ever in the context: the column stays \<open>NULL\<close>.\<close>

definition message_row :: "int \<Rightarrow> MessageObject \<Rightarrow> MessageObject" where
  "message_row t m = m\<lparr>m_created_at := t, m_modified_at := t, m_assistant_id := [],
     m_run_id := (if IsNotBlankString (m_run_id m) then m_run_id m else [])\<rparr>"

definition InsertManyMessages :: "MessageObject list \<Rightarrow> (World, string list) eff" where
  "InsertManyMessages messages =
     (if messages = [] then ret []
      else bindE (forE (\<lambda>m. bindE (message_presence m) (\<lambda>_.
             bindE (assert_not_blank (m_thread_id m) ''should provide thread_id'') (\<lambda>_.
             bindE (forE content_item_ok (m_content m)) (\<lambda>_. role_ok m)))) messages) (\<lambda>_.
           bindE sql_now (\<lambda>t.
             DT_InsertMany instinct_thread_message instinct_thread_message_update m_id (map (message_row t) messages))))"

definition DeleteManyMessages :: "string \<Rightarrow> (World, nat) eff" where
  "DeleteManyMessages thread_id =
     DT_Execute_delete instinct_thread_message instinct_thread_message_update (\<lambda>m. m_thread_id m = thread_id)"

definition InsertOneMessages :: "MessageObject \<Rightarrow> (World, string) eff" where
  "InsertOneMessages m =
     bindE (message_presence m) (\<lambda>_. bindE (forE content_item_ok (m_content m)) (\<lambda>_. bindE (role_ok m) (\<lambda>_.
     bindE sql_now (\<lambda>t. DT_InsertOne instinct_thread_message instinct_thread_message_update m_id (message_row t m)))))"

section \<open>Runs\<close>

record ModifyRunRequest =
  mr_run_id :: string
  mr_thread_id :: string
  mr_metadata :: "json option"
  mr_status :: RunObjectStatus
  mr_required_action :: "RequiredAction option"
  mr_started_at :: int
  mr_expires_at :: int
  mr_cancelled_at :: int
  mr_failed_at :: int
  mr_completed_at :: int

definition empty_modify_run :: ModifyRunRequest where
  "empty_modify_run = \<lparr>mr_run_id = [], mr_thread_id = [], mr_metadata = None, mr_status = unknown_run_object_status,
     mr_required_action = None, mr_started_at = 0, mr_expires_at = 0, mr_cancelled_at = 0, mr_failed_at = 0, mr_completed_at = 0\<rparr>"

text \<open>
  \<open>has_resources\<close>: the request has \<open>tool_resources\<close>, for which the table has no
  column. The token limits are \<open>uint32\<close>, their columns \<open>INTEGER\<close>.
\<close>

definition InsertOneRun :: "bool \<Rightarrow> RunObject \<Rightarrow> (World, string) eff" where
  "InsertOneRun has_resources r =
     bindE (check_presence [(''thread_id'', True), (''assistant_id'', True)]) (\<lambda>_.
     if has_resources \<or> r_max_prompt_tokens r > 2147483647 \<or> r_max_completion_tokens r > 2147483647
     then throw sql_error
     else bindE sql_now (\<lambda>t.
       DT_InsertOne instinct_thread_run instinct_thread_run_update r_id (r\<lparr>r_created_at := t, r_modified_at := t\<rparr>)))"

text \<open>What a JSON column gives back: a \<open>function\<close> with nothing set is absent.\<close>

definition stored_action :: "RequiredAction \<Rightarrow> RequiredAction option" where
  "stored_action a =
     (let calls = map (\<lambda>c. c\<lparr>rt_function := (if rt_function c = Some ([], []) then None else rt_function c)\<rparr>) (required_tool_calls a)
      in if \<not> is_submit_tool_outputs a \<and> calls = [] then None else Some (a\<lparr>required_tool_calls := calls\<rparr>))"

definition run_patch :: "int \<Rightarrow> ModifyRunRequest \<Rightarrow> RunObject \<Rightarrow> RunObject" where
  "run_patch t req r =
     r\<lparr>r_modified_at := t,
       r_status := (if mr_status req \<noteq> unknown_run_object_status then mr_status req else r_status r),
       r_metadata := (case mr_metadata req of None \<Rightarrow> r_metadata r | Some m \<Rightarrow> Some m),
       r_required_action := (case mr_required_action req of None \<Rightarrow> r_required_action r | Some a \<Rightarrow> stored_action a),
       r_started_at := (if mr_started_at req > 0 then mr_started_at req else r_started_at r),
       r_expires_at := (if mr_expires_at req > 0 then mr_expires_at req else r_expires_at r),
       r_cancelled_at := (if mr_cancelled_at req > 0 then mr_cancelled_at req else r_cancelled_at r),
       r_failed_at := (if mr_failed_at req > 0 then mr_failed_at req else r_failed_at r),
       r_completed_at := (if mr_completed_at req > 0 then mr_completed_at req else r_completed_at r)\<rparr>"

definition UpdateRun :: "ModifyRunRequest \<Rightarrow> (World, nat) eff" where
  "UpdateRun req =
     bindE (context_string (mr_thread_id req)) (\<lambda>thread_id. bindE (context_string (mr_run_id req)) (\<lambda>run_id.
     bindE sql_now (\<lambda>t.
       DT_Execute_update instinct_thread_run instinct_thread_run_update
         (\<lambda>r. r_thread_id r = thread_id \<and> r_id r = run_id) (run_patch t req))))"

text \<open>
  \<open>order\<close> is tested without \<open>exists\<close>; the cursors are column names that the table
  does not have.
\<close>

definition SelectManyRuns :: "string \<Rightarrow> string \<Rightarrow> string \<Rightarrow> RunObjectStatus list option \<Rightarrow> ListRequestOrder \<Rightarrow> int \<Rightarrow>
    (World, RunObject list) eff" where
  "SelectManyRuns thread_id after before possible_statuses order limit =
     bindE (assert_true (thread_id \<noteq> []) ''should provide thread_id'') (\<lambda>_.
     if order = unknown_list_request_order then throw (RenderError ''variable not found'')
     else if IsNotBlankString after \<or> IsNotBlankString before \<or> limit < 0 then throw sql_error
     else DT_SelectMany instinct_thread_run (\<lambda>w rows.
         take (nat limit) (order_by order r_created_at r_id w
           (filter (\<lambda>r. r_thread_id r = thread_id \<and>
              (case possible_statuses of None \<Rightarrow> True | Some sts \<Rightarrow> r_status r \<in> set sts)) rows))))"

definition SelectOneRun :: "string \<Rightarrow> string \<Rightarrow> (World, RunObject option) eff" where
  "SelectOneRun run_id thread_id =
     bindE (assert_true (run_id \<noteq> []) ''should provide run id'') (\<lambda>_.
     bindE (assert_true (thread_id \<noteq> []) ''should provide thread id'') (\<lambda>_.
       DT_SelectOne instinct_thread_run (\<lambda>rows. take 1 (filter (\<lambda>r. r_id r = run_id \<and> r_thread_id r = thread_id) rows))))"

definition DeleteManyRuns :: "string \<Rightarrow> (World, nat) eff" where
  "DeleteManyRuns thread_id =
     DT_Execute_delete instinct_thread_run instinct_thread_run_update (\<lambda>r. r_thread_id r = thread_id)"

section \<open>Run steps\<close>

record ModifyRunStepRequest =
  ms_run_id :: string
  ms_thread_id :: string
  ms_step_id :: string
  ms_step_details :: "RunStepDetails option"
  ms_status :: RunStepStatus
  ms_last_error :: "RunStepError option"
  ms_expired_at :: int
  ms_cancelled_at :: int
  ms_failed_at :: int
  ms_completed_at :: int

definition empty_modify_step :: ModifyRunStepRequest where
  "empty_modify_step = \<lparr>ms_run_id = [], ms_thread_id = [], ms_step_id = [], ms_step_details = None,
     ms_status = unknown_run_step_status, ms_last_error = None, ms_expired_at = 0, ms_cancelled_at = 0,
     ms_failed_at = 0, ms_completed_at = 0\<rparr>"

definition empty_details :: RunStepDetails where
  "empty_details = \<lparr>details_type = unknown_run_step_type, message_creation = None, details_tool_calls = [], details_custom = None\<rparr>"

definition empty_function_detail :: FunctionCallDetail where
  "empty_function_detail = \<lparr>fd_name = [], fd_arguments = [], fd_output = []\<rparr>"

definition stored_call :: "ToolCallDetail \<Rightarrow> ToolCallDetail" where
  "stored_call c = c\<lparr>td_function := (if td_function c = Some empty_function_detail then None else td_function c)\<rparr>"

definition stored_details :: "RunStepDetails \<Rightarrow> RunStepDetails option" where
  "stored_details d =
     (let d' = d\<lparr>message_creation := (if message_creation d = Some [] then None else message_creation d),
                 details_tool_calls := map stored_call (details_tool_calls d)\<rparr>
      in if d' = empty_details then None else Some d')"

definition InsertOneRunStep :: "RunStepObject \<Rightarrow> (World, string) eff" where
  "InsertOneRunStep s =
     bindE (context_string (s_thread_id s)) (\<lambda>thread_id. bindE (context_string (s_run_id s)) (\<lambda>run_id.
     if s_type s = unknown_run_step_type \<or> s_status s = unknown_run_step_status
     then throw (RenderError ''variable not found'')
     else bindE sql_now (\<lambda>t.
       DT_InsertOne instinct_thread_run_step instinct_thread_run_step_update s_id
         \<lparr>s_id = s_id s, s_created_at = t, s_modified_at = t, s_assistant_id = [], s_thread_id = thread_id,
          s_run_id = run_id, s_type = s_type s, s_status = s_status s,
          s_step_details = Option.bind (s_step_details s) stored_details, s_last_error = None,
          s_expired_at = 0, s_cancelled_at = 0, s_failed_at = 0, s_completed_at = 0\<rparr>)))"

definition DeleteManyRunSteps :: "string \<Rightarrow> (World, nat) eff" where
  "DeleteManyRunSteps thread_id =
     DT_Execute_delete instinct_thread_run_step instinct_thread_run_step_update (\<lambda>s. s_thread_id s = thread_id)"

definition step_patch :: "int \<Rightarrow> ModifyRunStepRequest \<Rightarrow> RunStepObject \<Rightarrow> RunStepObject" where
  "step_patch t req s =
     s\<lparr>s_modified_at := t,
       s_status := (if ms_status req \<noteq> unknown_run_step_status then ms_status req else s_status s),
       s_step_details := (case ms_step_details req of None \<Rightarrow> s_step_details s | Some d \<Rightarrow> stored_details d),
       s_last_error := (case ms_last_error req of None \<Rightarrow> s_last_error s | Some e \<Rightarrow> Some e),
       s_expired_at := (if ms_expired_at req > 0 then ms_expired_at req else s_expired_at s),
       s_cancelled_at := (if ms_cancelled_at req > 0 then ms_cancelled_at req else s_cancelled_at s),
       s_failed_at := (if ms_failed_at req > 0 then ms_failed_at req else s_failed_at s),
       s_completed_at := (if ms_completed_at req > 0 then ms_completed_at req else s_completed_at s)\<rparr>"

definition UpdateRunStep :: "ModifyRunStepRequest \<Rightarrow> (World, nat) eff" where
  "UpdateRunStep req =
     bindE (context_string (ms_step_id req)) (\<lambda>step_id. bindE (context_string (ms_thread_id req)) (\<lambda>thread_id.
     bindE (context_string (ms_run_id req)) (\<lambda>run_id. bindE sql_now (\<lambda>t.
       DT_Execute_update instinct_thread_run_step instinct_thread_run_step_update
         (\<lambda>s. s_id s = step_id \<and> s_thread_id s = thread_id \<and> s_run_id s = run_id) (step_patch t req)))))"

definition SQL_GetRunStep :: "string \<Rightarrow> string \<Rightarrow> string \<Rightarrow> (World, RunStepObject option) eff" where
  "SQL_GetRunStep run_id step_id thread_id =
     bindE (context_string step_id) (\<lambda>step_id. bindE (context_string thread_id) (\<lambda>thread_id.
     bindE (context_string run_id) (\<lambda>run_id.
       DT_SelectOne instinct_thread_run_step (\<lambda>rows.
         take 1 (filter (\<lambda>s. s_id s = step_id \<and> s_thread_id s = thread_id \<and> s_run_id s = run_id) rows)))))"

definition SelectManyRunSteps :: "string \<Rightarrow> string \<Rightarrow> string \<Rightarrow> string \<Rightarrow> ListRequestOrder \<Rightarrow> int \<Rightarrow>
    (World, RunStepObject list) eff" where
  "SelectManyRunSteps thread_id run_id after before order limit =
     bindE (context_string thread_id) (\<lambda>thread_id. bindE (context_string run_id) (\<lambda>run_id.
     if order = unknown_list_request_order then throw (RenderError ''variable not found'')
     else DT_SelectMany instinct_thread_run_step (\<lambda>w rows.
         take (nat limit) (order_by order s_created_at s_id w
           (filter (\<lambda>s. s_thread_id s = thread_id \<and> s_run_id s = run_id \<and>
              (IsNotBlankString after \<longrightarrow> after < s_id s) \<and> (IsNotBlankString before \<longrightarrow> s_id s < before)) rows)))))"

section \<open>What the statements keep\<close>

lemma preserves_assistant_sql [eff_rules]:
  "preserves (world_inv Q) (InsertOneAssistant a)" "preserves P (GetManyAssistant af be ord n)"
  "preserves P (GetOneAssistant i)" "preserves (world_inv Q) (SQL_DeleteAssistant i)"
  "preserves (world_inv Q) (UpdateAssistant req)"
  unfolding InsertOneAssistant_def GetManyAssistant_def GetOneAssistant_def SQL_DeleteAssistant_def UpdateAssistant_def
  by (auto intro!: eff_rules)

lemma preserves_thread_sql [eff_rules]:
  "preserves (world_inv Q) (InsertOneThread th)" "preserves (world_inv Q) (UpdateThread i res meta)"
  "preserves (world_inv Q) (SQL_DeleteThread i)"
  unfolding InsertOneThread_def UpdateThread_def SQL_DeleteThread_def by (auto intro!: eff_rules)

lemma preserves_content_item_ok [eff_rules]: "preserves P (content_item_ok c)"
  by (auto intro: eff_rules split: MessageContentType.split)

lemma preserves_message_sql [eff_rules]:
  "preserves (world_inv Q) (UpdateMessage i th meta)" "preserves P (SelectOneMessages i th)"
  "preserves P (SelectManyMessages th r af be ord n)" "preserves (world_inv Q) (InsertManyMessages ms)"
  "preserves (world_inv Q) (DeleteManyMessages th)" "preserves (world_inv Q) (InsertOneMessages m)"
  unfolding UpdateMessage_def SelectOneMessages_def SelectManyMessages_def InsertManyMessages_def DeleteManyMessages_def
    InsertOneMessages_def message_presence_def role_ok_def
  by (auto intro!: eff_rules simp del: content_item_ok.simps)

lemma run_patch_keys [simp]:
  "r_id (run_patch t req r) = r_id r" "r_thread_id (run_patch t req r) = r_thread_id r"
  by (simp_all add: run_patch_def)

lemma preserves_run_sql [eff_rules]:
  "preserves (world_inv Q) (InsertOneRun b r)" "preserves (world_inv Q) (UpdateRun req)"
  "preserves P (SelectManyRuns th af be sts ord n)" "preserves P (SelectOneRun i th)"
  "preserves (world_inv Q) (DeleteManyRuns th)"
  unfolding InsertOneRun_def UpdateRun_def SelectManyRuns_def SelectOneRun_def DeleteManyRuns_def
  by (auto intro!: eff_rules)

lemma step_patch_keys [simp]:
  "s_id (step_patch t req s) = s_id s" "s_thread_id (step_patch t req s) = s_thread_id s"
  "s_run_id (step_patch t req s) = s_run_id s"
  by (simp_all add: step_patch_def)

lemma preserves_step_sql [eff_rules]:
  "preserves (world_inv Q) (InsertOneRunStep s)" "preserves (world_inv Q) (DeleteManyRunSteps th)"
  "preserves (world_inv Q) (UpdateRunStep req')" "preserves P (SQL_GetRunStep r i th)"
  "preserves P (SelectManyRunSteps th r af be ord n)"
  unfolding InsertOneRunStep_def DeleteManyRunSteps_def UpdateRunStep_def SQL_GetRunStep_def SelectManyRunSteps_def
  by (auto intro!: eff_rules)

end
