(* ===== verification/Assistant_Services.thy ===== *)
theory Assistant_Services
  imports Entity_SQL
begin

text \<open>
  \<^verbatim>\<open>AssistantServiceImpl.hpp\<close>, \<^verbatim>\<open>MessageServiceImpl.hpp\<close> and \<^verbatim>\<open>ThreadServiceImpl.hpp\<close>.
  None of the operations runs in a transaction: what was written before an exception stays.
\<close>

section \<open>Requests and pages\<close>

text \<open>
  The list requests of assistants, messages, runs and run steps have the same fields (those of
  assistants have no \<open>run_id\<close> and \<open>thread_id\<close>, those of runs no \<open>run_id\<close>).
\<close>

record ListRequest =
  lr_after :: string
  lr_before :: string
  lr_limit :: int
  lr_order :: ListRequestOrder
  lr_run_id :: string
  lr_thread_id :: string

definition empty_list_request :: ListRequest where
  "empty_list_request = \<lparr>lr_after = [], lr_before = [], lr_limit = 0, lr_order = unknown_list_request_order,
     lr_run_id = [], lr_thread_id = []\<rparr>"

record 'a ListResponse =
  list_data :: "'a list"
  first_id :: string
  last_id :: string
  has_more :: bool

definition DEFAULT_LIST_LIMIT :: int where "DEFAULT_LIST_LIMIT = 20"

text \<open>One more row than asked for; \<open>int32\<close> overflow is undefined.\<close>

definition list_limit :: "int \<Rightarrow> int result" where
  "list_limit l =
     (if l \<le> 0 then Inr (DEFAULT_LIST_LIMIT + 1) else if l = 2147483647 then Inl UndefinedBehaviour else Inr (l + 1))"

definition list_order :: "ListRequestOrder \<Rightarrow> ListRequestOrder" where
  "list_order order = (if order = unknown_list_request_order then desc else order)"

definition list_page :: "('a \<Rightarrow> string) \<Rightarrow> int \<Rightarrow> 'a list \<Rightarrow> 'a ListResponse" where
  "list_page idf limit rows =
     (let n = length rows in
      if int n \<ge> limit
      then \<lparr>list_data = butlast rows, first_id = idf (hd rows), last_id = idf (rows ! (n - 2)), has_more = True\<rparr>
      else if n > 0
      then \<lparr>list_data = rows, first_id = idf (hd rows), last_id = idf (last rows), has_more = False\<rparr>
      else \<lparr>list_data = [], first_id = [], last_id = [], has_more = False\<rparr>)"

record DeleteResponse =
  deleted_id :: string
  deleted :: bool

record CreateMessageRequest =
  cm_thread_id :: string
  cm_role :: MessageRole
  cm_content :: string
  cm_run_id :: string

record CreateThreadRequest =
  ct_messages :: "CreateMessageRequest list"
  ct_tool_resources :: "AssistantToolResources option"
  ct_metadata :: "json option"

section \<open>Assistants\<close>

definition ListAssistants :: "ListRequest \<Rightarrow> (World, AssistantObject ListResponse) eff" where
  "ListAssistants req =
     bindE (liftR (list_limit (lr_limit req))) (\<lambda>limit.
     bindE (GetManyAssistant (lr_after req) (lr_before req) (list_order (lr_order req)) limit) (\<lambda>assistants.
     ret (list_page a_id limit assistants)))"

definition RetrieveAssistant :: "string \<Rightarrow> (World, AssistantObject option) eff" where
  "RetrieveAssistant assistant_id = GetOneAssistant assistant_id"

definition CreateAssistant :: "AssistantObject \<Rightarrow> (World, AssistantObject option) eff" where
  "CreateAssistant req =
     bindE (assert_not_blank (a_model req) ''should provide model name'') (\<lambda>_.
     bindE (next_object_id ''asst'') (\<lambda>i.
     bindE (InsertOneAssistant (req\<lparr>a_id := i,
         a_top_p := Some (case a_top_p req of None \<Rightarrow> 1 | Some p \<Rightarrow> p),
         a_temperature := Some (case a_temperature req of None \<Rightarrow> 1 | Some p \<Rightarrow> p),
         a_response_format := (if IsBlankString (a_response_format req) then ''auto'' else a_response_format req)\<rparr>)) (\<lambda>_.
     RetrieveAssistant i)))"

definition DeleteAssistant :: "string \<Rightarrow> (World, DeleteResponse) eff" where
  "DeleteAssistant assistant_id =
     bindE (SQL_DeleteAssistant assistant_id) (\<lambda>count.
     ret \<lparr>deleted_id = assistant_id, deleted = (count = 1)\<rparr>)"

definition ModifyAssistant :: "ModifyAssistantRequest \<Rightarrow> (World, AssistantObject option) eff" where
  "ModifyAssistant req =
     bindE (assert_not_blank (ma_assistant_id req) ''assistant id should be given'') (\<lambda>_.
     bindE (UpdateAssistant req) (\<lambda>count.
     bindE (assert_positive (int count) (''should have assistant update. assistant_id='' @ ma_assistant_id req)) (\<lambda>_.
     RetrieveAssistant (ma_assistant_id req))))"

section \<open>Messages\<close>

definition ListMessages :: "ListRequest \<Rightarrow> (World, MessageObject ListResponse) eff" where
  "ListMessages req =
     bindE (liftR (list_limit (lr_limit req))) (\<lambda>limit.
     bindE (SelectManyMessages (lr_thread_id req) (lr_run_id req) (lr_after req) (lr_before req) (list_order (lr_order req)) limit) (\<lambda>messages.
     ret (list_page m_id limit messages)))"

definition RetrieveMessage :: "string \<Rightarrow> string \<Rightarrow> (World, MessageObject option) eff" where
  "RetrieveMessage message_id thread_id = SelectOneMessages message_id thread_id"

definition CreateRawMessage :: "MessageObject \<Rightarrow> (World, MessageObject option) eff" where
  "CreateRawMessage m =
     bindE (next_object_id ''msg'') (\<lambda>i.
     bindE (InsertOneMessages (m\<lparr>m_id := i\<rparr>)) (\<lambda>_.
     RetrieveMessage i (m_thread_id m)))"

definition text_message :: "string \<Rightarrow> MessageRole \<Rightarrow> string \<Rightarrow> string \<Rightarrow> int \<Rightarrow> MessageObject" where
  "text_message thread_id role value run_id t =
     \<lparr>m_id = [], m_created_at = 0, m_modified_at = 0, m_thread_id = thread_id, m_status = message_completed,
      m_completed_at = t, m_incompleted_at = 0, m_role = role,
      m_content = [\<lparr>content_type = text_content, text_value = value, annotations = [], image_files = []\<rparr>],
      m_assistant_id = [], m_run_id = run_id, m_attachments = [], m_metadata = None\<rparr>"

definition CreateMessage :: "CreateMessageRequest \<Rightarrow> (World, MessageObject option) eff" where
  "CreateMessage req =
     bindE (assert_not_blank (cm_thread_id req) ''should provide thread_id'') (\<lambda>_.
     bindE GetCurrentEpochMicroSeconds (\<lambda>t.
     CreateRawMessage (text_message (cm_thread_id req) (cm_role req) (cm_content req) (cm_run_id req) t)))"

definition ModifyMessage :: "string \<Rightarrow> string \<Rightarrow> json option \<Rightarrow> (World, MessageObject option) eff" where
  "ModifyMessage message_id thread_id metadata =
     bindE (assert_not_blank message_id ''should provide message id'') (\<lambda>_.
     bindE (assert_not_blank thread_id ''should provide thread id'') (\<lambda>_.
     bindE (UpdateMessage message_id thread_id metadata) (\<lambda>_.
     RetrieveMessage message_id thread_id)))"

section \<open>Threads\<close>

text \<open>The messages given with a thread or a run: an id and a time of their own each.\<close>

definition new_message :: "string \<Rightarrow> string \<Rightarrow> CreateMessageRequest \<Rightarrow> (World, MessageObject) eff" where
  "new_message thread_id run_id req =
     bindE (next_object_id ''msg'') (\<lambda>i. bindE GetCurrentEpochMicroSeconds (\<lambda>t.
     ret ((text_message thread_id (cm_role req) (cm_content req) run_id t)\<lparr>m_id := i\<rparr>)))"

definition RetrieveThread :: "string \<Rightarrow> (World, ThreadObject option) eff" where
  "RetrieveThread thread_id =
     bindE (assert_not_blank thread_id ''given string cannot be blank'') (\<lambda>_.
     DT_SelectOne instinct_thread (filter (\<lambda>th. t_id th = thread_id)))"

definition CreateThread :: "CreateThreadRequest \<Rightarrow> (World, ThreadObject option) eff" where
  "CreateThread req =
     bindE (next_object_id ''thread'') (\<lambda>thread_id.
     bindE (if ct_messages req \<noteq> []
       then bindE (mapE (new_message thread_id []) (ct_messages req)) (\<lambda>msgs.
            bindE (InsertManyMessages msgs) (\<lambda>_. ret ()))
       else ret ()) (\<lambda>_.
     bindE (InsertOneThread \<lparr>t_id = thread_id, t_created_at = 0, t_modified_at = 0,
         t_tool_resources = ct_tool_resources req, t_metadata = ct_metadata req\<rparr>) (\<lambda>_.
     RetrieveThread thread_id)))"

definition ModifyThread :: "string \<Rightarrow> AssistantToolResources option \<Rightarrow> json option \<Rightarrow> (World, ThreadObject option) eff" where
  "ModifyThread thread_id resources metadata =
     bindE (assert_not_blank thread_id ''should provide thread id'') (\<lambda>_.
     bindE (UpdateThread thread_id resources metadata) (\<lambda>_.
     RetrieveThread thread_id))"

definition DeleteThread :: "string \<Rightarrow> (World, DeleteResponse) eff" where
  "DeleteThread thread_id =
     bindE (assert_not_blank thread_id ''should provide thread id for  deletion'') (\<lambda>_.
     bindE (SelectManyRuns thread_id [] [] (Some [run_in_progress, run_cancelling]) desc 1) (\<lambda>transition_runs.
     bindE (assert_true (transition_runs = [])
       (''Some run objects in this thread are in active state which prevents delete of this thread. thread_id='' @ thread_id @
        '', run_ids='' @ JoinWith (map r_id transition_runs) '','')) (\<lambda>_.
     bindE (DeleteManyRuns thread_id) (\<lambda>_.
     bindE (DeleteManyRunSteps thread_id) (\<lambda>_.
     bindE (DeleteManyMessages thread_id) (\<lambda>_.
     bindE (SQL_DeleteThread thread_id) (\<lambda>count.
     ret \<lparr>deleted_id = thread_id, deleted = (count = 1)\<rparr>)))))))"

section \<open>What the operations keep\<close>

lemma preserves_assistant_service [eff_rules]:
  "preserves P (ListAssistants l)" "preserves P (RetrieveAssistant i)" "preserves (world_inv Q) (CreateAssistant a)"
  "preserves (world_inv Q) (DeleteAssistant i)" "preserves (world_inv Q) (ModifyAssistant req)"
  unfolding ListAssistants_def RetrieveAssistant_def CreateAssistant_def DeleteAssistant_def ModifyAssistant_def
  by (auto intro!: eff_rules)

lemma preserves_message_service [eff_rules]:
  "preserves P (ListMessages l)" "preserves P (RetrieveMessage i th)" "preserves (world_inv Q) (CreateRawMessage m)"
  "preserves (world_inv Q) (CreateMessage req)" "preserves (world_inv Q) (ModifyMessage i th meta)"
  "preserves (world_inv Q) (new_message th r req)"
  unfolding ListMessages_def RetrieveMessage_def CreateRawMessage_def CreateMessage_def ModifyMessage_def new_message_def
  by (auto intro!: eff_rules)

lemma preserves_thread_service [eff_rules]:
  "preserves P (RetrieveThread i)" "preserves (world_inv Q) (CreateThread req)"
  "preserves (world_inv Q) (ModifyThread i res meta)" "preserves (world_inv Q) (DeleteThread i)"
  unfolding RetrieveThread_def CreateThread_def ModifyThread_def DeleteThread_def
  by (auto intro!: eff_rules)

end
