(* ===== verification/Run_Service.thy ===== *)
theory Run_Service
  imports Assistant_Services
begin

text \<open>
  \<^verbatim>\<open>RunServiceImpl.hpp\<close>: runs and run steps. The payload of a scheduled task is the
  serialised run object; the protobuf round trip is the identity, so the payload here is the run
  object itself. The texts of some assertions also carry ids; they are left out.
\<close>

record CreateThreadAndRunRequest =
  ctr_assistant_id :: string
  ctr_thread :: "CreateThreadRequest option"
  ctr_model :: string
  ctr_instructions :: string
  ctr_tools :: "AssistantToolObject list"
  ctr_tool_resources :: "AssistantToolResources option"
  ctr_metadata :: "json option"
  ctr_temperature :: float32
  ctr_top_p :: float32
  ctr_max_prompt_tokens :: int
  ctr_max_completion_tokens :: int
  ctr_tool_choice :: string
  ctr_response_format :: string

record CreateRunRequest =
  cr_thread_id :: string
  cr_assistant_id :: string
  cr_instructions :: string
  cr_additional_messages :: "CreateMessageRequest list"
  cr_tools :: "AssistantToolObject list"
  cr_metadata :: "json option"
  cr_temperature :: float32
  cr_top_p :: float32
  cr_max_prompt_tokens :: int
  cr_max_completion_tokens :: int
  cr_tool_choice :: string
  cr_response_format :: string

record ToolOutput =
  to_tool_call_id :: string
  to_output :: string

definition CATEGORY :: string where "CATEGORY = ''run_object''"

definition RetrieveRun :: "string \<Rightarrow> string \<Rightarrow> (World, RunObject option) eff" where
  "RetrieveRun thread_id run_id =
     bindE (assert_not_blank thread_id ''should provide thread id'') (\<lambda>_.
     bindE (assert_not_blank run_id ''should provide run id'') (\<lambda>_.
     SelectOneRun run_id thread_id))"

text \<open>\<open>if (run_object && task_scheduler_) task_scheduler_->Enqueue(...)\<close>\<close>

definition enqueue_run :: "string \<Rightarrow> RunObject option \<Rightarrow> (World, unit) eff" where
  "enqueue_run run_id run_object =
     bindE (getE has_scheduler) (\<lambda>sched.
       case run_object of
         None \<Rightarrow> ret ()
       | Some r \<Rightarrow>
           if sched
           then modifyE (scheduled_update (\<lambda>q. q @ [\<lparr>task_id = run_id, category = CATEGORY, payload = r\<rparr>]))
           else ret ())"

text \<open>The run and message sequence checks of \<open>CreateThreadAndRun\<close>; the flag is \<open>is_user_message\<close>.\<close>

fun check_sequence :: "bool \<Rightarrow> CreateMessageRequest list \<Rightarrow> (World, unit) eff" where
  "check_sequence is_user_message [] = ret ()"
| "check_sequence is_user_message (msg # msgs) =
     bindE (if cm_role msg = user then assert_true (\<not> is_user_message) ''illegal sequence of user messages'' else ret ()) (\<lambda>_.
     bindE (if cm_role msg = assistant then assert_true is_user_message ''illegal sequence of assistan messages'' else ret ()) (\<lambda>_.
     check_sequence (cm_role msg = user) msgs))"

text \<open>
  The row of a new run. All scalar fields of the request are written, also those left at zero; the
  response format is always \<open>auto\<close>.
\<close>

definition thread_run_row :: "CreateThreadAndRunRequest \<Rightarrow> string \<Rightarrow> string \<Rightarrow> RunObject" where
  "thread_run_row req run_id thread_id =
     \<lparr>r_id = run_id, r_created_at = 0, r_modified_at = 0, r_thread_id = thread_id,
      r_assistant_id = ctr_assistant_id req, r_status = run_queued, r_required_action = None,
      r_expires_at = 0, r_started_at = 0, r_cancelled_at = 0, r_failed_at = 0, r_completed_at = 0,
      r_model = ctr_model req, r_instructions = ctr_instructions req, r_tools = ctr_tools req,
      r_metadata = ctr_metadata req, r_temperature = Some (ctr_temperature req), r_top_p = Some (ctr_top_p req),
      r_max_prompt_tokens = ctr_max_prompt_tokens req, r_max_completion_tokens = ctr_max_completion_tokens req,
      r_tool_choice = ctr_tool_choice req, r_response_format = ''auto''\<rparr>"

text \<open>Everything after the checks.\<close>

definition store_thread_and_run :: "CreateThreadAndRunRequest \<Rightarrow> CreateThreadRequest \<Rightarrow> (World, RunObject option) eff" where
  "store_thread_and_run req th =
     bindE (next_object_id ''run'') (\<lambda>run_id.
     bindE (next_object_id ''thread'') (\<lambda>thread_id.
     bindE (InsertOneThread \<lparr>t_id = thread_id, t_created_at = 0, t_modified_at = 0,
         t_tool_resources = ct_tool_resources th, t_metadata = ct_metadata th\<rparr>) (\<lambda>_.
     bindE (mapE (new_message thread_id run_id) (ct_messages th)) (\<lambda>msgs.
     bindE (InsertManyMessages msgs) (\<lambda>msg_ids.
     bindE (assert_true (length msg_ids = length (ct_messages th)) ''should have saved all additional messages'') (\<lambda>_.
     bindE (InsertOneRun (ctr_tool_resources req \<noteq> None) (thread_run_row req run_id thread_id)) (\<lambda>_.
     bindE (RetrieveRun thread_id run_id) (\<lambda>run_object.
     bindE (enqueue_run run_id run_object) (\<lambda>_.
     ret run_object)))))))))"

definition CreateThreadAndRun :: "CreateThreadAndRunRequest \<Rightarrow> (World, RunObject option) eff" where
  "CreateThreadAndRun req =
     bindE (assert_not_blank (ctr_assistant_id req) ''should provide assistant id'') (\<lambda>_.
       case ctr_thread req of
         None \<Rightarrow> throw (ClientException ''should provide thread data'')
       | Some th \<Rightarrow>
           bindE (assert_gt (int (length (ct_messages th))) 0 ''should have thread messages'') (\<lambda>_.
           bindE (check_sequence False (ct_messages th)) (\<lambda>_.
           store_thread_and_run req th)))"

text \<open>Every additional message draws two ids: the first lands in a context that is not used.\<close>

definition CreateRun :: "CreateRunRequest \<Rightarrow> (World, RunObject option) eff" where
  "CreateRun req =
     bindE (assert_not_blank (cr_thread_id req) ''should provide thread id'') (\<lambda>_.
     bindE (assert_not_blank (cr_assistant_id req) ''should provide assistant id'') (\<lambda>_.
     bindE (next_object_id ''run'') (\<lambda>run_id.
     bindE (if cr_additional_messages req \<noteq> []
       then bindE (mapE (\<lambda>_. next_object_id ''msg'') (cr_additional_messages req)) (\<lambda>_.
            bindE (mapE (new_message (cr_thread_id req) run_id) (cr_additional_messages req)) (\<lambda>msgs.
            bindE (InsertManyMessages msgs) (\<lambda>msg_ids.
            assert_true (length msg_ids = length (cr_additional_messages req)) ''should have saved all additional messages'')))
       else ret ()) (\<lambda>_.
     bindE (InsertOneRun False
         \<lparr>r_id = run_id, r_created_at = 0, r_modified_at = 0, r_thread_id = cr_thread_id req,
          r_assistant_id = cr_assistant_id req, r_status = run_queued, r_required_action = None,
          r_expires_at = 0, r_started_at = 0, r_cancelled_at = 0, r_failed_at = 0, r_completed_at = 0,
          r_model = [], r_instructions = cr_instructions req, r_tools = cr_tools req,
          r_metadata = cr_metadata req, r_temperature = Some (cr_temperature req), r_top_p = Some (cr_top_p req),
          r_max_prompt_tokens = cr_max_prompt_tokens req, r_max_completion_tokens = cr_max_completion_tokens req,
          r_tool_choice = cr_tool_choice req, r_response_format = ''auto''\<rparr>) (\<lambda>_.
     bindE (RetrieveRun (cr_thread_id req) run_id) (\<lambda>run_object.
     bindE (enqueue_run run_id run_object) (\<lambda>_.
     ret run_object)))))))"

text \<open>
  The request's own \<open>limit\<close> is converted over the one just computed, and \<open>front()\<close>
  of an empty result is undefined.
\<close>

definition ListRuns :: "ListRequest \<Rightarrow> (World, RunObject ListResponse) eff" where
  "ListRuns req =
     bindE (assert_not_blank (lr_thread_id req) ''should provide thread_id'') (\<lambda>_.
     bindE (liftR (list_limit (lr_limit req))) (\<lambda>limit.
     bindE (SelectManyRuns (lr_thread_id req) (lr_after req) (lr_before req) None (lr_order req)
         (if lr_limit req \<noteq> 0 then lr_limit req else limit)) (\<lambda>run_list.
     if int (length run_list) < limit \<and> run_list = [] then throw UndefinedBehaviour
     else ret (list_page r_id limit run_list))))"

definition check_required_call :: "RequiredToolCall \<Rightarrow> (World, unit) eff" where
  "check_required_call c =
     bindE (assert_true (rt_is_function c) ''should have type on tool call'') (\<lambda>_.
     bindE (assert_not_blank (rt_id c) ''should have id on tool call'') (\<lambda>_.
       case rt_function c of
         None \<Rightarrow> ret ()
       | Some (name, arguments) \<Rightarrow>
           bindE (assert_not_blank name ''should have non blank name on function'') (\<lambda>_.
           assert_not_blank arguments ''should have non blank name on arguments'')))"

definition ModifyRun :: "ModifyRunRequest \<Rightarrow> (World, RunObject option) eff" where
  "ModifyRun req =
     bindE (assert_not_blank (mr_thread_id req) ''should provide thread_id'') (\<lambda>_.
     bindE (assert_not_blank (mr_run_id req) ''should provide run_id'') (\<lambda>_.
     bindE (case mr_required_action req of None \<Rightarrow> ret () | Some a \<Rightarrow> forE check_required_call (required_tool_calls a)) (\<lambda>_.
     bindE (UpdateRun req) (\<lambda>count.
     bindE (assert_true (count = 1) ''should have run object updated'') (\<lambda>_.
     RetrieveRun (mr_thread_id req) (mr_run_id req))))))"

definition CancelRun :: "string \<Rightarrow> string \<Rightarrow> (World, RunObject option) eff" where
  "CancelRun thread_id run_id =
     bindE (UpdateRun (empty_modify_run\<lparr>mr_thread_id := thread_id, mr_run_id := run_id, mr_status := run_cancelling\<rparr>)) (\<lambda>_.
     RetrieveRun thread_id run_id)"

section \<open>Run steps\<close>

definition ListRunSteps :: "ListRequest \<Rightarrow> (World, RunStepObject ListResponse) eff" where
  "ListRunSteps req =
     bindE (liftR (list_limit (lr_limit req))) (\<lambda>limit.
     bindE (SelectManyRunSteps (lr_thread_id req) (lr_run_id req) (lr_after req) (lr_before req)
         (list_order (lr_order req)) limit) (\<lambda>run_step_list.
     ret (list_page s_id limit run_step_list)))"

definition GetRunStep :: "string \<Rightarrow> string \<Rightarrow> string \<Rightarrow> (World, RunStepObject option) eff" where
  "GetRunStep run_id step_id thread_id = SQL_GetRunStep run_id step_id thread_id"

definition check_step_call :: "ToolCallDetail \<Rightarrow> (World, unit) eff" where
  "check_step_call c =
     bindE (assert_true (td_type c \<noteq> unknown_assistant_tool_type) ''should have correct tool call type'') (\<lambda>_.
       case td_function c of
         None \<Rightarrow> ret ()
       | Some f \<Rightarrow>
           bindE (assert_not_blank (fd_name f) ''should provide name for tool call'') (\<lambda>_.
           assert_not_blank (fd_arguments f) ''should provide arguments for tool call''))"

text \<open>\<open>step_details()\<close> of a step that has none is the empty message.\<close>

definition step_details :: "RunStepObject \<Rightarrow> RunStepDetails" where
  "step_details s = (case s_step_details s of None \<Rightarrow> empty_details | Some d \<Rightarrow> d)"

definition CreateRunStep :: "RunStepObject \<Rightarrow> (World, RunStepObject option) eff" where
  "CreateRunStep s =
     bindE (assert_not_blank (s_run_id s) ''should provide run_id'') (\<lambda>_.
     bindE (assert_not_blank (s_thread_id s) ''should provide thread_id'') (\<lambda>_.
     bindE (assert_true (s_status s \<noteq> unknown_run_step_status) ''should provide status'') (\<lambda>_.
     bindE (assert_true (s_type s \<noteq> unknown_run_step_type) ''should provide type'') (\<lambda>_.
     bindE (if s_type s = tool_calls_step then forE check_step_call (details_tool_calls (step_details s)) else ret ()) (\<lambda>_.
     bindE (if s_type s = message_creation_step
       then bindE (assert_true (message_creation (step_details s) \<noteq> None) ''should provide message_creation object'') (\<lambda>_.
            assert_not_blank (case message_creation (step_details s) of None \<Rightarrow> [] | Some i \<Rightarrow> i) ''should provide message_id'')
       else ret ()) (\<lambda>_.
     bindE (next_object_id ''run_step'') (\<lambda>run_step_id.
     bindE (InsertOneRunStep (s\<lparr>s_id := run_step_id\<rparr>)) (\<lambda>_.
     GetRunStep (s_run_id s) run_step_id (s_thread_id s)))))))))"

definition ModifyRunStep :: "ModifyRunStepRequest \<Rightarrow> (World, RunStepObject option) eff" where
  "ModifyRunStep req =
     bindE (assert_not_blank (ms_run_id req) ''should provide run_id'') (\<lambda>_.
     bindE (assert_not_blank (ms_thread_id req) ''should provide thread_id'') (\<lambda>_.
     bindE (assert_not_blank (ms_step_id req) ''should provide step_id'') (\<lambda>_.
     bindE (UpdateRunStep req) (\<lambda>_.
     GetRunStep (ms_run_id req) (ms_step_id req) (ms_thread_id req)))))"

section \<open>Submitting tool outputs\<close>

text \<open>\<open>mutable_function()->set_output(...)\<close>\<close>

definition set_output :: "string \<Rightarrow> ToolCallDetail \<Rightarrow> ToolCallDetail" where
  "set_output out c =
     c\<lparr>td_function := Some ((case td_function c of None \<Rightarrow> empty_function_detail | Some f \<Rightarrow> f)\<lparr>fd_output := out\<rparr>)\<rparr>"

text \<open>One output: the ids still open and the calls of the step.\<close>

definition apply_output :: "ToolOutput \<Rightarrow> string set \<times> ToolCallDetail list \<Rightarrow> string set \<times> ToolCallDetail list" where
  "apply_output out p =
     (case p of (ids, calls) \<Rightarrow>
        (ids - set (map td_id (filter (\<lambda>c. td_id c = to_tool_call_id out) calls)),
         map (\<lambda>c. if td_id c = to_tool_call_id out then set_output (to_output out) c else c) calls))"

definition SubmitToolOutputs :: "string \<Rightarrow> string \<Rightarrow> ToolOutput list \<Rightarrow> (World, RunObject option) eff" where
  "SubmitToolOutputs thread_id run_id tool_outputs =
     bindE (assert_not_blank run_id ''should provide run_id'') (\<lambda>_.
     bindE (assert_not_blank thread_id ''should provide thread_id'') (\<lambda>_.
     bindE (RetrieveRun thread_id run_id) (\<lambda>run_opt.
     bindE (assert_true (run_opt \<noteq> None) ''should have found run object'') (\<lambda>_.
     let run_object = the run_opt;
         action = (case r_required_action run_object of None \<Rightarrow> \<lparr>is_submit_tool_outputs = False, required_tool_calls = []\<rparr> | Some a \<Rightarrow> a) in
     bindE (assert_true (r_status run_object = run_requires_action) ''run object should be in status of 'requires_action'.'') (\<lambda>_.
     bindE (assert_true (is_submit_tool_outputs action) ''required action for run object should be type of 'submit_tool_outputs'.'') (\<lambda>_.
     bindE (ListRunSteps (empty_list_request\<lparr>lr_thread_id := thread_id, lr_run_id := run_id, lr_order := desc, lr_limit := 1\<rparr>)) (\<lambda>resp.
     bindE (assert_true (length (list_data resp) = 1) ''should have found latest run step'') (\<lambda>_.
     let last_run_step = hd (list_data resp) in
     bindE (assert_true (s_status last_run_step = step_in_progress) ''Last run step should be in status of 'in_progress'.'') (\<lambda>_.
     let function_calls = filter rt_is_function (required_tool_calls action) in
     bindE (assert_true (length function_calls > 0) ''should have at at least one tool call'') (\<lambda>_.
     let (open_ids, calls) = fold apply_output tool_outputs (set (map rt_id function_calls), details_tool_calls (step_details last_run_step)) in
     bindE (assert_true (open_ids = {}) ''should provide results for all function calls.'') (\<lambda>_.
     bindE (ModifyRunStep (empty_modify_step\<lparr>ms_run_id := run_id, ms_thread_id := thread_id, ms_step_id := s_id last_run_step,
         ms_step_details := Some ((step_details last_run_step)\<lparr>details_tool_calls := calls\<rparr>)\<rparr>)) (\<lambda>step_opt.
     bindE (assert_true (step_opt \<noteq> None) ''should have run step object updated.'') (\<lambda>_.
     bindE (ModifyRun (empty_modify_run\<lparr>mr_run_id := run_id, mr_thread_id := thread_id, mr_status := run_queued\<rparr>)) (\<lambda>returned_object.
     bindE (enqueue_run run_id returned_object) (\<lambda>_.
     ret returned_object)))))))))))))))"

section \<open>What the operations keep\<close>

lemma preserves_check_sequence [eff_rules]: "preserves P (check_sequence b msgs)"
  by (induction b msgs rule: check_sequence.induct) (simp_all only: check_sequence.simps, intro eff_rules, intro eff_rules)

lemma preserves_run_reads [eff_rules]:
  "preserves P (RetrieveRun th i)" "preserves P (ListRuns l)" "preserves P (ListRunSteps l)" "preserves P (GetRunStep r i th)"
  "preserves P (check_required_call c)" "preserves P (check_step_call d)"
  unfolding RetrieveRun_def ListRuns_def ListRunSteps_def GetRunStep_def check_required_call_def check_step_call_def
  by (auto intro!: eff_rules split: prod.split)

lemma preserves_run_writes [eff_rules]:
  "preserves (world_inv Q) (ModifyRun req)" "preserves (world_inv Q) (CancelRun th i)"
  "preserves (world_inv Q) (CreateRunStep s)" "preserves (world_inv Q) (ModifyRunStep sreq)"
  unfolding ModifyRun_def CancelRun_def CreateRunStep_def ModifyRunStep_def
  by (auto intro!: eff_rules)

end
