(* ===== verification/Run_Service_Correct.thy ===== *)
theory Run_Service_Correct
  imports Run_Service
begin

text \<open>
  What the run, thread and message services promise: primary keys stay unique and only queued runs
  are scheduled; tool outputs are accepted only for a run that waits for them and only if every call
  is answered, and a refusal changes nothing; lists are pages of the ordered rows; deleting a thread
  leaves nothing of it behind.
\<close>

section \<open>Evaluation of the services\<close>

definition run_is :: "string \<Rightarrow> string \<Rightarrow> RunObject \<Rightarrow> bool" where
  "run_is thread_id run_id r \<longleftrightarrow> r_id r = run_id \<and> r_thread_id r = thread_id"

definition find_run :: "string \<Rightarrow> string \<Rightarrow> World \<Rightarrow> RunObject option" where
  "find_run thread_id run_id w = find (run_is thread_id run_id) (instinct_thread_run w)"

lemma find_runD:
  "find_run th i w = Some r \<Longrightarrow> r \<in> set (instinct_thread_run w) \<and> r_id r = i \<and> r_thread_id r = th"
  by (auto simp: find_run_def find_Some_iff run_is_def)

lemma RetrieveRun_eval:
  "RetrieveRun th i w =
     (if IsBlankString th then (Inl (ClientException ''should provide thread id''), w)
      else if IsBlankString i then (Inl (ClientException ''should provide run id''), w)
      else (Inr (find_run th i w), w))"
  by (simp add: RetrieveRun_def SelectOneRun_def store_simps not_blank_nonempty
      run_table.select_limit_1 [unfolded One_nat_def] find_run_def run_is_def [abs_def])

lemma RetrieveRun_bind [store_simps]:
  "bindE (RetrieveRun th i) f w =
     (if IsBlankString th then (Inl (ClientException ''should provide thread id''), w)
      else if IsBlankString i then (Inl (ClientException ''should provide run id''), w)
      else f (find_run th i w) w)"
  by (simp add: bindE_def RetrieveRun_eval)

definition patched_run :: "ModifyRunRequest \<Rightarrow> World \<Rightarrow> World" where
  "patched_run req w =
     instinct_thread_run_update (map (\<lambda>r. if run_is (mr_thread_id req) (mr_run_id req) r
       then run_patch (clock w (ticks w)) req r else r)) (ticks_update Suc w)"

lemma UpdateRun_eval:
  assumes "mr_thread_id req \<noteq> []" "mr_run_id req \<noteq> []"
  shows "UpdateRun req w =
    (Inr (length (filter (run_is (mr_thread_id req) (mr_run_id req)) (instinct_thread_run w))), patched_run req w)"
  using assms
  by (simp add: UpdateRun_def store_simps DT_Execute_update_def patched_run_def run_is_def [abs_def] conj_commute cong: conj_cong)

lemma find_patched_run:
  "find_run (mr_thread_id req) (mr_run_id req) (patched_run req w) =
     map_option (run_patch (clock w (ticks w)) req) (find_run (mr_thread_id req) (mr_run_id req) w)"
  unfolding find_run_def patched_run_def by (simp, subst find_map_update) (simp_all add: run_is_def)

lemma count_run:
  assumes "store_ok w"
  shows "length (filter (run_is th i) (instinct_thread_run w)) = (if find_run th i w = None then 0 else 1)"
  using run_table.filter_key [OF store_ok_keys(4) [OF assms], of i "\<lambda>r. r_thread_id r = th"]
  by (auto simp: find_run_def run_is_def [abs_def] split: option.splits)

lemma ModifyRun_eval:
  assumes "store_ok w" "mr_required_action req = None" "\<not> IsBlankString (mr_thread_id req)" "\<not> IsBlankString (mr_run_id req)"
  shows "ModifyRun req w =
    (case find_run (mr_thread_id req) (mr_run_id req) w of
       None \<Rightarrow> (Inl (ClientException ''should have run object updated''), patched_run req w)
     | Some r \<Rightarrow> (Inr (Some (run_patch (clock w (ticks w)) req r)), patched_run req w))"
  using assms
  by (simp add: ModifyRun_def store_simps bindE_ret [OF UpdateRun_eval] not_blank_nonempty count_run
      RetrieveRun_eval find_patched_run split: option.split)

lemma enqueue_run_eval:
  "enqueue_run i (Some r) w =
     (Inr (), if has_scheduler w then scheduled_update (\<lambda>q. q @ [\<lparr>task_id = i, category = CATEGORY, payload = r\<rparr>]) w else w)"
  by (simp add: enqueue_run_def)

section \<open>Pages\<close>

lemma list_page_take:
  assumes "0 < l"
  shows "list_data (list_page idf (int l + 1) (take (Suc l) xs)) = take l xs"
    and "has_more (list_page idf (int l + 1) (take (Suc l) xs)) \<longleftrightarrow> l < length xs"
proof -
  have "butlast (take (Suc l) xs) = take l xs" if "l < length xs"
    using that by (simp add: butlast_take)
  then show "list_data (list_page idf (int l + 1) (take (Suc l) xs)) = take l xs"
    by (auto simp: list_page_def Let_def min_def)
  show "has_more (list_page idf (int l + 1) (take (Suc l) xs)) \<longleftrightarrow> l < length xs"
    by (auto simp: list_page_def Let_def min_def)
qed

text \<open>The page size a request asks for.\<close>

definition page_size :: "int \<Rightarrow> nat" where
  "page_size l = (if l \<le> 0 then 20 else nat l)"

lemma list_limit_eval: "l < 2147483647 \<Longrightarrow> list_limit l = Inr (int (page_size l) + 1)"
  by (simp add: list_limit_def page_size_def DEFAULT_LIST_LIMIT_def)

lemma page_size_pos: "0 < page_size l"
  by (simp add: page_size_def)

lemma nat_page_size: "nat (int (page_size l) + 1) = Suc (page_size l)"
  by simp

text \<open>The rows of the steps of a run in the order asked for.\<close>

definition ordered_steps :: "ListRequest \<Rightarrow> World \<Rightarrow> RunStepObject list" where
  "ordered_steps req w =
     order_by (list_order (lr_order req)) s_created_at s_id w
       (filter (\<lambda>s. s_thread_id s = lr_thread_id req \<and> s_run_id s = lr_run_id req \<and>
          (IsNotBlankString (lr_after req) \<longrightarrow> lr_after req < s_id s) \<and>
          (IsNotBlankString (lr_before req) \<longrightarrow> s_id s < lr_before req)) (instinct_thread_run_step w))"

lemma list_order_known: "list_order order \<noteq> unknown_list_request_order"
  by (simp add: list_order_def)

lemma ListRunSteps_eval:
  assumes "lr_limit req < 2147483647" "lr_thread_id req \<noteq> []" "lr_run_id req \<noteq> []"
  shows "ListRunSteps req w =
    (Inr (list_page s_id (int (page_size (lr_limit req)) + 1) (take (Suc (page_size (lr_limit req))) (ordered_steps req w))), w)"
  using assms
  by (simp add: ListRunSteps_def list_limit_eval SelectManyRunSteps_def store_simps DT_SelectMany_def list_order_known
      ordered_steps_def nat_page_size)

definition ordered_messages :: "ListRequest \<Rightarrow> World \<Rightarrow> MessageObject list" where
  "ordered_messages req w =
     order_by (list_order (lr_order req)) m_created_at m_id w
       (filter (\<lambda>m. m_thread_id m = lr_thread_id req \<and> (lr_run_id req \<noteq> [] \<longrightarrow> m_run_id m = lr_run_id req) \<and>
          (lr_after req \<noteq> [] \<longrightarrow> lr_after req < m_id m) \<and> (lr_before req \<noteq> [] \<longrightarrow> m_id m < lr_before req)) (instinct_thread_message w))"

lemma literal_not_blank:
  "IsNotBlankString ''run_id''" "IsNotBlankString ''after''" "IsNotBlankString ''before''"
  by (simp_all add: IsNotBlankString_def IsBlankString_iff isspace_def)

lemma ListMessages_eval:
  assumes "lr_limit req < 2147483647" "lr_thread_id req \<noteq> []"
  shows "ListMessages req w =
    (Inr (list_page m_id (int (page_size (lr_limit req)) + 1) (take (Suc (page_size (lr_limit req))) (ordered_messages req w))), w)"
  using assms
  by (simp add: ListMessages_def list_limit_eval SelectManyMessages_def store_simps DT_SelectMany_def
      ordered_messages_def nat_page_size literal_not_blank)


section \<open>A small store for the witnesses\<close>

definition demo_run :: RunObject where
  "demo_run = \<lparr>r_id = ''run_1'', r_created_at = 1, r_modified_at = 1, r_thread_id = ''thread_1'', r_assistant_id = ''asst_1'',
     r_status = run_requires_action,
     r_required_action = Some \<lparr>is_submit_tool_outputs = True,
       required_tool_calls = [\<lparr>rt_id = ''c1'', rt_is_function = True, rt_function = Some (''f'', ''{}'')\<rparr>]\<rparr>,
     r_expires_at = 0, r_started_at = 0, r_cancelled_at = 0, r_failed_at = 0, r_completed_at = 0, r_model = [],
     r_instructions = [], r_tools = [], r_metadata = None, r_temperature = Some 0, r_top_p = Some 0,
     r_max_prompt_tokens = 0, r_max_completion_tokens = 0, r_tool_choice = [], r_response_format = ''auto''\<rparr>"

definition demo_step :: RunStepObject where
  "demo_step = \<lparr>s_id = ''run_step_1'', s_created_at = 2, s_modified_at = 2, s_assistant_id = [], s_thread_id = ''thread_1'',
     s_run_id = ''run_1'', s_type = tool_calls_step, s_status = step_in_progress,
     s_step_details = Some \<lparr>details_type = unknown_run_step_type, message_creation = None,
       details_tool_calls = [\<lparr>td_id = ''c1'', td_type = function_tool,
         td_function = Some \<lparr>fd_name = ''f'', fd_arguments = ''{}'', fd_output = []\<rparr>\<rparr>], details_custom = None\<rparr>,
     s_last_error = None, s_expired_at = 0, s_cancelled_at = 0, s_failed_at = 0, s_completed_at = 0\<rparr>"

definition demo_world :: World where
  "demo_world = \<lparr>id_numbers = (\<lambda>n. 100 + int n), id_count = 0, clock = (\<lambda>n. 10 + int n), ticks = 0, tie_rank = (\<lambda>_. 0),
     has_scheduler = True, scheduled = [], instinct_assistant = [],
     instinct_thread = [\<lparr>t_id = ''thread_1'', t_created_at = 1, t_modified_at = 1, t_tool_resources = None, t_metadata = None\<rparr>],
     instinct_thread_message = [], instinct_thread_run = [demo_run], instinct_thread_run_step = [demo_step]\<rparr>"

lemma demo_store_ok: "store_ok demo_world"
  by (simp add: store_ok_def demo_world_def)

lemma demo_ids_not_blank: "\<not> IsBlankString ''thread_1''" "\<not> IsBlankString ''run_1''" "\<not> IsBlankString ''run_step_1''"
  by (simp_all add: IsBlankString_iff isspace_def)


section \<open>Submitting tool outputs\<close>

lemma fold_apply_output:
  "fold apply_output outs (ids, calls) =
     (ids - (set (map to_tool_call_id outs) \<inter> set (map td_id calls)),
      map (\<lambda>c. fold (\<lambda>out c. if td_id c = to_tool_call_id out then set_output (to_output out) c else c) outs c) calls)"
proof (induction outs arbitrary: ids calls)
  case (Cons out outs)
  have ids: "map td_id (map (\<lambda>c. if td_id c = to_tool_call_id out then set_output (to_output out) c else c) calls) = map td_id calls"
    by (simp add: set_output_def)
  have "fold apply_output (out # outs) (ids, calls) =
      fold apply_output outs (ids - set (map td_id (filter (\<lambda>c. td_id c = to_tool_call_id out) calls)),
        map (\<lambda>c. if td_id c = to_tool_call_id out then set_output (to_output out) c else c) calls)"
    by (simp add: apply_output_def)
  also have "\<dots> = (ids - (set (map to_tool_call_id (out # outs)) \<inter> set (map td_id calls)),
      map (\<lambda>c. fold (\<lambda>out c. if td_id c = to_tool_call_id out then set_output (to_output out) c else c) (out # outs) c) calls)"
    unfolding Cons.IH ids by (auto intro: rev_image_eqI)
  finally show ?case .
qed simp

text \<open>The calls of a step once the outputs are in.\<close>

definition answered_calls :: "ToolOutput list \<Rightarrow> ToolCallDetail list \<Rightarrow> ToolCallDetail list" where
  "answered_calls outs calls =
     map (\<lambda>c. case find (\<lambda>out. to_tool_call_id out = td_id c) (rev outs) of
                None \<Rightarrow> c | Some out \<Rightarrow> set_output (to_output out) c) calls"

lemma set_output_simps [simp]:
  "td_id (set_output out c) = td_id c" "td_type (set_output out c) = td_type c"
  "set_output out (set_output out' c) = set_output out c"
  by (simp_all add: set_output_def)

lemma fold_outputs_last:
  "fold (\<lambda>out c. if td_id c = to_tool_call_id out then set_output (to_output out) c else c) outs c =
     (case find (\<lambda>out. to_tool_call_id out = td_id c) (rev outs) of None \<Rightarrow> c | Some out \<Rightarrow> set_output (to_output out) c)"
  by (induction outs rule: rev_induct) (auto split: option.split)

lemma fold_apply_output_spec:
  "fold apply_output outs (ids, calls) =
     (ids - (set (map to_tool_call_id outs) \<inter> set (map td_id calls)), answered_calls outs calls)"
  by (simp add: fold_apply_output fold_outputs_last answered_calls_def)

text \<open>The newest step of a run, if any.\<close>

definition newest_step :: "string \<Rightarrow> string \<Rightarrow> World \<Rightarrow> RunStepObject option" where
  "newest_step th i w =
     (case ordered_steps (empty_list_request\<lparr>lr_thread_id := th, lr_run_id := i\<rparr>) w of [] \<Rightarrow> None | s # _ \<Rightarrow> Some s)"

lemma newest_step_in:
  assumes "newest_step th i w = Some s"
  shows "s \<in> set (instinct_thread_run_step w)" "s_thread_id s = th" "s_run_id s = i"
proof -
  have "s \<in> set (ordered_steps (empty_list_request\<lparr>lr_thread_id := th, lr_run_id := i\<rparr>) w)"
    using assms by (auto simp: newest_step_def split: list.splits)
  then show "s \<in> set (instinct_thread_run_step w)" "s_thread_id s = th" "s_run_id s = i"
    by (auto simp: ordered_steps_def order_by_def empty_list_request_def list_order_def)
qed

definition step_is :: "string \<Rightarrow> string \<Rightarrow> string \<Rightarrow> RunStepObject \<Rightarrow> bool" where
  "step_is th i sid s \<longleftrightarrow> s_id s = sid \<and> s_thread_id s = th \<and> s_run_id s = i"

definition patched_step :: "ModifyRunStepRequest \<Rightarrow> World \<Rightarrow> World" where
  "patched_step req w =
     instinct_thread_run_step_update (map (\<lambda>s. if step_is (ms_thread_id req) (ms_run_id req) (ms_step_id req) s
       then step_patch (clock w (ticks w)) req s else s)) (ticks_update Suc w)"

lemma ModifyRunStep_eval:
  assumes "\<not> IsBlankString (ms_thread_id req)" "\<not> IsBlankString (ms_run_id req)" "\<not> IsBlankString (ms_step_id req)"
  shows "ModifyRunStep req w =
    (Inr (map_option (step_patch (clock w (ticks w)) req)
       (find (step_is (ms_thread_id req) (ms_run_id req) (ms_step_id req)) (instinct_thread_run_step w))), patched_step req w)"
proof -
  have upd: "UpdateRunStep req w =
      (Inr (length (filter (step_is (ms_thread_id req) (ms_run_id req) (ms_step_id req)) (instinct_thread_run_step w))), patched_step req w)"
    using assms by (simp add: UpdateRunStep_def store_simps DT_Execute_update_def patched_step_def step_is_def [abs_def] not_blank_nonempty)
  have "find (step_is (ms_thread_id req) (ms_run_id req) (ms_step_id req)) (instinct_thread_run_step (patched_step req w)) =
      map_option (step_patch (clock w (ticks w)) req)
        (find (step_is (ms_thread_id req) (ms_run_id req) (ms_step_id req)) (instinct_thread_run_step w))"
    unfolding patched_step_def by (simp, subst find_map_update) (simp_all add: step_is_def)
  then show ?thesis
    using assms
    by (simp add: ModifyRunStep_def store_simps bindE_ret [where m = "UpdateRunStep req", OF upd] GetRunStep_def SQL_GetRunStep_def not_blank_nonempty
        step_table.select_limit_1 [unfolded One_nat_def] step_is_def [abs_def])
qed

definition run_action :: "RunObject \<Rightarrow> RequiredAction" where
  "run_action run = (case r_required_action run of None \<Rightarrow> \<lparr>is_submit_tool_outputs = False, required_tool_calls = []\<rparr> | Some a \<Rightarrow> a)"

definition function_call_ids :: "RunObject \<Rightarrow> string list" where
  "function_call_ids run = map rt_id (filter rt_is_function (required_tool_calls (run_action run)))"

text \<open>The run waits for outputs, its newest step is open, and every open call is answered by an output and known to the step.\<close>

definition submit_ready :: "string \<Rightarrow> string \<Rightarrow> ToolOutput list \<Rightarrow> World \<Rightarrow> RunObject \<Rightarrow> RunStepObject \<Rightarrow> bool" where
  "submit_ready th i outs w run step \<longleftrightarrow>
     \<not> IsBlankString i \<and> \<not> IsBlankString th \<and> find_run th i w = Some run \<and> r_status run = run_requires_action \<and>
     is_submit_tool_outputs (run_action run) \<and> newest_step th i w = Some step \<and> s_status step = step_in_progress \<and>
     \<not> IsBlankString (s_id step) \<and> function_call_ids run \<noteq> [] \<and>
     set (function_call_ids run) \<subseteq> set (map to_tool_call_id outs) \<inter> set (map td_id (details_tool_calls (step_details step)))"

definition answer_request :: "string \<Rightarrow> string \<Rightarrow> ToolOutput list \<Rightarrow> RunStepObject \<Rightarrow> ModifyRunStepRequest" where
  "answer_request th i outs step = empty_modify_step\<lparr>ms_run_id := i, ms_thread_id := th, ms_step_id := s_id step,
     ms_step_details := Some ((step_details step)\<lparr>details_tool_calls := answered_calls outs (details_tool_calls (step_details step))\<rparr>)\<rparr>"

definition requeue_request :: "string \<Rightarrow> string \<Rightarrow> ModifyRunRequest" where
  "requeue_request th i = empty_modify_run\<lparr>mr_run_id := i, mr_thread_id := th, mr_status := run_queued\<rparr>"

lemma created_request_ids [simp]:
  "ms_run_id (answer_request th i outs step) = i" "ms_thread_id (answer_request th i outs step) = th"
  "ms_step_id (answer_request th i outs step) = s_id step"
  "mr_run_id (requeue_request th i) = i" "mr_thread_id (requeue_request th i) = th"
  "mr_status (requeue_request th i) = run_queued" "mr_required_action (requeue_request th i) = None"
  by (simp_all add: answer_request_def requeue_request_def empty_modify_run_def)

lemma latest_step_eval:
  assumes "th \<noteq> []" "i \<noteq> []"
  shows "\<exists>resp. ListRunSteps (empty_list_request\<lparr>lr_thread_id := th, lr_run_id := i, lr_order := desc, lr_limit := 1\<rparr>) w = (Inr resp, w) \<and>
    list_data resp = (case newest_step th i w of None \<Rightarrow> [] | Some s \<Rightarrow> [s])"
proof -
  let ?req = "empty_list_request\<lparr>lr_thread_id := th, lr_run_id := i, lr_order := desc, lr_limit := 1\<rparr>"
  have eq: "ordered_steps ?req w = ordered_steps (empty_list_request\<lparr>lr_thread_id := th, lr_run_id := i\<rparr>) w"
    by (simp add: ordered_steps_def empty_list_request_def list_order_def)
  have 1: "page_size (lr_limit ?req) = 1" by (simp add: page_size_def)
  have "ListRunSteps ?req w = (Inr (list_page s_id (int 1 + 1) (take (Suc 1) (ordered_steps ?req w))), w)"
    using ListRunSteps_eval [of ?req w] assms 1 by simp
  moreover have "list_data (list_page s_id (int 1 + 1) (take (Suc 1) (ordered_steps ?req w))) = (case newest_step th i w of None \<Rightarrow> [] | Some s \<Rightarrow> [s])"
    using list_page_take(1) [of 1 s_id "ordered_steps ?req w"] unfolding eq newest_step_def by (simp split: list.split)
  ultimately show ?thesis by blast
qed

text \<open>What happens once all checks have passed.\<close>

lemma submit_tail:
  assumes "store_ok w" "submit_ready th i outs w run step"
  shows "bindE (ModifyRunStep (answer_request th i outs step)) (\<lambda>step_opt.
      bindE (assert_true (step_opt \<noteq> None) msg) (\<lambda>_.
      bindE (ModifyRun (requeue_request th i)) (\<lambda>returned_object.
      bindE (enqueue_run i returned_object) (\<lambda>_. ret returned_object)))) w =
    (let run' = run_patch (clock w (Suc (ticks w))) (requeue_request th i) run;
         w' = patched_run (requeue_request th i) (patched_step (answer_request th i outs step) w)
     in (Inr (Some run'), if has_scheduler w then scheduled_update (\<lambda>q. q @ [\<lparr>task_id = i, category = CATEGORY, payload = run'\<rparr>]) w' else w'))"
proof -
  note r = assms(2) [unfolded submit_ready_def]
  let ?sreq = "answer_request th i outs step" and ?rreq = "requeue_request th i"
  let ?w1 = "patched_step ?sreq w"
  have "find (step_is th i (s_id step)) (instinct_thread_run_step w) \<noteq> None"
    using newest_step_in [of th i w step] r by (auto simp: find_None_iff step_is_def)
  then obtain s where s: "find (step_is th i (s_id step)) (instinct_thread_run_step w) = Some s" by blast
  have step: "ModifyRunStep ?sreq w = (Inr (Some (step_patch (clock w (ticks w)) ?sreq s)), ?w1)"
    using ModifyRunStep_eval [of ?sreq w] r s by simp
  have ok1: "store_ok ?w1"
  proof -
    have "preserves (world_inv (\<lambda>_. True)) (ModifyRunStep ?sreq)" by (intro eff_rules)
    from preservesD [OF this _ step] assms(1) show ?thesis by (simp add: world_inv_def)
  qed
  have same: "find_run th i ?w1 = Some run" "ticks ?w1 = Suc (ticks w)" "clock ?w1 = clock w" "has_scheduler ?w1 = has_scheduler w"
    using r by (simp_all add: find_run_def patched_step_def)
  have run: "ModifyRun ?rreq ?w1 = (Inr (Some (run_patch (clock w (Suc (ticks w))) ?rreq run)), patched_run ?rreq ?w1)"
    using ModifyRun_eval [OF ok1, of ?rreq] same r by simp
  show ?thesis
    by (simp add: bindE_ret [where m = "ModifyRunStep ?sreq", OF step] store_simps
        bindE_ret [where m = "ModifyRun ?rreq", OF run] bindE_ret [where m = "enqueue_run _ _", OF enqueue_run_eval] Let_def)
      (simp add: patched_run_def patched_step_def)
qed

lemma submit_refused:
  assumes "\<nexists>run step. submit_ready th i outs w run step"
  shows "\<exists>e. SubmitToolOutputs th i outs w = (Inl e, w)"
proof (cases "IsBlankString i \<or> IsBlankString th \<or> find_run th i w = None")
  case True
  then show ?thesis by (auto simp: SubmitToolOutputs_def store_simps)
next
  case False
  then obtain run where run: "find_run th i w = Some run" and nb: "\<not> IsBlankString i" "\<not> IsBlankString th" by auto
  obtain resp where resp: "ListRunSteps (empty_list_request\<lparr>lr_thread_id := th, lr_run_id := i, lr_order := desc, lr_limit := 1\<rparr>) w = (Inr resp, w)"
    and data: "list_data resp = (case newest_step th i w of None \<Rightarrow> [] | Some s \<Rightarrow> [s])"
    using latest_step_eval [of th i w] nb by (auto dest: not_blank_nonempty)
  note eval = SubmitToolOutputs_def store_simps nb run bindE_ret [where m = "ListRunSteps _", OF resp] run_action_def [symmetric] Let_def data
  show ?thesis
  proof (cases "newest_step th i w")
    case None
    then show ?thesis by (simp add: eval)
  next
    case (Some step)
    have blank: "IsBlankString (s_id step) \<Longrightarrow> bindE (ModifyRunStep (empty_modify_step\<lparr>ms_run_id := i, ms_thread_id := th, ms_step_id := s_id step,
        ms_step_details := d\<rparr>)) f w = (Inl (ClientException ''should provide step_id''), w)" for d and f :: "RunStepObject option \<Rightarrow> (World, RunObject option) eff"
      using nb by (simp add: ModifyRunStep_def store_simps)
    show ?thesis using assms Some run nb
      by (auto simp: eval submit_ready_def fold_apply_output_spec function_call_ids_def blank)
  qed
qed

lemma submit_accepted:
  assumes "store_ok w" "submit_ready th i outs w run step"
  shows "SubmitToolOutputs th i outs w =
    (let run' = run_patch (clock w (Suc (ticks w))) (requeue_request th i) run;
         w' = patched_run (requeue_request th i) (patched_step (answer_request th i outs step) w)
     in (Inr (Some run'), if has_scheduler w then scheduled_update (\<lambda>q. q @ [\<lparr>task_id = i, category = CATEGORY, payload = run'\<rparr>]) w' else w'))"
proof -
  note r = assms(2) [unfolded submit_ready_def]
  have nb: "\<not> IsBlankString i" "\<not> IsBlankString th" and run: "find_run th i w = Some run" and new: "newest_step th i w = Some step"
    using r by simp_all
  obtain resp where resp: "ListRunSteps (empty_list_request\<lparr>lr_thread_id := th, lr_run_id := i, lr_order := desc, lr_limit := 1\<rparr>) w = (Inr resp, w)"
    and data: "list_data resp = [step]"
    using latest_step_eval [of th i w] nb new by (auto dest: not_blank_nonempty)
  have ids: "set (function_call_ids run) - (set (map to_tool_call_id outs) \<inter> set (map td_id (details_tool_calls (step_details step)))) = {}"
    using r by blast
  have tail: "SubmitToolOutputs th i outs w = bindE (ModifyRunStep (answer_request th i outs step)) (\<lambda>step_opt.
      bindE (assert_true (step_opt \<noteq> None) ''should have run step object updated.'') (\<lambda>_.
      bindE (ModifyRun (requeue_request th i)) (\<lambda>returned_object.
      bindE (enqueue_run i returned_object) (\<lambda>_. ret returned_object)))) w"
    using r ids
    by (simp add: SubmitToolOutputs_def store_simps nb run bindE_ret [where m = "ListRunSteps _", OF resp] run_action_def [symmetric]
        Let_def data fold_apply_output_spec function_call_ids_def answer_request_def requeue_request_def)
  show ?thesis unfolding tail by (rule submit_tail [OF assms])
qed

text \<open>
  C1: \<open>SubmitToolOutputs\<close> is all or nothing. If the run waits for outputs, its newest step is
  in progress and every open function call is answered, then the outputs are written into that step,
  the run is queued again and scheduled once, and no other row changes; in every other case it
  throws and the whole world is as before.
\<close>

theorem SubmitToolOutputs_all_or_nothing:
  assumes "store_ok w"
  shows "(\<exists>e. SubmitToolOutputs th i outs w = (Inl e, w) \<and> (\<nexists>run step. submit_ready th i outs w run step)) \<or>
    (\<exists>run step run' w'. submit_ready th i outs w run step \<and> SubmitToolOutputs th i outs w = (Inr (Some run'), w') \<and>
       run' = run\<lparr>r_status := run_queued, r_modified_at := clock w (Suc (ticks w))\<rparr> \<and>
       instinct_thread_run w' = map (\<lambda>r. if r_id r = i \<and> r_thread_id r = th
         then r\<lparr>r_status := run_queued, r_modified_at := clock w (Suc (ticks w))\<rparr> else r) (instinct_thread_run w) \<and>
       instinct_thread_run_step w' = map (\<lambda>s. if s_id s = s_id step \<and> s_thread_id s = th \<and> s_run_id s = i
         then s\<lparr>s_step_details := stored_details ((step_details step)\<lparr>details_tool_calls :=
                answered_calls outs (details_tool_calls (step_details step))\<rparr>), s_modified_at := clock w (ticks w)\<rparr> else s)
           (instinct_thread_run_step w) \<and>
       scheduled w' = scheduled w @ (if has_scheduler w then [\<lparr>task_id = i, category = CATEGORY, payload = run'\<rparr>] else []) \<and>
       instinct_assistant w' = instinct_assistant w \<and> instinct_thread w' = instinct_thread w \<and>
       instinct_thread_message w' = instinct_thread_message w)"
proof (cases "\<exists>run step. submit_ready th i outs w run step")
  case False
  then show ?thesis using submit_refused [of th i outs w] by blast
next
  case True
  then obtain run step where ready: "submit_ready th i outs w run step" by blast
  have patch: "run_patch t (requeue_request th i) r = r\<lparr>r_status := run_queued, r_modified_at := t\<rparr>" for t r
    by (simp add: run_patch_def requeue_request_def empty_modify_run_def)
  have spatch: "step_patch t (answer_request th i outs step) s = s\<lparr>s_step_details := stored_details ((step_details step)\<lparr>details_tool_calls :=
      answered_calls outs (details_tool_calls (step_details step))\<rparr>), s_modified_at := t\<rparr>" for t s
    by (simp add: step_patch_def answer_request_def empty_modify_step_def)
  define run' where "run' = run_patch (clock w (Suc (ticks w))) (requeue_request th i) run"
  define w1 where "w1 = patched_run (requeue_request th i) (patched_step (answer_request th i outs step) w)"
  define w' where "w' = (if has_scheduler w then scheduled_update (\<lambda>q. q @ [\<lparr>task_id = i, category = CATEGORY, payload = run'\<rparr>]) w1 else w1)"
  have submitted: "SubmitToolOutputs th i outs w = (Inr (Some run'), w')"
    using submit_accepted [OF assms ready] by (simp only: Let_def run'_def w1_def w'_def)
  show ?thesis
  proof (rule disjI2, rule exI [of _ run], rule exI [of _ step], rule exI [of _ run'], rule exI [of _ w'], intro conjI ready submitted)
  qed (auto simp: patch spatch run'_def w1_def w'_def patched_run_def patched_step_def run_is_def step_is_def)
qed

theorem SubmitToolOutputs_all_or_nothing_witness:
  "\<exists>run' w'. SubmitToolOutputs ''thread_1'' ''run_1'' [\<lparr>to_tool_call_id = ''c1'', to_output = ''42''\<rparr>] demo_world = (Inr (Some run'), w') \<and>
     r_status run' = run_queued \<and> length (scheduled w') = 1"
proof -
  have new: "newest_step ''thread_1'' ''run_1'' demo_world = Some demo_step"
    by (simp add: newest_step_def empty_list_request_def ordered_steps_def demo_world_def demo_step_def list_order_def
      order_by_def IsNotBlankString_def IsBlankString_iff)
  have "submit_ready ''thread_1'' ''run_1'' [\<lparr>to_tool_call_id = ''c1'', to_output = ''42''\<rparr>] demo_world demo_run demo_step"
    unfolding submit_ready_def new
    by (simp add: demo_ids_not_blank find_run_def run_is_def run_action_def function_call_ids_def step_details_def
        demo_world_def demo_run_def demo_step_def)
  moreover have "has_scheduler demo_world" "scheduled demo_world = []" by (simp_all add: demo_world_def)
  ultimately show ?thesis
    using SubmitToolOutputs_all_or_nothing [OF demo_store_ok, of "''thread_1''" "''run_1''" "[\<lparr>to_tool_call_id = ''c1'', to_output = ''42''\<rparr>]"]
    by fastforce
qed

section \<open>Only queued runs are scheduled\<close>

definition task_ok :: "RunObject Task \<Rightarrow> bool" where
  "task_ok t \<longleftrightarrow> category t = CATEGORY \<and> task_id t = r_id (payload t) \<and> r_status (payload t) = run_queued"

definition queue_ok :: "RunObject Task list \<Rightarrow> bool" where
  "queue_ok q \<longleftrightarrow> list_all task_ok q"

lemma InsertOneRun_cases:
  obtains (refused) e where "InsertOneRun b r w = (Inl e, w)"
  | (duplicate) e where "InsertOneRun b r w = (Inl e, ticks_update Suc w)"
  | (inserted) row where "row = r\<lparr>r_created_at := clock w (ticks w), r_modified_at := clock w (ticks w)\<rparr>"
      "InsertOneRun b r w = (Inr (r_id r), instinct_thread_run_update (\<lambda>t. t @ [row]) (ticks_update Suc w))"
      "distinct (map r_id (instinct_thread_run w @ [row]))"
proof -
  define row where "row = r\<lparr>r_created_at := clock w (ticks w), r_modified_at := clock w (ticks w)\<rparr>"
  define bad where "bad \<longleftrightarrow> b \<or> r_max_prompt_tokens r > 2147483647 \<or> r_max_completion_tokens r > 2147483647"
  have eval: "InsertOneRun b r w = (if bad then (Inl sql_error, w)
      else if distinct (map r_id (instinct_thread_run w @ [row])) then (Inr (r_id r), instinct_thread_run_update (\<lambda>t. t @ [row]) (ticks_update Suc w))
      else (Inl sql_error, ticks_update Suc w))"
    by (simp add: InsertOneRun_def check_presence_def store_simps assert_true_def run_table.insert_one row_def bad_def)
  show thesis
  proof (cases bad)
    case True
    show thesis by (rule that(1)) (simp only: eval True if_True)
  next
    case notbad: False
    show thesis
    proof (cases "distinct (map r_id (instinct_thread_run w @ [row]))")
      case True
      show thesis by (rule that(3) [OF row_def]) (use True notbad eval in \<open>simp_all only: if_True if_False\<close>)
    next
      case False
      show thesis by (rule that(2)) (simp only: eval notbad False if_False)
    qed
  qed
qed

lemma find_inserted_run:
  assumes "distinct (map r_id (instinct_thread_run w @ [row]))"
  shows "find_run (r_thread_id row) (r_id row) (instinct_thread_run_update (\<lambda>t. t @ [row]) (ticks_update Suc w)) = Some row"
  unfolding find_run_def by (rule run_table.find_inserted) (use assms in \<open>simp_all add: run_is_def\<close>)

lemma preserves_enqueue [eff_rules]:
  "(\<And>r. run_opt = Some r \<Longrightarrow> r_id r = i \<and> r_status r = run_queued) \<Longrightarrow> preserves (world_inv queue_ok) (enqueue_run i run_opt)"
  unfolding enqueue_run_def
  by (auto intro!: eff_rules simp: world_inv_def store_ok_def queue_ok_def task_ok_def split: option.split)

text \<open>Insert a queued run, read it back, schedule it.\<close>

lemma preserves_insert_enqueue [eff_rules]:
  assumes "r_status r = run_queued" "r_id r = i" "r_thread_id r = th"
  shows "preserves (world_inv queue_ok) (bindE (InsertOneRun b r) (\<lambda>_. bindE (RetrieveRun th i) (\<lambda>run_object.
    bindE (enqueue_run i run_object) (\<lambda>_. ret run_object))))"
proof (rule preservesI)
  fix w assume w: "world_inv queue_ok w"
  let ?tail = "bindE (RetrieveRun th i) (\<lambda>run_object. bindE (enqueue_run i run_object) (\<lambda>_. ret run_object))"
  show "world_inv queue_ok (snd (bindE (InsertOneRun b r) (\<lambda>_. ?tail) w))"
  proof (cases rule: InsertOneRun_cases [of b r w])
    case (inserted row)
    let ?w = "instinct_thread_run_update (\<lambda>t. t @ [row]) (ticks_update Suc w)"
    have "world_inv queue_ok ?w"
      using preservesD [OF preserves_run_sql(1) w inserted(2)] .
    moreover have "find_run th i ?w = Some row"
      using find_inserted_run [OF inserted(3)] inserted(1) assms by simp
    then have "snd (?tail ?w) = ?w \<or> snd (?tail ?w) = snd (enqueue_run i (Some row) ?w)"
      by (simp add: store_simps bindE_ret [where m = "enqueue_run _ _", OF enqueue_run_eval] enqueue_run_eval)
    moreover have "preserves (world_inv queue_ok) (enqueue_run i (Some row))"
      unfolding inserted(1) using assms by (intro eff_rules) auto
    ultimately have "world_inv queue_ok (snd (?tail ?w))" by (auto simp: preserves_def)
    then show ?thesis by (simp add: bindE_ret [where m = "InsertOneRun b r", OF inserted(2)])
  qed (use w in \<open>simp_all add: bindE_def world_inv_def store_ok_def\<close>)
qed

lemma preserves_create_runs [eff_rules]:
  "preserves (world_inv queue_ok) (CreateRun req)" "preserves (world_inv queue_ok) (CreateThreadAndRun treq)"
  unfolding CreateRun_def CreateThreadAndRun_def store_thread_and_run_def
  by (intro eff_rules preserves_insert_enqueue; simp add: thread_run_row_def)+

lemma store_ok_patched: "store_ok w \<Longrightarrow> store_ok (patched_run req w)" "store_ok w \<Longrightarrow> store_ok (patched_step sreq w)"
  by (simp_all add: store_ok_def patched_run_def patched_step_def map_key_update del: map_map)

lemma preserves_submit [eff_rules]: "preserves (world_inv queue_ok) (SubmitToolOutputs th i outs)"
proof (rule preservesI)
  fix w assume w: "world_inv queue_ok w"
  then have ok: "store_ok w" by (simp add: world_inv_def)
  show "world_inv queue_ok (snd (SubmitToolOutputs th i outs w))"
  proof (cases "\<exists>run step. submit_ready th i outs w run step")
    case False
    then show ?thesis using submit_refused [of th i outs w] w by auto
  next
    case True
    then obtain run step where ready: "submit_ready th i outs w run step" by blast
    have "r_id run = i" using ready by (auto simp: submit_ready_def dest: find_runD)
    then show ?thesis
      using w by (simp add: submit_accepted [OF ok ready] Let_def world_inv_def queue_ok_def task_ok_def run_patch_def
          store_ok_patched [unfolded store_ok_def] store_ok_def)
        (simp add: store_ok_def patched_run_def patched_step_def map_key_update run_patch_def del: map_map)
  qed
qed

text \<open>The requests the services serve, in any order, and the consumer that takes a task.\<close>

inductive service_step :: "World \<Rightarrow> World \<Rightarrow> bool" where
  "service_step w (snd (CreateAssistant a w))"
| "service_step w (snd (ModifyAssistant ma w))"
| "service_step w (snd (DeleteAssistant i w))"
| "service_step w (snd (CreateThread ct w))"
| "service_step w (snd (ModifyThread th res meta w))"
| "service_step w (snd (DeleteThread th w))"
| "service_step w (snd (CreateMessage cm w))"
| "service_step w (snd (CreateRawMessage m w))"
| "service_step w (snd (ModifyMessage i th meta w))"
| "service_step w (snd (CreateThreadAndRun ctr w))"
| "service_step w (snd (CreateRun cr w))"
| "service_step w (snd (ModifyRun mr w))"
| "service_step w (snd (SubmitToolOutputs th i outs w))"
| "service_step w (snd (CancelRun th i w))"
| "service_step w (snd (CreateRunStep s w))"
| "service_step w (snd (ModifyRunStep ms w))"
| "scheduled w = t # q \<Longrightarrow> service_step w (scheduled_update (\<lambda>_. q) w)"

lemma service_step_keeps:
  assumes "service_step w w'" "world_inv queue_ok w"
  shows "world_inv queue_ok w'"
proof -
  have step: "preserves (world_inv queue_ok) m \<Longrightarrow> world_inv queue_ok (snd (m w))" for m :: "(World, 'a) eff"
    using assms(2) by (simp add: preserves_def)
  show ?thesis using assms(1)
  proof cases
    case (17 t q)
    then show ?thesis using assms(2) by (simp add: world_inv_def store_ok_def queue_ok_def)
  qed (simp_all, (rule step, rule eff_rules)+)
qed

text \<open>
  C2: Starting from an empty store, whatever requests are served and in whatever order, ids stay
  unique in every table, and every task in the scheduler's queue is a run task whose run was
  \<open>queued\<close> when it was put there, under the id of that run.
\<close>

theorem service_invariant:
  assumes "service_step\<^sup>*\<^sup>* w0 w" "store_ok w0" "scheduled w0 = []"
  shows "store_ok w \<and> list_all task_ok (scheduled w)"
proof -
  have "world_inv queue_ok w"
    using assms(1)
  proof (induction rule: rtranclp_induct)
    case base
    then show ?case using assms(2,3) by (simp add: world_inv_def queue_ok_def)
  next
    case (step y z)
    then show ?case using service_step_keeps by blast
  qed
  then show ?thesis by (simp add: world_inv_def queue_ok_def)
qed

theorem service_invariant_witness:
  "store_ok (snd (SubmitToolOutputs ''thread_1'' ''run_1'' [\<lparr>to_tool_call_id = ''c1'', to_output = ''42''\<rparr>] demo_world)) \<and>
   list_all task_ok (scheduled (snd (SubmitToolOutputs ''thread_1'' ''run_1'' [\<lparr>to_tool_call_id = ''c1'', to_output = ''42''\<rparr>] demo_world)))"
  by (rule service_invariant [OF r_into_rtranclp [of service_step, OF service_step.intros(13)] demo_store_ok])
    (simp add: demo_world_def)

section \<open>Deleting a thread\<close>

definition active_run :: "RunObject \<Rightarrow> bool" where
  "active_run r \<longleftrightarrow> r_status r = run_in_progress \<or> r_status r = run_cancelling"

definition without_thread :: "string \<Rightarrow> World \<Rightarrow> World" where
  "without_thread th w =
     w\<lparr>instinct_thread := filter (\<lambda>x. t_id x \<noteq> th) (instinct_thread w),
       instinct_thread_message := filter (\<lambda>x. m_thread_id x \<noteq> th) (instinct_thread_message w),
       instinct_thread_run := filter (\<lambda>x. r_thread_id x \<noteq> th) (instinct_thread_run w),
       instinct_thread_run_step := filter (\<lambda>x. s_thread_id x \<noteq> th) (instinct_thread_run_step w)\<rparr>"

lemma DeleteThread_eval:
  assumes "\<not> IsBlankString th"
  shows "if \<exists>r \<in> set (instinct_thread_run w). r_thread_id r = th \<and> active_run r
    then \<exists>e. DeleteThread th w = (Inl e, w)
    else DeleteThread th w = (Inr \<lparr>deleted_id = th, deleted = (length (filter (\<lambda>x. t_id x = th) (instinct_thread w)) = 1)\<rparr>, without_thread th w)"
proof -
  define act where "act = filter (\<lambda>r. r_thread_id r = th \<and> r_status r \<in> {run_in_progress, run_cancelling}) (instinct_thread_run w)"
  have act: "(\<exists>r \<in> set (instinct_thread_run w). r_thread_id r = th \<and> active_run r) \<longleftrightarrow> act \<noteq> []"
    by (auto simp: act_def active_run_def filter_empty_conv)
  have sel: "SelectManyRuns th [] [] (Some [run_in_progress, run_cancelling]) desc 1 w = (Inr (take 1 (order_by desc r_created_at r_id w act)), w)"
    using assms by (simp add: SelectManyRuns_def store_simps not_blank_nonempty IsNotBlankString_def IsBlankString_iff DT_SelectMany_def act_def)
  have nil: "order_by desc r_created_at r_id w act = [] \<longleftrightarrow> act = []"
    by (simp add: order_by_def) (metis length_0_conv length_sort)
  note eval = DeleteThread_def store_simps assms bindE_ret [where m = "SelectManyRuns _ _ _ _ _ _", OF sel] nil
  show ?thesis
  proof (cases "act = []")
    case False
    then show ?thesis using act by (simp add: eval)
  next
    case True
    then show ?thesis using act assms
      by (simp add: eval DeleteManyRuns_def DeleteManyRunSteps_def DeleteManyMessages_def SQL_DeleteThread_def DT_Execute_delete_def
          without_thread_def not_blank_nonempty order_by_def)
  qed
qed

text \<open>
  C14: Deleting a thread either is refused because a run of the thread is in progress or being
  cancelled, and then changes nothing, or removes the thread with all its messages, runs and run
  steps and touches no row of another thread.
\<close>

theorem DeleteThread_complete:
  assumes "\<not> IsBlankString th"
  shows "(\<exists>e. DeleteThread th w = (Inl e, w) \<and> (\<exists>r \<in> set (instinct_thread_run w). r_thread_id r = th \<and> active_run r)) \<or>
    (\<exists>resp w'. DeleteThread th w = (Inr resp, w') \<and> (\<nexists>r. r \<in> set (instinct_thread_run w) \<and> r_thread_id r = th \<and> active_run r) \<and>
       w' = without_thread th w)"
  using DeleteThread_eval [OF assms, of w] by (auto split: if_splits)

theorem DeleteThread_complete_witness:
  "\<exists>resp. DeleteThread ''thread_1'' demo_world = (Inr resp, without_thread ''thread_1'' demo_world)"
  using DeleteThread_complete [of "''thread_1''" demo_world] demo_ids_not_blank
  by (auto simp: demo_world_def demo_run_def active_run_def)

section \<open>Cancelling\<close>

text \<open>
  \<open>CancelRun\<close> asks for no particular status: whatever the status of the run, also
  completed or failed, it becomes \<open>cancelling\<close>; no task is scheduled that would end it, and
  from then on the thread cannot be deleted.
\<close>

theorem CancelRun_any_status:
  assumes "\<not> IsBlankString th" "\<not> IsBlankString i" "find_run th i w = Some run"
  shows "\<exists>run' w'. CancelRun th i w = (Inr (Some run'), w') \<and> r_status run' = run_cancelling \<and>
    scheduled w' = scheduled w \<and> (\<exists>e. DeleteThread th w' = (Inl e, w'))"
proof -
  define req where "req = empty_modify_run\<lparr>mr_thread_id := th, mr_run_id := i, mr_status := run_cancelling\<rparr>"
  have ids: "mr_thread_id req = th" "mr_run_id req = i" "mr_status req = run_cancelling" by (simp_all add: req_def)
  let ?run = "run_patch (clock w (ticks w)) req run" and ?w = "patched_run req w"
  have found: "find_run th i ?w = Some ?run" using find_patched_run [of req w] ids assms(3) by simp
  have upd: "UpdateRun req w = (Inr (length (filter (run_is th i) (instinct_thread_run w))), ?w)"
    using UpdateRun_eval [of req w] ids assms by (simp add: not_blank_nonempty)
  have cancel: "CancelRun th i w = (Inr (Some ?run), ?w)"
    using assms(1,2) found
    by (simp add: CancelRun_def req_def [symmetric] bindE_ret [where m = "UpdateRun req", OF upd] RetrieveRun_eval)
  have status: "r_status ?run = run_cancelling" using ids by (simp add: run_patch_def)
  have "?run \<in> set (instinct_thread_run ?w) \<and> r_thread_id ?run = th" using find_runD [OF found] by simp
  then have "\<exists>e. DeleteThread th ?w = (Inl e, ?w)"
    using DeleteThread_eval [OF assms(1), of ?w] status by (auto simp: active_run_def split: if_splits)
  with cancel status show ?thesis by (auto simp: patched_run_def)
qed

theorem CancelRun_any_status_witness:
  "\<exists>run' w'. CancelRun ''thread_1'' ''run_1'' (instinct_thread_run_update (\<lambda>_. [demo_run\<lparr>r_status := run_completed\<rparr>]) demo_world) = (Inr (Some run'), w') \<and>
     r_status run' = run_cancelling \<and> scheduled w' = [] \<and> (\<exists>e. DeleteThread ''thread_1'' w' = (Inl e, w'))"
  using CancelRun_any_status [OF demo_ids_not_blank(1,2), of "instinct_thread_run_update (\<lambda>_. [demo_run\<lparr>r_status := run_completed\<rparr>]) demo_world"
      "demo_run\<lparr>r_status := run_completed\<rparr>"]
  by (simp add: find_run_def run_is_def demo_run_def demo_world_def)

section \<open>Listing runs\<close>

lemma list_page_more: "has_more (list_page idf limit rows) \<longleftrightarrow> int (length rows) \<ge> limit"
  by (simp add: list_page_def Let_def)

text \<open>
  A list of runs with an explicit limit never says that there is more, however many runs were
  left out, and a page that would be empty has no defined outcome.
\<close>

theorem ListRuns_no_more:
  assumes "0 < lr_limit req" "lr_limit req < 2147483647" "\<not> IsBlankString (lr_thread_id req)"
    "lr_order req \<noteq> unknown_list_request_order" "IsBlankString (lr_after req)" "IsBlankString (lr_before req)"
  shows "if \<exists>r \<in> set (instinct_thread_run w). r_thread_id r = lr_thread_id req
    then \<exists>resp. ListRuns req w = (Inr resp, w) \<and> \<not> has_more resp
    else ListRuns req w = (Inl UndefinedBehaviour, w)"
proof -
  define rows where "rows = order_by (lr_order req) r_created_at r_id w (filter (\<lambda>r. r_thread_id r = lr_thread_id req) (instinct_thread_run w))"
  have "SelectManyRuns (lr_thread_id req) (lr_after req) (lr_before req) None (lr_order req) (lr_limit req) w =
      (Inr (take (nat (lr_limit req)) rows), w)"
    using assms by (simp add: SelectManyRuns_def store_simps not_blank_nonempty IsNotBlankString_def DT_SelectMany_def rows_def)
  note sel = bindE_ret [where m = "SelectManyRuns _ _ _ _ _ _", OF this]
  have eval: "ListRuns req w = (if take (nat (lr_limit req)) rows = [] then (Inl UndefinedBehaviour, w)
      else (Inr (list_page r_id (lr_limit req + 1) (take (nat (lr_limit req)) rows)), w))"
    using assms(1,2,3) by (simp add: ListRuns_def store_simps list_limit_def sel)
  have "set rows = set (filter (\<lambda>r. r_thread_id r = lr_thread_id req) (instinct_thread_run w))"
    by (simp add: rows_def order_by_def split: ListRequestOrder.split)
  then have "rows \<noteq> [] \<longleftrightarrow> (\<exists>r \<in> set (instinct_thread_run w). r_thread_id r = lr_thread_id req)"
    by (subst set_empty [symmetric]) auto
  then show ?thesis using assms(1) by (auto simp: eval list_page_more)
qed

theorem ListRuns_no_more_witness:
  "\<exists>resp. ListRuns (empty_list_request\<lparr>lr_thread_id := ''thread_1'', lr_limit := 1, lr_order := desc\<rparr>)
     (instinct_thread_run_update (\<lambda>t. t @ [demo_run\<lparr>r_id := ''run_2''\<rparr>]) demo_world) =
     (Inr resp, instinct_thread_run_update (\<lambda>t. t @ [demo_run\<lparr>r_id := ''run_2''\<rparr>]) demo_world) \<and> \<not> has_more resp"
  using ListRuns_no_more [of "empty_list_request\<lparr>lr_thread_id := ''thread_1'', lr_limit := 1, lr_order := desc\<rparr>"
      "instinct_thread_run_update (\<lambda>t. t @ [demo_run\<lparr>r_id := ''run_2''\<rparr>]) demo_world"]
  by (simp add: demo_ids_not_blank empty_list_request_def IsBlankString_iff demo_world_def demo_run_def)

section \<open>Creating a thread with a run\<close>

text \<open>Messages alternate, the first from the user.\<close>

fun alternates :: "MessageRole \<Rightarrow> MessageRole list \<Rightarrow> bool" where
  "alternates r [] = True"
| "alternates r (x # xs) = (x = r \<and> alternates (if r = user then assistant else user) xs)"

lemma check_sequence_world: "snd (check_sequence b msgs w) = w"
  by (induction b msgs rule: check_sequence.induct) (auto simp: store_simps)

lemma check_sequence_alternates:
  assumes "check_sequence b msgs w = (Inr (), w')" "\<forall>m \<in> set msgs. cm_role m \<noteq> unknown_message_role"
  shows "alternates (if b then assistant else user) (map cm_role msgs)"
  using assms
proof (induction b msgs arbitrary: w rule: check_sequence.induct)
  case (2 b msg msgs)
  then show ?case
    by (cases "cm_role msg") (auto simp: store_simps split: if_splits)
qed simp

text \<open>The rows a list of message requests becomes.\<close>

definition message_rows :: "string \<Rightarrow> string \<Rightarrow> CreateMessageRequest list \<Rightarrow> MessageObject list \<Rightarrow> bool" where
  "message_rows th run_id reqs msgs \<longleftrightarrow>
     map m_role msgs = map cm_role reqs \<and>
     map (\<lambda>m. map text_value (m_content m)) msgs = map (\<lambda>q. [cm_content q]) reqs \<and>
     list_all (\<lambda>m. m_thread_id m = th \<and> m_run_id m = run_id \<and> m_status m = message_completed) msgs"

lemma new_messages:
  "\<exists>msgs. mapE (new_message th run_id) reqs w =
      (Inr msgs, w\<lparr>id_count := id_count w + length reqs, ticks := ticks w + length reqs\<rparr>) \<and> message_rows th run_id reqs msgs"
proof (induction reqs arbitrary: w)
  case Nil
  then show ?case by (simp add: message_rows_def)
next
  case (Cons q reqs)
  define w1 where "w1 = ticks_update Suc (id_count_update Suc w)"
  define m where "m = (text_message th (cm_role q) (cm_content q) run_id (clock w (ticks w)))\<lparr>m_id := object_id ''msg'' (id_numbers w (id_count w))\<rparr>"
  obtain msgs where msgs: "mapE (new_message th run_id) reqs w1 =
      (Inr msgs, w1\<lparr>id_count := id_count w1 + length reqs, ticks := ticks w1 + length reqs\<rparr>)" "message_rows th run_id reqs msgs"
    using Cons.IH by blast
  have first: "new_message th run_id q w = (Inr m, w1)" by (simp add: new_message_def store_simps m_def w1_def)
  have "mapE (new_message th run_id) (q # reqs) w =
      (Inr (m # msgs), w\<lparr>id_count := id_count w + length (q # reqs), ticks := ticks w + length (q # reqs)\<rparr>)"
    using msgs(1) by (simp add: bindE_ret [where m = "new_message th run_id q", OF first]
        bindE_ret [where m = "mapE (new_message th run_id) reqs", OF msgs(1)]) (simp add: w1_def)
  moreover have "message_rows th run_id (q # reqs) (m # msgs)"
    using msgs(2) by (simp add: message_rows_def m_def text_message_def)
  ultimately show ?case by blast
qed

lemma forE_Inr_all:
  assumes "forE f xs w = (Inr (), w')" "\<And>x w. snd (f x w) = w"
  shows "w' = w \<and> (\<forall>x \<in> set xs. f x w = (Inr (), w))"
  using assms(1)
proof (induction xs)
  case (Cons x xs)
  then obtain t where "f x w = (Inr (), t)" "forE f xs t = (Inr (), w')" by (auto elim: bindE_InrE)
  then show ?case using assms(2) [of x w] Cons.IH by auto
qed simp

lemma InsertManyMessages_ok:
  assumes "InsertManyMessages msgs w = (Inr ids, w')" "msgs \<noteq> []"
  shows "w' = instinct_thread_message_update (\<lambda>t. t @ map (message_row (clock w (ticks w))) msgs) (ticks_update Suc w) \<and>
    ids = map m_id msgs \<and> (\<forall>m \<in> set msgs. m_role m \<noteq> unknown_message_role)"
proof -
  let ?check = "\<lambda>m. bindE (message_presence m) (\<lambda>_. bindE (assert_not_blank (m_thread_id m) ''should provide thread_id'') (\<lambda>_.
             bindE (forE content_item_ok (m_content m)) (\<lambda>_. role_ok m)))"
  have pure: "snd (?check m w) = w" for m w
  proof -
    have "preserves (\<lambda>w'. w' = w) (?check m)"
      unfolding message_presence_def role_ok_def by (intro eff_rules)
    then show ?thesis by (simp add: preserves_def)
  qed
  have role: "?check m w = (Inr (), w) \<Longrightarrow> m_role m \<noteq> unknown_message_role" for m w
    by (auto simp: message_presence_def check_presence_def store_simps split: if_splits)
  obtain w1 where chk: "forE ?check msgs w = (Inr (), w1)" and ins: "bindE sql_now (\<lambda>t.
      DT_InsertMany instinct_thread_message instinct_thread_message_update m_id (map (message_row t) msgs)) w1 = (Inr ids, w')"
    using assms unfolding InsertManyMessages_def by (auto elim: bindE_InrE)
  note all = forE_Inr_all [OF chk pure]
  from ins all show ?thesis
    by (auto simp: store_simps DT_InsertMany_def message_row_def comp_def split: if_splits dest: role)
qed

lemma InsertOneThread_ok:
  assumes "InsertOneThread th w = (Inr i, w')"
  shows "w' = instinct_thread_update (\<lambda>t. t @ [th\<lparr>t_created_at := clock w (ticks w), t_modified_at := clock w (ticks w)\<rparr>]) (ticks_update Suc w)"
  using assms by (simp add: InsertOneThread_def store_simps thread_table.insert_one split: if_splits)

lemma RetrieveRun_enqueue:
  assumes "bindE (RetrieveRun th i) (\<lambda>run_object. bindE (enqueue_run i run_object) (\<lambda>_. ret run_object)) w = (Inr r, w')"
    "find_run th i w = Some row"
  shows "r = Some row \<and> w' = (if has_scheduler w then scheduled_update (\<lambda>q. q @ [\<lparr>task_id = i, category = CATEGORY, payload = row\<rparr>]) w else w)"
  using assms by (auto simp: store_simps bindE_ret [where m = "enqueue_run _ _", OF enqueue_run_eval] split: if_splits)

text \<open>What is stored and scheduled when \<open>store_thread_and_run\<close> returns; \<open>t1\<close> and \<open>t2\<close> are clock readings.\<close>

definition stored_thread_and_run :: "CreateThreadAndRunRequest \<Rightarrow> CreateThreadRequest \<Rightarrow> World \<Rightarrow> RunObject \<Rightarrow> World \<Rightarrow> bool" where
  "stored_thread_and_run req th w row w' \<longleftrightarrow>
     r_status row = run_queued \<and> r_assistant_id row = ctr_assistant_id req \<and>
     r_temperature row = Some (ctr_temperature req) \<and> r_top_p row = Some (ctr_top_p req) \<and>
     (\<exists>t. instinct_thread w' = instinct_thread w @ [\<lparr>t_id = r_thread_id row, t_created_at = t, t_modified_at = t,
        t_tool_resources = ct_tool_resources th, t_metadata = ct_metadata th\<rparr>]) \<and>
     (\<exists>t msgs. instinct_thread_message w' = instinct_thread_message w @ map (message_row t) msgs \<and>
        message_rows (r_thread_id row) (r_id row) (ct_messages th) msgs) \<and>
     instinct_thread_run w' = instinct_thread_run w @ [row] \<and>
     scheduled w' = scheduled w @ (if has_scheduler w then [\<lparr>task_id = r_id row, category = CATEGORY, payload = row\<rparr>] else []) \<and>
     instinct_assistant w' = instinct_assistant w \<and> instinct_thread_run_step w' = instinct_thread_run_step w"

lemma store_thread_and_run_ok:
  assumes "store_thread_and_run req th w = (Inr r, w')" "ct_messages th \<noteq> []"
  shows "(\<exists>row. r = Some row \<and> stored_thread_and_run req th w row w') \<and> (\<forall>m \<in> set (ct_messages th). cm_role m \<noteq> unknown_message_role)"
proof -
  define w1 where "w1 = id_count_update Suc (id_count_update Suc w)"
  define run_id where "run_id = object_id ''run'' (id_numbers w (id_count w))"
  define thread_id where "thread_id = object_id ''thread'' (id_numbers w (Suc (id_count w)))"
  have A: "bindE (InsertOneThread \<lparr>t_id = thread_id, t_created_at = 0, t_modified_at = 0,
         t_tool_resources = ct_tool_resources th, t_metadata = ct_metadata th\<rparr>) (\<lambda>_.
     bindE (mapE (new_message thread_id run_id) (ct_messages th)) (\<lambda>msgs.
     bindE (InsertManyMessages msgs) (\<lambda>msg_ids.
     bindE (assert_true (length msg_ids = length (ct_messages th)) ''should have saved all additional messages'') (\<lambda>_.
     bindE (InsertOneRun (ctr_tool_resources req \<noteq> None) (thread_run_row req run_id thread_id)) (\<lambda>_.
     bindE (RetrieveRun thread_id run_id) (\<lambda>run_object.
     bindE (enqueue_run run_id run_object) (\<lambda>_.
     ret run_object))))))) w1 = (Inr r, w')"
    using assms(1) by (simp add: store_thread_and_run_def next_object_id_bind run_id_def thread_id_def w1_def)
  from A obtain i w2 where th: "InsertOneThread \<lparr>t_id = thread_id, t_created_at = 0, t_modified_at = 0,
         t_tool_resources = ct_tool_resources th, t_metadata = ct_metadata th\<rparr> w1 = (Inr i, w2)"
    and B: "bindE (mapE (new_message thread_id run_id) (ct_messages th)) (\<lambda>msgs.
     bindE (InsertManyMessages msgs) (\<lambda>msg_ids.
     bindE (assert_true (length msg_ids = length (ct_messages th)) ''should have saved all additional messages'') (\<lambda>_.
     bindE (InsertOneRun (ctr_tool_resources req \<noteq> None) (thread_run_row req run_id thread_id)) (\<lambda>_.
     bindE (RetrieveRun thread_id run_id) (\<lambda>run_object.
     bindE (enqueue_run run_id run_object) (\<lambda>_.
     ret run_object)))))) w2 = (Inr r, w')" by (rule bindE_InrE)
  obtain msgs where msgs: "mapE (new_message thread_id run_id) (ct_messages th) w2 =
      (Inr msgs, w2\<lparr>id_count := id_count w2 + length (ct_messages th), ticks := ticks w2 + length (ct_messages th)\<rparr>)"
    and rows: "message_rows thread_id run_id (ct_messages th) msgs"
    using new_messages by blast
  define w3 where "w3 = w2\<lparr>id_count := id_count w2 + length (ct_messages th), ticks := ticks w2 + length (ct_messages th)\<rparr>"
  from B obtain ids w4 where ins: "InsertManyMessages msgs w3 = (Inr ids, w4)"
    and C: "bindE (InsertOneRun (ctr_tool_resources req \<noteq> None) (thread_run_row req run_id thread_id)) (\<lambda>_.
     bindE (RetrieveRun thread_id run_id) (\<lambda>run_object.
     bindE (enqueue_run run_id run_object) (\<lambda>_.
     ret run_object))) w4 = (Inr r, w')"
    by (auto simp: bindE_ret [where m = "mapE _ _", OF msgs] w3_def assert_binds split: if_splits elim!: bindE_InrE [where m = "InsertManyMessages msgs"])
  have ne: "msgs \<noteq> []" using rows assms(2) by (auto simp: message_rows_def)
  note many = InsertManyMessages_ok [OF ins ne]
  have roles: "\<forall>m \<in> set (ct_messages th). cm_role m \<noteq> unknown_message_role"
  proof -
    have "set (map cm_role (ct_messages th)) = set (map m_role msgs)" using rows by (simp add: message_rows_def)
    then show ?thesis using many by (metis (no_types, lifting) ex_map_conv in_set_conv_nth list.set_map image_iff)
  qed
  obtain row where row: "row = (thread_run_row req run_id thread_id)\<lparr>r_created_at := clock w4 (ticks w4), r_modified_at := clock w4 (ticks w4)\<rparr>"
    and D: "bindE (RetrieveRun thread_id run_id) (\<lambda>run_object. bindE (enqueue_run run_id run_object) (\<lambda>_. ret run_object))
      (instinct_thread_run_update (\<lambda>t. t @ [row]) (ticks_update Suc w4)) = (Inr r, w')"
    and dist: "distinct (map r_id (instinct_thread_run w4 @ [row]))"
  proof (cases rule: InsertOneRun_cases [of "ctr_tool_resources req \<noteq> None" "thread_run_row req run_id thread_id" w4])
    case (inserted row)
    show thesis by (rule that [OF inserted(1) _ inserted(3)]) (use C in \<open>simp only: bindE_ret [where m = "InsertOneRun _ _", OF inserted(2)]\<close>)
  qed (use C in \<open>simp_all add: bindE_def\<close>)
  have ids: "r_id row = run_id" "r_thread_id row = thread_id" "r_status row = run_queued" "r_assistant_id row = ctr_assistant_id req"
    "r_temperature row = Some (ctr_temperature req)" "r_top_p row = Some (ctr_top_p req)"
    by (simp_all add: row thread_run_row_def)
  note fin = RetrieveRun_enqueue [OF D find_inserted_run [OF dist, unfolded ids]]
  have "stored_thread_and_run req th w row w'"
    unfolding stored_thread_and_run_def ids using fin many InsertOneThread_ok [OF th] rows ids
    by (auto simp: w3_def w1_def)
  then show ?thesis using fin roles by blast
qed

text \<open>
  C13: When \<open>CreateThreadAndRun\<close> returns, the given messages alternate between user and
  assistant and begin with the user (they may end with the assistant), and exactly this has been
  stored: the thread, the messages in the order given, all of that thread and run, and one run in
  status \<open>queued\<close>, which is returned and scheduled once.
\<close>

theorem CreateThreadAndRun_stores:
  assumes "CreateThreadAndRun req w = (Inr r, w')"
  shows "\<exists>th row. ctr_thread req = Some th \<and> ct_messages th \<noteq> [] \<and> alternates user (map cm_role (ct_messages th)) \<and>
    r = Some row \<and> stored_thread_and_run req th w row w'"
proof -
  obtain th where th: "ctr_thread req = Some th" and ne: "ct_messages th \<noteq> []"
    and A: "bindE (check_sequence False (ct_messages th)) (\<lambda>_. store_thread_and_run req th) w = (Inr r, w')"
    using assms by (auto simp: CreateThreadAndRun_def store_simps split: if_splits option.splits)
  from A obtain wc where seq: "check_sequence False (ct_messages th) w = (Inr (), wc)"
    and B: "store_thread_and_run req th wc = (Inr r, w')" by (auto elim: bindE_InrE)
  have "wc = w" using check_sequence_world [of False "ct_messages th" w] seq by simp
  note stored = store_thread_and_run_ok [OF B [unfolded this] ne]
  then show ?thesis using th ne check_sequence_alternates [OF seq] by auto
qed

definition demo_request :: CreateThreadAndRunRequest where
  "demo_request = \<lparr>ctr_assistant_id = ''asst_1'', ctr_thread = Some \<lparr>ct_messages =
       [\<lparr>cm_thread_id = [], cm_role = user, cm_content = ''hi'', cm_run_id = []\<rparr>,
        \<lparr>cm_thread_id = [], cm_role = assistant, cm_content = ''hello'', cm_run_id = []\<rparr>],
       ct_tool_resources = None, ct_metadata = None\<rparr>,
     ctr_model = [], ctr_instructions = [], ctr_tools = [], ctr_tool_resources = None, ctr_metadata = None,
     ctr_temperature = 0, ctr_top_p = 0, ctr_max_prompt_tokens = 0, ctr_max_completion_tokens = 0, ctr_tool_choice = [],
     ctr_response_format = []\<rparr>"

definition is_queued_result :: "(RunObject option result) \<times> World \<Rightarrow> bool" where
  "is_queued_result p = (case p of (Inr (Some r), w) \<Rightarrow> r_status r = run_queued | _ \<Rightarrow> False)"

lemma demo_request_accepted: "is_queued_result (CreateThreadAndRun demo_request demo_world)"
  by code_simp

theorem CreateThreadAndRun_stores_witness:
  "\<exists>th row w'. CreateThreadAndRun demo_request demo_world = (Inr (Some row), w') \<and> ctr_thread demo_request = Some th \<and>
     alternates user (map cm_role (ct_messages th)) \<and> stored_thread_and_run demo_request th demo_world row w'"
proof -
  obtain row w' where ok: "CreateThreadAndRun demo_request demo_world = (Inr (Some row), w')"
    using demo_request_accepted by (auto simp: is_queued_result_def split: prod.splits sum.splits option.splits)
  from CreateThreadAndRun_stores [OF ok] show ?thesis using ok by auto
qed

text \<open>The thread and its messages are written before the run, with no transaction around both.\<close>

definition store_thread_part :: "CreateThreadRequest \<Rightarrow> (World, string \<times> string) eff" where
  "store_thread_part th =
     bindE (next_object_id ''run'') (\<lambda>run_id.
     bindE (next_object_id ''thread'') (\<lambda>thread_id.
     bindE (InsertOneThread \<lparr>t_id = thread_id, t_created_at = 0, t_modified_at = 0,
         t_tool_resources = ct_tool_resources th, t_metadata = ct_metadata th\<rparr>) (\<lambda>_.
     bindE (mapE (new_message thread_id run_id) (ct_messages th)) (\<lambda>msgs.
     bindE (InsertManyMessages msgs) (\<lambda>msg_ids.
     bindE (assert_true (length msg_ids = length (ct_messages th)) ''should have saved all additional messages'') (\<lambda>_.
     ret (run_id, thread_id)))))))"

lemma store_thread_and_run_split:
  "store_thread_and_run req th = bindE (store_thread_part th) (\<lambda>(run_id, thread_id).
     bindE (InsertOneRun (ctr_tool_resources req \<noteq> None) (thread_run_row req run_id thread_id)) (\<lambda>_.
     bindE (RetrieveRun thread_id run_id) (\<lambda>run_object. bindE (enqueue_run run_id run_object) (\<lambda>_. ret run_object))))"
  unfolding store_thread_and_run_def store_thread_part_def by (simp add: bindE_assoc bindE_ret_left)

lemma finish_run_tables:
  assumes "bindE (InsertOneRun b row) (\<lambda>_. bindE (RetrieveRun thread_id run_id) (\<lambda>run_object.
      bindE (enqueue_run run_id run_object) (\<lambda>_. ret run_object))) w = (Inr r, w')"
  shows "instinct_thread w' = instinct_thread w \<and> instinct_thread_message w' = instinct_thread_message w \<and>
    (\<exists>row. instinct_thread_run w' = instinct_thread_run w @ [row]) \<and> (\<exists>q. scheduled w' = scheduled w @ q \<and> length q \<le> 1)"
proof (cases rule: InsertOneRun_cases [of b row w])
  case (inserted row')
  let ?w = "instinct_thread_run_update (\<lambda>t. t @ [row']) (ticks_update Suc w)"
  have "bindE (RetrieveRun thread_id run_id) (\<lambda>run_object. bindE (enqueue_run run_id run_object) (\<lambda>_. ret run_object)) ?w = (Inr r, w')"
    using assms by (simp only: bindE_ret [where m = "InsertOneRun _ _", OF inserted(2)])
  then show ?thesis by (auto simp: store_simps enqueue_run_def split: if_splits option.splits)
qed (use assms in \<open>simp_all add: bindE_def\<close>)

text \<open>
  A request that carries \<open>tool_resources\<close> for its run is refused by the database, as the
  run table has no such column, but only after the thread and its messages have been written: where
  the same request without them succeeds, this one throws and leaves that thread and those messages
  behind, with no run and no task.
\<close>

theorem CreateThreadAndRun_leaves_thread:
  assumes "CreateThreadAndRun (req\<lparr>ctr_tool_resources := None\<rparr>) w = (Inr r, w1)" "ctr_tool_resources req \<noteq> None"
  shows "\<exists>w'. CreateThreadAndRun req w = (Inl sql_error, w') \<and> instinct_thread w' = instinct_thread w1 \<and>
    instinct_thread_message w' = instinct_thread_message w1 \<and> length (instinct_thread w') = Suc (length (instinct_thread w)) \<and>
    length (instinct_thread_run w') < length (instinct_thread_run w1)"
proof -
  let ?req = "req\<lparr>ctr_tool_resources := None\<rparr>"
  obtain th where th: "ctr_thread req = Some th" and ne: "ct_messages th \<noteq> []" and nb: "\<not> IsBlankString (ctr_assistant_id req)"
    and A: "bindE (check_sequence False (ct_messages th)) (\<lambda>_. store_thread_and_run ?req th) w = (Inr r, w1)"
    using assms(1) by (auto simp: CreateThreadAndRun_def store_simps split: if_splits option.splits)
  from A obtain wc where seq: "check_sequence False (ct_messages th) w = (Inr (), wc)"
    and B: "store_thread_and_run ?req th wc = (Inr r, w1)" by (auto elim: bindE_InrE)
  have wc: "wc = w" using check_sequence_world [of False "ct_messages th" w] seq by simp
  from B [unfolded store_thread_and_run_split] obtain run_id thread_id w4
    where part: "store_thread_part th w = (Inr (run_id, thread_id), w4)"
    and fin: "bindE (InsertOneRun (ctr_tool_resources ?req \<noteq> None) (thread_run_row ?req run_id thread_id)) (\<lambda>_.
      bindE (RetrieveRun thread_id run_id) (\<lambda>run_object. bindE (enqueue_run run_id run_object) (\<lambda>_. ret run_object))) w4 = (Inr r, w1)"
    unfolding wc by (elim bindE_InrE) (auto split: prod.splits)
  have "InsertOneRun (ctr_tool_resources req \<noteq> None) (thread_run_row req run_id thread_id) w4 = (Inl sql_error, w4)"
    using assms(2) by (simp add: InsertOneRun_def check_presence_def store_simps assert_true_def)
  then have "store_thread_and_run req th w = (Inl sql_error, w4)"
    by (simp add: store_thread_and_run_split bindE_ret [where m = "store_thread_part th", OF part] bindE_throw)
  then have "CreateThreadAndRun req w = (Inl sql_error, w4)"
    using th ne nb by (simp add: CreateThreadAndRun_def store_simps bindE_ret [where m = "check_sequence _ _", OF seq [unfolded wc]])
  moreover have "length (instinct_thread w1) = Suc (length (instinct_thread w))"
    using store_thread_and_run_ok [OF B [unfolded wc] ne] by (auto simp: stored_thread_and_run_def)
  ultimately show ?thesis using finish_run_tables [OF fin] by auto
qed

theorem CreateThreadAndRun_leaves_thread_witness:
  "\<exists>w'. CreateThreadAndRun (demo_request\<lparr>ctr_tool_resources := Some \<lparr>code_interpreter_file_ids = [], vector_store_ids = [''vs_1'']\<rparr>\<rparr>) demo_world =
     (Inl sql_error, w') \<and> length (instinct_thread w') = Suc (length (instinct_thread demo_world))"
proof -
  have same: "demo_request\<lparr>ctr_tool_resources := None\<rparr> = demo_request" by (simp add: demo_request_def)
  obtain row w1 where ok: "CreateThreadAndRun demo_request demo_world = (Inr (Some row), w1)"
    using demo_request_accepted by (auto simp: is_queued_result_def split: prod.splits sum.splits option.splits)
  show ?thesis
    using CreateThreadAndRun_leaves_thread [of "demo_request\<lparr>ctr_tool_resources := Some \<lparr>code_interpreter_file_ids = [], vector_store_ids = [''vs_1'']\<rparr>\<rparr>"
        demo_world "Some row" w1] ok same by auto
qed

end
