(* ===== verification/Run_Handler.thy ===== *)
theory Run_Handler
  imports Run_Service LLM_Compiler
begin

text \<open>
  \<^verbatim>\<open>RunObjectTaskHandler.hpp\<close>: what happens to a scheduled run. The handler drives an
  agent executor on the services and writes every step of the agent back to the store.

  Outside are the chat model, the planner and joiner prompts built on it, the file search tool, the
  parser of its results and the citation chain: they are fields of \<open>HandlerEnv\<close>, effects on
  the world, since requests of other clients are served while they run. An exception thrown by a
  callback of the stream ends the stream and reaches its error callback. The loops over pages carry a
  bound, one more than the rows there are.
\<close>

section \<open>Environment\<close>

record SearchEntry =
  entry_content :: string
  entry_start :: int
  entry_end :: int
  file_source :: string

record Citation =
  quoted_index :: int
  citation_annotation :: string

record CitationContext =
  original_answer :: string
  original_search :: "SearchEntry list"
  citation_question :: string

record ModelOverrides =
  model_name :: "string option"
  override_top_p :: "float32 option"
  override_temperature :: "float32 option"
  stop_words :: "string list"

record HandlerEnv =
  is_llm_compiler :: bool
  is_openai_chat :: bool
  chat_model :: "ModelOverrides \<Rightarrow> FunctionToolSchema list \<Rightarrow> PromptValue \<Rightarrow> (World, Message) eff"
  compiler_planner :: "ModelOverrides \<Rightarrow> AgentState \<Rightarrow> (World, AgentThought) eff"
  compiler_joiner :: "ModelOverrides \<Rightarrow> string option \<Rightarrow> LLMCompilerTaskGraph \<Rightarrow> (World, LLMCompilerJoinerResult) eff"
  invocation_ids :: "(World, string) eff"
  file_search_tool :: "string list \<Rightarrow> (World, World BaseFunctionTool) eff"
  parse_search_response :: "string \<Rightarrow> SearchEntry list result"
  annotate :: "CitationContext \<Rightarrow> (World, string \<times> Citation list) eff"

definition FILE_SEARCH_TOOL_NAME :: string where "FILE_SEARCH_TOOL_NAME = ''FileSearch''"

definition has_file_search :: "AssistantObject \<Rightarrow> bool" where
  "has_file_search a = list_ex (\<lambda>tool. assistant_tool_type tool = file_search) (a_tools a)"

definition Handler_Accept :: "RunObject Task \<Rightarrow> bool" where
  "Handler_Accept task \<longleftrightarrow> category task = CATEGORY"

definition CheckPreconditions :: "RunObject \<Rightarrow> bool" where
  "CheckPreconditions run_object \<longleftrightarrow> r_status run_object = run_queued"

section \<open>Reading the store\<close>

definition RetrieveLastRunStep :: "RunObject \<Rightarrow> (World, RunStepObject option) eff" where
  "RetrieveLastRunStep run_object =
     bindE (ListRunSteps (empty_list_request\<lparr>lr_order := desc, lr_run_id := r_id run_object, lr_thread_id := r_thread_id run_object\<rparr>)) (\<lambda>resp.
     ret (if list_data resp \<noteq> [] then Some (last (list_data resp)) else None))"

fun ListAllSteps_loop :: "nat \<Rightarrow> ListRequest \<Rightarrow> RunStepObject list \<Rightarrow> (World, RunStepObject list) eff" where
  "ListAllSteps_loop 0 req steps = throw OutOfFuel"
| "ListAllSteps_loop (Suc fuel) req steps =
     bindE (ListRunSteps req) (\<lambda>resp.
       if has_more resp
       then ListAllSteps_loop fuel (if list_data resp \<noteq> [] then req\<lparr>lr_after := s_id (last (list_data resp))\<rparr> else req) (steps @ list_data resp)
       else ret (steps @ list_data resp))"

definition ListAllSteps :: "string \<Rightarrow> string \<Rightarrow> (World, RunStepObject list) eff" where
  "ListAllSteps thread_id run_id =
     bindE (getE (\<lambda>w. length (instinct_thread_run_step w))) (\<lambda>n.
     ListAllSteps_loop (Suc n) (empty_list_request\<lparr>lr_order := asc, lr_run_id := run_id, lr_thread_id := thread_id\<rparr>) [])"

fun GetLatestUser_loop :: "nat \<Rightarrow> ListRequest \<Rightarrow> (World, MessageObject option) eff" where
  "GetLatestUser_loop 0 req = throw OutOfFuel"
| "GetLatestUser_loop (Suc fuel) req =
     bindE (ListMessages req) (\<lambda>resp.
       case find (\<lambda>msg. m_role msg = user) (list_data resp) of
         Some msg \<Rightarrow> ret (Some msg)
       | None \<Rightarrow>
           if has_more resp
           then GetLatestUser_loop fuel (if list_data resp \<noteq> [] then req\<lparr>lr_after := m_id (last (list_data resp))\<rparr> else req)
           else ret None)"

definition GetLatestUserMessageObject :: "string \<Rightarrow> (World, MessageObject option) eff" where
  "GetLatestUserMessageObject thread_id =
     bindE (getE (\<lambda>w. length (instinct_thread_message w))) (\<lambda>n.
     GetLatestUser_loop (Suc n) (empty_list_request\<lparr>lr_order := desc, lr_thread_id := thread_id\<rparr>))"

definition GetMessageObject :: "string \<Rightarrow> string \<Rightarrow> (World, MessageObject option) eff" where
  "GetMessageObject thread_id message_id = RetrieveMessage message_id thread_id"

section \<open>Recovering the state of the agent\<close>

definition function_calls :: "RunStepDetails \<Rightarrow> ToolCallDetail list" where
  "function_calls d = filter (\<lambda>c. td_type c = function_tool) (details_tool_calls d)"

definition call_function :: "ToolCallDetail \<Rightarrow> FunctionCallDetail" where
  "call_function c = (case td_function c of None \<Rightarrow> empty_function_detail | Some f \<Rightarrow> f)"

definition call_request :: "ToolCallDetail \<Rightarrow> ToolCallObject" where
  "call_request c = \<lparr>tc_id = td_id c, tc_is_function = True, fn_name = fd_name (call_function c), fn_arguments = fd_arguments (call_function c)\<rparr>"

definition call_result :: "ToolCallDetail \<Rightarrow> Message" where
  "call_result c = empty_message\<lparr>msg_content := fd_output (call_function c), msg_role := ''tool'', tool_call_id := td_id c\<rparr>"

text \<open>\<open>content(0).text().value()\<close>\<close>

definition first_text :: "MessageObject \<Rightarrow> string option" where
  "first_text m = (case m_content m of [] \<Rightarrow> None | c # _ \<Rightarrow> Some (text_value c))"

text \<open>\<open>step_details().message_creation().message_id()\<close>\<close>

definition creation_id :: "RunStepObject \<Rightarrow> string" where
  "creation_id s = (case message_creation (step_details s) of None \<Rightarrow> [] | Some i \<Rightarrow> i)"

text \<open>The thought text of a tool call: the message step right before it.\<close>

definition thought_text :: "RunObject \<Rightarrow> RunStepObject option \<Rightarrow> (World, string) eff" where
  "thought_text run_object previous =
     (case previous of
        None \<Rightarrow> ret []
      | Some p \<Rightarrow>
          if s_type p = message_creation_step
          then bindE (GetMessageObject (r_thread_id run_object) (creation_id p)) (\<lambda>message_obj.
            ret (case message_obj of None \<Rightarrow> [] | Some m \<Rightarrow> (case first_text m of None \<Rightarrow> [] | Some v \<Rightarrow> v)))
          else ret [])"

text \<open>
  The agent steps of one run step, or \<open>None\<close> where the code gives up; \<open>is_last\<close> is
  \<open>i == n-1\<close>.
\<close>

definition load_tool_step :: "RunObject \<Rightarrow> bool \<Rightarrow> RunStepObject option \<Rightarrow> RunStepObject \<Rightarrow> (World, AgentStep list option) eff" where
  "load_tool_step run_object is_last previous step =
     (let details = step_details step; custom = details_custom details in
      if details_tool_calls details = [] then ret None
      else
        bindE (thought_text run_object previous) (\<lambda>content.
          let request = empty_message\<lparr>msg_role := ''assistant'', msg_content := content, tool_calls := map call_request (function_calls details)\<rparr>;
              continuation = Thought (Continuation (Some request) custom);
              finish = (\<lambda>status fin. if is_last \<and> r_status run_object = status then Some [continuation, Thought (Finish fin)] else None) in
          ret (case s_status step of
                 step_completed \<Rightarrow>
                   Some [continuation, Observation \<lparr>tool_messages = map call_result (function_calls details), observation_custom = custom\<rparr>]
               | step_in_progress \<Rightarrow>
                   if is_last \<and> r_status run_object = run_queued
                   then Some [continuation, Thought (Pause
                     (map call_result (filter (\<lambda>c. IsNotBlankString (fd_output (call_function c))) (function_calls details))) (Some request) custom)]
                   else None
               | step_cancelled \<Rightarrow> finish run_cancelled (empty_finish\<lparr>finish_custom := custom, is_cancelled := True\<rparr>)
               | step_expired \<Rightarrow> finish run_expired (empty_finish\<lparr>finish_custom := custom, is_expired := True\<rparr>)
               | step_failed \<Rightarrow> finish run_failed (empty_finish\<lparr>finish_custom := custom, is_failed := True, finish_error := s_last_error step\<rparr>)
               | unknown_run_step_status \<Rightarrow> Some [continuation])))"

definition load_message_step :: "RunObject \<Rightarrow> bool \<Rightarrow> RunStepObject \<Rightarrow> (World, AgentStep list) eff" where
  "load_message_step run_object is_last step =
     (if is_last \<and> r_status run_object = run_completed
      then bindE (GetMessageObject (r_thread_id run_object) (creation_id step)) (\<lambda>message_obj.
        ret (case message_obj of
               None \<Rightarrow> []
             | Some m \<Rightarrow> [case first_text m of None \<Rightarrow> NoStep | Some v \<Rightarrow> Thought (Finish (empty_finish\<lparr>response := v\<rparr>))]))
      else ret [])"

fun load_steps :: "RunObject \<Rightarrow> RunStepObject option \<Rightarrow> RunStepObject list \<Rightarrow> AgentStep list \<Rightarrow> (World, AgentStep list option) eff" where
  "load_steps run_object previous [] acc = ret (Some acc)"
| "load_steps run_object previous (step # steps) acc =
     bindE (if s_type step = tool_calls_step then load_tool_step run_object (steps = []) previous step
            else if s_type step = message_creation_step then bindE (load_message_step run_object (steps = []) step) (\<lambda>xs. ret (Some xs))
            else ret (Some [])) (\<lambda>loaded.
       case loaded of None \<Rightarrow> ret None | Some xs \<Rightarrow> load_steps run_object (Some step) steps (acc @ xs))"

definition LoadAgentStateFromRun :: "RunObject \<Rightarrow> (World, AgentState option) eff" where
  "LoadAgentStateFromRun run_object =
     (if r_status run_object = run_cancelling \<or> r_status run_object = run_in_progress then ret None
      else bindE (GetLatestUserMessageObject (r_thread_id run_object)) (\<lambda>last_user_message.
        case last_user_message of
          None \<Rightarrow> ret None
        | Some m \<Rightarrow>
            (case first_text m of
               None \<Rightarrow> ret None
             | Some v \<Rightarrow>
                 bindE (ListAllSteps (r_thread_id run_object) (r_id run_object)) (\<lambda>run_step_objects.
                 bindE (load_steps run_object None run_step_objects []) (\<lambda>loaded.
                 ret (map_option (\<lambda>steps. \<lparr>previous_steps = steps,
                   state_input = ChatPrompt [empty_message\<lparr>msg_role := ''user'', msg_content := v\<rparr>], function_tools = []\<rparr>) loaded))))))"

text \<open>\<open>std::ranges::unique\<close> on names: only neighbours are compared.\<close>

fun unique_by :: "('a \<Rightarrow> 'b) \<Rightarrow> 'a list \<Rightarrow> 'a list" where
  "unique_by f (x # y # ys) = (if f x = f y then unique_by f (x # ys) else x # unique_by f (y # ys))"
| "unique_by f xs = xs"

definition tool_schemas :: "AssistantToolObject list \<Rightarrow> FunctionToolSchema list" where
  "tool_schemas tools = map assistant_tool_function (filter (\<lambda>t. assistant_tool_type t = function_tool) tools)"

definition RecoverAgentState :: "RunObject \<Rightarrow> World LocalFunctionToolkit option \<Rightarrow> (World, AgentState option) eff" where
  "RecoverAgentState run_object local_toolkit =
     bindE (LoadAgentStateFromRun run_object) (\<lambda>loaded.
       case loaded of
         None \<Rightarrow> ret None
       | Some state \<Rightarrow>
           bindE (RetrieveAssistant (r_assistant_id run_object)) (\<lambda>assistant_obj.
           case assistant_obj of
             None \<Rightarrow> throw (ClientException ''should have found assistant'')
           | Some a \<Rightarrow>
               ret (Some (state\<lparr>function_tools := unique_by tool_name (tool_schemas (a_tools a) @ tool_schemas (r_tools run_object) @
                 (case local_toolkit of None \<Rightarrow> [] | Some tk \<Rightarrow> schemas tk))\<rparr>))))"

section \<open>The executor\<close>

text \<open>The step is written also when the predicate is false; the executor then overwrites it.\<close>

definition CheckRunObjectForExecution :: "string \<Rightarrow> string \<Rightarrow> World StopPredicate" where
  "CheckRunObjectForExecution thread_id run_id state =
     bindE (RetrieveRun thread_id run_id) (\<lambda>run_opt.
       case run_opt of
         Some run \<Rightarrow>
           if r_status run = run_cancelling \<or> r_status run = run_cancelled
           then ret (True, Thought (Finish (empty_finish\<lparr>is_cancelled := True\<rparr>)))
           else if r_status run = run_expired
           then ret (True, Thought (Finish (empty_finish\<lparr>is_expired := True\<rparr>)))
           else ret (False, Thought (Finish empty_finish))
       | None \<Rightarrow>
           ret (False, Thought (Finish (empty_finish\<lparr>is_failed := True,
             finish_error := Some \<lparr>error_type = invalid_request_error, error_message = []\<rparr>\<rparr>))))"

definition model_overrides :: "RunObject \<Rightarrow> AssistantObject \<Rightarrow> ModelOverrides" where
  "model_overrides run_object assistant_obj =
     \<lparr>model_name = (if IsNotBlankString (r_model run_object) then Some (r_model run_object)
        else if IsNotBlankString (a_model assistant_obj) then Some (a_model assistant_obj) else None),
      override_top_p = (case r_top_p run_object of Some p \<Rightarrow> Some p | None \<Rightarrow> a_top_p assistant_obj),
      override_temperature = (case r_temperature run_object of Some t \<Rightarrow> Some t | None \<Rightarrow> a_temperature assistant_obj),
      stop_words = [''<END_OF_PLAN>'', ''<END_OF_RESPONSE>'']\<rparr>"

definition agent_instructions :: "RunObject \<Rightarrow> AssistantObject \<Rightarrow> string option" where
  "agent_instructions run_object assistant_obj =
     (if IsNotBlankString (r_instructions run_object) then Some (r_instructions run_object)
      else if IsNotBlankString (a_instructions assistant_obj) then Some (a_instructions assistant_obj) else None)"

definition BuildAgentExecutor :: "HandlerEnv \<Rightarrow> RunObject \<Rightarrow> AssistantObject \<Rightarrow> World LocalFunctionToolkit option \<Rightarrow>
    (World, AgentState \<Rightarrow> (World, AgentStep \<times> AgentState) eff) eff" where
  "BuildAgentExecutor env run_object assistant_obj local_toolkit =
     (let overrides = model_overrides run_object assistant_obj;
          instructions = agent_instructions run_object assistant_obj;
          stop_predicate = CheckRunObjectForExecution (r_thread_id run_object) (r_id run_object);
          worker = LocalToolkitsWorker_Invoke (invocation_ids env) (case local_toolkit of None \<Rightarrow> [] | Some tk \<Rightarrow> [tk]) in
      if is_llm_compiler env
      then ret (LLMCompiler_ResolveNextStep stop_predicate (compiler_planner env overrides) worker (compiler_joiner env overrides instructions))
      else bindE (assert_true (is_openai_chat env) ''Should be Chat model of OpenAI when openai_tool_agent_executor'') (\<lambda>_.
        ret (OpenAI_ResolveNextStep stop_predicate (OpenAIToolAgentPlanner_Invoke (chat_model env overrides)) worker)))"

definition resource_stores :: "AssistantToolResources option \<Rightarrow> string list" where
  "resource_stores r = (case r of None \<Rightarrow> [] | Some res \<Rightarrow> vector_store_ids res)"

definition BuildBuiltInToolkits :: "HandlerEnv \<Rightarrow> AssistantObject \<Rightarrow> ThreadObject \<Rightarrow> (World, World LocalFunctionToolkit option) eff" where
  "BuildBuiltInToolkits env assistant_object thread_object =
     (if has_file_search assistant_object
      then bindE (assert_true (resource_stores (a_tool_resources assistant_object) \<noteq> []) ''should have at least one VectorStore'') (\<lambda>_.
        let vs_id_list = [hd (resource_stores (a_tool_resources assistant_object))] @
              (if resource_stores (t_tool_resources thread_object) \<noteq> [] then [hd (resource_stores (t_tool_resources thread_object))] else []) in
        bindE (file_search_tool env vs_id_list) (\<lambda>tool. ret (Some (CreateLocalToolkit [tool]))))
      else ret None)"

section \<open>Callbacks\<close>

definition UpdateRunObjectStatus :: "string \<Rightarrow> string \<Rightarrow> RunObjectStatus \<Rightarrow> (World, RunObject option) eff" where
  "UpdateRunObjectStatus thread_id run_id status =
     ModifyRun (empty_modify_run\<lparr>mr_run_id := run_id, mr_thread_id := thread_id, mr_status := status\<rparr>)"

fun citation_annotations :: "SearchEntry list \<Rightarrow> Citation list \<Rightarrow> TextAnnotation list result" where
  "citation_annotations entries [] = Inr []"
| "citation_annotations entries (c # cs) =
     (let idx = quoted_index c in
      if idx < int (length entries)
      then if idx < 0 then Inl UndefinedBehaviour
        else bindR (citation_annotations entries cs) (\<lambda>rest.
          let entry = entries ! nat idx in
          Inr (\<lparr>annotation_text = citation_annotation c, start_index = entry_start entry, end_index = entry_end entry,
            citation_file_id = file_source entry, citation_quote = entry_content entry\<rparr> # rest))
      else citation_annotations entries cs)"

definition message_content :: "HandlerEnv \<Rightarrow> string \<Rightarrow> CitationContext option \<Rightarrow> (World, MessageContent) eff" where
  "message_content env content context =
     (case context of
        None \<Rightarrow> ret \<lparr>content_type = text_content, text_value = content, annotations = [], image_files = []\<rparr>
      | Some ctx \<Rightarrow>
          bindE (annotate env ctx) (\<lambda>(answer, citations).
          bindE (liftR (citation_annotations (original_search ctx) citations)) (\<lambda>anns.
          ret \<lparr>content_type = text_content, text_value = answer, annotations = anns, image_files = []\<rparr>)))"

definition new_step :: "RunObject \<Rightarrow> RunStepType \<Rightarrow> RunStepStatus \<Rightarrow> RunStepDetails \<Rightarrow> RunStepObject" where
  "new_step run_object type status details =
     \<lparr>s_id = [], s_created_at = 0, s_modified_at = 0, s_assistant_id = r_assistant_id run_object,
      s_thread_id = r_thread_id run_object, s_run_id = r_id run_object, s_type = type, s_status = status,
      s_step_details = Some details, s_last_error = None, s_expired_at = 0, s_cancelled_at = 0, s_failed_at = 0, s_completed_at = 0\<rparr>"

definition CreateMessageStep :: "HandlerEnv \<Rightarrow> string \<Rightarrow> RunObject \<Rightarrow> CitationContext option \<Rightarrow>
    (World, (RunStepObject \<times> MessageObject) option) eff" where
  "CreateMessageStep env content run_object context =
     bindE (message_content env content context) (\<lambda>text_content.
     bindE (CreateRawMessage ((text_message (r_thread_id run_object) assistant [] (r_id run_object) 0)
         \<lparr>m_assistant_id := r_assistant_id run_object, m_content := [text_content]\<rparr>)) (\<lambda>message_object.
       case message_object of
         None \<Rightarrow> ret None
       | Some m \<Rightarrow>
           bindE (CreateRunStep (new_step run_object message_creation_step step_completed
             (empty_details\<lparr>details_type := message_creation_step, message_creation := Some (m_id m)\<rparr>))) (\<lambda>step.
           ret (map_option (\<lambda>s. (s, m)) step))))"

definition continuation_step :: "Message \<Rightarrow> LLMCompilerTaskGraph option \<Rightarrow> RunObject \<Rightarrow> RunStepObject" where
  "continuation_step m custom run_object =
     new_step run_object tool_calls_step step_in_progress
       (empty_details\<lparr>details_custom := custom,
          details_tool_calls := map (\<lambda>call. \<lparr>td_id = tc_id call, td_type = function_tool,
            td_function = Some \<lparr>fd_name = fn_name call, fd_arguments = fn_arguments call, fd_output = []\<rparr>\<rparr>) (tool_calls m)\<rparr>)"

definition OnAgentContinuation :: "HandlerEnv \<Rightarrow> Message \<Rightarrow> LLMCompilerTaskGraph option \<Rightarrow> RunObject \<Rightarrow> (World, unit) eff" where
  "OnAgentContinuation env m custom run_object =
     bindE (if IsNotBlankString (msg_content m)
            then bindE (CreateMessageStep env (msg_content m) run_object None) (\<lambda>r. ret (r \<noteq> None)) else ret True) (\<lambda>created.
     if \<not> created then ret ()
     else bindE (if tool_calls m \<noteq> []
            then bindE (CreateRunStep (continuation_step m custom run_object)) (\<lambda>r. ret (r \<noteq> None)) else ret True) (\<lambda>created.
     if \<not> created then ret ()
     else bindE (UpdateRunObjectStatus (r_thread_id run_object) (r_id run_object) run_in_progress) (\<lambda>_. ret ())))"

text \<open>\<open>done\<close> is assigned anew for every completed message: only the last one counts.\<close>

definition call_done :: "Message list \<Rightarrow> ToolCallObject \<Rightarrow> bool" where
  "call_done done call = fold (\<lambda>m _. tool_call_id m = tc_id call) done False"

definition open_calls :: "Message list \<Rightarrow> ToolCallObject list \<Rightarrow> RequiredToolCall list" where
  "open_calls done calls =
     map (\<lambda>call. \<lparr>rt_id = tc_id call, rt_is_function = True, rt_function = Some (fn_name call, fn_arguments call)\<rparr>)
       (filter (\<lambda>call. \<not> call_done done call) calls)"

definition finish_calls :: "(ToolCallDetail \<Rightarrow> bool) \<Rightarrow> Message list \<Rightarrow> ToolCallDetail list \<Rightarrow> ToolCallDetail list" where
  "finish_calls sel msgs calls =
     fold (\<lambda>m cs. map (\<lambda>c. if td_id c = tool_call_id m \<and> sel c then set_output (msg_content m) c else c) cs) msgs calls"

definition OnAgentPause :: "Message list \<Rightarrow> Message \<Rightarrow> LLMCompilerTaskGraph option \<Rightarrow> RunObject \<Rightarrow> (World, unit) eff" where
  "OnAgentPause done m custom run_object =
     bindE (RetrieveLastRunStep run_object) (\<lambda>last_run_step_opt.
       case last_run_step_opt of
         None \<Rightarrow> ret ()
       | Some last_run_step \<Rightarrow>
           bindE (ModifyRunStep (empty_modify_step\<lparr>ms_run_id := r_id run_object, ms_step_id := s_id last_run_step,
             ms_thread_id := r_thread_id run_object,
             ms_step_details := Some ((step_details last_run_step)\<lparr>details_custom := custom,
               details_tool_calls := finish_calls (\<lambda>c. td_type c = function_tool) done (details_tool_calls (step_details last_run_step))\<rparr>)\<rparr>)) (\<lambda>step_opt.
           if step_opt = None then ret ()
           else bindE (ModifyRun (empty_modify_run\<lparr>mr_run_id := r_id run_object, mr_thread_id := r_thread_id run_object,
             mr_status := run_requires_action,
             mr_required_action := Some \<lparr>is_submit_tool_outputs = True, required_tool_calls = open_calls done (tool_calls m)\<rparr>\<rparr>)) (\<lambda>_.
           ret ())))"

definition OnAgentObservation :: "AgentObservation \<Rightarrow> RunObject \<Rightarrow> (World, unit) eff" where
  "OnAgentObservation observation run_object =
     bindE (RetrieveLastRunStep run_object) (\<lambda>last_run_step_opt.
       case last_run_step_opt of
         None \<Rightarrow> ret ()
       | Some last_run_step \<Rightarrow>
           bindE (UpdateRunObjectStatus (r_thread_id run_object) (r_id run_object) run_in_progress) (\<lambda>run_opt.
           if run_opt = None then ret ()
           else bindE (ModifyRunStep (empty_modify_step\<lparr>ms_run_id := r_id run_object, ms_step_id := s_id last_run_step,
             ms_thread_id := r_thread_id run_object, ms_status := step_completed,
             ms_step_details := Some ((step_details last_run_step)\<lparr>details_custom := observation_custom observation,
               details_tool_calls := finish_calls (\<lambda>_. True) (tool_messages observation) (details_tool_calls (step_details last_run_step))\<rparr>)\<rparr>)) (\<lambda>_.
           ret ())))"

text \<open>No previous step: the run request, or \<open>None\<close> after a failed message step.\<close>

definition finish_without_step :: "HandlerEnv \<Rightarrow> AgentFinish \<Rightarrow> RunObject \<Rightarrow> CitationContext option \<Rightarrow> ModifyRunRequest \<Rightarrow>
    (World, ModifyRunRequest option) eff" where
  "finish_without_step env fin run_object context req =
     (if is_failed fin
      then bindE GetCurrentEpochMicroSeconds (\<lambda>t. ret (Some (req\<lparr>mr_status := run_failed, mr_failed_at := t\<rparr>)))
      else if is_cancelled fin
      then bindE GetCurrentEpochMicroSeconds (\<lambda>t. ret (Some (req\<lparr>mr_status := run_cancelled, mr_cancelled_at := t\<rparr>)))
      else if is_expired fin then ret (Some (req\<lparr>mr_status := run_expired\<rparr>))
      else bindE GetCurrentEpochMicroSeconds (\<lambda>t.
        bindE (CreateMessageStep env (response fin) run_object context) (\<lambda>created.
        ret (if created = None then None else Some (req\<lparr>mr_status := run_completed, mr_completed_at := t\<rparr>)))))"

text \<open>With a previous step: the requests for the step and for the run.\<close>

definition finish_with_step :: "HandlerEnv \<Rightarrow> AgentFinish \<Rightarrow> RunObject \<Rightarrow> CitationContext option \<Rightarrow> ModifyRunRequest \<Rightarrow>
    RunStepObject \<Rightarrow> (World, (ModifyRunStepRequest \<times> ModifyRunRequest) option) eff" where
  "finish_with_step env fin run_object context req last_run_step =
     (let sreq = empty_modify_step\<lparr>ms_run_id := r_id run_object, ms_step_id := s_id last_run_step, ms_thread_id := r_thread_id run_object,
            ms_step_details := Some ((step_details last_run_step)\<lparr>details_custom := finish_custom fin\<rparr>)\<rparr> in
      if is_failed fin
      then bindE GetCurrentEpochMicroSeconds (\<lambda>t. bindE GetCurrentEpochMicroSeconds (\<lambda>t'.
        ret (Some (sreq\<lparr>ms_failed_at := t, ms_status := step_failed,
          ms_last_error := Some (case finish_error fin of Some e \<Rightarrow> e | None \<Rightarrow> \<lparr>error_type = invalid_request_error, error_message = []\<rparr>)\<rparr>,
          req\<lparr>mr_status := run_failed, mr_failed_at := t'\<rparr>))))
      else if is_cancelled fin
      then bindE GetCurrentEpochMicroSeconds (\<lambda>t. bindE GetCurrentEpochMicroSeconds (\<lambda>t'.
        ret (Some (sreq\<lparr>ms_status := step_cancelled, ms_cancelled_at := t\<rparr>, req\<lparr>mr_status := run_cancelled, mr_cancelled_at := t'\<rparr>))))
      else if is_expired fin
      then bindE GetCurrentEpochMicroSeconds (\<lambda>t.
        ret (Some (sreq\<lparr>ms_expired_at := t, ms_status := step_expired\<rparr>, req\<lparr>mr_status := run_expired\<rparr>)))
      else bindE GetCurrentEpochMicroSeconds (\<lambda>t. bindE GetCurrentEpochMicroSeconds (\<lambda>t'.
        bindE (CreateMessageStep env (response fin) run_object context) (\<lambda>created.
        ret (if created = None then None
          else Some (sreq\<lparr>ms_completed_at := t, ms_status := step_completed\<rparr>, req\<lparr>mr_status := run_completed, mr_completed_at := t'\<rparr>))))))"

definition OnAgentFinish :: "HandlerEnv \<Rightarrow> AgentFinish \<Rightarrow> PromptValue \<Rightarrow> RunObject \<Rightarrow> SearchEntry list \<Rightarrow> (World, unit) eff" where
  "OnAgentFinish env fin asked run_object file_search_results =
     (let req = empty_modify_run\<lparr>mr_run_id := r_id run_object, mr_thread_id := r_thread_id run_object\<rparr>;
          context = (if file_search_results = [] then None
            else Some \<lparr>original_answer = response fin, original_search = file_search_results,
              citation_question = ExtractLatestPromptString asked\<rparr>) in
      bindE (RetrieveLastRunStep run_object) (\<lambda>last_run_step_opt.
      bindE (case last_run_step_opt of
               None \<Rightarrow> finish_without_step env fin run_object context req
             | Some last_run_step \<Rightarrow>
                 bindE (finish_with_step env fin run_object context req last_run_step) (\<lambda>reqs.
                   case reqs of
                     None \<Rightarrow> ret None
                   | Some (sreq, req) \<Rightarrow>
                       bindE (ModifyRunStep sreq) (\<lambda>step_opt. ret (if step_opt = None then None else Some req)))) (\<lambda>req_opt.
        case req_opt of
          None \<Rightarrow> ret ()
        | Some req \<Rightarrow> bindE (ModifyRun req) (\<lambda>_. ret ()))))"

section \<open>Handling a task\<close>

text \<open>The variables the callbacks share.\<close>

record HandlerLocals =
  last_file_search_call_ids :: "string list"
  retrieved_entries :: "SearchEntry list"

definition on_world :: "(World, 'a) eff \<Rightarrow> (World \<times> HandlerLocals, 'a) eff" where
  "on_world m = (\<lambda>(w, l). case m w of (r, w') \<Rightarrow> (r, (w', l)))"

definition copy_entries :: "HandlerEnv \<Rightarrow> Message \<Rightarrow> (World \<times> HandlerLocals, unit) eff" where
  "copy_entries env m =
     bindE (getE (\<lambda>(w, l). tool_call_id m \<in> set (last_file_search_call_ids l))) (\<lambda>wanted.
       if wanted
       then bindE (liftR (parse_search_response env (msg_content m))) (\<lambda>entries.
         modifyE (\<lambda>(w, l). (w, l\<lparr>retrieved_entries := retrieved_entries l @ entries\<rparr>)))
       else ret ())"

definition on_next :: "HandlerEnv \<Rightarrow> bool \<Rightarrow> RunObject \<Rightarrow> AgentState \<Rightarrow> (World \<times> HandlerLocals, unit) eff" where
  "on_next env file_search_enabled run_object state =
     (if previous_steps state = [] then throw UndefinedBehaviour
      else
        (case last (previous_steps state) of
           Thought (Continuation (Some m) custom) \<Rightarrow>
             bindE (if file_search_enabled
                    then modifyE (\<lambda>(w, l). (w, l\<lparr>last_file_search_call_ids :=
                      map tc_id (filter (\<lambda>call. fn_name call = FILE_SEARCH_TOOL_NAME) (tool_calls m))\<rparr>))
                    else ret ()) (\<lambda>_.
             on_world (OnAgentContinuation env m custom run_object))
         | Thought (Pause done (Some m) custom) \<Rightarrow> on_world (OnAgentPause done m custom run_object)
         | Thought (Finish fin) \<Rightarrow>
             bindE (getE (\<lambda>(w, l). retrieved_entries l)) (\<lambda>entries.
             on_world (OnAgentFinish env fin (state_input state) run_object entries))
         | Observation obs \<Rightarrow>
             if tool_messages obs \<noteq> []
             then bindE (if file_search_enabled then forE (copy_entries env) (tool_messages obs) else ret ()) (\<lambda>_.
               on_world (OnAgentObservation obs run_object))
             else ret ()
         | _ \<Rightarrow> ret ()))"

definition error_of :: "exn \<Rightarrow> RunStepError" where
  "error_of e =
     (case e of
        ClientException s \<Rightarrow> \<lparr>error_type = invalid_request_error, error_message = s\<rparr>
      | InstinctException s \<Rightarrow> \<lparr>error_type = server_error, error_message = s\<rparr>
      | RuntimeError s \<Rightarrow> \<lparr>error_type = server_error, error_message = s\<rparr>
      | RenderError s \<Rightarrow> \<lparr>error_type = server_error, error_message = s\<rparr>
      | _ \<Rightarrow> \<lparr>error_type = server_error, error_message = ''Uncaught exception''\<rparr>)"

definition on_error :: "HandlerEnv \<Rightarrow> RunObject \<Rightarrow> exn \<Rightarrow> (World, unit) eff" where
  "on_error env run_object e =
     OnAgentFinish env (empty_finish\<lparr>is_failed := True, finish_error := Some (error_of e)\<rparr>) NoPrompt run_object []"

text \<open>A step of the executor and its delivery to the observer.\<close>

definition resolve_and_emit :: "(AgentState \<Rightarrow> (World, AgentStep \<times> AgentState) eff) \<Rightarrow>
    (AgentState \<Rightarrow> (World \<times> HandlerLocals, unit) eff) \<Rightarrow> AgentState \<Rightarrow> (World \<times> HandlerLocals, AgentStep \<times> AgentState) eff" where
  "resolve_and_emit ResolveNextStep emit state =
     bindE (on_world (ResolveNextStep state)) (\<lambda>(step, state'). bindE (emit state') (\<lambda>_. ret (step, state')))"

text \<open>Everything before the stream; \<open>None\<close> is an early return.\<close>

definition prepare_run :: "HandlerEnv \<Rightarrow> RunObject \<Rightarrow>
    (World, (AgentState \<times> (AgentState \<Rightarrow> (World, AgentStep \<times> AgentState) eff) \<times> bool) option) eff" where
  "prepare_run env run_object =
     bindE GetCurrentEpochMicroSeconds (\<lambda>t. bindE GetCurrentEpochMicroSeconds (\<lambda>t'.
     bindE (ModifyRun (empty_modify_run\<lparr>mr_run_id := r_id run_object, mr_thread_id := r_thread_id run_object,
       mr_status := run_in_progress, mr_started_at := t, mr_expires_at := t' + 600000000\<rparr>)) (\<lambda>run_opt.
     if run_opt = None then ret None
     else bindE (RetrieveAssistant (r_assistant_id run_object)) (\<lambda>assistant_opt.
       case assistant_opt of
         None \<Rightarrow> throw (ClientException (''Failed to get assistant object with id: '' @ r_assistant_id run_object))
       | Some assistant_obj \<Rightarrow>
     bindE (RetrieveThread (r_thread_id run_object)) (\<lambda>thread_opt.
       case thread_opt of
         None \<Rightarrow> throw (ClientException (''Thread is missing. id='' @ r_thread_id run_object))
       | Some thread_obj \<Rightarrow>
     bindE (BuildBuiltInToolkits env assistant_obj thread_obj) (\<lambda>local_toolkit.
     bindE (RecoverAgentState run_object local_toolkit) (\<lambda>state_opt.
       case state_opt of
         None \<Rightarrow> ret None
       | Some state \<Rightarrow>
     bindE (BuildAgentExecutor env run_object assistant_obj local_toolkit) (\<lambda>executor.
     ret (Some (state, executor, has_file_search assistant_obj))))))))))"

text \<open>\<open>None\<close>: the agent is still running after \<open>fuel\<close> further steps.\<close>

definition Handler_Handle :: "HandlerEnv \<Rightarrow> nat \<Rightarrow> RunObject Task \<Rightarrow> World \<Rightarrow> (unit result \<times> World) option" where
  "Handler_Handle env fuel task w =
     (let run_object = payload task in
      if \<not> CheckPreconditions run_object then Some (Inr (), w)
      else
        (case prepare_run env run_object w of
           (Inl e, w) \<Rightarrow> Some (Inl e, w)
         | (Inr None, w) \<Rightarrow> Some (Inr (), w)
         | (Inr (Some (state, executor, file_search_enabled)), w) \<Rightarrow>
             (case Stream (resolve_and_emit executor (on_next env file_search_enabled run_object)) fuel state
                     (w, \<lparr>last_file_search_call_ids = [], retrieved_entries = []\<rparr>) of
                None \<Rightarrow> None
              | Some (out, Inr (), (w, l)) \<Rightarrow> Some (Inr (), w)
              | Some (out, Inl e, (w, l)) \<Rightarrow> Some (on_error env run_object e w))))"

end
