(* ===== verification/Run_Handler_Correct.thy ===== *)
theory Run_Handler_Correct
  imports Run_Handler Run_Service_Correct OpenAI_Agent
begin

text \<open>
  What the run handler does with a run: which steps and which user message it reads back, that the
  agent's requests survive the way through the store, when a run that was given outputs can go on,
  how a run ends, and where its end is lost.
\<close>

text \<open>Concrete collaborators for the examples: a model that answers at once, no search results.\<close>

definition demo_env :: HandlerEnv where
  "demo_env = \<lparr>is_llm_compiler = False, is_openai_chat = True,
     chat_model = (\<lambda>_ _ _. ret (empty_message\<lparr>msg_role := ''assistant'', msg_content := ''done''\<rparr>)),
     compiler_planner = (\<lambda>_ _. throw OutOfRange), compiler_joiner = (\<lambda>_ _ _. throw OutOfRange),
     invocation_ids = ret ''call_1'', file_search_tool = (\<lambda>_. throw OutOfRange),
     parse_search_response = (\<lambda>_. Inr []), annotate = (\<lambda>c. ret (original_answer c, []))\<rparr>"

section \<open>Reading all steps\<close>

definition steps_request :: "string \<Rightarrow> string \<Rightarrow> string \<Rightarrow> ListRequest" where
  "steps_request th i after = empty_list_request\<lparr>lr_order := asc, lr_run_id := i, lr_thread_id := th, lr_after := after\<rparr>"

lemma steps_request_simps [simp]:
  "lr_limit (steps_request th i a) = 0" "lr_thread_id (steps_request th i a) = th" "lr_run_id (steps_request th i a) = i"
  "(steps_request th i a)\<lparr>lr_after := b\<rparr> = steps_request th i b"
  by (simp_all add: steps_request_def empty_list_request_def)

lemma steps_after:
  assumes "\<not> IsBlankString after"
  shows "ordered_steps (steps_request th i after) w = filter (\<lambda>s. after < s_id s) (ordered_steps (steps_request th i []) w)"
  using assms
  by (simp add: ordered_steps_def steps_request_def empty_list_request_def list_order_def order_by_def IsNotBlankString_def
      IsBlankString_iff filter_sort conj_ac)

text \<open>Ids follow the order of the rows.\<close>

definition ids_ascend :: "('a \<Rightarrow> string) \<Rightarrow> 'a list \<Rightarrow> bool" where
  "ids_ascend idf rows \<longleftrightarrow> sorted_wrt (\<lambda>x y. idf x < idf y) rows \<and> (\<forall>x \<in> set rows. \<not> IsBlankString (idf x))"

lemma ids_ascend_split:
  assumes "ids_ascend idf (xs @ x # ys)"
  shows "filter (\<lambda>y. idf x < idf y) (xs @ x # ys) = ys"
proof -
  have "filter (\<lambda>y. idf x < idf y) xs = []" using assms by (auto simp: ids_ascend_def sorted_wrt_append filter_empty_conv dest: less_asym)
  moreover have "filter (\<lambda>y. idf x < idf y) ys = ys" using assms by (auto simp: ids_ascend_def sorted_wrt_append filter_id_conv)
  ultimately show ?thesis by simp
qed

lemma page_20: "page_size 0 = 20"
  by (simp add: page_size_def)

lemma page_last:
  assumes "20 < length R"
  shows "take 20 R = take 19 R @ [last (take 20 R)]"
proof -
  have "take 20 R \<noteq> []" using assms by auto
  then show ?thesis using append_butlast_last_id [of "take 20 R"] assms by (simp add: butlast_take)
qed

lemma ListAllSteps_loop_complete:
  assumes "th \<noteq> []" "i \<noteq> []" "ids_ascend s_id S" "S = ordered_steps (steps_request th i []) w"
    "S = acc @ R" "ordered_steps (steps_request th i after) w = R" "length R < fuel"
  shows "ListAllSteps_loop fuel (steps_request th i after) acc w = (Inr S, w)"
  using assms(5-7)
proof (induction fuel arbitrary: acc R after)
  case (Suc fuel)
  let ?resp = "list_page s_id (int 20 + 1) (take (Suc 20) R)"
  have list: "ListRunSteps (steps_request th i after) w = (Inr ?resp, w)"
    using ListRunSteps_eval [of "steps_request th i after" w] assms(1,2) Suc.prems(2) by (simp add: page_20)
  have data: "list_data ?resp = take 20 R" and more: "has_more ?resp \<longleftrightarrow> 20 < length R"
    using list_page_take [of 20 s_id R] by simp_all
  show ?case
  proof (cases "20 < length R")
    case False
    then show ?thesis using Suc.prems(1) more data
      by (simp add: bindE_ret [where m = "ListRunSteps _", OF list])
  next
    case True
    let ?last = "last (take 20 R)"
    have split: "take 20 R = take 19 R @ [?last]"
      using True by (intro page_last) simp
    have S: "S = (acc @ take 19 R) @ ?last # drop 20 R"
      using Suc.prems(1) split by (metis append.assoc append_Cons append_Nil append_take_drop_id)
    have "?last \<in> set S" using S by (metis in_set_conv_decomp)
    then have nb: "\<not> IsBlankString (s_id ?last)" using assms(3) by (simp add: ids_ascend_def)
    have "ordered_steps (steps_request th i (s_id ?last)) w = drop 20 R"
      using ids_ascend_split [of s_id "acc @ take 19 R" ?last "drop 20 R"] assms(3) S steps_after [OF nb, of th i w] assms(4) by metis
    moreover have "S = (acc @ take 20 R) @ drop 20 R" using Suc.prems(1) by simp
    ultimately have "ListAllSteps_loop fuel (steps_request th i (s_id ?last)) (acc @ take 20 R) w = (Inr S, w)"
      using Suc.IH [of "acc @ take 20 R" "drop 20 R" "s_id ?last"] Suc.prems(3) True by simp
    then show ?thesis
      using True more data by (auto simp: bindE_ret [where m = "ListRunSteps _", OF list])
  qed
qed simp

text \<open>
  C11: Reading all steps of a run returns every step of it, oldest first, over as many pages as it
  takes, provided the ids of the steps grow with their time of creation; the bound of the loop always
  suffices.
\<close>

theorem ListAllSteps_complete:
  assumes "th \<noteq> []" "i \<noteq> []" "ids_ascend s_id (ordered_steps (steps_request th i []) w)"
  shows "ListAllSteps th i w = (Inr (ordered_steps (steps_request th i []) w), w)"
proof -
  have "length (ordered_steps (steps_request th i []) w) \<le> length (instinct_thread_run_step w)"
    by (simp add: ordered_steps_def order_by_def steps_request_def list_order_def)
  then show ?thesis
    using ListAllSteps_loop_complete [OF assms refl, of "[]" _ "[]" "Suc (length (instinct_thread_run_step w))"]
    by (simp add: ListAllSteps_def steps_request_def empty_list_request_def)
qed

theorem ListAllSteps_complete_witness:
  "ListAllSteps ''thread_1'' ''run_1'' demo_world = (Inr [demo_step], demo_world)"
proof -
  have "ordered_steps (steps_request ''thread_1'' ''run_1'' []) demo_world = [demo_step]"
    by (simp add: ordered_steps_def steps_request_def empty_list_request_def demo_world_def demo_step_def list_order_def
      order_by_def IsNotBlankString_def IsBlankString_iff)
  then show ?thesis
    using ListAllSteps_complete [of "''thread_1''" "''run_1''" demo_world] demo_ids_not_blank(3)
    by (simp add: ids_ascend_def demo_step_def)
qed
section \<open>The user message a run answers\<close>

definition messages_request :: "string \<Rightarrow> string \<Rightarrow> ListRequest" where
  "messages_request th after = empty_list_request\<lparr>lr_order := desc, lr_thread_id := th, lr_after := after\<rparr>"

lemma messages_request_simps [simp]:
  "lr_limit (messages_request th a) = 0" "lr_thread_id (messages_request th a) = th"
  "(messages_request th a)\<lparr>lr_after := b\<rparr> = messages_request th b"
  by (simp_all add: messages_request_def empty_list_request_def)

lemma messages_after:
  "after \<noteq> [] \<Longrightarrow> ordered_messages (messages_request th after) w = filter (\<lambda>m. after < m_id m) (ordered_messages (messages_request th []) w)"
  by (simp add: ordered_messages_def messages_request_def empty_list_request_def list_order_def order_by_def filter_sort conj_ac)

lemma GetLatestUser_page:
  assumes "th \<noteq> []"
  shows "GetLatestUser_loop (Suc fuel) (messages_request th after) w =
    (let D = ordered_messages (messages_request th after) w in
     case find (\<lambda>m. m_role m = user) (take 20 D) of
       Some m \<Rightarrow> (Inr (Some m), w)
     | None \<Rightarrow> if 20 < length D then GetLatestUser_loop fuel (messages_request th (m_id (last (take 20 D)))) w else (Inr None, w))"
proof -
  define D where "D = ordered_messages (messages_request th after) w"
  let ?resp = "list_page m_id (int 20 + 1) (take (Suc 20) D)"
  have list: "ListMessages (messages_request th after) w = (Inr ?resp, w)"
    using ListMessages_eval [of "messages_request th after" w] assms by (simp add: page_20 D_def)
  have "list_data ?resp = take 20 D" "has_more ?resp \<longleftrightarrow> 20 < length D"
    using list_page_take [of 20 m_id D] by simp_all
  then show ?thesis
    by (auto simp: bindE_ret [where m = "ListMessages _", OF list] D_def [symmetric] Let_def split: option.split)
qed

text \<open>
  The message a run answers is looked for among the twenty newest messages of the thread only.
  The cursor for the next page goes the wrong way, so that a user message with twenty or more newer
  messages after it is not found.
\<close>

theorem GetLatestUserMessageObject_newest_page:
  assumes "th \<noteq> []" "ids_ascend m_id (rev (ordered_messages (messages_request th []) w))"
  shows "GetLatestUserMessageObject th w =
    (Inr (find (\<lambda>m. m_role m = user) (take 20 (ordered_messages (messages_request th []) w))), w)"
proof -
  define D where "D = ordered_messages (messages_request th []) w"
  define n where "n = length (instinct_thread_message w)"
  have len: "length D \<le> n" by (simp add: D_def n_def ordered_messages_def order_by_def messages_request_def list_order_def)
  have start: "GetLatestUserMessageObject th w = GetLatestUser_loop (Suc n) (messages_request th []) w"
    by (simp add: GetLatestUserMessageObject_def messages_request_def empty_list_request_def n_def)
  show ?thesis
  proof (cases "find (\<lambda>m. m_role m = user) (take 20 D) = None \<and> 20 < length D")
    case False
    then show ?thesis unfolding start GetLatestUser_page [OF assms(1)] by (auto simp: Let_def D_def [symmetric] split: option.split)
  next
    case True
    let ?last = "last (take 20 D)"
    have split: "take 20 D = take 19 D @ [?last]"
      using True by (intro page_last) simp
    have D: "D = take 19 D @ ?last # drop 20 D"
      using split by (metis append.assoc append_Cons append_Nil append_take_drop_id)
    have rev: "ids_ascend m_id (rev (drop 20 D) @ ?last # rev (take 19 D))"
      using assms(2) D unfolding D_def [symmetric] by (metis append.assoc append_Cons append_Nil rev.simps(2) rev_append)
    have "filter (\<lambda>m. m_id ?last < m_id m) (rev D) = rev (take 19 D)"
      using ids_ascend_split [OF rev] D by (metis append.assoc append_Cons append_Nil rev.simps(2) rev_append)
    then have "filter (\<lambda>m. m_id ?last < m_id m) D = take 19 D"
      by (metis rev_filter rev_rev_ident)
    moreover have ne: "m_id ?last \<noteq> []"
      using rev by (auto simp: ids_ascend_def dest: not_blank_nonempty)
    ultimately have next_page: "ordered_messages (messages_request th (m_id ?last)) w = take 19 D"
      using messages_after [OF ne, of th w] by (simp add: D_def)
    have none: "find (\<lambda>m. m_role m = user) (take 19 D) = None"
      using True split by (simp add: find_None_iff) (metis Un_iff set_append)
    obtain k where "n = Suc k" using len True by (cases n) auto
    then show ?thesis
      unfolding start using True none
      by (simp add: GetLatestUser_page [OF assms(1)] Let_def D_def [symmetric] next_page del: GetLatestUser_loop.simps)
  qed
qed

definition demo_message :: MessageObject where
  "demo_message = (text_message ''thread_1'' user ''hi'' [] 1)\<lparr>m_id := ''msg_1''\<rparr>"

lemma demo_messages:
  "ordered_messages (messages_request ''thread_1'' []) (demo_world\<lparr>instinct_thread_message := [demo_message]\<rparr>) = [demo_message]"
  by (simp add: ordered_messages_def messages_request_def empty_list_request_def demo_world_def demo_message_def text_message_def
      list_order_def order_by_def)

theorem GetLatestUserMessageObject_newest_page_witness:
  "GetLatestUserMessageObject ''thread_1'' (demo_world\<lparr>instinct_thread_message := [demo_message]\<rparr>) =
     (Inr (Some demo_message), demo_world\<lparr>instinct_thread_message := [demo_message]\<rparr>)"
  using GetLatestUserMessageObject_newest_page [of "''thread_1''" "demo_world\<lparr>instinct_thread_message := [demo_message]\<rparr>"]
  by (simp add: demo_messages ids_ascend_def) (simp add: demo_message_def text_message_def IsBlankString_iff isspace_def)

section \<open>From the agent to the store and back\<close>

text \<open>A request of the model as the code expects it.\<close>

definition plain_request :: "Message \<Rightarrow> bool" where
  "plain_request m \<longleftrightarrow> msg_role m = ''assistant'' \<and> msg_content m = [] \<and> tool_call_id m = [] \<and> tool_calls m \<noteq> [] \<and>
     (\<forall>call \<in> set (tool_calls m). tc_is_function call \<and> \<not> IsBlankString (fn_name call))"

lemma continuation_calls:
  assumes "plain_request m"
  shows "map call_request (map stored_call (details_tool_calls (step_details (continuation_step m custom run)))) = tool_calls m"
    "function_calls (step_details (continuation_step m custom run)) = details_tool_calls (step_details (continuation_step m custom run))"
proof -
  have "call_request (stored_call \<lparr>td_id = tc_id call, td_type = function_tool,
      td_function = Some \<lparr>fd_name = fn_name call, fd_arguments = fn_arguments call, fd_output = []\<rparr>\<rparr>) = call"
    if "call \<in> set (tool_calls m)" for call
    using that assms by (auto simp: plain_request_def call_request_def stored_call_def call_function_def empty_function_detail_def dest: not_blank_nonempty)
  then show "map call_request (map stored_call (details_tool_calls (step_details (continuation_step m custom run)))) = tool_calls m"
    by (simp add: continuation_step_def step_details_def new_step_def map_idI)
  show "function_calls (step_details (continuation_step m custom run)) = details_tool_calls (step_details (continuation_step m custom run))"
    by (simp add: function_calls_def continuation_step_def step_details_def new_step_def filter_id_conv)
qed

text \<open>The step as it comes back from the store.\<close>

definition stored_step :: "RunStepObject \<Rightarrow> RunStepObject" where
  "stored_step s = s\<lparr>s_step_details := Option.bind (s_step_details s) stored_details\<rparr>"

lemma stored_continuation:
  assumes "plain_request m"
  shows "step_details (stored_step (continuation_step m custom run)) =
    (step_details (continuation_step m custom run))\<lparr>details_tool_calls := map stored_call (details_tool_calls (step_details (continuation_step m custom run)))\<rparr>"
  using assms by (simp add: stored_step_def stored_details_def Let_def empty_details_def plain_request_def step_details_def
      continuation_step_def new_step_def)



section \<open>Going on after tool outputs\<close>

lemma load_open_step:
  assumes "s_status step = step_in_progress" "r_status run = run_queued" "details_tool_calls (step_details step) \<noteq> []"
    "\<forall>c \<in> set (details_tool_calls (step_details step)). td_type c = function_tool"
  shows "\<exists>m. load_tool_step run True None step w =
      (Inr (Some [Thought (Continuation (Some m) (details_custom (step_details step))),
         Thought (Pause (map call_result (filter (\<lambda>c. IsNotBlankString (fd_output (call_function c))) (details_tool_calls (step_details step))))
           (Some m) (details_custom (step_details step)))]), w) \<and>
    tool_calls m = map call_request (details_tool_calls (step_details step))"
proof -
  have "function_calls (step_details step) = details_tool_calls (step_details step)"
    using assms(4) by (simp add: function_calls_def filter_id_conv)
  then show ?thesis
    using assms(1-3) by (simp add: load_tool_step_def Let_def thought_text_def)
qed

lemma length_filter_all: "length (filter P xs) = length xs \<longleftrightarrow> (\<forall>x \<in> set xs. P x)"
proof (induction xs)
  case (Cons x xs)
  have "length (filter P xs) \<noteq> Suc (length xs)" using length_filter_le [of P xs] by linarith
  with Cons show ?case by simp
qed simp

text \<open>
  C10: A run that was paused for tool calls and is queued again goes on, with an observation of all
  results, exactly if every call has an output that is not blank. One blank output, which
  \<open>SubmitToolOutputs\<close> accepts, and the executor throws.
\<close>

theorem resume_needs_outputs:
  assumes "s_status step = step_in_progress" "r_status run = run_queued" "details_tool_calls (step_details step) \<noteq> []"
    "list_all (\<lambda>c. td_type c = function_tool) (details_tool_calls (step_details step))"
    "load_tool_step run True None step w = (Inr (Some steps), w)" "previous_steps state = before @ steps"
    "stop state w = (Inr (False, s0), w)"
  shows "if list_all (\<lambda>c. IsNotBlankString (fd_output (call_function c))) (details_tool_calls (step_details step))
    then \<exists>obs. OpenAI_ResolveNextStep stop planner worker state w = (Inr (Observation obs, add_step (Observation obs) state), w) \<and>
      tool_messages obs = map call_result (details_tool_calls (step_details step))
    else OpenAI_ResolveNextStep stop planner worker state w = (Inl (InstinctException ''IllegalState for OpenAIToolAgentExecutor''), w)"
proof -
  let ?calls = "details_tool_calls (step_details step)"
  let ?done = "filter (\<lambda>c. IsNotBlankString (fd_output (call_function c))) ?calls"
  obtain m where m: "tool_calls m = map call_request ?calls" and
    steps: "steps = [Thought (Continuation (Some m) (details_custom (step_details step))),
      Thought (Pause (map call_result ?done) (Some m) (details_custom (step_details step)))]"
    using load_open_step [of step run w] assms(1-5) by (auto simp: list_all_iff)
  have last: "previous_steps state \<noteq> []"
    "last (previous_steps state) = Thought (Pause (map call_result ?done) (Some m) (details_custom (step_details step)))"
    using assms(6) steps by simp_all
  have eval: "OpenAI_ResolveNextStep stop planner worker state w =
      (if length ?calls = length ?done
       then (Inr (Observation \<lparr>tool_messages = map call_result ?done, observation_custom = None\<rparr>,
         add_step (Observation \<lparr>tool_messages = map call_result ?done, observation_custom = None\<rparr>) state), w)
       else (Inl (InstinctException ''IllegalState for OpenAIToolAgentExecutor''), w))"
    unfolding OpenAI_ResolveNextStep_def using last m by (simp add: bindE_ret [where m = "stop state", OF assms(7)] Let_def)
  have "length ?calls = length ?done \<longleftrightarrow> list_all (\<lambda>c. IsNotBlankString (fd_output (call_function c))) ?calls"
    using length_filter_all [of "\<lambda>c. IsNotBlankString (fd_output (call_function c))" ?calls] by (auto simp: list_all_iff)
  moreover have "list_all (\<lambda>c. IsNotBlankString (fd_output (call_function c))) ?calls \<Longrightarrow> ?done = ?calls"
    by (simp add: list_all_iff filter_id_conv)
  ultimately show ?thesis unfolding eval by simp
qed

definition demo_blank_step :: RunStepObject where
  "demo_blank_step = demo_step\<lparr>s_step_details := map_option (details_tool_calls_update (map (set_output '' ''))) (s_step_details demo_step)\<rparr>"

theorem resume_needs_outputs_witness:
  "\<exists>steps. load_tool_step (demo_run\<lparr>r_status := run_queued\<rparr>) True None demo_blank_step demo_world = (Inr (Some steps), demo_world) \<and>
     OpenAI_ResolveNextStep NoStopPredicate (\<lambda>_. throw OutOfRange) (\<lambda>_. throw OutOfRange)
       \<lparr>previous_steps = steps, state_input = NoPrompt, function_tools = []\<rparr> demo_world =
     (Inl (InstinctException ''IllegalState for OpenAIToolAgentExecutor''), demo_world)"
proof -
  have calls: "details_tool_calls (step_details demo_blank_step) = [\<lparr>td_id = ''c1'', td_type = function_tool,
      td_function = Some \<lparr>fd_name = ''f'', fd_arguments = ''{}'', fd_output = '' ''\<rparr>\<rparr>]"
    by (simp add: demo_blank_step_def demo_step_def step_details_def set_output_def)
  have status: "s_status demo_blank_step = step_in_progress" by (simp add: demo_blank_step_def demo_step_def)
  obtain steps where steps: "load_tool_step (demo_run\<lparr>r_status := run_queued\<rparr>) True None demo_blank_step demo_world = (Inr (Some steps), demo_world)"
    using load_open_step [of demo_blank_step "demo_run\<lparr>r_status := run_queued\<rparr>" demo_world] status calls by auto
  show ?thesis
    using resume_needs_outputs [OF status _ _ _ steps, of "\<lparr>previous_steps = steps, state_input = NoPrompt, function_tools = []\<rparr>" "[]"
        NoStopPredicate NoStep "\<lambda>_. throw OutOfRange" "\<lambda>_. throw OutOfRange"] steps
    by (simp add: calls NoStopPredicate_def call_function_def IsNotBlankString_def IsBlankString_iff isspace_def)
qed

section \<open>Pausing\<close>

lemma call_done_last: "call_done msgs call \<longleftrightarrow> msgs \<noteq> [] \<and> tc_id call = tool_call_id (last msgs)"
  by (induction msgs rule: rev_induct) (auto simp: call_done_def)

text \<open>
  When a run pauses, the calls it asks outputs for are all but the one completed last. With two
  or more completed calls, calls that already have a result are asked for again.
\<close>

theorem pause_reopens_calls:
  "map rt_id (open_calls done calls) =
     (if done = [] then map tc_id calls else filter (\<lambda>i. i \<noteq> tool_call_id (last done)) (map tc_id calls))"
  by (auto simp: open_calls_def call_done_last filter_map comp_def)

section \<open>The step a callback writes to\<close>

definition newest_steps :: "RunObject \<Rightarrow> World \<Rightarrow> RunStepObject list" where
  "newest_steps run w = ordered_steps (empty_list_request\<lparr>lr_thread_id := r_thread_id run, lr_run_id := r_id run\<rparr>) w"

definition handled_step :: "RunObject \<Rightarrow> World \<Rightarrow> RunStepObject option" where
  "handled_step run w = (if newest_steps run w = [] then None else Some (last (take 20 (newest_steps run w))))"

lemma newest_steps_ticks [simp]: "newest_steps run (w\<lparr>ticks := t\<rparr>) = newest_steps run w"
  by (simp add: newest_steps_def ordered_steps_def order_by_def split: ListRequestOrder.split)

lemma RetrieveLastRunStep_eval:
  assumes "r_thread_id run \<noteq> []" "r_id run \<noteq> []"
  shows "RetrieveLastRunStep run w = (Inr (handled_step run w), w)"
proof -
  let ?req = "empty_list_request\<lparr>lr_order := desc, lr_run_id := r_id run, lr_thread_id := r_thread_id run\<rparr>"
  have D: "ordered_steps ?req w = newest_steps run w"
    by (simp add: newest_steps_def ordered_steps_def empty_list_request_def list_order_def)
  have limit: "lr_limit ?req = 0" by (simp add: empty_list_request_def)
  have list: "ListRunSteps ?req w = (Inr (list_page s_id (int 20 + 1) (take (Suc 20) (newest_steps run w))), w)"
    using ListRunSteps_eval [of ?req w] assms by (simp add: limit page_20 D)
  have "list_data (list_page s_id (int 20 + 1) (take (Suc 20) (newest_steps run w))) = take 20 (newest_steps run w)"
    using list_page_take(1) [of 20 s_id "newest_steps run w"] by simp
  then show ?thesis
    by (simp add: RetrieveLastRunStep_def bindE_ret [where m = "ListRunSteps _", OF list] handled_step_def)
qed

lemma handled_step_in:
  assumes "handled_step run w = Some s"
  shows "s \<in> set (instinct_thread_run_step w)" "s_thread_id s = r_thread_id run" "s_run_id s = r_id run"
proof -
  have "s \<in> set (newest_steps run w)"
    using assms unfolding handled_step_def by (metis in_set_takeD last_in_set option.distinct(1) option.inject take_eq_Nil zero_neq_numeral)
  then show "s \<in> set (instinct_thread_run_step w)" "s_thread_id s = r_thread_id run" "s_run_id s = r_id run"
    by (auto simp: newest_steps_def ordered_steps_def order_by_def empty_list_request_def list_order_def)
qed

lemma newest_steps_rev:
  assumes "sorted_wrt (\<lambda>x y. s_created_at x < s_created_at y) (ordered_steps (steps_request (r_thread_id run) (r_id run) []) w)"
  shows "newest_steps run w = rev (ordered_steps (steps_request (r_thread_id run) (r_id run) []) w)"
proof -
  define rows where "rows = filter (\<lambda>x. s_thread_id x = r_thread_id run \<and> s_run_id x = r_id run) (instinct_thread_run_step w)"
  define A where "A = ordered_steps (steps_request (r_thread_id run) (r_id run) []) w"
  define key where "key = (\<lambda>r :: RunStepObject. (- s_created_at r, tie_rank w (s_id r)))"
  have A: "A = sort_key (\<lambda>r. (s_created_at r, tie_rank w (s_id r))) rows"
    by (simp add: A_def ordered_steps_def steps_request_def empty_list_request_def list_order_def order_by_def rows_def
        IsNotBlankString_def IsBlankString_iff)
  have new: "newest_steps run w = sort_key key rows"
    by (simp add: newest_steps_def ordered_steps_def empty_list_request_def list_order_def order_by_def rows_def key_def
        IsNotBlankString_def IsBlankString_iff)
  have asc: "sorted_wrt (\<lambda>x y. s_created_at x < s_created_at y) A" using assms by (simp add: A_def)
  have "distinct (map s_created_at A)"
    using asc strict_sorted_iff [of "map s_created_at A"] by (simp add: sorted_wrt_map)
  then have "inj_on s_created_at (set rows)" by (simp add: A distinct_map)
  then have inj: "inj_on key (set rows)" by (auto simp: inj_on_def key_def)
  have "sorted_wrt (\<lambda>x y. key x < key y) (rev A)"
    using asc unfolding sorted_wrt_rev by (rule sorted_wrt_mono_rel [rotated]) (simp add: key_def less_prod_def)
  then have sorted: "sorted (map key (rev A))"
    unfolding sorted_wrt_map by (rule sorted_wrt_mono_rel [rotated]) simp
  have "mset rows = mset (rev A)" by (simp add: A)
  then show ?thesis using sort_key_inj_key_eq [OF _ inj sorted] by (simp add: new A_def)
qed

text \<open>
  The step that pauses, observations and endings are written to is called the last one, but the
  page is ordered newest first and its end is taken: with up to twenty steps it is the first step of
  the run.
\<close>

theorem RetrieveLastRunStep_oldest:
  assumes "r_thread_id run \<noteq> []" "r_id run \<noteq> []" "ordered_steps (steps_request (r_thread_id run) (r_id run) []) w = s # rest"
    "length rest < 20" "sorted_wrt (\<lambda>x y. s_created_at x < s_created_at y) (s # rest)"
  shows "RetrieveLastRunStep run w = (Inr (Some s), w)"
proof -
  have "newest_steps run w = rev rest @ [s]" using newest_steps_rev [of run w] assms(3,5) by simp
  then show ?thesis
    using assms(4) by (simp add: RetrieveLastRunStep_eval [OF assms(1,2)] handled_step_def)
qed

theorem RetrieveLastRunStep_oldest_witness:
  "RetrieveLastRunStep demo_run (demo_world\<lparr>instinct_thread_run_step := [demo_step, demo_step\<lparr>s_id := ''run_step_2'', s_created_at := 3\<rparr>]\<rparr>) =
     (Inr (Some demo_step), demo_world\<lparr>instinct_thread_run_step := [demo_step, demo_step\<lparr>s_id := ''run_step_2'', s_created_at := 3\<rparr>]\<rparr>)"
proof (rule RetrieveLastRunStep_oldest)
  show "ordered_steps (steps_request (r_thread_id demo_run) (r_id demo_run) [])
      (demo_world\<lparr>instinct_thread_run_step := [demo_step, demo_step\<lparr>s_id := ''run_step_2'', s_created_at := 3\<rparr>]\<rparr>) =
    demo_step # [demo_step\<lparr>s_id := ''run_step_2'', s_created_at := 3\<rparr>]"
    by (simp add: ordered_steps_def steps_request_def empty_list_request_def demo_world_def demo_step_def demo_run_def list_order_def
      order_by_def IsNotBlankString_def IsBlankString_iff)
qed (simp_all add: demo_run_def demo_step_def)

section \<open>How a run ends\<close>

definition early_stop :: "AgentFinish \<Rightarrow> bool" where
  "early_stop fin \<longleftrightarrow> is_failed fin \<or> is_cancelled fin \<or> is_expired fin"

definition stop_status :: "AgentFinish \<Rightarrow> RunObjectStatus" where
  "stop_status fin = (if is_failed fin then run_failed else if is_cancelled fin then run_cancelled else run_expired)"

definition stop_step_status :: "AgentFinish \<Rightarrow> RunStepStatus" where
  "stop_step_status fin = (if is_failed fin then step_failed else if is_cancelled fin then step_cancelled else step_expired)"

definition failure_of :: "AgentFinish \<Rightarrow> RunStepError" where
  "failure_of fin = (case finish_error fin of Some e \<Rightarrow> e | None \<Rightarrow> \<lparr>error_type = invalid_request_error, error_message = []\<rparr>)"

lemma tick:
  "ticks_update Suc w = w\<lparr>ticks := Suc (ticks w)\<rparr>" "ticks_update (Suc \<circ> Suc) w = w\<lparr>ticks := Suc (Suc (ticks w))\<rparr>"
  by (cases w, simp)+

lemma no_tick: "w\<lparr>ticks := ticks w\<rparr> = w"
  by simp

lemma finish_without_step_early:
  assumes "early_stop fin"
  shows "\<exists>req' t. finish_without_step env fin run ctx req w = (Inr (Some req'), w\<lparr>ticks := t\<rparr>) \<and>
    mr_run_id req' = mr_run_id req \<and> mr_thread_id req' = mr_thread_id req \<and> mr_required_action req' = mr_required_action req \<and>
    mr_status req' = stop_status fin"
proof (cases "is_failed fin \<or> is_cancelled fin")
  case True
  then show ?thesis by (auto simp: finish_without_step_def store_simps stop_status_def tick)
next
  case False
  then show ?thesis using assms no_tick [of w, symmetric]
    by (intro exI [of _ "req\<lparr>mr_status := run_expired\<rparr>"] exI [of _ "ticks w"])
      (auto simp: finish_without_step_def stop_status_def early_stop_def)
qed

lemma finish_with_step_early:
  assumes "early_stop fin"
  shows "\<exists>sreq req' t. finish_with_step env fin run ctx req step w = (Inr (Some (sreq, req')), w\<lparr>ticks := t\<rparr>) \<and>
    ms_run_id sreq = r_id run \<and> ms_thread_id sreq = r_thread_id run \<and> ms_step_id sreq = s_id step \<and>
    ms_status sreq = stop_step_status fin \<and> (is_failed fin \<longrightarrow> ms_last_error sreq = Some (failure_of fin)) \<and>
    mr_run_id req' = mr_run_id req \<and> mr_thread_id req' = mr_thread_id req \<and> mr_required_action req' = mr_required_action req \<and>
    mr_status req' = stop_status fin"
proof (cases "is_failed fin")
  case True
  then show ?thesis by (auto simp: finish_with_step_def store_simps stop_status_def stop_step_status_def failure_of_def tick Let_def)
next
  case False
  then show ?thesis using assms
    by (cases "is_cancelled fin")
      (auto simp: finish_with_step_def store_simps stop_status_def stop_step_status_def early_stop_def tick Let_def)
qed

lemma ticks_irrelevant:
  "store_ok (w\<lparr>ticks := t\<rparr>) = store_ok w" "find_run th i (w\<lparr>ticks := t\<rparr>) = find_run th i w"
  by (simp_all add: store_ok_def find_run_def)

lemma patched_step_frame:
  "find_run th i (patched_step sreq w) = find_run th i w" "scheduled (patched_step sreq w) = scheduled w"
  by (simp_all add: patched_step_def find_run_def)

lemma find_patched_step:
  "find (step_is (ms_thread_id req) (ms_run_id req) (ms_step_id req)) (instinct_thread_run_step (patched_step req w)) =
     map_option (step_patch (clock w (ticks w)) req)
       (find (step_is (ms_thread_id req) (ms_run_id req) (ms_step_id req)) (instinct_thread_run_step w))"
  unfolding patched_step_def by (simp, subst find_map_update) (simp_all add: step_is_def)

text \<open>The last call of every ending: the run gets its status.\<close>

lemma final_ModifyRun:
  assumes "store_ok w" "find_run th i w = Some row" "\<not> IsBlankString th" "\<not> IsBlankString i"
    "mr_run_id req = i" "mr_thread_id req = th" "mr_required_action req = None" "mr_status req \<noteq> unknown_run_object_status"
  shows "\<exists>row'. ModifyRun req w = (Inr (Some row'), patched_run req w) \<and> find_run th i (patched_run req w) = Some row' \<and>
    r_status row' = mr_status req \<and> scheduled (patched_run req w) = scheduled w \<and>
    instinct_thread_run_step (patched_run req w) = instinct_thread_run_step w"
proof -
  have "find_run th i (patched_run req w) = Some (run_patch (clock w (ticks w)) req row)"
    using find_patched_run [of req w] assms by simp
  moreover have "ModifyRun req w = (Inr (Some (run_patch (clock w (ticks w)) req row)), patched_run req w)"
    using ModifyRun_eval [OF assms(1,7)] assms by simp
  ultimately show ?thesis using assms(8) by (simp add: run_patch_def patched_run_def)
qed

lemma handled_step_found:
  assumes "handled_step run w = Some s"
  shows "\<exists>s'. find (step_is (r_thread_id run) (r_id run) (s_id s)) (instinct_thread_run_step w) = Some s'"
  using handled_step_in [OF assms] by (auto simp: find_None_iff step_is_def not_None_eq [symmetric] simp del: not_None_eq)


definition demo_failure :: AgentFinish where
  "demo_failure = empty_finish\<lparr>is_failed := True, finish_error := Some (error_of (ClientException ''no such tool''))\<rparr>"

lemma demo_handled: "handled_step demo_run demo_world = Some demo_step"
  by (simp add: handled_step_def newest_steps_def ordered_steps_def empty_list_request_def demo_world_def demo_run_def demo_step_def
      list_order_def order_by_def IsNotBlankString_def IsBlankString_iff)

lemma demo_found: "find_run ''thread_1'' ''run_1'' demo_world = Some demo_run"
  by (simp add: find_run_def run_is_def demo_world_def demo_run_def)

lemma demo_run_ids: "r_thread_id demo_run = ''thread_1''" "r_id demo_run = ''run_1''" "s_id demo_step = ''run_step_1''"
  by (simp_all add: demo_run_def demo_step_def)


section \<open>Cancelling a run that is being worked on\<close>

lemma OnAgentObservation_ok:
  assumes "store_ok w" "find_run (r_thread_id run) (r_id run) w = Some row" "\<not> IsBlankString (r_thread_id run)" "\<not> IsBlankString (r_id run)"
    "handled_step run w = Some s" "\<not> IsBlankString (s_id s)"
  shows "\<exists>w' row'. OnAgentObservation obs run w = (Inr (), w') \<and>
    find_run (r_thread_id run) (r_id run) w' = Some row' \<and> r_status row' = run_in_progress"
proof -
  let ?th = "r_thread_id run" and ?i = "r_id run"
  let ?req = "empty_modify_run\<lparr>mr_run_id := ?i, mr_thread_id := ?th, mr_status := run_in_progress\<rparr>"
  have last: "RetrieveLastRunStep run w = (Inr (Some s), w)"
    using RetrieveLastRunStep_eval [of run w] assms(3,4,5) by (simp add: not_blank_nonempty)
  obtain row' where row': "ModifyRun ?req w = (Inr (Some row'), patched_run ?req w)" "find_run ?th ?i (patched_run ?req w) = Some row'"
    "r_status row' = run_in_progress"
    using final_ModifyRun [OF assms(1-4), of ?req] by (auto simp: empty_modify_run_def)
  let ?w1 = "patched_run ?req w"
  define sreq where "sreq = empty_modify_step\<lparr>ms_run_id := ?i, ms_step_id := s_id s, ms_thread_id := ?th, ms_status := step_completed,
     ms_step_details := Some ((step_details s)\<lparr>details_custom := observation_custom obs,
       details_tool_calls := finish_calls (\<lambda>_. True) (tool_messages obs) (details_tool_calls (step_details s))\<rparr>)\<rparr>"
  have "ms_thread_id sreq = ?th" "ms_run_id sreq = ?i" "ms_step_id sreq = s_id s" by (simp_all add: sreq_def)
  then obtain r where step: "ModifyRunStep sreq ?w1 = (Inr r, patched_step sreq ?w1)"
    using ModifyRunStep_eval [of sreq ?w1] assms(3,4,6) by auto
  have "OnAgentObservation obs run w = (Inr (), patched_step sreq ?w1)"
    unfolding OnAgentObservation_def UpdateRunObjectStatus_def
    by (simp add: bindE_ret [where m = "RetrieveLastRunStep _", OF last] bindE_ret [where m = "ModifyRun _", OF row'(1)]
        sreq_def [symmetric] bindE_ret [where m = "ModifyRunStep _", OF step])
  then show ?thesis using row' by (auto simp: patched_step_frame)
qed

text \<open>
  C15: A cancellation that arrives while the agent works is lost. The executor stops, but the step
  that says so is not put into the state it gives to the handler, which therefore sees the last
  observation once more: the stream completes and the run is \<open>in_progress\<close> again, with nobody
  left to work on it.
\<close>

theorem cancellation_is_lost:
  assumes "store_ok w" "find_run (r_thread_id run) (r_id run) w = Some row" "\<not> IsBlankString (r_thread_id run)" "\<not> IsBlankString (r_id run)"
    "r_status row = run_cancelling" "handled_step run w = Some s" "\<not> IsBlankString (s_id s)"
    "previous_steps state \<noteq> []" "last (previous_steps state) = Observation obs" "tool_messages obs \<noteq> []"
  shows "\<exists>w' row'. Stream (resolve_and_emit
        (OpenAI_ResolveNextStep (CheckRunObjectForExecution (r_thread_id run) (r_id run)) planner worker)
        (on_next env False run)) fuel state (w, l) = Some ([state], Inr (), (w', l)) \<and>
    find_run (r_thread_id run) (r_id run) w' = Some row' \<and> r_status row' = run_in_progress"
proof -
  let ?exec = "OpenAI_ResolveNextStep (CheckRunObjectForExecution (r_thread_id run) (r_id run)) planner worker"
  let ?step = "Thought (Finish (empty_finish\<lparr>is_cancelled := True\<rparr>))"
  have "CheckRunObjectForExecution (r_thread_id run) (r_id run) state w = (Inr (True, ?step), w)"
    using assms(2-5) by (simp add: CheckRunObjectForExecution_def store_simps)
  then have exec: "?exec state w = (Inr (?step, state), w)"
    by (simp add: OpenAI_ResolveNextStep_def Let_def bindE_def)
  obtain w' row' where obs: "OnAgentObservation obs run w = (Inr (), w')"
    "find_run (r_thread_id run) (r_id run) w' = Some row'" "r_status row' = run_in_progress"
    using OnAgentObservation_ok [OF assms(1-4,6,7)] by blast
  have "on_next env False run state (w, l) = (Inr (), (w', l))"
    using assms(8-10) obs(1) by (simp add: on_next_def on_world_def)
  then have "resolve_and_emit ?exec (on_next env False run) state (w, l) = (Inr (?step, state), (w', l))"
    using exec by (simp add: resolve_and_emit_def on_world_def bindE_def)
  then show ?thesis using obs(2,3) by (simp add: Stream_def Stream_loop.simps goes_on_def)
qed

theorem cancellation_is_lost_witness:
  "\<exists>w' row'. Stream (resolve_and_emit
        (OpenAI_ResolveNextStep (CheckRunObjectForExecution ''thread_1'' ''run_1'') (\<lambda>_. throw OutOfRange) (\<lambda>_. throw OutOfRange))
        (on_next demo_env False demo_run)) 0
      \<lparr>previous_steps = [Observation \<lparr>tool_messages = [empty_message], observation_custom = None\<rparr>], state_input = NoPrompt, function_tools = []\<rparr>
      (instinct_thread_run_update (\<lambda>_. [demo_run\<lparr>r_status := run_cancelling\<rparr>]) demo_world, \<lparr>last_file_search_call_ids = [], retrieved_entries = []\<rparr>) =
    Some ([\<lparr>previous_steps = [Observation \<lparr>tool_messages = [empty_message], observation_custom = None\<rparr>], state_input = NoPrompt, function_tools = []\<rparr>],
      Inr (), (w', \<lparr>last_file_search_call_ids = [], retrieved_entries = []\<rparr>)) \<and>
    find_run ''thread_1'' ''run_1'' w' = Some row' \<and> r_status row' = run_in_progress"
proof -
  let ?w = "instinct_thread_run_update (\<lambda>_. [demo_run\<lparr>r_status := run_cancelling\<rparr>]) demo_world"
  have ok: "store_ok ?w" by (simp add: store_ok_def demo_world_def)
  have run: "find_run (r_thread_id demo_run) (r_id demo_run) ?w = Some (demo_run\<lparr>r_status := run_cancelling\<rparr>)"
    by (simp add: find_run_def run_is_def demo_run_def)
  have step: "handled_step demo_run ?w = Some demo_step"
    by (simp add: handled_step_def newest_steps_def ordered_steps_def empty_list_request_def demo_world_def demo_run_def demo_step_def
      list_order_def order_by_def IsNotBlankString_def IsBlankString_iff)
  show ?thesis
    using cancellation_is_lost [OF ok run _ _ _ step, of
        "\<lparr>previous_steps = [Observation \<lparr>tool_messages = [empty_message], observation_custom = None\<rparr>], state_input = NoPrompt, function_tools = []\<rparr>"
        "\<lparr>tool_messages = [empty_message], observation_custom = None\<rparr>"
        "\<lambda>_. throw OutOfRange" "\<lambda>_. throw OutOfRange" demo_env 0 "\<lparr>last_file_search_call_ids = [], retrieved_entries = []\<rparr>"]
    by (simp add: demo_run_ids demo_ids_not_blank)
qed

end
