(* ===== verification/Tokenizer.thy ===== *)
theory Tokenizer
  imports Text_Splitter Str_Utils Snowflake "HOL-Library.AList"
begin

text \<open>
  \<^verbatim>\<open>instinct-llm/include/tokenizer/\<close>: the byte pair encoding of \<^verbatim>\<open>Tokenizer.hpp\<close>,
  \<^verbatim>\<open>RegexTokenizer.hpp\<close> and \<^verbatim>\<open>TiktokenTokenizer.hpp\<close>, and the two readers of rank
  files.

  Maps with insertion order (\<open>tsl::ordered_map\<close>) are association lists; for
  \<open>std::unordered_map\<close> the list is the order in which the map happens to be traversed.
  \<open>m[k] = v\<close> is \<open>AList.update\<close>, \<open>emplace\<close> and \<open>insert\<close> leave a present key alone,
  \<open>at\<close> throws \<open>OutOfRange\<close>. A \<open>std::string\<close> of bytes is a \<open>string\<close>. Token ids
  and ranks are 32-bit numbers that only are compared; counts of pairs stay below the length of the
  text.

  ICU is outside: \<open>Icu\<close> holds the positions of successive \<open>find()\<close> calls
  (\<open>None\<close>: the pattern does not compile), \<open>RegexMatcher::split\<close> and the UTF-8 conversions.
\<close>

type_synonym Bytes = string
type_synonym BPEPair = "int \<times> int"
type_synonym BPERanks = "(BPEPair \<times> int) list"
type_synonym Vocab = "(int \<times> Bytes) list"
type_synonym BPETokenRanks = "(Bytes \<times> int) list"

record Icu =
  regex_find :: "ustring \<Rightarrow> ustring \<Rightarrow> (nat \<times> nat) list option"
  regex_split :: "ustring \<Rightarrow> ustring \<Rightarrow> nat \<Rightarrow> ustring list"
  from_utf8 :: "string \<Rightarrow> ustring"
  to_utf8 :: "ustring \<Rightarrow> string"

section \<open>Maps\<close>

definition emplace :: "'k \<Rightarrow> 'v \<Rightarrow> ('k \<times> 'v) list \<Rightarrow> ('k \<times> 'v) list" where
  "emplace k v m = (if map_of m k = None then m @ [(k, v)] else m)"

definition lookup_at :: "('k \<times> 'v) list \<Rightarrow> 'k \<Rightarrow> 'v result" where
  "lookup_at m k = (case map_of m k of None \<Rightarrow> Inl OutOfRange | Some v \<Rightarrow> Inr v)"

text \<open>The first entry with the least value below \<open>bound\<close>, as the loops with \<open>if (x < min)\<close> find it.\<close>

fun first_min :: "('a \<Rightarrow> int option) \<Rightarrow> int \<Rightarrow> 'a option \<Rightarrow> 'a list \<Rightarrow> 'a option" where
  "first_min f bound best [] = best"
| "first_min f bound best (x # xs) =
     (case f x of
        None \<Rightarrow> first_min f bound best xs
      | Some v \<Rightarrow> if v < bound then first_min f v (Some x) xs else first_min f bound best xs)"

section \<open>Helpers of the tokenizers\<close>

fun merge_u32_ids :: "BPEPair \<Rightarrow> int \<Rightarrow> int list \<Rightarrow> int list" where
  "merge_u32_ids p idx (a # b # ids) =
     (if (a, b) = p then idx # merge_u32_ids p idx ids else a # merge_u32_ids p idx (b # ids))"
| "merge_u32_ids p idx ids = ids"

definition get_min_pair :: "BPERanks \<Rightarrow> BPEPair result" where
  "get_min_pair stats =
     (case first_min (\<lambda>e. Some (snd e)) INT32_MAX None stats of None \<Rightarrow> Inl UndefinedBehaviour | Some e \<Rightarrow> Inr (fst e))"

definition get_max_pair :: "BPERanks \<Rightarrow> BPEPair result" where
  "get_max_pair stats =
     (case first_min (\<lambda>e. Some (- snd e)) (- INT32_MIN) None stats of None \<Rightarrow> Inl UndefinedBehaviour | Some e \<Rightarrow> Inr (fst e))"

definition count_pair :: "BPEPair \<Rightarrow> BPERanks \<Rightarrow> BPERanks" where
  "count_pair p stats =
     (case map_of stats p of None \<Rightarrow> emplace p 1 stats | Some n \<Rightarrow> AList.update p (n + 1) stats)"

fun adjacent :: "'a list \<Rightarrow> ('a \<times> 'a) list" where
  "adjacent (a # b # xs) = (a, b) # adjacent (b # xs)"
| "adjacent xs = []"

text \<open>\<open>ids.size()-1\<close> wraps for an empty vector, and the loop reads past its end.\<close>

definition compute_pairs_state :: "int list \<Rightarrow> BPERanks \<Rightarrow> BPERanks result" where
  "compute_pairs_state ids stats = (if ids = [] then Inl UndefinedBehaviour else Inr (fold count_pair (adjacent ids) stats))"

definition find_all_with_regex :: "Icu \<Rightarrow> ustring \<Rightarrow> ustring \<Rightarrow> ustring list result" where
  "find_all_with_regex icu text pattern =
     (case regex_find icu pattern text of
        None \<Rightarrow> Inl (InstinctException (''Failed to compile regex with seperator string: '' @ to_utf8 icu pattern))
      | Some ms \<Rightarrow> Inr (map (\<lambda>(start, e). take (min e (length text) - start) (drop start text)) ms))"

definition join_with_seperator :: "ustring \<Rightarrow> ustring list \<Rightarrow> ustring" where
  "join_with_seperator sep parts = JoinDocs_loop sep parts"

text \<open>\<open>_bpe\<close>: candidates are positions \<open>i\<close> whose two parts together are a ranked token.\<close>

definition part_rank :: "BPETokenRanks \<Rightarrow> Bytes list \<Rightarrow> nat \<Rightarrow> int option" where
  "part_rank ranks parts i = map_of ranks (parts ! i @ parts ! Suc i)"

definition merge_parts :: "nat \<Rightarrow> Bytes list \<Rightarrow> Bytes list" where
  "merge_parts i parts = take i parts @ [parts ! i @ parts ! Suc i] @ drop (i + 2) parts"

lemma first_min_in: "first_min f bound best xs = Some x \<Longrightarrow> x \<in> set xs \<or> best = Some x"
  by (induction xs arbitrary: bound best) (auto split: option.splits if_splits)

function bpe_loop :: "BPETokenRanks \<Rightarrow> int \<Rightarrow> Bytes list \<Rightarrow> Bytes list" where
  "bpe_loop ranks max_rank parts =
     (case first_min (part_rank ranks parts) INT32_MAX None [0..<length parts - 1] of
        None \<Rightarrow> parts
      | Some i \<Rightarrow>
          if the (part_rank ranks parts i) \<ge> max_rank then parts
          else bpe_loop ranks max_rank (merge_parts i parts))"
  by pat_completeness auto
termination
  by (relation "measure (\<lambda>(ranks, max_rank, parts). length parts)")
    (auto simp: merge_parts_def dest!: first_min_in)

definition bpe :: "BPETokenRanks \<Rightarrow> Bytes \<Rightarrow> int \<Rightarrow> Bytes list result" where
  "bpe ranks token max_rank =
     (if token = [] then Inl UndefinedBehaviour else Inr (bpe_loop ranks max_rank (map (\<lambda>c. [c]) token)))"

fun recover_loop :: "BPETokenRanks \<Rightarrow> BPETokenRanks \<Rightarrow> BPERanks \<Rightarrow> BPERanks result" where
  "recover_loop ranks [] bpe_ranks = Inr bpe_ranks"
| "recover_loop ranks ((token, rank) # entries) bpe_ranks =
     (if length token = 1 then recover_loop ranks entries bpe_ranks
      else
        bindR (bpe ranks token rank) (\<lambda>pair.
        if length pair \<noteq> 2 then Inl (InstinctException (''failed to recover bit-level token for token string: '' @ token))
        else
          bindR (lookup_at ranks (pair ! 0)) (\<lambda>id0.
          bindR (lookup_at ranks (pair ! 1)) (\<lambda>id1.
          recover_loop ranks entries (emplace (id0, id1) rank bpe_ranks)))))"

definition recover_byte_pair_bpe_ranks :: "BPETokenRanks \<Rightarrow> BPERanks result" where
  "recover_byte_pair_bpe_ranks ranks = recover_loop ranks ranks []"


section \<open>RegexTokenizer\<close>

datatype AllowSpecialType = kUnspecified | kAll | kNone | kSome | kNoneRaise

record TokenizerEncodeOptions =
  allow_special :: AllowSpecialType
  specials :: "ustring list"

definition default_encode_options :: TokenizerEncodeOptions where
  "default_encode_options = \<lparr>allow_special = kNoneRaise, specials = []\<rparr>"

record RegexTokenizer =
  merges :: BPERanks
  vocab :: Vocab
  regexp_pattern :: ustring
  special_tokens :: "(ustring \<times> int) list"
  reversed_special_tokens :: "(int \<times> ustring) list"

text \<open>\<open>static_cast<u_int8_t>(c)\<close> of every byte\<close>

definition byte_ids :: "Bytes \<Rightarrow> int list" where
  "byte_ids bytes = map of_char bytes"

definition RegisterSpecials :: "(ustring \<times> int) list \<Rightarrow> 't RegexTokenizer_scheme \<Rightarrow> 't RegexTokenizer_scheme" where
  "RegisterSpecials tokens t =
     fold (\<lambda>(token, i) t. t\<lparr>special_tokens := AList.update token i (special_tokens t),
       reversed_special_tokens := AList.update i token (reversed_special_tokens t)\<rparr>) tokens t"

definition new_RegexTokenizer :: "BPERanks \<Rightarrow> Vocab \<Rightarrow> ustring \<Rightarrow> (ustring \<times> int) list \<Rightarrow> RegexTokenizer" where
  "new_RegexTokenizer bpe_ranks vocabulary pattern tokens =
     RegisterSpecials tokens \<lparr>merges = bpe_ranks, vocab = vocabulary, regexp_pattern = pattern,
       special_tokens = [], reversed_special_tokens = []\<rparr>"

lemma merge_u32_ids_length: "length (merge_u32_ids p idx ids) \<le> length ids"
  by (induction p idx ids rule: merge_u32_ids.induct) auto

lemma merge_u32_ids_shorter: "p \<in> set (adjacent ids) \<Longrightarrow> length (merge_u32_ids p idx ids) < length ids"
  by (induction p idx ids rule: merge_u32_ids.induct) (auto simp: less_Suc_eq_le merge_u32_ids_length)

lemma keys_count_pair: "fst ` set (count_pair p stats) = insert p (fst ` set stats)"
  by (simp add: count_pair_def emplace_def dom_update split: option.split)

lemma keys_pairs_state: "fst ` set (fold count_pair ps stats) = set ps \<union> fst ` set stats"
  by (induction ps arbitrary: stats) (auto simp: keys_count_pair)

text \<open>The entry of the stats whose pair has the least index among the merges.\<close>

definition min_entry :: "BPERanks \<Rightarrow> BPERanks \<Rightarrow> (BPEPair \<times> int) option" where
  "min_entry ranks stats = first_min (\<lambda>e. map_of ranks (fst e)) INT32_MAX None stats"

function EncodeChunk_loop :: "BPERanks \<Rightarrow> int list \<Rightarrow> int list" where
  "EncodeChunk_loop ranks ids =
     (if length ids \<ge> 2
      then (case min_entry ranks (fold count_pair (adjacent ids) []) of
              None \<Rightarrow> ids
            | Some e \<Rightarrow> EncodeChunk_loop ranks (merge_u32_ids (fst e) (the (map_of ranks (fst e))) ids))
      else ids)"
  by pat_completeness auto
termination
proof (relation "measure (\<lambda>(ranks, ids). length ids)", simp, clarsimp)
  fix ranks and ids :: "int list" and a b n
  assume "min_entry ranks (fold count_pair (adjacent ids) []) = Some ((a, b), n)"
  then have "(a, b) \<in> fst ` set (fold count_pair (adjacent ids) [])"
    unfolding min_entry_def by (force dest: first_min_in)
  then show "length (merge_u32_ids (a, b) (the (map_of ranks (a, b))) ids) < length ids"
    by (intro merge_u32_ids_shorter) (simp add: keys_pairs_state)
qed

declare EncodeChunk_loop.simps [simp del]
declare bpe_loop.simps [simp del]

text \<open>\<open>HandleChunkBytes_\<close> is virtual: \<open>handle\<close> is what the class of the tokenizer makes of the bytes.\<close>

definition EncodeChunk :: "(Bytes \<Rightarrow> Bytes result) \<Rightarrow> BPERanks \<Rightarrow> Bytes \<Rightarrow> int list result" where
  "EncodeChunk handle ranks bytes = bindR (handle bytes) (\<lambda>bytes. Inr (EncodeChunk_loop ranks (byte_ids bytes)))"

definition EncodeOrdinary :: "Icu \<Rightarrow> (Bytes \<Rightarrow> Bytes result) \<Rightarrow> 't RegexTokenizer_scheme \<Rightarrow> ustring \<Rightarrow> int list result" where
  "EncodeOrdinary icu handle t text =
     bindR (find_all_with_regex icu text (regexp_pattern t)) (\<lambda>chunks.
     bindR (mapR (\<lambda>chunk. EncodeChunk handle (merges t) (to_utf8 icu chunk)) chunks) (\<lambda>parts.
     Inr (concat parts)))"

definition specials_pattern :: "(ustring \<times> int) list \<Rightarrow> ustring" where
  "specials_pattern dict =
     u ''('' @ join_with_seperator (u ''|'') (map (\<lambda>e. escape_for_regular_expression (fst e)) dict) @ u '')''"

text \<open>
  The switch on \<open>allow_special\<close>. The case \<open>kSome\<close> reads \<open>special_tokens_[token]\<close>, which enters
  an unknown token with id 0, and then falls through to the next case, which throws.
\<close>

definition touch_special :: "ustring \<Rightarrow> 't RegexTokenizer_scheme \<Rightarrow> 't RegexTokenizer_scheme" where
  "touch_special token t = t\<lparr>special_tokens := emplace token 0 (special_tokens t)\<rparr>"

definition allowed_specials :: "ustring \<Rightarrow> TokenizerEncodeOptions \<Rightarrow> ('t RegexTokenizer_scheme, (ustring \<times> int) list) eff" where
  "allowed_specials text options =
     (case allow_special options of
        kAll \<Rightarrow> getE special_tokens
      | kNone \<Rightarrow> ret []
      | kNoneRaise \<Rightarrow>
          bindE (getE special_tokens) (\<lambda>tokens.
          if list_ex (\<lambda>e. fst e \<noteq> [] \<and> contains_sub (fst e) text) tokens
          then throw (InstinctException ''special token not allowed in text'') else ret [])
      | kSome \<Rightarrow> bindE (modifyE (fold touch_special (specials options))) (\<lambda>_. throw (InstinctException ''allowd_special unspecified''))
      | kUnspecified \<Rightarrow> throw (InstinctException ''allowd_special unspecified''))"

definition encode_piece :: "Icu \<Rightarrow> (Bytes \<Rightarrow> Bytes result) \<Rightarrow> 't RegexTokenizer_scheme \<Rightarrow> (ustring \<times> int) list \<Rightarrow> ustring \<Rightarrow> int list result" where
  "encode_piece icu handle t dict chunk =
     (case map_of dict chunk of Some i \<Rightarrow> Inr [i] | None \<Rightarrow> EncodeOrdinary icu handle t chunk)"

definition Encode :: "Icu \<Rightarrow> ('t RegexTokenizer_scheme \<Rightarrow> Bytes \<Rightarrow> Bytes result) \<Rightarrow> ustring \<Rightarrow> TokenizerEncodeOptions \<Rightarrow>
    ('t RegexTokenizer_scheme, int list) eff" where
  "Encode icu handle text options =
     bindE (allowed_specials text options) (\<lambda>dict t.
       if dict = [] then (EncodeOrdinary icu (handle t) t text, t)
       else
         (case SplitWithRegex (regex_split icu) text (specials_pattern dict) of
            None \<Rightarrow> (Inl OutOfFuel, t)
          | Some chunks \<Rightarrow> (bindR (mapR (encode_piece icu (handle t) t dict) chunks) (\<lambda>parts. Inr (concat parts)), t)))"

definition decode_id :: "Icu \<Rightarrow> 't RegexTokenizer_scheme \<Rightarrow> int \<Rightarrow> Bytes result" where
  "decode_id icu t i =
     (case map_of (vocab t) i of
        Some bytes \<Rightarrow> Inr bytes
      | None \<Rightarrow>
          (case map_of (reversed_special_tokens t) i of
             Some token \<Rightarrow> Inr (to_utf8 icu token)
           | None \<Rightarrow> Inl (InstinctException (''Invalid token value found: '' @ show_int i))))"

definition Decode :: "Icu \<Rightarrow> 't RegexTokenizer_scheme \<Rightarrow> int list \<Rightarrow> ustring result" where
  "Decode icu t ids = bindR (mapR (decode_id icu t) ids) (\<lambda>parts. Inr (from_utf8 icu (concat parts)))"


section \<open>Training\<close>

text \<open>\<open>vocab[idx] = vocab[p.first] + vocab[p.second]\<close>; a missing entry is entered empty.\<close>

definition extend_vocab :: "BPEPair \<Rightarrow> int \<Rightarrow> Vocab \<Rightarrow> Vocab" where
  "extend_vocab p idx v =
     (let v' = emplace (snd p) [] (emplace (fst p) [] v)
      in AList.update idx (the (map_of v' (fst p)) @ the (map_of v' (snd p))) v')"

definition byte_vocab :: Vocab where
  "byte_vocab = map (\<lambda>i. (int i, [char_of i])) [0..<256]"

fun pairs_of_chunks :: "int list list \<Rightarrow> BPERanks \<Rightarrow> BPERanks result" where
  "pairs_of_chunks [] stats = Inr stats"
| "pairs_of_chunks (ids # rest) stats = bindR (compute_pairs_state ids stats) (pairs_of_chunks rest)"

fun Train_loop :: "nat \<Rightarrow> int \<Rightarrow> int list list \<Rightarrow> BPERanks \<Rightarrow> Vocab \<Rightarrow> (BPERanks \<times> Vocab) result" where
  "Train_loop 0 idx ids ranks v = Inr (ranks, v)"
| "Train_loop (Suc n) idx ids ranks v =
     bindR (pairs_of_chunks ids []) (\<lambda>stats.
     bindR (get_max_pair stats) (\<lambda>pair.
     Train_loop n (idx + 1) (map (merge_u32_ids pair idx) ids) (AList.update pair idx ranks) (extend_vocab pair idx v)))"

definition Train :: "Icu \<Rightarrow> ustring \<Rightarrow> int \<Rightarrow> ('t RegexTokenizer_scheme, unit) eff" where
  "Train icu text vocab_size =
     (if vocab_size < 256 then throw (InstinctException ''vocab_size should be greter than 256'')
      else
        bindE (getE regexp_pattern) (\<lambda>pattern.
        bindE (liftR (find_all_with_regex icu text pattern)) (\<lambda>splits.
        bindE (liftR (Train_loop (nat (vocab_size - 256)) 256 (map (\<lambda>chunk. byte_ids (to_utf8 icu chunk)) splits) [] byte_vocab)) (\<lambda>(m, v).
        modifyE (\<lambda>t. t\<lparr>merges := m, vocab := v\<rparr>)))))"

section \<open>TiktokenTokenizer\<close>

record TiktokenTokenizer = RegexTokenizer +
  byte_shuffle :: "(nat \<times> nat) list"
  reversed_byte_shuffle :: "(nat \<times> nat) list"

record TiktokenConfig =
  pat_str :: ustring
  mergeable_ranks :: BPETokenRanks
  config_special_tokens :: "(ustring \<times> int) list"

definition shuffle_bytes :: "(nat \<times> nat) list \<Rightarrow> Bytes \<Rightarrow> Bytes result" where
  "shuffle_bytes sh bytes = mapR (\<lambda>c. bindR (lookup_at sh (of_char c)) (\<lambda>b. Inr (char_of b))) bytes"

definition Tiktoken_HandleChunkBytes :: "'t TiktokenTokenizer_scheme \<Rightarrow> Bytes \<Rightarrow> Bytes result" where
  "Tiktoken_HandleChunkBytes t bytes = shuffle_bytes (byte_shuffle t) bytes"

definition Tiktoken_Train :: "Icu \<Rightarrow> ustring \<Rightarrow> int \<Rightarrow> ('t TiktokenTokenizer_scheme, unit) eff" where
  "Tiktoken_Train icu text vocab_size = throw (InstinctException ''Not implemented'')"

definition new_TiktokenTokenizer :: "BPERanks \<Rightarrow> Vocab \<Rightarrow> ustring \<Rightarrow> (ustring \<times> int) list \<Rightarrow> (nat \<times> nat) list \<Rightarrow> TiktokenTokenizer" where
  "new_TiktokenTokenizer bpe_ranks vocabulary pattern tokens sh =
     RegisterSpecials tokens \<lparr>merges = bpe_ranks, vocab = vocabulary, regexp_pattern = pattern, special_tokens = [],
       reversed_special_tokens = [], byte_shuffle = sh, reversed_byte_shuffle = fold (\<lambda>(i, token). AList.update token i) sh []\<rparr>"

definition shuffle_entry :: "BPETokenRanks \<Rightarrow> nat \<Rightarrow> (nat \<times> nat) result" where
  "shuffle_entry ranks i = bindR (lookup_at ranks [char_of i]) (\<lambda>r. Inr (i, nat (r mod 256)))"

definition FromTiktokenConfig :: "TiktokenConfig \<Rightarrow> TiktokenTokenizer result" where
  "FromTiktokenConfig config =
     bindR (recover_byte_pair_bpe_ranks (mergeable_ranks config)) (\<lambda>bpe_ranks.
     let vocabulary = fold (\<lambda>(pair, i). extend_vocab pair i) bpe_ranks byte_vocab in
     bindR (mapR (shuffle_entry (mergeable_ranks config)) [0..<256]) (\<lambda>sh.
     Inr (new_TiktokenTokenizer bpe_ranks vocabulary (pat_str config) (config_special_tokens config) sh)))"

definition Tiktoken_Decode :: "Icu \<Rightarrow> 't TiktokenTokenizer_scheme \<Rightarrow> int list \<Rightarrow> ustring result" where
  "Tiktoken_Decode icu t ids =
     bindR (mapR (lookup_at (vocab t)) ids) (\<lambda>parts.
     bindR (shuffle_bytes (reversed_byte_shuffle t) (concat parts)) (\<lambda>bytes.
     Inr (from_utf8 icu bytes)))"


section \<open>Rank files\<close>

text \<open>
  \<^verbatim>\<open>GPT2BPEFileReader.hpp\<close>. The files are given by their contents: the lines of the merge file
  (\<open>None\<close>: it cannot be opened) and the entries of the parsed JSON object.
\<close>

definition printable_bytes :: "nat list" where
  "printable_bytes = [33..<127] @ [161..<173] @ [174..<256]"

definition other_bytes :: "nat list" where
  "other_bytes = filter (\<lambda>i. i \<notin> set printable_bytes) [0..<256]"

definition rank_to_byte :: "nat list" where
  "rank_to_byte = printable_bytes @ other_bytes"

definition data_gym_byte_to_byte :: "(nat \<times> nat) list" where
  "data_gym_byte_to_byte = map (\<lambda>i. (i, i)) printable_bytes @ zip [256..<256 + length other_bytes] other_bytes"

definition decode_data_gym :: "ustring \<Rightarrow> Bytes result" where
  "decode_data_gym str =
     mapR (\<lambda>c. case map_of data_gym_byte_to_byte c of
       Some b \<Rightarrow> Inr (char_of b) | None \<Rightarrow> Inl (InstinctException (''char not found '' @ show_int (int c)))) str"

text \<open>All lines but the first that have exactly two fields.\<close>

fun parse_merges :: "Icu \<Rightarrow> ustring list \<Rightarrow> (ustring \<times> ustring) list result" where
  "parse_merges icu [] = Inr []"
| "parse_merges icu (l # ls) =
     (case SplitWithRegex (regex_split icu) l [92, 115] of
        None \<Rightarrow> Inl OutOfFuel
      | Some splits \<Rightarrow>
          bindR (parse_merges icu ls) (\<lambda>ms.
          Inr (case splits of [a, b] \<Rightarrow> (a, b) # ms | _ \<Rightarrow> ms)))"

fun rank_merges :: "(ustring \<times> ustring) list \<Rightarrow> int \<Rightarrow> BPETokenRanks \<Rightarrow> BPETokenRanks result" where
  "rank_merges [] n ranks = Inr ranks"
| "rank_merges ((a, b) # ms) n ranks =
     bindR (decode_data_gym a) (\<lambda>x.
     bindR (decode_data_gym b) (\<lambda>y.
     rank_merges ms (n + 1) (AList.update (x @ y) n ranks)))"

definition single_byte_ranks :: BPETokenRanks where
  "single_byte_ranks = map (\<lambda>i. ([char_of (rank_to_byte ! i)], int i)) [0..<length rank_to_byte]"

fun load_encoder :: "(ustring \<times> int) list \<Rightarrow> BPETokenRanks \<Rightarrow> BPETokenRanks result" where
  "load_encoder [] acc = Inr acc"
| "load_encoder ((k, v) # es) acc =
     bindR (decode_data_gym k) (\<lambda>key.
     if map_of acc key \<noteq> None then Inl (InstinctException (''internal data error due to duplicated token: '' @ key))
     else load_encoder es (emplace key v acc))"

definition missing_key :: "BPETokenRanks \<Rightarrow> BPETokenRanks \<Rightarrow> Bytes option" where
  "missing_key xs ys = find (\<lambda>k. map_of ys k = None) (map fst xs)"

definition GPT2_DoFetch :: "Icu \<Rightarrow> ustring list option \<Rightarrow> (ustring \<times> int) list result \<Rightarrow> string \<Rightarrow> BPETokenRanks result" where
  "GPT2_DoFetch icu lines_opt encoder vocab_bpe_file_path =
     (case lines_opt of
        None \<Rightarrow> Inl (InstinctException (''failed to open vocab file: '' @ vocab_bpe_file_path))
      | Some ls \<Rightarrow>
          bindR (parse_merges icu (drop 1 ls)) (\<lambda>bpe_merges.
          bindR (rank_merges bpe_merges (int (length single_byte_ranks)) single_byte_ranks) (\<lambda>ranks.
          bindR encoder (\<lambda>entries.
          bindR (load_encoder entries []) (\<lambda>loaded.
          let loaded = AList.delete ''<|startoftext|>'' (AList.delete ''<|endoftext|>'' loaded) in
          case missing_key loaded ranks of
            Some k \<Rightarrow> Inl (InstinctException (
              ''invalid vocab bpe or encoder json file, as key found in encoder json but not in vocab bpe: '' @ k))
          | None \<Rightarrow>
              (case missing_key ranks loaded of
                 Some k \<Rightarrow> Inl (InstinctException (
                   ''invalid vocab bpe or encoder json file, as key found in vocab bpe but not in encoder json: '' @ k))
               | None \<Rightarrow> Inr ranks))))))"

text \<open>
  \<^verbatim>\<open>TiktokenBPEFileReader.hpp\<close>; \<open>ReSplit\<close> is \<open>StringUtils::ReSplit\<close> with its default pattern
  (white space). Base64 is outside, \<open>None\<close> is a decoding error.
\<close>

definition DecodeBase64 :: "(string \<Rightarrow> string option) \<Rightarrow> string \<Rightarrow> string result" where
  "DecodeBase64 base64_decode encoded =
     (case base64_decode encoded of None \<Rightarrow> Inl (InstinctException ''base64 decode error'')
      | Some s \<Rightarrow> if length s > 2000 then Inl UndefinedBehaviour else Inr s)"

fun Tiktoken_lines :: "(string \<Rightarrow> string option) \<Rightarrow> string list \<Rightarrow> BPETokenRanks \<Rightarrow> BPETokenRanks result" where
  "Tiktoken_lines base64_decode [] ranks = Inr ranks"
| "Tiktoken_lines base64_decode (line # ls) ranks =
     (case ReSplit isspace line of
        [a, b] \<Rightarrow>
          bindR (DecodeBase64 base64_decode a) (\<lambda>key.
          bindR (stoi b) (\<lambda>rank.
          Tiktoken_lines base64_decode ls (AList.update key rank ranks)))
      | _ \<Rightarrow> Tiktoken_lines base64_decode ls ranks)"

definition Tiktoken_DoFetch :: "(string \<Rightarrow> string option) \<Rightarrow> string list option \<Rightarrow> string \<Rightarrow> BPETokenRanks result" where
  "Tiktoken_DoFetch base64_decode lines_opt path =
     (case lines_opt of
        None \<Rightarrow> Inl (InstinctException (''failed to open bpe file at '' @ path))
      | Some ls \<Rightarrow> Tiktoken_lines base64_decode ls [])"

text \<open>The two factories; the resources are fetched by the caller.\<close>

definition MakeGPT2Tokenizer :: "Icu \<Rightarrow> ustring list option \<Rightarrow> (ustring \<times> int) list result \<Rightarrow> string \<Rightarrow> TiktokenTokenizer result" where
  "MakeGPT2Tokenizer icu lines_opt encoder path =
     bindR (GPT2_DoFetch icu lines_opt encoder path) (\<lambda>ranks.
     FromTiktokenConfig \<lparr>
       pat_str = from_utf8 icu ([CHR 0x27] @ ''(?:[sdmt]|ll|ve|re)| ?'' @ [CHR 0x5C] @ ''p{L}+| ?'' @ [CHR 0x5C] @ ''p{N}+| ?[^'' @ [CHR 0x5C] @ ''s'' @
         [CHR 0x5C] @ ''p{L}'' @ [CHR 0x5C] @ ''p{N}]+|'' @ [CHR 0x5C] @ ''s+(?!'' @ [CHR 0x5C] @ ''S)|'' @ [CHR 0x5C] @ ''s+''),
       mergeable_ranks = ranks,
       config_special_tokens = [(u ''<|endoftext|>'', 50256)]\<rparr>)"

definition MakeGPT4Tokenizer :: "Icu \<Rightarrow> (string \<Rightarrow> string option) \<Rightarrow> string list option \<Rightarrow> string \<Rightarrow> TiktokenTokenizer result" where
  "MakeGPT4Tokenizer icu base64_decode lines_opt path =
     bindR (Tiktoken_DoFetch base64_decode lines_opt path) (\<lambda>ranks.
     FromTiktokenConfig \<lparr>
       pat_str = from_utf8 icu ([CHR 0x27] @ ''(?i:[sdmt]|ll|ve|re)|[^'' @ [CHR 0x5C] @ ''r'' @ [CHR 0x5C] @ ''n'' @ [CHR 0x5C] @ ''p{L}'' @ [CHR 0x5C] @
         ''p{N}]?+'' @ [CHR 0x5C] @ ''p{L}+|'' @ [CHR 0x5C] @ ''p{N}{1,3}| ?[^'' @ [CHR 0x5C] @ ''s'' @ [CHR 0x5C] @ ''p{L}'' @ [CHR 0x5C] @
         ''p{N}]++['' @ [CHR 0x5C] @ ''r'' @ [CHR 0x5C] @ ''n]*|'' @ [CHR 0x5C] @ ''s*['' @ [CHR 0x5C] @ ''r'' @ [CHR 0x5C] @ ''n]|'' @
         [CHR 0x5C] @ ''s+(?!'' @ [CHR 0x5C] @ ''S)|'' @ [CHR 0x5C] @ ''s+''),
       mergeable_ranks = ranks,
       config_special_tokens = [(u ''<|endoftext|>'', 100257), (u ''<|fim_prefix|>'', 100258), (u ''<|fim_middle|>'', 100259),
         (u ''<|fim_suffix|>'', 100260), (u ''<|endofprompt|>'', 100276)]\<rparr>)"

end
