(* ===== verification/Tokenizer_Correct.thy ===== *)
theory Tokenizer_Correct
  imports Tokenizer
begin

text \<open>
  Correctness of the byte pair encoding: what is encoded decodes to the same text, for a trained
  tokenizer and for one built from a rank file; the encoder computes the normal form of the merge
  rules; ids stay within the vocabulary.
\<close>

section \<open>What a table of merges means\<close>

definition spell :: "Vocab \<Rightarrow> int list \<Rightarrow> Bytes" where
  "spell v ids = concat (map (\<lambda>i. the (map_of v i)) ids)"

definition known :: "Vocab \<Rightarrow> int list \<Rightarrow> bool" where
  "known v ids \<longleftrightarrow> set ids \<subseteq> dom (map_of v)"

definition spells_bytes :: "Vocab \<Rightarrow> bool" where
  "spells_bytes v \<longleftrightarrow> (\<forall>c. map_of v (of_char c) = Some [c])"

definition rule_ok :: "Vocab \<Rightarrow> BPEPair \<times> int \<Rightarrow> bool" where
  "rule_ok v e \<longleftrightarrow> known v [fst (fst e), snd (fst e)] \<and>
     map_of v (snd e) = Some (spell v [fst (fst e), snd (fst e)])"

definition tables_ok :: "BPERanks \<Rightarrow> Vocab \<Rightarrow> bool" where
  "tables_ok ranks v \<longleftrightarrow> spells_bytes v \<and> list_all (rule_ok v) ranks"

lemma spell_simps [simp]:
  "spell v [] = []"
  "spell v (i # ids) = the (map_of v i) @ spell v ids"
  "spell v (xs @ ys) = spell v xs @ spell v ys"
  by (simp_all add: spell_def)

lemma known_simps [simp]:
  "known v []"
  "known v (i # ids) \<longleftrightarrow> i \<in> dom (map_of v) \<and> known v ids"
  "known v (xs @ ys) \<longleftrightarrow> known v xs \<and> known v ys"
  by (auto simp: known_def)

lemma byte_ids_spell: "spells_bytes v \<Longrightarrow> known v (byte_ids bytes) \<and> spell v (byte_ids bytes) = bytes"
  by (induction bytes) (auto simp: byte_ids_def spells_bytes_def)

lemma merge_spell:
  assumes "rule_ok v (p, idx)" "known v ids"
  shows "known v (merge_u32_ids p idx ids) \<and> spell v (merge_u32_ids p idx ids) = spell v ids"
  using assms by (induction p idx ids rule: merge_u32_ids.induct) (auto simp: rule_ok_def)

section \<open>The encoder as a rewriting system\<close>

text \<open>The entry that is chosen: one of least rank among the adjacent pairs that can be merged.\<close>

lemma first_min_None:
  "first_min f bound best xs = None \<longleftrightarrow> best = None \<and> (\<forall>x \<in> set xs. \<forall>r. f x = Some r \<longrightarrow> bound \<le> r)"
  by (induction xs arbitrary: bound best) (auto split: option.splits)

lemma first_min_Some:
  assumes "first_min f bound best xs = Some x"
  shows "(best = Some x \<and> (\<forall>y \<in> set xs. \<forall>r. f y = Some r \<longrightarrow> bound \<le> r)) \<or>
    (\<exists>r. x \<in> set xs \<and> f x = Some r \<and> r < bound \<and> (\<forall>y \<in> set xs. \<forall>r'. f y = Some r' \<longrightarrow> r \<le> r'))"
  using assms
proof (induction xs arbitrary: bound best)
  case (Cons a xs)
  show ?case
  proof (cases "f a")
    case None
    with Cons.IH [of bound best] Cons.prems show ?thesis by auto
  next
    case (Some v)
    show ?thesis
    proof (cases "v < bound")
      case True
      with Some Cons.IH [of v "Some a"] Cons.prems show ?thesis by fastforce
    next
      case False
      with Some Cons.IH [of bound best] Cons.prems show ?thesis by fastforce
    qed
  qed
qed simp

text \<open>Pairs with a rank of \<open>INT32_MAX\<close> or more are never found.\<close>

definition ranks_ok :: "BPERanks \<Rightarrow> bool" where
  "ranks_ok ranks \<longleftrightarrow> list_all (\<lambda>e. snd e < INT32_MAX) ranks"

definition mergeable :: "BPERanks \<Rightarrow> int list \<Rightarrow> BPEPair \<Rightarrow> int \<Rightarrow> bool" where
  "mergeable ranks ids p r \<longleftrightarrow> p \<in> set (adjacent ids) \<and> map_of ranks p = Some r"

inductive bpe_step :: "BPERanks \<Rightarrow> int list \<Rightarrow> int list \<Rightarrow> bool" for ranks where
  merge: "mergeable ranks ids p r \<Longrightarrow> (\<And>q s. mergeable ranks ids q s \<Longrightarrow> r \<le> s) \<Longrightarrow>
    bpe_step ranks ids (merge_u32_ids p r ids)"

inductive_cases bpe_stepE: "bpe_step ranks ids ids'"

definition bpe_normal :: "BPERanks \<Rightarrow> int list \<Rightarrow> bool" where
  "bpe_normal ranks ids \<longleftrightarrow> (\<forall>p r. \<not> mergeable ranks ids p r)"

lemma stats_keys: "e \<in> set (fold count_pair (adjacent ids) []) \<Longrightarrow> fst e \<in> set (adjacent ids)"
  using keys_pairs_state [of "adjacent ids" "[]"] by auto

lemma stats_complete: "p \<in> set (adjacent ids) \<Longrightarrow> \<exists>n. (p, n) \<in> set (fold count_pair (adjacent ids) [])"
proof -
  assume "p \<in> set (adjacent ids)"
  then have "p \<in> fst ` set (fold count_pair (adjacent ids) [])" using keys_pairs_state [of "adjacent ids" "[]"] by simp
  then show ?thesis by auto
qed

lemma ranks_below: "ranks_ok ranks \<Longrightarrow> map_of ranks p = Some r \<Longrightarrow> r < INT32_MAX"
  by (auto simp: ranks_ok_def list_all_iff dest!: map_of_SomeD)

lemma min_entry_None:
  assumes "ranks_ok ranks" "min_entry ranks (fold count_pair (adjacent ids) []) = None"
  shows "bpe_normal ranks ids"
proof -
  have "\<not> mergeable ranks ids p r" for p r
  proof
    assume "mergeable ranks ids p r"
    then have "p \<in> set (adjacent ids)" "map_of ranks p = Some r" by (auto simp: mergeable_def)
    moreover obtain n where "(p, n) \<in> set (fold count_pair (adjacent ids) [])" using stats_complete [OF calculation(1)] ..
    ultimately have "INT32_MAX \<le> r" using assms(2) unfolding min_entry_def first_min_None by fastforce
    with ranks_below [OF assms(1) \<open>map_of ranks p = Some r\<close>] show False by simp
  qed
  then show ?thesis by (simp add: bpe_normal_def)
qed

lemma min_entry_Some:
  assumes "min_entry ranks (fold count_pair (adjacent ids) []) = Some e"
  obtains r where "mergeable ranks ids (fst e) r" "map_of ranks (fst e) = Some r"
    "bpe_step ranks ids (merge_u32_ids (fst e) r ids)"
proof -
  obtain r where r: "e \<in> set (fold count_pair (adjacent ids) [])" "map_of ranks (fst e) = Some r"
    "\<forall>y \<in> set (fold count_pair (adjacent ids) []). \<forall>r'. map_of ranks (fst y) = Some r' \<longrightarrow> r \<le> r'"
    using first_min_Some [OF assms [unfolded min_entry_def]] by auto
  have "mergeable ranks ids (fst e) r" using r(1,2) by (simp add: mergeable_def stats_keys)
  moreover have "r \<le> s" if m: "mergeable ranks ids q s" for q s
  proof -
    obtain n where "(q, n) \<in> set (fold count_pair (adjacent ids) [])"
      using stats_complete [of q ids] m by (auto simp: mergeable_def)
    then show ?thesis using r(3) m by (fastforce simp: mergeable_def)
  qed
  ultimately show thesis using r(2) by (intro that) (auto intro: bpe_step.merge)
qed

lemma adjacent_short: "length ids < 2 \<Longrightarrow> adjacent ids = []"
  by (induction ids rule: adjacent.induct) auto


lemma EncodeChunk_loop_steps:
  assumes "ranks_ok ranks"
  shows "(bpe_step ranks)\<^sup>*\<^sup>* ids (EncodeChunk_loop ranks ids) \<and> bpe_normal ranks (EncodeChunk_loop ranks ids)"
proof (induction ids rule: measure_induct_rule [of length])
  case (less ids)
  show ?case
  proof (cases "length ids \<ge> 2 \<and> min_entry ranks (fold count_pair (adjacent ids) []) \<noteq> None")
    case True
    then obtain e where e: "min_entry ranks (fold count_pair (adjacent ids) []) = Some e" by auto
    obtain r where r: "mergeable ranks ids (fst e) r" "map_of ranks (fst e) = Some r"
      "bpe_step ranks ids (merge_u32_ids (fst e) r ids)" using min_entry_Some [OF e] .
    have "length (merge_u32_ids (fst e) r ids) < length ids"
      using r(1) by (intro merge_u32_ids_shorter) (simp add: mergeable_def)
    from less.IH [OF this] r True e show ?thesis
      by (subst (1 2) EncodeChunk_loop.simps) (auto intro: converse_rtranclp_into_rtranclp)
  next
    case False
    then have stop: "EncodeChunk_loop ranks ids = ids" by (subst EncodeChunk_loop.simps) (auto split: option.split)
    have "bpe_normal ranks ids"
    proof (cases "length ids \<ge> 2")
      case True
      with False show ?thesis by (intro min_entry_None [OF assms]) blast
    next
      case False
      then show ?thesis by (simp add: bpe_normal_def mergeable_def adjacent_short)
    qed
    with stop show ?thesis by simp
  qed
qed

text \<open>With distinct ranks there is at most one step, so the normal form is unique.\<close>

lemma bpe_step_deterministic:
  assumes "distinct (map snd ranks)" "bpe_step ranks ids x" "bpe_step ranks ids y"
  shows "x = y"
proof -
  obtain p r where p: "mergeable ranks ids p r" "\<And>q s. mergeable ranks ids q s \<Longrightarrow> r \<le> s" "x = merge_u32_ids p r ids"
    using assms(2) by (auto elim!: bpe_stepE)
  obtain q s where q: "mergeable ranks ids q s" "\<And>q' s'. mergeable ranks ids q' s' \<Longrightarrow> s \<le> s'" "y = merge_u32_ids q s ids"
    using assms(3) by (auto elim!: bpe_stepE)
  have "r = s" using p(2) [OF q(1)] q(2) [OF p(1)] by simp
  moreover have "(p, r) \<in> set ranks" "(q, s) \<in> set ranks" using p(1) q(1) by (auto simp: mergeable_def dest: map_of_SomeD)
  ultimately have "p = q" using assms(1) unfolding distinct_map by (metis inj_onD prod.inject snd_conv)
  with \<open>r = s\<close> p(3) q(3) show ?thesis by simp
qed

lemma bpe_normal_no_step: "bpe_normal ranks ids \<Longrightarrow> \<not> bpe_step ranks ids x"
  by (auto simp: bpe_normal_def elim!: bpe_stepE)

lemma bpe_normal_unique:
  assumes "distinct (map snd ranks)" "(bpe_step ranks)\<^sup>*\<^sup>* ids x" "(bpe_step ranks)\<^sup>*\<^sup>* ids y" "bpe_normal ranks x" "bpe_normal ranks y"
  shows "x = y"
  using assms(2,3)
proof (induction rule: converse_rtranclp_induct)
  case base
  then show ?case using bpe_normal_no_step [OF assms(4)] by (auto elim: converse_rtranclpE)
next
  case (step a b)
  have "a \<noteq> y" using step.hyps(1) bpe_normal_no_step [OF assms(5)] by auto
  then obtain b' where "bpe_step ranks a b'" "(bpe_step ranks)\<^sup>*\<^sup>* b' y" using step.prems by (auto elim: converse_rtranclpE)
  then show ?case using bpe_step_deterministic [OF assms(1) step.hyps(1)] step.IH by auto
qed




section \<open>Encoding and decoding\<close>

lemma EncodeChunk_loop_spell:
  assumes "tables_ok ranks v"
  shows "known v ids \<Longrightarrow> known v (EncodeChunk_loop ranks ids) \<and> spell v (EncodeChunk_loop ranks ids) = spell v ids"
proof (induction ids rule: measure_induct_rule [of length])
  case (less ids)
  show ?case
  proof (cases "length ids \<ge> 2 \<and> min_entry ranks (fold count_pair (adjacent ids) []) \<noteq> None")
    case True
    then obtain e where e: "min_entry ranks (fold count_pair (adjacent ids) []) = Some e" by auto
    obtain r where r: "mergeable ranks ids (fst e) r" "map_of ranks (fst e) = Some r" using min_entry_Some [OF e] .
    have "length (merge_u32_ids (fst e) r ids) < length ids"
      using r(1) by (intro merge_u32_ids_shorter) (simp add: mergeable_def)
    moreover have "rule_ok v (fst e, r)" using assms r(2) by (auto simp: tables_ok_def list_all_iff dest: map_of_SomeD)
    ultimately show ?thesis
      using less True e r(2) merge_spell [of v "fst e" r ids] by (subst (1 2) EncodeChunk_loop.simps) auto
  next
    case False
    then show ?thesis using less.prems by (subst (1 2) EncodeChunk_loop.simps) (auto split: option.split)
  qed
qed

lemma EncodeChunk_spell:
  assumes "tables_ok ranks v" "handle bytes = Inr bytes'"
  obtains ids where "EncodeChunk handle ranks bytes = Inr ids" "known v ids" "spell v ids = bytes'"
  using EncodeChunk_loop_spell [OF assms(1), of "byte_ids bytes'"] byte_ids_spell [of v bytes'] assms
  by (auto simp: EncodeChunk_def tables_ok_def)

text \<open>
  What is needed of ICU for a text: the pattern compiles and its matches follow each other without
  a gap, and the conversions to UTF-8 and back are faithful on it.
\<close>

definition matched_chunks :: "Icu \<Rightarrow> ustring \<Rightarrow> ustring \<Rightarrow> ustring list" where
  "matched_chunks icu pattern text =
     map (\<lambda>(start, e). take (min e (length text) - start) (drop start text)) (the (regex_find icu pattern text))"

definition icu_faithful :: "Icu \<Rightarrow> ustring \<Rightarrow> ustring \<Rightarrow> bool" where
  "icu_faithful icu pattern text \<longleftrightarrow> regex_find icu pattern text \<noteq> None \<and>
     concat (map (to_utf8 icu) (matched_chunks icu pattern text)) = to_utf8 icu text \<and>
     from_utf8 icu (to_utf8 icu text) = text"

lemma mapR_obtain:
  assumes "\<And>x. \<exists>y. f x = Inr y \<and> P x y"
  obtains ys where "mapR f xs = Inr ys" "list_all2 P xs ys"
proof -
  have "\<exists>ys. mapR f xs = Inr ys \<and> list_all2 P xs ys"
  proof (induction xs)
    case (Cons x xs)
    with assms [of x] show ?case by fastforce
  qed simp
  with that show thesis by blast
qed

lemma spelled_parts:
  "list_all2 (\<lambda>c ids. known v ids \<and> spell v ids = g c) cs parts \<Longrightarrow>
    known v (concat parts) \<and> spell v (concat parts) = concat (map g cs)"
  by (induction rule: list_all2_induct) auto

lemma EncodeOrdinary_spell:
  assumes "tables_ok (merges t) v" "regex_find icu (regexp_pattern t) text \<noteq> None" "\<And>bytes. handle bytes = Inr (h bytes)"
  obtains ids where "EncodeOrdinary icu handle t text = Inr ids" "known v ids"
    "spell v ids = concat (map (\<lambda>c. h (to_utf8 icu c)) (matched_chunks icu (regexp_pattern t) text))"
proof -
  let ?cs = "matched_chunks icu (regexp_pattern t) text"
  have "\<exists>ids. EncodeChunk handle (merges t) (to_utf8 icu c) = Inr ids \<and> (known v ids \<and> spell v ids = h (to_utf8 icu c))" for c
    using EncodeChunk_spell [OF assms(1), where handle = handle and bytes = "to_utf8 icu c"] assms(3) by blast
  then obtain parts where parts: "mapR (\<lambda>c. EncodeChunk handle (merges t) (to_utf8 icu c)) ?cs = Inr parts"
    "list_all2 (\<lambda>c ids. known v ids \<and> spell v ids = h (to_utf8 icu c)) ?cs parts"
    by (rule mapR_obtain)
  have "find_all_with_regex icu text (regexp_pattern t) = Inr ?cs"
    using assms(2) by (auto simp: find_all_with_regex_def matched_chunks_def)
  with parts(1) have "EncodeOrdinary icu handle t text = Inr (concat parts)" by (simp add: EncodeOrdinary_def)
  with spelled_parts [OF parts(2)] that show thesis by blast
qed

lemma mapR_vocab:
  assumes "known v ids" "\<And>i x. map_of v i = Some x \<Longrightarrow> f i = Inr x"
  shows "mapR f ids = Inr (map (\<lambda>i. the (map_of v i)) ids)"
  using assms(1) by (intro mapR_all_Inr) (auto simp: known_def subset_iff intro!: assms(2))

lemma Decode_known: "known (vocab t) ids \<Longrightarrow> Decode icu t ids = Inr (from_utf8 icu (spell (vocab t) ids))"
  by (simp add: Decode_def spell_def mapR_vocab [of "vocab t"] decode_id_def)

text \<open>The text is encoded as it is: special tokens are ignored, or forbidden and absent.\<close>

definition no_specials :: "TokenizerEncodeOptions \<Rightarrow> 't RegexTokenizer_scheme \<Rightarrow> ustring \<Rightarrow> bool" where
  "no_specials options t text \<longleftrightarrow> allow_special options = kNone \<or> allow_special options = kNoneRaise \<and>
     \<not> list_ex (\<lambda>e. fst e \<noteq> [] \<and> contains_sub (fst e) text) (special_tokens t)"

lemma Encode_no_specials:
  "no_specials options t text \<Longrightarrow> Encode icu handle text options t = (EncodeOrdinary icu (handle t) t text, t)"
  by (auto simp: Encode_def allowed_specials_def no_specials_def bindE_assoc)

lemma tables_roundtrip:
  assumes "tables_ok (merges t) (vocab t)" "icu_faithful icu (regexp_pattern t) text" "no_specials options t text"
  shows "\<exists>ids. Encode icu (\<lambda>_. Inr) text options t = (Inr ids, t) \<and> known (vocab t) ids \<and> Decode icu t ids = Inr text"
proof -
  obtain ids where "EncodeOrdinary icu Inr t text = Inr ids" "known (vocab t) ids"
    "spell (vocab t) ids = concat (map (\<lambda>c. to_utf8 icu c) (matched_chunks icu (regexp_pattern t) text))"
    using EncodeOrdinary_spell [OF assms(1), of icu "text" Inr "\<lambda>b. b"] assms(2) by (auto simp: icu_faithful_def)
  then show ?thesis using assms(2,3) by (simp add: Encode_no_specials Decode_known icu_faithful_def)
qed


section \<open>Training\<close>

lemma map_of_extend_vocab:
  assumes "known v [a, b]"
  shows "map_of (extend_vocab (a, b) idx v) = (map_of v)(idx \<mapsto> spell v [a, b])"
  using assms by (auto simp: extend_vocab_def emplace_def Let_def update_conv')

lemma spell_fresh:
  assumes "known v ids" "idx \<notin> dom (map_of v)" "map_of v' = (map_of v)(idx \<mapsto> x)"
  shows "known v' ids \<and> spell v' ids = spell v ids"
  using assms(1,2) by (induction ids) (auto simp: assms(3))

lemma rule_ok_fresh:
  assumes "rule_ok v e" "idx \<notin> dom (map_of v)" "map_of v' = (map_of v)(idx \<mapsto> x)"
  shows "rule_ok v' e"
  using assms spell_fresh [of v "[fst (fst e), snd (fst e)]" idx v' x]
  by (auto simp: rule_ok_def assms(3))

lemma spells_bytes_fresh:
  assumes "spells_bytes v" "idx \<notin> dom (map_of v)" "map_of v' = (map_of v)(idx \<mapsto> x)"
  shows "spells_bytes v'"
  using assms by (auto simp: spells_bytes_def dom_def)

lemma tables_ok_extend:
  assumes "tables_ok ranks v" "known v [a, b]" "idx \<notin> dom (map_of v)" "set ranks' \<subseteq> insert ((a, b), idx) (set ranks)"
  shows "tables_ok ranks' (extend_vocab (a, b) idx v)"
proof -
  note ext = map_of_extend_vocab [OF assms(2), of idx]
  note fresh = spell_fresh [OF assms(2,3) ext]
  have "rule_ok (extend_vocab (a, b) idx v) ((a, b), idx)"
    unfolding rule_ok_def fst_conv snd_conv using fresh by (simp only: ext fun_upd_same)
  moreover have "rule_ok (extend_vocab (a, b) idx v) e" if "e \<in> set ranks" for e
    using that assms(1) by (intro rule_ok_fresh [OF _ assms(3) ext]) (simp add: tables_ok_def list_all_iff)
  ultimately have "list_all (rule_ok (extend_vocab (a, b) idx v)) ranks'" using assms(4) by (auto simp: list_all_iff)
  then show ?thesis
    using assms(1) spells_bytes_fresh [OF _ assms(3) ext] by (simp add: tables_ok_def)
qed

lemma byte_vocab_ok: "tables_ok [] byte_vocab" "dom (map_of byte_vocab) = {0..<256}"
proof -
  have dom: "map_of byte_vocab i = (if 0 \<le> i \<and> i < 256 then Some [char_of (nat i)] else None)" for i
  proof -
    have "map_of (map (\<lambda>j. (int j, [char_of j])) js) i = (if 0 \<le> i \<and> nat i \<in> set js then Some [char_of (nat i)] else None)"
      for js :: "nat list" by (induction js) auto
    then show ?thesis by (auto simp: byte_vocab_def)
  qed
  then show "dom (map_of byte_vocab) = {0..<256}" by (auto simp: dom_def)
  have "map_of byte_vocab (of_char c) = Some [c]" for c :: char
  proof -
    have "(of_char c :: int) = int (of_char c)" by (simp add: of_nat_of_char)
    then show ?thesis using nat_of_char_less_256 [of c] by (simp add: dom del: nat_of_char_less_256 of_nat_of_char)
  qed
  then show "tables_ok [] byte_vocab" by (simp add: tables_ok_def spells_bytes_def)
qed


lemma adjacent_known: "known v ids \<Longrightarrow> (a, b) \<in> set (adjacent ids) \<Longrightarrow> known v [a, b]"
  by (induction ids rule: adjacent.induct) auto

lemma pairs_of_chunks_keys:
  "pairs_of_chunks idss stats = Inr stats' \<Longrightarrow> fst ` set stats' \<subseteq> fst ` set stats \<union> \<Union> ((\<lambda>ids. set (adjacent ids)) ` set idss)"
proof (induction idss arbitrary: stats)
  case (Cons ids idss)
  then have "pairs_of_chunks idss (fold count_pair (adjacent ids) stats) = Inr stats'"
    by (auto simp: compute_pairs_state_def split: if_splits)
  from Cons.IH [OF this] show ?case by (auto simp: keys_pairs_state)
qed simp

lemma get_max_pair_in: "get_max_pair stats = Inr p \<Longrightarrow> p \<in> fst ` set stats"
  by (auto simp: get_max_pair_def dest!: first_min_in split: option.splits)

lemma set_AList_update: "set (AList.update k x m) \<subseteq> insert (k, x) (set m)"
  by (induction m) auto

text \<open>The state of the training loop: the tables agree and \<open>idx\<close> ids are given out.\<close>

definition training :: "int \<Rightarrow> int list list \<Rightarrow> BPERanks \<Rightarrow> Vocab \<Rightarrow> bool" where
  "training idx idss ranks v \<longleftrightarrow> tables_ok ranks v \<and> dom (map_of v) = {0..<idx} \<and> 256 \<le> idx \<and>
     list_all (known v) idss \<and> list_all (\<lambda>e. 256 \<le> snd e \<and> snd e < idx) ranks"

lemma training_step:
  assumes "training idx idss ranks v" "pairs_of_chunks idss [] = Inr stats" "get_max_pair stats = Inr p"
  shows "training (idx + 1) (map (merge_u32_ids p idx) idss) (AList.update p idx ranks) (extend_vocab p idx v)"
proof -
  obtain a b where p: "p = (a, b)" by (cases p)
  from get_max_pair_in [OF assms(3)] pairs_of_chunks_keys [OF assms(2)] obtain ids
    where "ids \<in> set idss" "(a, b) \<in> set (adjacent ids)" by (auto simp: p)
  with assms(1) have ab: "known v [a, b]" using adjacent_known [of v ids a b] unfolding training_def list_all_iff by blast
  have fresh: "idx \<notin> dom (map_of v)" using assms(1) by (simp add: training_def)
  let ?v = "extend_vocab (a, b) idx v"
  note ext = map_of_extend_vocab [OF ab, of idx]
  have ok: "tables_ok (AList.update (a, b) idx ranks) ?v"
    using assms(1) by (intro tables_ok_extend [OF _ ab fresh set_AList_update]) (simp add: training_def)
  have "rule_ok ?v ((a, b), idx)" using tables_ok_extend [OF _ ab fresh, of ranks "((a, b), idx) # ranks"] assms(1)
    by (auto simp: training_def tables_ok_def)
  then have "list_all (known ?v) (map (merge_u32_ids (a, b) idx) idss)"
    using assms(1) merge_spell spell_fresh [OF _ fresh ext] by (auto simp: training_def list_all_iff)
  moreover have "dom (map_of ?v) = {0..<idx + 1}" using assms(1) by (auto simp: ext training_def)
  moreover have "list_all (\<lambda>e. 256 \<le> snd e \<and> snd e < idx + 1) (AList.update (a, b) idx ranks)"
    using assms(1) set_AList_update [of "(a, b)" idx ranks] by (fastforce simp: training_def list_all_iff)
  ultimately show ?thesis using ok assms(1) by (simp add: training_def p)
qed

lemma Train_loop_training:
  assumes "training idx idss ranks v" "Train_loop n idx idss ranks v = Inr (ranks', v')"
  shows "\<exists>idss'. training (idx + int n) idss' ranks' v'"
  using assms
proof (induction n arbitrary: idx idss ranks v)
  case 0
  then show ?case by auto
next
  case (Suc n)
  then obtain stats p where "pairs_of_chunks idss [] = Inr stats" "get_max_pair stats = Inr p"
    "Train_loop n (idx + 1) (map (merge_u32_ids p idx) idss) (AList.update p idx ranks) (extend_vocab p idx v) = Inr (ranks', v')"
    by (auto simp: bindR_Inr_iff)
  from Suc.IH [OF training_step [OF Suc.prems(1) this(1,2)] this(3)] show ?case by (simp add: algebra_simps)
qed

lemma Train_tables:
  assumes "Train icu text vocab_size t0 = (Inr (), t)"
  shows "tables_ok (merges t) (vocab t) \<and> dom (map_of (vocab t)) = {0..<vocab_size} \<and> regexp_pattern t = regexp_pattern t0 \<and>
    list_all (\<lambda>e. 256 \<le> snd e \<and> snd e < vocab_size) (merges t)"
proof -
  have vs: "\<not> vocab_size < 256" using assms by (auto simp: Train_def)
  then obtain splits m v where "Train_loop (nat (vocab_size - 256)) 256 (map (\<lambda>chunk. byte_ids (to_utf8 icu chunk)) splits) [] byte_vocab = Inr (m, v)"
    "t = t0\<lparr>merges := m, vocab := v\<rparr>"
    using assms by (auto simp: Train_def bindE_def split: prod.splits sum.splits if_splits)
  moreover have "training 256 (map (\<lambda>chunk. byte_ids (to_utf8 icu chunk)) splits) [] byte_vocab"
    using byte_vocab_ok byte_ids_spell by (auto simp: training_def tables_ok_def list_all_iff)
  ultimately obtain idss' where "training (256 + int (nat (vocab_size - 256))) idss' m v" using Train_loop_training by blast
  with vs \<open>t = _\<close> show ?thesis by (auto simp: training_def)
qed

text \<open>
  What a trained tokenizer encodes it decodes to the same text, whatever text it was trained on,
  for every text that the pattern divides without gaps.
\<close>

theorem Train_roundtrip:
  assumes "Train icu sample vocab_size t0 = (Inr (), t)" "icu_faithful icu (regexp_pattern t0) text" "no_specials options t text"
  shows "\<exists>ids. Encode icu (\<lambda>_. Inr) text options t = (Inr ids, t) \<and> Decode icu t ids = Inr text"
  using Train_tables [OF assms(1)] tables_roundtrip [OF _ _ assms(3)] assms(2) by metis

text \<open>A concrete ICU for the examples: one match over the whole text, no code point beyond a byte.\<close>

definition demo_icu :: Icu where
  "demo_icu = \<lparr>regex_find = (\<lambda>p t. Some (if t = [] then [] else [(0, length t)])), regex_split = (\<lambda>p t n. if t = [] then [] else [t]),
     from_utf8 = map of_char, to_utf8 = map char_of\<rparr>"

definition demo_tokenizer :: RegexTokenizer where
  "demo_tokenizer = new_RegexTokenizer [] [] (u ''.*'') [(u ''<end>'', 1000)]"

definition demo_trained :: RegexTokenizer where
  "demo_trained = snd (Train demo_icu (u ''aab'') 257 demo_tokenizer)"

lemma demo_chars:
  "(of_char (char_of (97 :: nat) :: char) :: int) = 97" "(of_char (char_of (98 :: nat) :: char) :: int) = 98"
  "CHR 0x01 = char_of (1 :: nat)" "CHR 0x00 = char_of (0 :: nat)" "CHR ''a'' = char_of (97 :: nat)" "CHR ''b'' = char_of (98 :: nat)"
  by code_simp+

lemma demo_Train: "Train demo_icu (u ''aab'') 257 demo_tokenizer = (Inr (), demo_trained)"
proof -
  have "pairs_of_chunks [[97, 97, 98]] [] = Inr [((97, 97), 1), ((97, 98), 1)]"
    by (simp add: compute_pairs_state_def count_pair_def emplace_def)
  moreover have "get_max_pair [((97, 97), 1), ((97, 98), 1)] = Inr (97, 97)" by (simp add: get_max_pair_def)
  ultimately have "fst (Train demo_icu (u ''aab'') 257 demo_tokenizer) = Inr ()"
    by (simp add: Train_def find_all_with_regex_def demo_icu_def u_def byte_ids_def demo_chars(1,2) del: pairs_of_chunks.simps)
  then show ?thesis unfolding demo_trained_def by (metis prod.collapse)
qed

lemma demo_faithful: "icu_faithful demo_icu p (u s)"
  by (cases "s = []") (simp_all add: icu_faithful_def demo_icu_def matched_chunks_def u_def comp_def)

theorem Train_roundtrip_witness:
  "\<exists>ids. Encode demo_icu (\<lambda>_. Inr) (u ''aaba'') \<lparr>allow_special = kNone, specials = []\<rparr> demo_trained = (Inr ids, demo_trained) \<and>
    Decode demo_icu demo_trained ids = Inr (u ''aaba'')"
  by (rule Train_roundtrip [OF demo_Train demo_faithful]) (simp add: no_specials_def)




section \<open>Tokenizers from rank files\<close>

text \<open>
  What a rank file holds: the 256 single bytes have the ranks below 256, longer tokens follow, and
  ranks grow from line to line.
\<close>

definition rank_file_ok :: "BPETokenRanks \<Rightarrow> bool" where
  "rank_file_ok R \<longleftrightarrow> distinct (map fst R) \<and> sorted_wrt (<) (map snd R) \<and>
     list_all (\<lambda>(token, r). token \<noteq> [] \<and> 0 \<le> r \<and> (length token = 1 \<longleftrightarrow> r < 256)) R \<and>
     list_all (\<lambda>i. map_of R [char_of i] \<noteq> None) [0..<256]"

text \<open>Every rule uses ids that exist before it and gives out a new one.\<close>

fun buildable :: "int set \<Rightarrow> BPERanks \<Rightarrow> bool" where
  "buildable S [] = True"
| "buildable S (((a, b), i) # rs) \<longleftrightarrow> a \<in> S \<and> b \<in> S \<and> i \<notin> S \<and> buildable (insert i S) rs"

lemma buildable_tables:
  assumes "tables_ok ranks v" "buildable (dom (map_of v)) rs"
  shows "tables_ok (ranks @ rs) (fold (\<lambda>(pair, i). extend_vocab pair i) rs v)"
  using assms
proof (induction rs arbitrary: ranks v)
  case (Cons e rs)
  obtain a b i where e: "e = ((a, b), i)" by (metis prod.exhaust)
  have ab: "known v [a, b]" "i \<notin> dom (map_of v)" using Cons.prems(2) by (simp_all add: e)
  have "tables_ok (ranks @ [e]) (extend_vocab (a, b) i v)" using Cons.prems(1) by (intro tables_ok_extend [OF _ ab]) (auto simp: e)
  moreover have "buildable (dom (map_of (extend_vocab (a, b) i v))) rs"
    using Cons.prems(2) by (simp add: map_of_extend_vocab [OF ab(1)] e)
  ultimately show ?case using Cons.IH [of "ranks @ [e]"] by (simp add: e)
qed simp

lemma concat_merge_parts: "Suc i < length parts \<Longrightarrow> concat (merge_parts i parts) = concat parts"
proof -
  assume i: "Suc i < length parts"
  then have "parts = take i parts @ [parts ! i, parts ! Suc i] @ drop (i + 2) parts"
    by (metis Cons_nth_drop_Suc Suc_lessD add_2_eq_Suc' append_Cons append_Nil append_take_drop_id)
  then have "concat parts = concat (take i parts @ [parts ! i, parts ! Suc i] @ drop (i + 2) parts)" by simp
  also have "\<dots> = concat (merge_parts i parts)" by (simp add: merge_parts_def)
  finally show ?thesis by simp
qed

text \<open>The parts of a token are single bytes or tokens of smaller rank, and together they are the token.\<close>

lemma bpe_loop_parts:
  assumes "list_all (\<lambda>p. length p = 1 \<or> (\<exists>r. map_of R p = Some r \<and> r < m)) parts"
  shows "concat (bpe_loop R m parts) = concat parts \<and>
    list_all (\<lambda>p. length p = 1 \<or> (\<exists>r. map_of R p = Some r \<and> r < m)) (bpe_loop R m parts)"
  using assms
proof (induction parts rule: measure_induct_rule [of length])
  case (less parts)
  let ?c = "first_min (part_rank R parts) INT32_MAX None [0..<length parts - 1]"
  show ?case
  proof (cases "\<exists>i. ?c = Some i \<and> the (part_rank R parts i) < m")
    case True
    then obtain i where i: "?c = Some i" "the (part_rank R parts i) < m" by auto
    then obtain r where r: "part_rank R parts i = Some r" "Suc i < length parts" using first_min_Some [OF i(1)] by auto
    have "list_all (\<lambda>p. length p = 1 \<or> (\<exists>r. map_of R p = Some r \<and> r < m)) (merge_parts i parts)"
      using less.prems r i(2) by (auto simp: merge_parts_def part_rank_def list_all_iff dest: in_set_takeD in_set_dropD)
    moreover have "length (merge_parts i parts) < length parts" using r(2) by (simp add: merge_parts_def)
    ultimately show ?thesis
      using less.IH i concat_merge_parts [OF r(2)] by (subst (1 2) bpe_loop.simps) auto
  next
    case False
    then have "bpe_loop R m parts = parts" by (subst bpe_loop.simps) (auto split: option.split)
    with less.prems show ?thesis by simp
  qed
qed

lemma bpe_parts:
  assumes "bpe R token m = Inr parts"
  shows "concat parts = token \<and> list_all (\<lambda>p. length p = 1 \<or> (\<exists>r. map_of R p = Some r \<and> r < m)) parts"
proof -
  have "list_all (\<lambda>p. length p = 1 \<or> (\<exists>r. map_of R p = Some r \<and> r < m)) (map (\<lambda>c. [c]) token)" by (simp add: list_all_iff)
  from bpe_loop_parts [OF this] assms show ?thesis by (auto simp: bpe_def split: if_splits)
qed


definition given_ids :: "BPETokenRanks \<Rightarrow> int set" where
  "given_ids dn = {0..<256} \<union> snd ` set dn"

lemma rank_file_entry:
  assumes "rank_file_ok R" "(token, r) \<in> set R"
  shows "token \<noteq> []" "0 \<le> r" "length token = 1 \<longleftrightarrow> r < 256"
  using assms by (auto simp: rank_file_ok_def list_all_iff)

lemma rank_file_split:
  assumes "rank_file_ok (dn @ (token, r) # es)" "(x, s) \<in> set (dn @ (token, r) # es)"
  shows "s < r \<Longrightarrow> (x, s) \<in> set dn" "s = r \<Longrightarrow> x = token"
  using assms by (force simp: rank_file_ok_def sorted_wrt_append)+

lemma part_given:
  assumes "rank_file_ok (dn @ (token, r) # es)" "map_of (dn @ (token, r) # es) p = Some a"
    "length p = 1 \<or> (\<exists>r'. map_of (dn @ (token, r) # es) p = Some r' \<and> r' < r)"
  shows "a \<in> given_ids dn"
proof -
  have a: "(p, a) \<in> set (dn @ (token, r) # es)" using assms(2) by (rule map_of_SomeD)
  from assms(3) show ?thesis
  proof
    assume "length p = 1"
    then show ?thesis using rank_file_entry [OF assms(1) a] by (simp add: given_ids_def)
  next
    assume "\<exists>r'. map_of (dn @ (token, r) # es) p = Some r' \<and> r' < r"
    then have "(p, a) \<in> set dn" using rank_file_split(1) [OF assms(1) a] assms(2) by auto
    then show ?thesis by (force simp: given_ids_def)
  qed
qed

lemma rank_not_given:
  assumes "rank_file_ok (dn @ (token, r) # es)" "length token \<noteq> 1"
  shows "r \<notin> given_ids dn"
  using assms rank_file_entry(3) [OF assms(1), of token r] by (auto simp: given_ids_def rank_file_ok_def sorted_wrt_append)

text \<open>The rules found so far, each the split of a token already read.\<close>

definition rules_of :: "BPETokenRanks \<Rightarrow> BPETokenRanks \<Rightarrow> BPERanks \<Rightarrow> bool" where
  "rules_of R dn acc \<longleftrightarrow> (\<forall>((a, b), r) \<in> set acc. \<exists>x y. (x, a) \<in> set R \<and> (y, b) \<in> set R \<and> (x @ y, r) \<in> set dn)"

lemma rules_of_more: "rules_of R dn acc \<Longrightarrow> rules_of R (dn @ es) acc"
  unfolding rules_of_def by fastforce

lemma rules_of_snoc:
  assumes "rules_of R dn acc" "(x, a) \<in> set R" "(y, b) \<in> set R" "(x @ y, r) \<in> set dn"
  shows "rules_of R dn (acc @ [((a, b), r)])"
  using assms unfolding rules_of_def by (simp, blast)

lemma rank_unique:
  assumes "rank_file_ok R" "(x, a) \<in> set R" "(y, a) \<in> set R"
  shows "x = y"
proof -
  have "distinct (map snd R)" using assms(1) by (simp add: rank_file_ok_def strict_sorted_iff)
  then show ?thesis using assms(2,3) unfolding distinct_map by (metis inj_onD prod.inject snd_conv)
qed

lemma pair_not_used:
  assumes "rank_file_ok (dn @ (p @ q, r) # es)" "rules_of (dn @ (p @ q, r) # es) dn acc"
    "(p, a) \<in> set (dn @ (p @ q, r) # es)" "(q, b) \<in> set (dn @ (p @ q, r) # es)"
  shows "map_of acc (a, b) = None"
proof (rule ccontr)
  assume "map_of acc (a, b) \<noteq> None"
  then obtain s where "((a, b), s) \<in> set acc" by (auto dest: map_of_SomeD)
  then obtain x y where xy: "(x, a) \<in> set (dn @ (p @ q, r) # es)" "(y, b) \<in> set (dn @ (p @ q, r) # es)" "(x @ y, s) \<in> set dn"
    using assms(2) unfolding rules_of_def by fastforce
  have "x = p" "y = q" using rank_unique [OF assms(1) xy(1) assms(3)] rank_unique [OF assms(1) xy(2) assms(4)] by auto
  with xy(3) assms(1) show False by (force simp: rank_file_ok_def)
qed

lemma recover_loop_rule:
  assumes "recover_loop R ((token, r) # es) acc = Inr rs" "length token \<noteq> 1"
  obtains p q a b where "bpe R token r = Inr [p, q]" "map_of R p = Some a" "map_of R q = Some b"
    "recover_loop R es (emplace (a, b) r acc) = Inr rs"
  using assms by (auto simp: bindR_Inr_iff lookup_at_def numeral_2_eq_2 length_Suc_conv split: if_splits option.splits)

lemma recover_loop_buildable:
  assumes "rank_file_ok (dn @ es)" "rules_of (dn @ es) dn acc" "recover_loop (dn @ es) es acc = Inr rs"
  shows "\<exists>new. rs = acc @ new \<and> buildable (given_ids dn) new"
  using assms
proof (induction es arbitrary: dn acc)
  case Nil
  then show ?case by auto
next
  case (Cons e es)
  obtain token r where e: "e = (token, r)" by (cases e)
  let ?R = "dn @ e # es"
  have R: "?R = (dn @ [e]) @ es" by simp
  have dn: "given_ids (dn @ [e]) = insert r (given_ids dn)" by (auto simp: given_ids_def e)
  show ?case
  proof (cases "length token = 1")
    case True
    then have "r \<in> given_ids dn" using rank_file_entry [OF Cons.prems(1), of token r] by (simp add: e given_ids_def)
    moreover note rules_of_more [OF Cons.prems(2), of "[e]"]
    moreover have "recover_loop ?R es acc = Inr rs" using Cons.prems(3) True by (simp add: e)
    ultimately show ?thesis using Cons.IH [of "dn @ [e]" acc] Cons.prems(1) dn by (simp add: insert_absorb)
  next
    case False
    obtain p q a b where pq: "bpe ?R token r = Inr [p, q]" "map_of ?R p = Some a" "map_of ?R q = Some b"
      "recover_loop ?R es (emplace (a, b) r acc) = Inr rs"
      using recover_loop_rule [OF Cons.prems(3) [unfolded e] False] unfolding e [symmetric] .
    note parts = bpe_parts [OF pq(1)]
    have token: "token = p @ q" using parts by simp
    have given: "a \<in> given_ids dn" "b \<in> given_ids dn" "r \<notin> given_ids dn"
      using part_given [OF Cons.prems(1) [unfolded e] pq(2) [unfolded e]] part_given [OF Cons.prems(1) [unfolded e] pq(3) [unfolded e]]
        rank_not_given [OF Cons.prems(1) [unfolded e] False] parts unfolding e list.pred_inject by blast+
    have in_R: "(p, a) \<in> set ?R" "(q, b) \<in> set ?R" by (rule map_of_SomeD [OF pq(2)], rule map_of_SomeD [OF pq(3)])
    have new: "emplace (a, b) r acc = acc @ [((a, b), r)]"
      using pair_not_used [OF Cons.prems(1,2) [unfolded e token] in_R [unfolded e token]] by (simp add: emplace_def)
    have "rules_of ?R (dn @ [e]) (acc @ [((a, b), r)])"
      by (rule rules_of_snoc [OF rules_of_more [OF Cons.prems(2)] in_R]) (simp add: e token)
    then obtain new' where "rs = (acc @ [((a, b), r)]) @ new'" "buildable (insert r (given_ids dn)) new'"
      using Cons.IH [of "dn @ [e]" "acc @ [((a, b), r)]"] Cons.prems(1) pq(4) unfolding new dn R by blast
    with given show ?thesis by (intro exI [of _ "((a, b), r) # new'"]) simp
  qed
qed

lemma recovered_tables:
  assumes "rank_file_ok R" "recover_byte_pair_bpe_ranks R = Inr rs"
  shows "tables_ok rs (fold (\<lambda>(pair, i). extend_vocab pair i) rs byte_vocab)"
  using recover_loop_buildable [of "[]" R "[]" rs] assms buildable_tables [OF byte_vocab_ok(1), of rs]
  by (simp add: recover_byte_pair_bpe_ranks_def rules_of_def given_ids_def byte_vocab_ok(2))


lemma RegisterSpecials_tables:
  "merges (RegisterSpecials tokens t) = merges t" "vocab (RegisterSpecials tokens t) = vocab t"
  "regexp_pattern (RegisterSpecials tokens t) = regexp_pattern t" "RegexTokenizer.more (RegisterSpecials tokens t) = RegexTokenizer.more t"
proof -
  have "merges (RegisterSpecials tokens t) = merges t \<and> vocab (RegisterSpecials tokens t) = vocab t \<and>
      regexp_pattern (RegisterSpecials tokens t) = regexp_pattern t \<and> RegexTokenizer.more (RegisterSpecials tokens t) = RegexTokenizer.more t"
    unfolding RegisterSpecials_def by (induction tokens arbitrary: t) (auto split: prod.split)
  then show "merges (RegisterSpecials tokens t) = merges t" "vocab (RegisterSpecials tokens t) = vocab t"
    "regexp_pattern (RegisterSpecials tokens t) = regexp_pattern t" "RegexTokenizer.more (RegisterSpecials tokens t) = RegexTokenizer.more t"
    by blast+
qed

lemma shuffles_more:
  "byte_shuffle t = byte_shuffle t' \<and> reversed_byte_shuffle t = reversed_byte_shuffle t'"
  if "RegexTokenizer.more t = RegexTokenizer.more (t' :: TiktokenTokenizer)" for t :: TiktokenTokenizer
  using that by (cases t; cases t') auto

definition shuffled :: "BPETokenRanks \<Rightarrow> nat \<Rightarrow> nat" where
  "shuffled R i = nat (the (map_of R [char_of i]))"

lemma shuffled_rank:
  assumes "rank_file_ok R" "i < 256"
  shows "([char_of i], int (shuffled R i)) \<in> set R" "shuffled R i < 256" "shuffle_entry R i = Inr (i, shuffled R i)"
proof -
  have "map_of R [char_of i] \<noteq> None" using assms unfolding rank_file_ok_def list_all_iff by (metis atLeastLessThan_iff le0 set_upt)
  then obtain r where r: "map_of R [char_of i] = Some r" by blast
  then have "([char_of i], r) \<in> set R" by (rule map_of_SomeD)
  note entry = rank_file_entry [OF assms(1) this]
  show "([char_of i], int (shuffled R i)) \<in> set R" "shuffled R i < 256" "shuffle_entry R i = Inr (i, shuffled R i)"
    using r entry \<open>([char_of i], r) \<in> set R\<close> by (auto simp: shuffled_def shuffle_entry_def lookup_at_def)
qed

lemma shuffled_inj: "rank_file_ok R \<Longrightarrow> inj_on (shuffled R) {..<256}"
proof (rule inj_onI)
  fix i j assume R: "rank_file_ok R" and ij: "i \<in> {..<256}" "j \<in> {..<256}" "shuffled R i = shuffled R j"
  have "[char_of i] = [char_of j :: char]"
    using rank_unique [OF R shuffled_rank(1) [OF R, of i]] shuffled_rank(1) [OF R, of j] ij by simp
  then have "of_char (char_of i) = (of_char (char_of j) :: nat)" by simp
  then show "i = j" using ij by simp
qed

lemma reversed_shuffle:
  assumes "distinct (map snd sh)" "(i, token) \<in> set sh"
  shows "map_of (fold (\<lambda>(i, token). AList.update token i) sh m) token = Some i"
proof -
  have keep: "token \<notin> snd ` set sh \<Longrightarrow> map_of (fold (\<lambda>(i, token). AList.update token i) sh m) token = map_of m token" for sh m
    by (induction sh arbitrary: m) (auto simp: update_conv')
  show ?thesis
    using assms
  proof (induction sh arbitrary: m)
    case (Cons e sh)
    then show ?case by (cases "e = (i, token)") (auto simp: keep update_conv')
  qed simp
qed

lemma shuffle_bytes_all:
  assumes "\<And>c. map_of sh (of_char c) = Some (f (of_char c))"
  shows "shuffle_bytes sh bytes = Inr (map (\<lambda>c. char_of (f (of_char c))) bytes)"
  unfolding shuffle_bytes_def by (intro mapR_all_Inr) (simp add: lookup_at_def assms)


text \<open>What a tokenizer built from a rank file consists of.\<close>

lemma FromTiktokenConfig_eq:
  assumes "rank_file_ok (mergeable_ranks config)" "recover_byte_pair_bpe_ranks (mergeable_ranks config) = Inr rs"
  shows "FromTiktokenConfig config = Inr (new_TiktokenTokenizer rs (fold (\<lambda>(pair, i). extend_vocab pair i) rs byte_vocab)
    (pat_str config) (config_special_tokens config) (map (\<lambda>i. (i, shuffled (mergeable_ranks config) i)) [0..<256]))"
proof -
  have "mapR (shuffle_entry (mergeable_ranks config)) [0..<256] = Inr (map (\<lambda>i. (i, shuffled (mergeable_ranks config) i)) [0..<256])"
    using shuffled_rank(3) [OF assms(1)] by (intro mapR_all_Inr) simp
  with assms(2) show ?thesis by (simp add: FromTiktokenConfig_def)
qed

lemma FromTiktokenConfig_parts:
  assumes "FromTiktokenConfig config = Inr t" "rank_file_ok (mergeable_ranks config)"
  shows "tables_ok (merges t) (vocab t)" "regexp_pattern t = pat_str config"
    "byte_shuffle t = map (\<lambda>i. (i, shuffled (mergeable_ranks config) i)) [0..<256]"
    "reversed_byte_shuffle t = fold (\<lambda>(i, token). AList.update token i) (byte_shuffle t) []"
proof -
  let ?R = "mergeable_ranks config"
  obtain rs where rec: "recover_byte_pair_bpe_ranks ?R = Inr rs" using assms(1) by (auto simp: FromTiktokenConfig_def bindR_Inr_iff)
  with FromTiktokenConfig_eq [OF assms(2)] assms(1) have rs: "recover_byte_pair_bpe_ranks ?R = Inr rs"
    "t = new_TiktokenTokenizer rs (fold (\<lambda>(pair, i). extend_vocab pair i) rs byte_vocab) (pat_str config)
      (config_special_tokens config) (map (\<lambda>i. (i, shuffled ?R i)) [0..<256])" by simp_all
  show "tables_ok (merges t) (vocab t)" "regexp_pattern t = pat_str config"
    using recovered_tables [OF assms(2) rs(1)] by (simp_all add: rs(2) new_TiktokenTokenizer_def RegisterSpecials_tables)
  show "byte_shuffle t = map (\<lambda>i. (i, shuffled ?R i)) [0..<256]"
    "reversed_byte_shuffle t = fold (\<lambda>(i, token). AList.update token i) (byte_shuffle t) []"
    unfolding rs(2) new_TiktokenTokenizer_def by (subst shuffles_more [OF RegisterSpecials_tables(4)]; simp)+
qed

lemma tiktoken_shuffles:
  assumes "FromTiktokenConfig config = Inr t" "rank_file_ok (mergeable_ranks config)"
  defines "h \<equiv> map (\<lambda>c. char_of (shuffled (mergeable_ranks config) (of_char c)) :: char)"
  shows "Tiktoken_HandleChunkBytes t bytes = Inr (h bytes)" "shuffle_bytes (reversed_byte_shuffle t) (h bytes) = Inr bytes"
proof -
  let ?s = "shuffled (mergeable_ranks config)"
  note parts = FromTiktokenConfig_parts [OF assms(1,2)]
  have "map_of (byte_shuffle t) (of_char c) = Some (?s (of_char c))" for c :: char
    unfolding parts(3) using nat_of_char_less_256 [of c] by (simp add: map_of_map_restrict restrict_map_def)
  then show "Tiktoken_HandleChunkBytes t bytes = Inr (h bytes)"
    by (simp add: Tiktoken_HandleChunkBytes_def shuffle_bytes_all h_def)
  have "distinct (map snd (byte_shuffle t))"
    using shuffled_inj [OF assms(2)] by (simp add: parts(3) comp_def distinct_map lessThan_atLeast0)
  then have rev: "map_of (reversed_byte_shuffle t) (?s i) = Some i" if "i < 256" for i
    unfolding parts(4) using that by (intro reversed_shuffle) (auto simp: parts(3))
  show "shuffle_bytes (reversed_byte_shuffle t) (h bytes) = Inr bytes"
    unfolding shuffle_bytes_def h_def mapR_map
  proof (rule trans [OF mapR_all_Inr [where g = "\<lambda>c. c"]])
    fix c :: char
    have "of_char (char_of (?s (of_char c)) :: char) = ?s (of_char c)" using shuffled_rank(2) [OF assms(2)] by simp
    then show "bindR (lookup_at (reversed_byte_shuffle t) (of_char (char_of (?s (of_char c)) :: char))) (\<lambda>b. Inr (char_of b)) = Inr c"
      by (simp add: lookup_at_def rev)
  qed simp
qed



text \<open>A rank file for the examples: bytes 0 and 1 have changed places, and there is one longer token.\<close>

definition demo_ranks :: BPETokenRanks where
  "demo_ranks = ([CHR 0x01], 0) # ([CHR 0x00], 1) # map (\<lambda>i. ([char_of i], int i)) [2..<256] @ [(''ab'', 256)]"

definition demo_config :: TiktokenConfig where
  "demo_config = \<lparr>pat_str = u ''.*'', mergeable_ranks = demo_ranks, config_special_tokens = [(u ''<end>'', 1000)]\<rparr>"

definition demo_tiktoken :: TiktokenTokenizer where
  "demo_tiktoken = new_TiktokenTokenizer [((97, 98), 256)] (extend_vocab (97, 98) 256 byte_vocab) (u ''.*'') [(u ''<end>'', 1000)]
     (map (\<lambda>i. (i, shuffled demo_ranks i)) [0..<256])"

lemma demo_ranks_keys: "distinct (map fst demo_ranks)" "fst ` set demo_ranks = insert ''ab'' ((\<lambda>i. [char_of i]) ` {..<256 :: nat})"
proof -
  have inj: "inj_on (\<lambda>i. [char_of i :: char]) {..<256 :: nat}"
    by (rule inj_onI) (metis lessThan_iff list.inject mod_less of_char_of)
  have keys: "map fst demo_ranks = map (\<lambda>i. [char_of i]) (1 # 0 # [2..<256 :: nat]) @ [''ab'']" by (simp add: demo_ranks_def comp_def demo_chars(3,4) del: upt_rec_numeral)
  have all: "set (1 # 0 # [2..<256 :: nat]) = {..<256}" by (auto simp del: upt_rec_numeral)
  show "distinct (map fst demo_ranks)"
    unfolding keys distinct_append distinct_map all using inj by (auto simp del: upt_rec_numeral)
  show "fst ` set demo_ranks = insert ''ab'' ((\<lambda>i. [char_of i]) ` {..<256 :: nat})"
    unfolding set_map [symmetric] keys set_append unfolding set_map all by simp
qed

lemma demo_ranks_lookup:
  "map_of demo_ranks ''ab'' = Some 256" "map_of demo_ranks ''a'' = Some 97" "map_of demo_ranks ''b'' = Some 98"
proof -
  have "(''ab'', 256) \<in> set demo_ranks" by (simp add: demo_ranks_def)
  moreover have "(''a'', 97) \<in> set demo_ranks" "(''b'', 98) \<in> set demo_ranks"
    unfolding demo_ranks_def demo_chars(5,6) by (simp_all add: image_iff del: upt_rec_numeral)
  ultimately show "map_of demo_ranks ''ab'' = Some 256" "map_of demo_ranks ''a'' = Some 97" "map_of demo_ranks ''b'' = Some 98"
    by (simp_all only: map_of_eq_Some_iff [OF demo_ranks_keys(1)])
qed

lemma demo_rank_file: "rank_file_ok (mergeable_ranks demo_config)"
proof -
  have "sorted_wrt (<) (map snd demo_ranks)" by (auto simp: demo_ranks_def sorted_wrt_append sorted_wrt_map comp_def simp del: upt_rec_numeral)
  moreover have "map_of demo_ranks [char_of i] \<noteq> None" if "i < 256" for i :: nat
    using demo_ranks_keys(2) that unfolding map_of_eq_None_iff by auto
  moreover have "list_all (\<lambda>(token, r). token \<noteq> [] \<and> 0 \<le> r \<and> (length token = 1 \<longleftrightarrow> r < 256)) demo_ranks"
    by (auto simp: demo_ranks_def list_all_iff simp del: upt_rec_numeral)
  ultimately show ?thesis
    using demo_ranks_keys(1) unfolding rank_file_ok_def demo_config_def by (simp add: list_all_iff del: upt_rec_numeral)
qed

lemma recover_loop_singles:
  "list_all (\<lambda>e. length (fst e) = 1) es \<Longrightarrow> recover_loop R (es @ es') acc = recover_loop R es' acc"
  by (induction es) auto

lemma demo_FromTiktokenConfig: "FromTiktokenConfig demo_config = Inr demo_tiktoken"
proof -
  obtain es where es: "demo_ranks = es @ [(''ab'', 256)]" "list_all (\<lambda>e. length (fst e) = 1) es"
    by (rule that [of "([CHR 0x01], 0) # ([CHR 0x00], 1) # map (\<lambda>i. ([char_of i], int i)) [2..<256]"])
      (simp_all add: demo_ranks_def list_all_iff del: upt_rec_numeral)
  have "bpe demo_ranks ''ab'' 256 = Inr [''a'', ''b'']"
    by (simp add: bpe_def bpe_loop.simps [of demo_ranks] part_rank_def demo_ranks_lookup)
  then have "recover_loop demo_ranks [(''ab'', 256)] [] = Inr [((97, 98), 256)]"
    by (simp add: lookup_at_def demo_ranks_lookup emplace_def)
  then have "recover_byte_pair_bpe_ranks demo_ranks = Inr [((97, 98), 256)]"
    using recover_loop_singles [OF es(2), of demo_ranks "[(''ab'', 256)]" "[]"] es(1) by (simp add: recover_byte_pair_bpe_ranks_def)
  then show ?thesis
    using FromTiktokenConfig_eq [OF demo_rank_file] by (simp add: demo_config_def demo_tiktoken_def del: upt_rec_numeral)
qed

lemma demo_tiktoken_specials: "special_tokens demo_tiktoken = [(u ''<end>'', 1000)]"
  by (simp add: demo_tiktoken_def new_TiktokenTokenizer_def RegisterSpecials_def del: upt_rec_numeral)


section \<open>What goes wrong\<close>

text \<open>Every round of the training merges something, so the text is used up sooner or later.\<close>

lemma merge_total_le: "sum_list (map (\<lambda>ids. length (merge_u32_ids p idx ids)) idss) \<le> sum_list (map length idss)"
  by (rule sum_list_mono) (rule merge_u32_ids_length)

lemma merge_total_less:
  assumes "ids \<in> set idss" "p \<in> set (adjacent ids)"
  shows "sum_list (map (\<lambda>ids. length (merge_u32_ids p idx ids)) idss) < sum_list (map length idss)"
proof -
  obtain xs ys where "idss = xs @ ids # ys" using assms(1) by (auto simp: in_set_conv_decomp)
  then show ?thesis
    using merge_u32_ids_shorter [OF assms(2), of idx] merge_total_le [of p idx xs] merge_total_le [of p idx ys] by simp
qed

lemma Train_loop_bound: "Train_loop n idx idss ranks v = Inr res \<Longrightarrow> n \<le> sum_list (map length idss)"
proof (induction n arbitrary: idx idss ranks v)
  case (Suc n)
  then obtain stats p where p: "pairs_of_chunks idss [] = Inr stats" "get_max_pair stats = Inr p"
    "Train_loop n (idx + 1) (map (merge_u32_ids p idx) idss) (AList.update p idx ranks) (extend_vocab p idx v) = Inr res"
    by (auto simp: bindR_Inr_iff)
  from get_max_pair_in [OF p(2)] pairs_of_chunks_keys [OF p(1)] obtain ids
    where "ids \<in> set idss" "p \<in> set (adjacent ids)" by auto
  then have "sum_list (map (\<lambda>ids. length (merge_u32_ids p idx ids)) idss) < sum_list (map length idss)"
    by (rule merge_total_less)
  with Suc.IH [OF p(3)] show ?case by (simp add: comp_def)
qed simp


lemma pairs_of_chunks_error: "pairs_of_chunks idss stats = Inl e \<Longrightarrow> e = UndefinedBehaviour"
  by (induction idss arbitrary: stats) (auto simp: compute_pairs_state_def split: if_splits)

lemma Train_loop_error: "Train_loop n idx idss ranks v = Inl e \<Longrightarrow> e = UndefinedBehaviour"
proof (induction n arbitrary: idx idss ranks v)
  case (Suc n)
  then show ?case
    by (cases "pairs_of_chunks idss []"; cases "get_max_pair (projr (pairs_of_chunks idss []))")
      (auto simp: get_max_pair_def dest: pairs_of_chunks_error split: option.splits)
qed simp

text \<open>
  Training must be given enough text: every new token takes at least one byte of it away. If more
  tokens are asked for than the text has bytes, the search for the most frequent pair runs on an
  empty table and dereferences its end.
\<close>

theorem Train_needs_text:
  assumes "find_all_with_regex icu sample (regexp_pattern t) = Inr chunks"
    "vocab_size > 256 + int (sum_list (map (\<lambda>c. length (to_utf8 icu c)) chunks))"
  shows "Train icu sample vocab_size t = (Inl UndefinedBehaviour, t)"
proof -
  let ?idss = "map (\<lambda>chunk. byte_ids (to_utf8 icu chunk)) chunks"
  have size: "\<not> nat (vocab_size - 256) \<le> sum_list (map length ?idss)" using assms(2) by (simp add: comp_def byte_ids_def)
  obtain e where "Train_loop (nat (vocab_size - 256)) 256 ?idss [] byte_vocab = Inl e"
    using Train_loop_bound size by (metis sum.exhaust)
  moreover from this have "e = UndefinedBehaviour" by (rule Train_loop_error)
  moreover have "\<not> vocab_size < 256" using assms(2) by linarith
  ultimately show ?thesis using assms(1) by (simp add: Train_def)
qed

lemma touch_special_keeps: "map_of (special_tokens t) k = Some x \<Longrightarrow> map_of (special_tokens (fold touch_special ts t)) k = Some x"
  by (induction ts arbitrary: t) (auto simp: touch_special_def emplace_def)

lemma touch_special_enters:
  "k \<in> set ts \<Longrightarrow> map_of (special_tokens t) k = None \<Longrightarrow> map_of (special_tokens (fold touch_special ts t)) k = Some 0"
proof (induction ts arbitrary: t)
  case (Cons a ts)
  show ?case
  proof (cases "k = a")
    case True
    with Cons.prems(2) have "map_of (special_tokens (touch_special a t)) k = Some 0"
      by (simp add: touch_special_def emplace_def map_add_def)
    then show ?thesis by (simp add: touch_special_keeps)
  next
    case False
    with Cons.prems have "k \<in> set ts" "map_of (special_tokens (touch_special a t)) k = None" by (simp_all add: touch_special_def emplace_def)
    from Cons.IH [OF this] show ?thesis by simp
  qed
qed simp

text \<open>
  Encoding with a selection of special tokens never works, and it spoils the tokenizer: it always
  throws, and every selected token that was unknown is from then on a special token with id 0.
\<close>

theorem Encode_some_specials:
  assumes "allow_special options = kSome"
  shows "\<exists>t'. Encode icu handle text options t = (Inl (InstinctException ''allowd_special unspecified''), t') \<and>
    (\<forall>token \<in> set (specials options). map_of (special_tokens t) token = None \<longrightarrow>
      encode_piece icu (handle t') t' (special_tokens t') token = Inr [0])"
  using assms by (auto simp: Encode_def allowed_specials_def bindE_assoc encode_piece_def touch_special_enters)

lemma buildable_dom:
  assumes "buildable (dom (map_of v)) rs"
  shows "dom (map_of (fold (\<lambda>(pair, i). extend_vocab pair i) rs v)) = dom (map_of v) \<union> snd ` set rs"
  using assms
proof (induction rs arbitrary: v)
  case (Cons e rs)
  obtain a b i where e: "e = ((a, b), i)" by (metis prod.exhaust)
  have "known v [a, b]" using Cons.prems by (simp add: e)
  then have "dom (map_of (extend_vocab (a, b) i v)) = insert i (dom (map_of v))" by (simp add: map_of_extend_vocab)
  with Cons.IH [of "extend_vocab (a, b) i v"] Cons.prems show ?case by (simp add: e)
qed simp

lemma recover_loop_ranks: "recover_loop R es acc = Inr rs \<Longrightarrow> snd ` set rs \<subseteq> snd ` set acc \<union> snd ` set es"
proof (induction R es acc rule: recover_loop.induct)
  case (2 ranks token rank entries acc)
  show ?case
  proof (cases "length token = 1")
    case True
    with 2 show ?thesis by auto
  next
    case False
    from recover_loop_rule [OF 2(3) False] obtain p q a b where "bpe ranks token rank = Inr [p, q]" "map_of ranks p = Some a"
      "map_of ranks q = Some b" "recover_loop ranks entries (emplace (a, b) rank acc) = Inr rs" .
    with 2(2) [OF False, of "[p, q]" a b] show ?thesis by (auto simp: lookup_at_def emplace_def split: if_splits)
  qed
qed simp

lemma tiktoken_vocab_dom:
  assumes "FromTiktokenConfig config = Inr t" "rank_file_ok (mergeable_ranks config)"
  shows "dom (map_of (vocab t)) \<subseteq> {0..<256} \<union> snd ` set (mergeable_ranks config)"
proof -
  obtain rs where rs: "recover_byte_pair_bpe_ranks (mergeable_ranks config) = Inr rs"
    "vocab t = fold (\<lambda>(pair, i). extend_vocab pair i) rs byte_vocab"
    using assms(1) by (auto simp: FromTiktokenConfig_def Let_def bindR_Inr_iff new_TiktokenTokenizer_def RegisterSpecials_tables)
  moreover from rs(1) have "buildable (dom (map_of byte_vocab)) rs"
    using recover_loop_buildable [of "[]" "mergeable_ranks config" "[]" rs] assms(2)
    by (simp add: recover_byte_pair_bpe_ranks_def rules_of_def given_ids_def byte_vocab_ok(2))
  ultimately show ?thesis
    using recover_loop_ranks [of "mergeable_ranks config" "mergeable_ranks config" "[]" rs]
    by (auto simp: buildable_dom byte_vocab_ok(2) recover_byte_pair_bpe_ranks_def)
qed

lemma mapR_Inl: "mapR f xs = Inr ys \<Longrightarrow> f x = Inl e \<Longrightarrow> mapR f (xs @ x # zs) = Inl e"
  by (induction xs arbitrary: ys) (auto simp: bindR_Inr_iff)

text \<open>
  Special tokens are encoded but cannot be decoded: an id that is not a rank of the file makes
  \<open>Decode\<close> throw, although the tokenizer knows the text it stands for.
\<close>

theorem Tiktoken_special_not_decoded:
  assumes "FromTiktokenConfig config = Inr t" "rank_file_ok (mergeable_ranks config)"
    "i \<ge> 256" "i \<notin> snd ` set (mergeable_ranks config)" "Tiktoken_Decode icu t before = Inr x"
  shows "Tiktoken_Decode icu t (before @ i # after) = Inl OutOfRange"
proof -
  have "map_of (vocab t) i = None" using tiktoken_vocab_dom [OF assms(1,2)] assms(3,4) by (auto simp: domIff)
  then have "lookup_at (vocab t) i = Inl OutOfRange" by (simp add: lookup_at_def)
  moreover obtain ys where "mapR (lookup_at (vocab t)) before = Inr ys" using assms(5) by (auto simp: Tiktoken_Decode_def bindR_Inr_iff)
  ultimately show ?thesis using mapR_Inl by (fastforce simp: Tiktoken_Decode_def)
qed


theorem Tiktoken_special_not_decoded_witness:
  "Tiktoken_Decode demo_icu demo_tiktoken ([] @ 1000 # [97]) = Inl OutOfRange"
proof (rule Tiktoken_special_not_decoded [OF demo_FromTiktokenConfig demo_rank_file])
  show "1000 \<notin> snd ` set (mergeable_ranks demo_config)" by (auto simp: demo_config_def demo_ranks_def simp del: upt_rec_numeral)
  show "Tiktoken_Decode demo_icu demo_tiktoken [] = Inr []" by (simp add: Tiktoken_Decode_def shuffle_bytes_def demo_icu_def)
qed simp

theorem Train_needs_text_witness:
  "Train demo_icu (u ''aab'') 300 demo_tokenizer = (Inl UndefinedBehaviour, demo_tokenizer)"
  by (rule Train_needs_text [of _ _ _ "[u ''aab'']"])
    (simp_all add: find_all_with_regex_def demo_icu_def u_def)

theorem Encode_some_specials_witness:
  "\<exists>t'. Encode demo_icu (\<lambda>_. Inr) (u ''abc'') \<lparr>allow_special = kSome, specials = [u ''<x>'']\<rparr> demo_tokenizer =
      (Inl (InstinctException ''allowd_special unspecified''), t') \<and> encode_piece demo_icu Inr t' (special_tokens t') (u ''<x>'') = Inr [0]"
proof -
  have "map_of (special_tokens demo_tokenizer) (u ''<x>'') = None" by code_simp
  then show ?thesis
    using Encode_some_specials [of "\<lparr>allow_special = kSome, specials = [u ''<x>'']\<rparr>" demo_icu "\<lambda>_. Inr" "u ''abc''" demo_tokenizer]
    by fastforce
qed

end
