(* ===== verification/SQL_Builder.thy ===== *)
theory SQL_Builder
  imports Document_Utils Snowflake
begin

text \<open>
  \<^verbatim>\<open>instinct-retrieval/include/store/SQLBuilder.hpp\<close>: search queries and the SQL text made of
  them. \<open>fmt_double\<close> is how the formatting library prints a \<open>double\<close>, a parameter;
  \<open>std::to_string\<close> of a \<open>double\<close> prints six decimals, rounded to the nearest and to even
  when two are as near.
\<close>

section \<open>Queries\<close>

record PrimitiveValue =
  value_kind :: PrimitiveKind
  value_is_null :: bool

datatype SearchQuery =
    QueryNotSet
  | BoolQuery (must: "SearchQuery list") (should: "SearchQuery list") (mustnot: "SearchQuery list")
  | TermQuery string PrimitiveValue
  | TermsQuery string "PrimitiveValue list"
  | IntRangeQuery string "int option" "int option" bool bool
  | DoubleRangeQuery string "rat option" "rat option" bool bool

datatype SortOder = DESC | ASC

text \<open>A sorter whose \<open>oneof\<close> is not set is \<open>None\<close>.\<close>

type_synonym Sorter = "(string \<times> SortOder) option"

section \<open>Values\<close>

definition round_half_even :: "rat \<Rightarrow> int" where
  "round_half_even x =
     (let n = \<lfloor>x\<rfloor>; d = x - of_int n in
      if d < 1 / 2 then n else if d > 1 / 2 then n + 1 else if even n then n else n + 1)"

fun pad_left :: "nat \<Rightarrow> string \<Rightarrow> string" where
  "pad_left n s = replicate (n - length s) (CHR ''0'') @ s"

definition to_string_double :: "rat \<Rightarrow> string" where
  "to_string_double x =
     (let n = nat (round_half_even (\<bar>x\<bar> * 1000000)) in
      (if x < 0 then ''-'' else []) @ show_nat (n div 1000000) @ ''.'' @ pad_left 6 (show_nat (n mod 1000000)))"

text \<open>For a \<open>long\<close> the code prints the \<open>double\<close> member, which is not the one set.\<close>

definition build_term_value :: "PrimitiveValue \<Rightarrow> string" where
  "build_term_value v =
     (if value_is_null v then ''NULL''
      else case value_kind v of
        DoubleValue x \<Rightarrow> to_string_double x
      | FloatValue x \<Rightarrow> to_string_double x
      | IntValue n \<Rightarrow> show_int n
      | LongValue n \<Rightarrow> to_string_double 0
      | BoolValue b \<Rightarrow> (if b then ''1'' else ''0'')
      | StringValue s \<Rightarrow> [CHR 0x27] @ EscapeSQLText s @ [CHR 0x27]
      | BytesValue _ \<Rightarrow> []
      | ValueNotSet \<Rightarrow> [])"

section \<open>Conditions\<close>

definition join_ranges :: "string list \<Rightarrow> string" where
  "join_ranges ranges =
     (if ranges = [] then []
      else if length ranges > 1 then ''('' @ JoinWith ranges '' AND '' @ '')'' else ranges ! 0)"

definition lower_bound :: "string \<Rightarrow> bool \<Rightarrow> string \<Rightarrow> string" where
  "lower_bound name inclusive_start n = name @ (if inclusive_start then '' >= '' else '' > '') @ n"

definition upper_bound :: "string \<Rightarrow> bool \<Rightarrow> string \<Rightarrow> string" where
  "upper_bound name inclusive_end n = name @ (if inclusive_end then '' <= '' else '' < '') @ n"

definition range_parts :: "string \<Rightarrow> ('a \<Rightarrow> string) \<Rightarrow> 'a option \<Rightarrow> 'a option \<Rightarrow> bool \<Rightarrow> bool \<Rightarrow> string list" where
  "range_parts name print from to' inclusive_start inclusive_end =
     (case from of None \<Rightarrow> [] | Some n \<Rightarrow> [lower_bound name inclusive_start (print n)]) @
     (case to' of None \<Rightarrow> [] | Some n \<Rightarrow> [upper_bound name inclusive_end (print n)])"

definition build_int_range_query :: "string \<Rightarrow> int option \<Rightarrow> int option \<Rightarrow> bool \<Rightarrow> bool \<Rightarrow> string" where
  "build_int_range_query name from to' s e = join_ranges (range_parts name show_int from to' s e)"

definition build_double_range_query :: "(rat \<Rightarrow> string) \<Rightarrow> string \<Rightarrow> rat option \<Rightarrow> rat option \<Rightarrow> bool \<Rightarrow> bool \<Rightarrow> string" where
  "build_double_range_query fmt_double name from to' s e = join_ranges (range_parts name fmt_double from to' s e)"

definition build_term_query :: "string \<Rightarrow> PrimitiveValue \<Rightarrow> string" where
  "build_term_query name v = name @ '' = '' @ build_term_value v"

definition build_terms_query :: "string \<Rightarrow> PrimitiveValue list \<Rightarrow> string" where
  "build_terms_query name vs = name @ '' IN ('' @ JoinWith (map build_term_value vs) '', '' @ '')''"

text \<open>One group of a \<open>bool\<close> query, from the text of its members: \<open>prefix\<close> before each.\<close>

fun group_loop :: "string \<Rightarrow> string \<Rightarrow> string list \<Rightarrow> string" where
  "group_loop prefix separator [] = []"
| "group_loop prefix separator [p] = prefix @ p"
| "group_loop prefix separator (p # q # ps) = prefix @ p @ separator @ group_loop prefix separator (q # ps)"

definition bool_group :: "string \<Rightarrow> string \<Rightarrow> string list \<Rightarrow> string list" where
  "bool_group prefix separator ps =
     (if ps = [] then []
      else if length ps > 1 then [''('' @ group_loop prefix separator ps @ '')''] else [prefix @ ps ! 0])"

definition build_bool_query :: "string list \<Rightarrow> string list \<Rightarrow> string list \<Rightarrow> string" where
  "build_bool_query must_texts should_texts mustnot_texts =
     JoinWith (bool_group [] '' AND '' must_texts @ bool_group [] '' OR '' should_texts @
       bool_group ''NOT '' '' AND '' mustnot_texts) '' AND ''"

fun build_search_query :: "(rat \<Rightarrow> string) \<Rightarrow> SearchQuery \<Rightarrow> string" where
  "build_search_query fmt_double (BoolQuery m s n) =
     build_bool_query (map (build_search_query fmt_double) m) (map (build_search_query fmt_double) s)
       (map (build_search_query fmt_double) n)"
| "build_search_query fmt_double (TermQuery name v) = build_term_query name v"
| "build_search_query fmt_double (TermsQuery name vs) = build_terms_query name vs"
| "build_search_query fmt_double (DoubleRangeQuery name from to' s e) = build_double_range_query fmt_double name from to' s e"
| "build_search_query fmt_double (IntRangeQuery name from to' s e) = build_int_range_query name from to' s e"
| "build_search_query fmt_double QueryNotSet = []"

section \<open>Statements\<close>

definition sort_string :: "string \<times> SortOder \<Rightarrow> string" where
  "sort_string so = fst so @ '' '' @ (if snd so = DESC then ''DESC'' else ''ASC'')"

definition build_sorters :: "Sorter list \<Rightarrow> string" where
  "build_sorters sorters =
     (let sort_strings = map sort_string (List.map_filter id sorters) in
      if sort_strings \<noteq> [] then ''ORDER BY '' @ JoinWith sort_strings '', '' else [])"

definition where_parts :: "(rat \<Rightarrow> string) \<Rightarrow> SearchQuery \<Rightarrow> string list" where
  "where_parts fmt_double search_query =
     (if search_query \<noteq> QueryNotSet then [''WHERE'', build_search_query fmt_double search_query] else [])"

definition ToSelectString :: "(rat \<Rightarrow> string) \<Rightarrow> string \<Rightarrow> string \<Rightarrow> SearchQuery \<Rightarrow> Sorter list \<Rightarrow> int \<Rightarrow> int \<Rightarrow> string" where
  "ToSelectString fmt_double table_name column_list search_query sorters offset limit =
     JoinWith ([''SELECT'', column_list, ''FROM'', table_name] @ where_parts fmt_double search_query @
       (if sorters \<noteq> [] then [build_sorters sorters] else []) @
       (if limit > 0 then [''LIMIT'', show_int limit] else []) @
       (if offset > 0 then [''OFFSET'', show_int offset] else [])) '' '' @ '';''"

definition ToDeleteString :: "(rat \<Rightarrow> string) \<Rightarrow> string \<Rightarrow> SearchQuery \<Rightarrow> string" where
  "ToDeleteString fmt_double table_name search_query =
     JoinWith ([''DELETE'', ''FROM'', table_name] @ where_parts fmt_double search_query) '' '' @ '';''"

section \<open>Tokens of a condition\<close>

text \<open>
  A condition as the database reads it: comparisons, parentheses and the three connectives, of which
  \<open>NOT\<close> binds tighter than \<open>AND\<close> and \<open>AND\<close> tighter than \<open>OR\<close>.
\<close>

datatype tok = LP | RP | AND_tok | OR_tok | NOT_tok | Atom string

fun tok_text :: "tok \<Rightarrow> string" where
  "tok_text LP = ''(''"
| "tok_text RP = '')''"
| "tok_text AND_tok = '' AND ''"
| "tok_text OR_tok = '' OR ''"
| "tok_text NOT_tok = ''NOT ''"
| "tok_text (Atom s) = s"

definition render :: "tok list \<Rightarrow> string" where
  "render ts = concat (map tok_text ts)"

datatype cond = Cmp string | NotC cond | AndC cond cond | OrC cond cond

fun read_or :: "nat \<Rightarrow> tok list \<Rightarrow> (cond \<times> tok list) option"
  and read_and :: "nat \<Rightarrow> tok list \<Rightarrow> (cond \<times> tok list) option"
  and read_not :: "nat \<Rightarrow> tok list \<Rightarrow> (cond \<times> tok list) option" where
  "read_or 0 ts = None"
| "read_or (Suc n) ts =
     (case read_and n ts of
        Some (c, OR_tok # rest) \<Rightarrow> map_option (apfst (OrC c)) (read_or n rest)
      | r \<Rightarrow> r)"
| "read_and 0 ts = None"
| "read_and (Suc n) ts =
     (case read_not n ts of
        Some (c, AND_tok # rest) \<Rightarrow> map_option (apfst (AndC c)) (read_and n rest)
      | r \<Rightarrow> r)"
| "read_not 0 ts = None"
| "read_not (Suc n) (NOT_tok # ts) = map_option (apfst NotC) (read_not n ts)"
| "read_not (Suc n) (LP # ts) =
     (case read_or n ts of
        Some (c, RP # rest) \<Rightarrow> Some (c, rest)
      | _ \<Rightarrow> None)"
| "read_not (Suc n) (Atom s # ts) = Some (Cmp s, ts)"
| "read_not (Suc n) _ = None"

fun eval_cond :: "(string \<Rightarrow> bool) \<Rightarrow> cond \<Rightarrow> bool" where
  "eval_cond v (Cmp s) = v s"
| "eval_cond v (NotC c) = (\<not> eval_cond v c)"
| "eval_cond v (AndC c d) = (eval_cond v c \<and> eval_cond v d)"
| "eval_cond v (OrC c d) = (eval_cond v c \<or> eval_cond v d)"

fun join_tokens :: "tok \<Rightarrow> tok list list \<Rightarrow> tok list" where
  "join_tokens sep [] = []"
| "join_tokens sep [t] = t"
| "join_tokens sep (t # u # ts) = t @ sep # join_tokens sep (u # ts)"

definition range_tokens :: "string list \<Rightarrow> tok list" where
  "range_tokens parts =
     (if length parts > 1 then LP # join_tokens AND_tok (map (\<lambda>p. [Atom p]) parts) @ [RP] else map Atom parts)"

definition group_tokens :: "tok list \<Rightarrow> tok \<Rightarrow> tok list list \<Rightarrow> tok list list" where
  "group_tokens prefix sep ts =
     (if ts = [] then []
      else if length ts > 1 then [LP # join_tokens sep (map (\<lambda>t. prefix @ t) ts) @ [RP]] else [prefix @ ts ! 0])"

fun query_tokens :: "(rat \<Rightarrow> string) \<Rightarrow> SearchQuery \<Rightarrow> tok list" where
  "query_tokens f (BoolQuery m s n) =
     join_tokens AND_tok (group_tokens [] AND_tok (map (query_tokens f) m) @ group_tokens [] OR_tok (map (query_tokens f) s) @
       group_tokens [NOT_tok] AND_tok (map (query_tokens f) n))"
| "query_tokens f (TermQuery name v) = [Atom (build_term_query name v)]"
| "query_tokens f (TermsQuery name vs) = [Atom (build_terms_query name vs)]"
| "query_tokens f (DoubleRangeQuery name from to' s e) = range_tokens (range_parts name f from to' s e)"
| "query_tokens f (IntRangeQuery name from to' s e) = range_tokens (range_parts name show_int from to' s e)"
| "query_tokens f QueryNotSet = []"

text \<open>What a query is meant to say, given which comparisons hold.\<close>

fun query_holds :: "(rat \<Rightarrow> string) \<Rightarrow> SearchQuery \<Rightarrow> (string \<Rightarrow> bool) \<Rightarrow> bool" where
  "query_holds f (BoolQuery m s n) v =
     (list_all (\<lambda>q. query_holds f q v) m \<and> (s = [] \<or> list_ex (\<lambda>q. query_holds f q v) s) \<and>
      list_all (\<lambda>q. \<not> query_holds f q v) n)"
| "query_holds f (TermQuery name x) v = v (build_term_query name x)"
| "query_holds f (TermsQuery name xs) v = v (build_terms_query name xs)"
| "query_holds f (DoubleRangeQuery name from to' s e) v = list_all v (range_parts name f from to' s e)"
| "query_holds f (IntRangeQuery name from to' s e) v = list_all v (range_parts name show_int from to' s e)"
| "query_holds f QueryNotSet v = True"

text \<open>Every part of the query has something to say.\<close>

fun complete :: "SearchQuery \<Rightarrow> bool" where
  "complete (BoolQuery m s n) = (m @ s @ n \<noteq> [] \<and> list_all complete m \<and> list_all complete s \<and> list_all complete n)"
| "complete (DoubleRangeQuery name from to' s e) = (from \<noteq> None \<or> to' \<noteq> None)"
| "complete (IntRangeQuery name from to' s e) = (from \<noteq> None \<or> to' \<noteq> None)"
| "complete (TermQuery name v) = True"
| "complete (TermsQuery name vs) = True"
| "complete QueryNotSet = False"

text \<open>Queries whose text is one operand of \<open>NOT\<close>, and queries that negate only such ones.\<close>

fun tight :: "SearchQuery \<Rightarrow> bool" where
  "tight (BoolQuery [q] [] []) = tight q"
| "tight (BoolQuery [] [q] []) = tight q"
| "tight (BoolQuery m s n) = (length (filter (\<lambda>g. g \<noteq> []) [m, s, n]) = 1)"
| "tight _ = True"

fun negates_tight :: "SearchQuery \<Rightarrow> bool" where
  "negates_tight (BoolQuery m s n) =
     (list_all negates_tight m \<and> list_all negates_tight s \<and> list_all negates_tight n \<and> list_all tight n)"
| "negates_tight _ = True"

section \<open>The text and its tokens\<close>

lemma JoinWith_render: "JoinWith (map render ts) (tok_text sep) = render (join_tokens sep ts)"
proof -
  have "intersperse_join (tok_text sep) (map render ts) = render (join_tokens sep ts)"
    by (induction sep ts rule: join_tokens.induct) (simp_all add: render_def)
  then show ?thesis by (simp add: JoinWith_eq)
qed

lemma render_simps [simp]:
  "render [] = []" "render (t # ts) = tok_text t @ render ts" "render (ts @ us) = render ts @ render us"
  by (simp_all add: render_def)

lemma group_loop_render:
  "group_loop (render prefix) (tok_text sep) (map render ts) = render (join_tokens sep (map (\<lambda>t. prefix @ t) ts))"
  by (induction sep ts rule: join_tokens.induct) simp_all

lemma bool_group_render:
  "bool_group (render prefix) (tok_text sep) (map render ts) = map render (group_tokens prefix sep ts)"
  using group_loop_render [of prefix sep ts] by (cases ts) (auto simp: bool_group_def group_tokens_def)

lemma join_ranges_render: "join_ranges parts = render (range_tokens parts)"
proof -
  have "JoinWith parts '' AND '' = render (join_tokens AND_tok (map (\<lambda>p. [Atom p]) parts))"
    using JoinWith_render [of "map (\<lambda>p. [Atom p]) parts" AND_tok] by (simp add: comp_def)
  then show ?thesis by (cases parts) (auto simp: join_ranges_def range_tokens_def)
qed

theorem build_search_query_render: "build_search_query f q = render (query_tokens f q)"
proof (induction f q rule: build_search_query.induct)
  case (1 f m s n)
  then have "map (build_search_query f) m = map render (map (query_tokens f) m)"
    and "map (build_search_query f) s = map render (map (query_tokens f) s)"
    and "map (build_search_query f) n = map render (map (query_tokens f) n)"
    by simp_all
  then show ?case
    using bool_group_render [of "[]" AND_tok "map (query_tokens f) m"] bool_group_render [of "[]" OR_tok "map (query_tokens f) s"]
      bool_group_render [of "[NOT_tok]" AND_tok "map (query_tokens f) n"] JoinWith_render [of _ AND_tok]
    by (simp add: build_bool_query_def flip: map_append del: map_map)
qed (simp_all add: build_double_range_query_def build_int_range_query_def join_ranges_render)

section \<open>What the tokens are read as\<close>

text \<open>
  Token lists that are read as an operand of \<open>NOT\<close>, as a conjunction and as a disjunction with a
  given meaning, whatever follows them.
\<close>

definition operand_of :: "tok list \<Rightarrow> ((string \<Rightarrow> bool) \<Rightarrow> bool) \<Rightarrow> bool" where
  "operand_of ts m \<longleftrightarrow>
     (\<exists>c k. (\<forall>v. eval_cond v c = m v) \<and> (\<forall>n \<ge> k. \<forall>rest. read_not n (ts @ rest) = Some (c, rest)))"

inductive conj_of :: "tok list \<Rightarrow> ((string \<Rightarrow> bool) \<Rightarrow> bool) \<Rightarrow> bool" where
  conj_operand: "operand_of ts m \<Longrightarrow> conj_of ts m"
| conj_and: "operand_of ts m \<Longrightarrow> conj_of us k \<Longrightarrow> conj_of (ts @ AND_tok # us) (\<lambda>v. m v \<and> k v)"

inductive disj_of :: "tok list \<Rightarrow> ((string \<Rightarrow> bool) \<Rightarrow> bool) \<Rightarrow> bool" where
  disj_conj: "conj_of ts m \<Longrightarrow> disj_of ts m"
| disj_or: "conj_of ts m \<Longrightarrow> disj_of us k \<Longrightarrow> disj_of (ts @ OR_tok # us) (\<lambda>v. m v \<or> k v)"

lemma read_and_end:
  "read_not n ts = Some (c, rest) \<Longrightarrow> rest = [] \<or> hd rest \<noteq> AND_tok \<Longrightarrow> read_and (Suc n) ts = Some (c, rest)"
  by (auto split: list.split tok.split)

lemma read_and_more:
  "read_not n ts = Some (c, AND_tok # us) \<Longrightarrow> read_and n us = Some (d, rest) \<Longrightarrow> read_and (Suc n) ts = Some (AndC c d, rest)"
  by simp

lemma read_or_end:
  "read_and n ts = Some (c, rest) \<Longrightarrow> rest = [] \<or> hd rest = RP \<Longrightarrow> read_or (Suc n) ts = Some (c, rest)"
  by (auto split: list.split tok.split)

lemma read_or_more:
  "read_and n ts = Some (c, OR_tok # us) \<Longrightarrow> read_or n us = Some (d, rest) \<Longrightarrow> read_or (Suc n) ts = Some (OrC c d, rest)"
  by simp

lemma operandI:
  assumes "\<And>v. eval_cond v c = m v" and "\<And>n rest. n \<ge> k \<Longrightarrow> read_not (Suc n) (ts @ rest) = Some (c, rest)"
  shows "operand_of ts m"
proof -
  have "read_not n (ts @ rest) = Some (c, rest)" if "n \<ge> Suc k" for n rest
    using that assms(2) [of "n - 1" rest] by (cases n) simp_all
  then show ?thesis using assms(1) unfolding operand_of_def by blast
qed

lemma operand_atom: "operand_of [Atom s] (\<lambda>v. v s)"
  by (rule operandI [where c = "Cmp s" and k = 0]) simp_all

lemma operand_not:
  assumes "operand_of ts m"
  shows "operand_of (NOT_tok # ts) (\<lambda>v. \<not> m v)"
proof -
  obtain c k where "\<forall>v. eval_cond v c = m v" "\<forall>n \<ge> k. \<forall>rest. read_not n (ts @ rest) = Some (c, rest)"
    using assms unfolding operand_of_def by blast
  then show ?thesis by (intro operandI [where c = "NotC c" and k = k]) simp_all
qed

lemma conj_read:
  assumes "conj_of ts m"
  shows "\<exists>c k. (\<forall>v. eval_cond v c = m v) \<and>
    (\<forall>n \<ge> k. \<forall>rest. (rest = [] \<or> hd rest \<noteq> AND_tok) \<longrightarrow> read_and (Suc n) (ts @ rest) = Some (c, rest))"
  using assms
proof induction
  case (conj_operand ts m)
  then obtain c k where c: "\<forall>v. eval_cond v c = m v" "\<forall>n \<ge> k. \<forall>rest. read_not n (ts @ rest) = Some (c, rest)"
    unfolding operand_of_def by blast
  then show ?case by (intro exI [of _ c] exI [of _ k]) (simp add: read_and_end del: read_and.simps)
next
  case (conj_and ts m us k')
  then obtain c k where c: "\<forall>v. eval_cond v c = m v" "\<forall>n \<ge> k. \<forall>rest. read_not n (ts @ rest) = Some (c, rest)"
    unfolding operand_of_def by blast
  obtain d l where d: "\<forall>v. eval_cond v d = k' v"
      "\<And>n rest. n \<ge> l \<Longrightarrow> (rest = [] \<or> hd rest \<noteq> AND_tok) \<Longrightarrow> read_and (Suc n) (us @ rest) = Some (d, rest)"
    using conj_and.IH by blast
  have "read_and (Suc n) ((ts @ AND_tok # us) @ rest) = Some (AndC c d, rest)"
    if "n \<ge> Suc (max k l)" "rest = [] \<or> hd rest \<noteq> AND_tok" for n rest
  proof (rule read_and_more)
    show "read_not n ((ts @ AND_tok # us) @ rest) = Some (c, AND_tok # us @ rest)" using c(2) that(1) by simp
    show "read_and n (us @ rest) = Some (d, rest)" using d(2) [of "n - 1" rest] that by (cases n) simp_all
  qed
  moreover have "\<forall>v. eval_cond v (AndC c d) = (m v \<and> k' v)" using c(1) d(1) by simp
  ultimately show ?case by blast
qed

lemma disj_read:
  assumes "disj_of ts m"
  shows "\<exists>c k. (\<forall>v. eval_cond v c = m v) \<and>
    (\<forall>n \<ge> k. \<forall>rest. (rest = [] \<or> hd rest = RP) \<longrightarrow> read_or (Suc n) (ts @ rest) = Some (c, rest))"
  using assms
proof induction
  case (disj_conj ts m)
  obtain c k where c: "\<forall>v. eval_cond v c = m v"
      "\<And>n rest. n \<ge> k \<Longrightarrow> (rest = [] \<or> hd rest \<noteq> AND_tok) \<Longrightarrow> read_and (Suc n) (ts @ rest) = Some (c, rest)"
    using conj_read [OF disj_conj.hyps(1)] by blast
  have "read_or (Suc n) (ts @ rest) = Some (c, rest)" if "n \<ge> Suc k" "rest = [] \<or> hd rest = RP" for n rest
  proof (rule read_or_end)
    show "read_and n (ts @ rest) = Some (c, rest)" using that c(2) [of "n - 1" rest] by (cases n) auto
  qed (use that in simp)
  then show ?case using c(1) by blast
next
  case (disj_or ts m us k')
  obtain c k where c: "\<forall>v. eval_cond v c = m v"
      "\<And>n rest. n \<ge> k \<Longrightarrow> (rest = [] \<or> hd rest \<noteq> AND_tok) \<Longrightarrow> read_and (Suc n) (ts @ rest) = Some (c, rest)"
    using conj_read [OF disj_or.hyps(1)] by blast
  obtain d l where d: "\<forall>v. eval_cond v d = k' v"
      "\<And>n rest. n \<ge> l \<Longrightarrow> (rest = [] \<or> hd rest = RP) \<Longrightarrow> read_or (Suc n) (us @ rest) = Some (d, rest)"
    using disj_or.IH by blast
  have "read_or (Suc n) ((ts @ OR_tok # us) @ rest) = Some (OrC c d, rest)"
    if "n \<ge> Suc (max k l)" "rest = [] \<or> hd rest = RP" for n rest
  proof (rule read_or_more)
    show "read_and n ((ts @ OR_tok # us) @ rest) = Some (c, OR_tok # us @ rest)"
      using c(2) [of "n - 1" "OR_tok # us @ rest"] that(1) by (cases n) simp_all
    show "read_or n (us @ rest) = Some (d, rest)" using d(2) [of "n - 1" rest] that by (cases n) simp_all
  qed
  moreover have "\<forall>v. eval_cond v (OrC c d) = (m v \<or> k' v)" using c(1) d(1) by simp
  ultimately show ?case by blast
qed

lemma operand_paren:
  assumes "disj_of ts m"
  shows "operand_of (LP # ts @ [RP]) m"
proof -
  obtain c k where c: "\<forall>v. eval_cond v c = m v"
      "\<And>n rest. n \<ge> k \<Longrightarrow> (rest = [] \<or> hd rest = RP) \<Longrightarrow> read_or (Suc n) (ts @ rest) = Some (c, rest)"
    using disj_read [OF assms] by blast
  have "read_or n (ts @ RP # rest) = Some (c, RP # rest)" if "n \<ge> Suc k" for n rest
    using that c(2) [of "n - 1" "RP # rest"] by (cases n) simp_all
  then show ?thesis using c(1) by (intro operandI [where c = c and k = "Suc k"]) simp_all
qed

lemma conj_append:
  assumes "conj_of ts m" and "conj_of us k"
  shows "conj_of (ts @ AND_tok # us) (\<lambda>v. m v \<and> k v)"
  using assms(1)
proof induction
  case (conj_operand ts m)
  then show ?case using assms(2) by (rule conj_of.conj_and)
next
  case (conj_and ts m us' k')
  have "conj_of (ts @ AND_tok # us' @ AND_tok # us) (\<lambda>v. m v \<and> k' v \<and> k v)"
    by (rule conj_of.conj_and [OF conj_and.hyps(1) conj_and.IH])
  then show ?case by (simp add: conj_assoc)
qed

text \<open>A list of token lists with their meanings, joined.\<close>

lemma conj_join:
  assumes "list_all2 conj_of ts ms" and "ts \<noteq> []"
  shows "conj_of (join_tokens AND_tok ts) (\<lambda>v. list_all (\<lambda>m. m v) ms)"
  using assms
proof (induction AND_tok ts arbitrary: ms rule: join_tokens.induct)
  case (3 t u ts)
  then obtain m ms' where ms: "ms = m # ms'" "conj_of t m" "list_all2 conj_of (u # ts) ms'" by (auto simp: list_all2_Cons1)
  have "conj_of (join_tokens AND_tok (u # ts)) (\<lambda>v. list_all (\<lambda>m. m v) ms')" using 3(1) [OF ms(3)] by simp
  then show ?case using conj_append [OF ms(2)] ms(1) by simp
qed (auto simp: list_all2_Cons1)

lemma disj_join:
  assumes "list_all2 conj_of ts ms" and "ts \<noteq> []"
  shows "disj_of (join_tokens OR_tok ts) (\<lambda>v. list_ex (\<lambda>m. m v) ms)"
  using assms
proof (induction OR_tok ts arbitrary: ms rule: join_tokens.induct)
  case (3 t u ts)
  then obtain m ms' where ms: "ms = m # ms'" "conj_of t m" "list_all2 conj_of (u # ts) ms'" by (auto simp: list_all2_Cons1)
  have "disj_of (join_tokens OR_tok (u # ts)) (\<lambda>v. list_ex (\<lambda>m. m v) ms')" using 3(1) [OF ms(3)] by simp
  then show ?case using disj_or [OF ms(2)] ms(1) by simp
qed (auto simp: list_all2_Cons1 intro: disj_conj)

lemma conj_operands: "list_all2 operand_of ts ms \<Longrightarrow> list_all2 conj_of ts ms"
  by (erule list_all2_mono) (rule conj_operand)

lemma map_prefix_Nil: "map ((@) []) ts = ts"
  and map_prefix_one: "map ((@) [t]) us = map ((#) t) us"
  by simp_all (simp_all add: map_idI)

text \<open>The groups of a \<open>bool\<close> query: with two or more members they are operands.\<close>

lemma must_group:
  assumes "list_all2 conj_of ts ms" and "ts \<noteq> []"
  shows "\<exists>g. group_tokens [] AND_tok ts = [g] \<and> conj_of g (\<lambda>v. list_all (\<lambda>m. m v) ms) \<and>
    (length ts > 1 \<longrightarrow> operand_of g (\<lambda>v. list_all (\<lambda>m. m v) ms))"
proof (cases "length ts > 1")
  case True
  then show ?thesis
    using operand_paren [OF disj_conj [OF conj_join [OF assms]]] by (auto simp: group_tokens_def map_prefix_Nil assms(2) intro: conj_operand)
next
  case False
  then obtain t where "ts = [t]" using assms(2) by (cases ts) auto
  then show ?thesis using assms(1) by (auto simp: group_tokens_def list_all2_Cons1)
qed

lemma should_group:
  assumes "list_all2 conj_of ts ms" and "ts \<noteq> []"
  shows "\<exists>g. group_tokens [] OR_tok ts = [g] \<and> conj_of g (\<lambda>v. list_ex (\<lambda>m. m v) ms) \<and>
    (length ts > 1 \<longrightarrow> operand_of g (\<lambda>v. list_ex (\<lambda>m. m v) ms))"
proof (cases "length ts > 1")
  case True
  then show ?thesis
    using operand_paren [OF disj_join [OF assms]] by (auto simp: group_tokens_def map_prefix_Nil assms(2) intro: conj_operand)
next
  case False
  then obtain t where "ts = [t]" using assms(2) by (cases ts) auto
  then show ?thesis using assms(1) by (auto simp: group_tokens_def list_all2_Cons1)
qed

lemma mustnot_group:
  assumes "list_all2 operand_of ts ms" and "ts \<noteq> []"
  shows "\<exists>g. group_tokens [NOT_tok] AND_tok ts = [g] \<and> operand_of g (\<lambda>v. list_all (\<lambda>m. \<not> m v) ms)"
proof -
  have neg: "list_all2 operand_of (map (\<lambda>t. [NOT_tok] @ t) ts) (map (\<lambda>m v. \<not> m v) ms)"
    using assms(1) by (auto simp: list_all2_map1 list_all2_map2 intro: operand_not elim!: list_all2_mono)
  show ?thesis
  proof (cases "length ts > 1")
    case True
    then show ?thesis
      using operand_paren [OF disj_conj [OF conj_join [OF conj_operands [OF neg]]]] assms(2)
      by (simp add: group_tokens_def map_prefix_one list.pred_map comp_def)
  next
    case False
    then obtain t where "ts = [t]" using assms(2) by (cases ts) auto
    then show ?thesis using neg by (auto simp: group_tokens_def list_all2_Cons1)
  qed
qed

lemma range_operand:
  assumes "parts \<noteq> []"
  shows "operand_of (range_tokens parts) (\<lambda>v. list_all v parts)"
proof -
  have atoms: "list_all2 operand_of (map (\<lambda>p. [Atom p]) parts) (map (\<lambda>p v. v p) parts)"
    by (simp add: list_all2_map1 list_all2_map2 list_all2_same operand_atom)
  show ?thesis
  proof (cases "length parts > 1")
    case True
    then show ?thesis
      using operand_paren [OF disj_conj [OF conj_join [OF conj_operands [OF atoms]]]] assms
      by (simp add: range_tokens_def list.pred_map comp_def)
  next
    case False
    then obtain p where "parts = [p]" using assms by (cases parts) auto
    then show ?thesis using operand_atom [of p] by (simp add: range_tokens_def)
  qed
qed

text \<open>Joining up to three groups: with a single one, the group itself.\<close>

lemma tight_Bool:
  "tight (BoolQuery m s n) \<longleftrightarrow>
     (m \<noteq> [] \<and> s = [] \<and> n = [] \<and> (length m > 1 \<or> tight (hd m))) \<or>
     (m = [] \<and> s \<noteq> [] \<and> n = [] \<and> (length s > 1 \<or> tight (hd s))) \<or>
     (m = [] \<and> s = [] \<and> n \<noteq> [])"
  by (cases "BoolQuery m s n" rule: tight.cases) (auto simp: Suc_lessI)

lemma query_holds_leaves:
  "query_holds f (TermQuery name x) = (\<lambda>v. v (build_term_query name x))"
  "query_holds f (TermsQuery name xs) = (\<lambda>v. v (build_terms_query name xs))"
  "query_holds f (DoubleRangeQuery name rfrom rto s e) = (\<lambda>v. list_all v (range_parts name f rfrom rto s e))"
  "query_holds f (IntRangeQuery name ifrom ito s e) = (\<lambda>v. list_all v (range_parts name show_int ifrom ito s e))"
  by (rule ext, simp)+

lemma range_parts_nonempty: "range_parts name print from to' s e \<noteq> [] \<longleftrightarrow> from \<noteq> None \<or> to' \<noteq> None"
  by (auto simp: range_parts_def split: option.split)

lemma query_reads:
  "complete q \<Longrightarrow> negates_tight q \<Longrightarrow>
   conj_of (query_tokens f q) (\<lambda>v. query_holds f q v) \<and> (tight q \<longrightarrow> operand_of (query_tokens f q) (\<lambda>v. query_holds f q v))"
proof (induction f q rule: build_search_query.induct)
  case (1 f m s n)
  let ?h = "\<lambda>q v. query_holds f q v"
  have conj: "list_all2 conj_of (map (query_tokens f) qs) (map ?h qs)" if "qs \<in> {m, s}" for qs
    using that 1 by (auto simp: list_all2_map1 list_all2_map2 list_all2_same list_all_iff)
  have oper: "list_all2 operand_of (map (query_tokens f) n) (map ?h n)"
    using 1 by (auto simp: list_all2_map1 list_all2_map2 list_all2_same list_all_iff)
  let ?M = "group_tokens [] AND_tok (map (query_tokens f) m)" and ?S = "group_tokens [] OR_tok (map (query_tokens f) s)"
    and ?N = "group_tokens [NOT_tok] AND_tok (map (query_tokens f) n)"
  let ?mm = "\<lambda>v. list_all (\<lambda>q. ?h q v) m" and ?sm = "\<lambda>v. list_ex (\<lambda>q. ?h q v) s" and ?nm = "\<lambda>v. list_all (\<lambda>q. \<not> ?h q v) n"
  have M: "\<exists>g. ?M = [g] \<and> conj_of g ?mm \<and> (length m > 1 \<longrightarrow> operand_of g ?mm)" if "m \<noteq> []"
    using must_group [OF conj [of m]] that by (simp add: list.pred_map comp_def)
  have S: "\<exists>g. ?S = [g] \<and> conj_of g ?sm \<and> (length s > 1 \<longrightarrow> operand_of g ?sm)" if "s \<noteq> []"
    using should_group [OF conj [of s]] that by (simp add: list_ex_iff)
  have N: "\<exists>g. ?N = [g] \<and> operand_of g ?nm" if "n \<noteq> []"
    using mustnot_group [OF oper] that by (simp add: list.pred_map comp_def)
  define ms where "ms = (if m = [] then [] else [?mm]) @ (if s = [] then [] else [?sm]) @ (if n = [] then [] else [?nm])"
  have groups: "list_all2 conj_of (?M @ ?S @ ?N) ms"
    unfolding ms_def
    by (intro list_all2_appendI) (use M S N in \<open>auto simp: group_tokens_def intro: conj_operand\<close>)
  have nonempty: "?M @ ?S @ ?N \<noteq> []" using 1(4) by (auto simp: group_tokens_def)
  have all: "(\<lambda>v. list_all (\<lambda>k. k v) ms) = ?h (BoolQuery m s n)"
    by (rule ext) (auto simp: ms_def)
  have c: "conj_of (query_tokens f (BoolQuery m s n)) (?h (BoolQuery m s n))"
    using conj_join [OF groups nonempty] unfolding all by (simp only: query_tokens.simps)
  have t: "operand_of (query_tokens f (BoolQuery m s n)) (?h (BoolQuery m s n))" if narrow: "tight (BoolQuery m s n)"
  proof -
    consider (m) "m \<noteq> [] \<and> s = [] \<and> n = [] \<and> (length m > 1 \<or> tight (hd m))"
      | (s) "m = [] \<and> s \<noteq> [] \<and> n = [] \<and> (length s > 1 \<or> tight (hd s))"
      | (n) "m = [] \<and> s = [] \<and> n \<noteq> []"
      using narrow unfolding tight_Bool by blast
    then show ?thesis
  proof cases
    case *: m
    show ?thesis
    proof (cases "length m > 1")
      case True
      then show ?thesis using M * by (auto simp: group_tokens_def)
    next
      case False
      then obtain q where "m = [q]" "tight q" using * by (cases m) auto
      then show ?thesis using 1 * by (simp add: group_tokens_def)
    qed
  next
    case *: s
    show ?thesis
    proof (cases "length s > 1")
      case True
      then show ?thesis using S * by (auto simp: group_tokens_def)
    next
      case False
      then obtain q where "s = [q]" "tight q" using * by (cases s) auto
      then show ?thesis using 1 * by (simp add: group_tokens_def)
    qed
  next
    case *: n
    then show ?thesis using N by (auto simp: group_tokens_def)
  qed
  qed
  then show ?case using c by blast
qed (simp_all add: query_holds_leaves operand_atom range_operand conj_operand range_parts_nonempty del: query_holds.simps not_None_eq)


definition demo_query :: SearchQuery where
  "demo_query = BoolQuery [TermQuery ''a'' \<lparr>value_kind = IntValue 1, value_is_null = False\<rparr>] []
     [IntRangeQuery ''b'' (Some 2) (Some 5) True False, TermQuery ''c'' \<lparr>value_kind = StringValue ''x'', value_is_null = False\<rparr>]"


text \<open>
  C0: A negated \<open>bool\<close> query with two groups is written without parentheses: \<open>NOT\<close>
  reaches only its first group, and rows are lost that the query asks for.
\<close>

theorem mustnot_without_parentheses:
  assumes "q = BoolQuery [] [] [BoolQuery [TermQuery n a] [TermQuery m b] []]"
  shows "build_search_query f q = ''NOT '' @ build_term_query n a @ '' AND '' @ build_term_query m b \<and>
    read_or (4 + k) (query_tokens f q) = Some (AndC (NotC (Cmp (build_term_query n a))) (Cmp (build_term_query m b)), []) \<and>
    (eval_cond (\<lambda>_. False) (AndC (NotC (Cmp (build_term_query n a))) (Cmp (build_term_query m b))) = False \<and>
     query_holds f q (\<lambda>_. False))"
proof -
  have "query_tokens f q = [NOT_tok, Atom (build_term_query n a), AND_tok, Atom (build_term_query m b)]"
    by (simp add: assms group_tokens_def)
  moreover have "read_or (4 + k) [NOT_tok, Atom s, AND_tok, Atom t] = Some (AndC (NotC (Cmp s)) (Cmp t), [])" for s t
    by (simp add: numeral_eq_Suc)
  ultimately show ?thesis by (simp add: build_search_query_render assms)
qed

lemma show_digits: "show_int 1 = ''1''" "show_int 2 = ''2''"
  by code_simp+

theorem mustnot_without_parentheses_witness:
  "build_search_query (\<lambda>_. []) (BoolQuery [] [] [BoolQuery [TermQuery ''a'' \<lparr>value_kind = IntValue 1, value_is_null = False\<rparr>]
     [TermQuery ''b'' \<lparr>value_kind = IntValue 2, value_is_null = False\<rparr>] []]) = ''NOT a = 1 AND b = 2''"
  using mustnot_without_parentheses [OF refl, of "\<lambda>_. []" "''a''" "\<lparr>value_kind = IntValue 1, value_is_null = False\<rparr>"
      "''b''" "\<lparr>value_kind = IntValue 2, value_is_null = False\<rparr>" 0]
  by (simp add: build_term_query_def build_term_value_def show_digits)

end
