(* ===== verification/Doc_Store.thy ===== *)
theory Doc_Store
  imports SQL_Builder
begin

text \<open>
  \<^verbatim>\<open>instinct-retrieval/include/store/duckdb\<close>: \<^verbatim>\<open>BaseDuckDBStore.hpp\<close>,
  \<^verbatim>\<open>DuckDBDocStore.hpp\<close>, \<^verbatim>\<open>DuckDBDocWithEmbeddingStore.hpp\<close> and
  \<^verbatim>\<open>DuckDBVectorStore.hpp\<close>: documents in tables of a database, with or without a vector.

  A table has the columns \<open>id\<close>, \<open>text\<close>, a vector if its dimension is positive, and
  those of the metadata schema. What the database itself decides is in fields of the state that no
  operation changes: how a value is converted when it is stored in a column or read from it
  (\<open>None\<close> is a conversion error), which rows a comparison holds for, which strings are UUIDs,
  the similarity of vectors the order of rows that are equally similar, and how rows are sorted by columns. UUIDs come from a sequence.

  Within a transaction nothing is visible before the commit. An appender holds the cells of an
  unfinished row; the database refuses further rows, and to close it, until that row has all its
  columns.
\<close>

section \<open>Tables\<close>

datatype Cell = NullCell | ValueCell PrimitiveKind | VectorCell "rat list"

record DocRow =
  row_id :: string
  row_text :: string
  row_vector :: "rat list"
  row_fields :: "Cell list"

record DocTable =
  table_schema :: MetadataSchema
  table_dimension :: nat
  table_rows :: "DocRow list"

record VectorStoreInstanceMetadata =
  vsi_instance_id :: string
  vsi_metadata_schema :: MetadataSchema
  vsi_embedding_table_name :: string

record DocDB =
  instinct_vector_store_metadata :: "VectorStoreInstanceMetadata list"
  doc_tables :: "string \<rightharpoonup> DocTable"
  uuids :: "nat \<Rightarrow> string"
  uuid_count :: nat
  convert :: "PrimitiveType \<Rightarrow> Cell \<Rightarrow> PrimitiveKind option"
  compare :: "DocTable \<Rightarrow> DocRow \<Rightarrow> string \<Rightarrow> bool"
  is_uuid :: "string \<Rightarrow> bool"
  similarity :: "rat list \<Rightarrow> rat list \<Rightarrow> rat"
  tie_break :: "string \<Rightarrow> nat"
  sort_rows :: "Sorter list \<Rightarrow> DocRow list \<Rightarrow> DocRow list"
  fmt_double :: "rat \<Rightarrow> string"

record DuckDBStoreOptions =
  table_name :: string
  dimension :: nat
  bypass_unknown_fields :: bool
  create_or_replace_table :: bool
  bypass_table_check :: bool
  instance_id :: string

record UpdateResult =
  affected_rows :: int
  returned_ids :: "string list"
  failed_documents :: "Document list"

text \<open>An embedding model: its answers, and its dimension.\<close>

record Embeddings =
  EmbedDocuments :: "string list \<Rightarrow> rat list list result"
  EmbedQuery :: "string \<Rightarrow> rat list result"
  GetDimension :: nat

text \<open>A store; \<open>embeddings\<close> is set for one that keeps vectors.\<close>

record DuckDBStore =
  options :: DuckDBStoreOptions
  metadata_schema :: MetadataSchema
  embeddings :: "Embeddings option"

definition query_error :: exn where "query_error = ClientException ''query failed''"

definition duckdb_error :: exn where "duckdb_error = InstinctException ''Failed to AddDocument due to DuckDB error.''"

section \<open>SQL text\<close>

definition quote_ids :: "string list \<Rightarrow> string" where
  "quote_ids ids = concat (map (\<lambda>i. [CHR 0x27] @ i @ [CHR 0x27] @ '','') ids)"

text \<open>The comma follows the last id too, as \<open>i < ids.size()\<close> always holds.\<close>

definition make_mget_sql :: "string \<Rightarrow> MetadataSchema \<Rightarrow> string list \<Rightarrow> string result" where
  "make_mget_sql table schema ids =
     (if ids = [] then Inl (ClientException ''ID list cannot be empty'')
      else Inr (''SELECT id, text'' @ (if schema = [] then [] else '', '' @ JoinWith (map fs_name schema) '', '') @ '' FROM '' @
        table @ '' WHERE id in ('' @ quote_ids ids @ '');''))"

definition make_prepared_count_sql :: "string \<Rightarrow> string" where
  "make_prepared_count_sql table = ''SELECT count(*) from '' @ table"

fun column_type :: "PrimitiveType \<Rightarrow> string option" where
  "column_type INT32 = Some ''INTEGER''"
| "column_type INT64 = Some ''BIGINT''"
| "column_type FLOAT = Some ''FLOAT''"
| "column_type DOUBLE = Some ''DOUBLE''"
| "column_type VARCHAR = Some ''VARCHAR''"
| "column_type BOOL = Some ''BOOL''"
| "column_type Unknown_type = None"

definition column_definition :: "MetadataFieldSchema \<Rightarrow> string result" where
  "column_definition f =
     (case column_type (fs_type f) of
        None \<Rightarrow> Inl (InstinctException (''unknown field type :'' @ fs_name f))
      | Some ty \<Rightarrow> Inr (fs_name f @ '' '' @ ty))"

definition make_create_table_sql :: "string \<Rightarrow> nat \<Rightarrow> MetadataSchema \<Rightarrow> bool \<Rightarrow> string result" where
  "make_create_table_sql table d schema replace =
     bindR (mapR column_definition schema) (\<lambda>columns.
     Inr ((if replace then ''CREATE OR REPLACE TABLE '' else ''CREATE TABLE IF NOT EXISTS '') @ table @ ''('' @
       JoinWith ([''id UUID PRIMARY KEY'', ''text VARCHAR NOT NULL''] @
         (if d > 0 then [''vector FLOAT['' @ show_nat d @ ''] NOT NULL''] else []) @ columns) '', '' @ '');''))"

definition make_delete_sql :: "string \<Rightarrow> string list \<Rightarrow> string result" where
  "make_delete_sql table ids =
     (if ids = [] then Inl (ClientException ''ids should not be empty'')
      else Inr (''DELETE FROM '' @ table @ '' WHERE id IN ('' @ butlast (quote_ids ids) @ '');''))"

definition make_prepared_search_sql :: "string \<Rightarrow> MetadataSchema \<Rightarrow> string" where
  "make_prepared_search_sql table schema =
     ''SELECT id, text'' @ (if schema = [] then [] else '', '' @ JoinWith (map fs_name schema) '', '') @
     '', array_cosine_similarity(vector, ?) AS similarity FROM '' @ table @ '' ORDER BY similarity DESC LIMIT ?''"

definition vector_text :: "rat list \<Rightarrow> string" where
  "vector_text query_vector = JoinWith (map (\<lambda>x. to_string_double x @ ''::FLOAT'') query_vector) '',''"

definition make_search_sql :: "(rat \<Rightarrow> string) \<Rightarrow> string \<Rightarrow> MetadataSchema \<Rightarrow> rat list \<Rightarrow> SearchQuery \<Rightarrow> int \<Rightarrow> string result" where
  "make_search_sql fmt table schema query_vector metadata_filter limit =
     (if \<not> limit > 0 then Inl (ClientException ''limit should be positive'')
      else if \<not> limit < 1000 then Inl (ClientException ''limit should be less than 1000'')
      else Inr (ToSelectString fmt table (''id, text'' @ (if schema = [] then [] else '', '' @ JoinWith (map fs_name schema) '', '') @
        '', array_cosine_similarity(vector, array_value('' @ vector_text query_vector @ '')) AS similarity'')
        metadata_filter [Some (''similarity'', DESC)] (-1) limit))"

section \<open>Reading\<close>

text \<open>Which rows a condition selects: the text of the query as the database reads it.\<close>

fun query_columns :: "SearchQuery \<Rightarrow> string list" where
  "query_columns (BoolQuery m s n) = concat (map query_columns (m @ s @ n))"
| "query_columns (TermQuery name v) = [name]"
| "query_columns (TermsQuery name vs) = [name]"
| "query_columns (IntRangeQuery name rf rt s e) = [name]"
| "query_columns (DoubleRangeQuery name rf rt s e) = [name]"
| "query_columns QueryNotSet = []"

definition table_columns :: "DocTable \<Rightarrow> string list" where
  "table_columns t = ''id'' # ''text'' # (if table_dimension t > 0 then [''vector''] else []) @ map fs_name (table_schema t)"

definition where_condition :: "DocDB \<Rightarrow> DocTable \<Rightarrow> SearchQuery \<Rightarrow> (DocRow \<Rightarrow> bool) option" where
  "where_condition db t q =
     (if q = QueryNotSet then Some (\<lambda>_. True)
      else if \<not> set (query_columns q) \<subseteq> set (table_columns t) then None
      else let ts = query_tokens (fmt_double db) q in
        case read_or (3 * length ts + 3) ts of
          Some (c, []) \<Rightarrow> Some (\<lambda>row. eval_cond (compare db t row) c)
        | _ \<Rightarrow> None)"

definition with_table :: "DuckDBStore \<Rightarrow> (DocTable \<Rightarrow> (DocDB, 'a) eff) \<Rightarrow> (DocDB, 'a) eff" where
  "with_table st f =
     bindE (getE (\<lambda>db. doc_tables db (table_name (options st)))) (\<lambda>t.
     case t of None \<Rightarrow> throw query_error | Some t \<Rightarrow> f t)"

text \<open>The cells of a row from column 2 on: \<open>select *\<close> has the vector there, a column list has not.\<close>

definition cells_star :: "DocTable \<Rightarrow> DocRow \<Rightarrow> Cell list" where
  "cells_star t row = (if table_dimension t > 0 then [VectorCell (row_vector row)] else []) @ row_fields row"

definition read_field :: "DocDB \<Rightarrow> MetadataFieldSchema \<times> Cell \<Rightarrow> PrimitiveVariable result" where
  "read_field db fc =
     (if fs_type (fst fc) = Unknown_type then Inl (InstinctException (''unknown field type for field named '' @ fs_name (fst fc)))
      else case convert db (fs_type (fst fc)) (snd fc) of
        None \<Rightarrow> Inl (RuntimeError ''conversion'')
      | Some v \<Rightarrow> Inr \<lparr>pv_name = fs_name (fst fc), pv_value = v, pv_is_null = False\<rparr>)"

definition observe_row :: "DocDB \<Rightarrow> MetadataSchema \<Rightarrow> DocRow \<Rightarrow> Cell list \<Rightarrow> Document result" where
  "observe_row db schema row cells =
     bindR (mapR (read_field db) (zip schema cells)) (\<lambda>fs.
     Inr \<lparr>doc_id = row_id row, doc_text = row_text row, metadata = fs\<rparr>)"

definition observe_query_result :: "MetadataSchema \<Rightarrow> (DocRow \<Rightarrow> Cell list) \<Rightarrow> DocRow list \<Rightarrow> (DocDB, Document list) eff" where
  "observe_query_result schema cells rows =
     bindE (getE (\<lambda>db. mapR (\<lambda>row. observe_row db schema row (cells row)) rows)) liftR"

text \<open>The limit and the offset of the request are not used.\<close>

record FindRequest =
  find_limit :: int
  find_offset :: int
  find_query :: SearchQuery
  find_sorters :: "Sorter list"

definition FindDocuments :: "DuckDBStore \<Rightarrow> FindRequest \<Rightarrow> (DocDB, Document list) eff" where
  "FindDocuments st req =
     with_table st (\<lambda>t.
     bindE (getE (\<lambda>db. where_condition db t (find_query req))) (\<lambda>c.
     bindE (getE sort_rows) (\<lambda>sorted.
     case c of
       None \<Rightarrow> throw query_error
     | Some holds \<Rightarrow>
         observe_query_result (metadata_schema st) (cells_star t)
           ((if find_sorters req = [] then id else sorted (find_sorters req)) (filter holds (table_rows t))))))"

definition MultiGetDocuments :: "DuckDBStore \<Rightarrow> string list \<Rightarrow> (DocDB, Document list) eff" where
  "MultiGetDocuments st ids =
     (if ids = [] then ret []
      else with_table st (\<lambda>t.
        bindE (getE (\<lambda>db. list_all (is_uuid db) ids)) (\<lambda>ok.
        if ok then observe_query_result (metadata_schema st) row_fields (filter (\<lambda>r. row_id r \<in> set ids) (table_rows t))
        else throw query_error)))"

definition CountDocuments :: "DuckDBStore \<Rightarrow> (DocDB, nat) eff" where
  "CountDocuments st = with_table st (\<lambda>t. ret (length (table_rows t)))"

section \<open>Writing\<close>

definition new_uuid :: "(DocDB, string) eff" where
  "new_uuid = bindE (getE (\<lambda>db. uuids db (uuid_count db))) (\<lambda>i. bindE (modifyE (uuid_count_update Suc)) (\<lambda>_. ret i))"

text \<open>
  The cells of the metadata columns: of the fields with the name of a column the last one counts. A
  field without a value, or with bytes, appends nothing.
\<close>

definition last_field :: "Document \<Rightarrow> string \<Rightarrow> PrimitiveVariable option" where
  "last_field doc name = find (\<lambda>m. pv_name m = name) (rev (metadata doc))"

definition append_field :: "DocDB \<Rightarrow> Document \<Rightarrow> MetadataFieldSchema \<Rightarrow> Cell result" where
  "append_field db doc f =
     (case last_field doc (fs_name f) of
        None \<Rightarrow> Inl UndefinedBehaviour
      | Some v \<Rightarrow>
          if pv_is_null v then Inr NullCell
          else if pv_value v = ValueNotSet \<or> (\<exists>b. pv_value v = BytesValue b) then Inl duckdb_error
          else case convert db (fs_type f) (ValueCell (pv_value v)) of
            None \<Rightarrow> Inl duckdb_error
          | Some x \<Rightarrow> Inr (ValueCell x))"

definition missing_names :: "MetadataSchema \<Rightarrow> Document \<Rightarrow> string list" where
  "missing_names schema doc = filter (\<lambda>n. n \<notin> set (map pv_name (metadata doc))) (remdups (map fs_name schema))"

text \<open>The set of known names loses each name that is found, so a second field of that name is unknown.\<close>

fun unknown_field :: "string list \<Rightarrow> PrimitiveVariable list \<Rightarrow> string option" where
  "unknown_field known [] = None"
| "unknown_field known (m # ms) =
     (if pv_name m \<in> set known then unknown_field (removeAll (pv_name m) known) ms else Some (pv_name m))"

definition append_row_metadata_fields :: "DocDB \<Rightarrow> MetadataSchema \<Rightarrow> bool \<Rightarrow> Document \<Rightarrow> Cell list result" where
  "append_row_metadata_fields db schema bypass doc =
     (if schema = [] then Inr []
      else case (if bypass then None else unknown_field (map fs_name schema) (metadata doc)) of
        Some n \<Rightarrow> Inl (ClientException (''Metadata cannot contain field not defined by schema. Problematic field is '' @ n))
      | None \<Rightarrow>
          if missing_names schema doc \<noteq> []
          then Inl (ClientException (''Some metadata fields not set: '' @ JoinWith (missing_names schema doc) '',''))
          else mapR (append_field db doc) schema)"

definition append_row_basic_fields :: "Document \<Rightarrow> (DocDB, Document) eff" where
  "append_row_basic_fields doc = bindE new_uuid (\<lambda>i. ret (doc\<lparr>doc_id := i\<rparr>))"

text \<open>
  A row with the id just given; the vector is empty in a store without embeddings, and has the length
  of its column in one with embeddings.
\<close>

definition append_row :: "DuckDBStore \<Rightarrow> rat list \<Rightarrow> Document \<Rightarrow> (DocDB, DocRow result) eff" where
  "append_row st embedding doc =
     getE (\<lambda>db.
       if embeddings st \<noteq> None \<and> length embedding \<noteq> dimension (options st) then Inl duckdb_error
       else bindR (append_row_metadata_fields db (metadata_schema st) (bypass_unknown_fields (options st)) doc) (\<lambda>cells.
       Inr \<lparr>row_id = doc_id doc, row_text = doc_text doc, row_vector = embedding, row_fields = cells\<rparr>))"

record AppendState =
  appended :: "DocRow list"
  row_open :: bool
  docs_done :: "Document list"
  result_so_far :: UpdateResult

fun is_instinct :: "exn \<Rightarrow> bool" where
  "is_instinct (ClientException _) = True"
| "is_instinct (InstinctException _) = True"
| "is_instinct _ = False"

text \<open>
  One record: an exception of the library is caught and the record counts as failed, with its row
  left open in the appender; an error of the database is not caught.
\<close>

definition append_one :: "DuckDBStore \<Rightarrow> rat list \<Rightarrow> Document \<Rightarrow> AppendState \<Rightarrow> (DocDB, AppendState) eff" where
  "append_one st embedding doc a =
     bindE (append_row_basic_fields doc) (\<lambda>doc.
     let res = (result_so_far a)\<lparr>returned_ids := returned_ids (result_so_far a) @ [doc_id doc]\<rparr> in
     if row_open a then throw duckdb_error
     else bindE (append_row st embedding doc) (\<lambda>r.
       case r of
         Inr row \<Rightarrow>
           ret (a\<lparr>appended := appended a @ [row], docs_done := docs_done a @ [doc], result_so_far := res\<lparr>affected_rows := affected_rows res + 1\<rparr>\<rparr>)
       | Inl e \<Rightarrow>
           if is_instinct e \<and> e \<noteq> duckdb_error
           then ret (a\<lparr>row_open := True, docs_done := docs_done a @ [doc], result_so_far := res\<lparr>failed_documents := failed_documents res @ [doc]\<rparr>\<rparr>)
           else throw e))"

fun AppendRows_loop :: "DuckDBStore \<Rightarrow> (rat list \<times> Document) list \<Rightarrow> AppendState \<Rightarrow> (DocDB, AppendState) eff" where
  "AppendRows_loop st [] a = ret a"
| "AppendRows_loop st ((e, doc) # rest) a = bindE (append_one st e doc a) (AppendRows_loop st rest)"

definition no_result :: UpdateResult where
  "no_result = \<lparr>affected_rows = 0, returned_ids = [], failed_documents = []\<rparr>"

definition AppendRows :: "DuckDBStore \<Rightarrow> Document list \<Rightarrow> (DocDB, AppendState) eff" where
  "AppendRows st records =
     (let start = \<lparr>appended = [], row_open = False, docs_done = [], result_so_far = no_result\<rparr> in
      case embeddings st of
        None \<Rightarrow> AppendRows_loop st (map (Pair []) records) start
      | Some m \<Rightarrow>
          bindE (liftR (EmbedDocuments m (map doc_text records))) (\<lambda>vs.
          bindE (assert_equal_size vs records ''Count of result embeddings is not equal to that of records'') (\<lambda>_.
          AppendRows_loop st (zip vs records) start)))"

text \<open>Closing the appender and committing: the rows become part of the table.\<close>

definition commit_rows :: "DuckDBStore \<Rightarrow> AppendState \<Rightarrow> (DocDB, unit) eff" where
  "commit_rows st a =
     with_table st (\<lambda>t.
       if row_open a \<or> \<not> distinct (map row_id (table_rows t @ appended a)) then throw duckdb_error
       else modifyE (doc_tables_update (\<lambda>m. m(table_name (options st) \<mapsto> t\<lparr>table_rows := table_rows t @ appended a\<rparr>))))"

definition AddDocuments :: "DuckDBStore \<Rightarrow> Document list \<Rightarrow> (DocDB, Document list \<times> UpdateResult) eff" where
  "AddDocuments st records =
     bindE (AppendRows st records) (\<lambda>a.
     bindE (commit_rows st a) (\<lambda>_. ret (docs_done a, result_so_far a)))"

definition AppendRow :: "DuckDBStore \<Rightarrow> Document \<Rightarrow> (DocDB, DocRow \<times> Document) eff" where
  "AppendRow st doc =
     bindE (case embeddings st of
         None \<Rightarrow> ret []
       | Some m \<Rightarrow> bindE (liftR (EmbedDocuments m [doc_text doc])) (\<lambda>vs. if vs = [] then throw UndefinedBehaviour else ret (hd vs))) (\<lambda>e.
     bindE (append_row_basic_fields doc) (\<lambda>doc.
     bindE (append_row st e doc) (\<lambda>r. bindE (liftR r) (\<lambda>row. ret (row, doc)))))"

definition AddDocument :: "DuckDBStore \<Rightarrow> Document \<Rightarrow> (DocDB, Document) eff" where
  "AddDocument st doc =
     bindE (AppendRow st doc) (\<lambda>(row, doc).
     bindE (commit_rows st \<lparr>appended = [row], row_open = False, docs_done = [doc], result_so_far = no_result\<rparr>) (\<lambda>_. ret doc))"

definition delete_rows :: "DuckDBStore \<Rightarrow> DocTable \<Rightarrow> (DocRow \<Rightarrow> bool) \<Rightarrow> (DocDB, nat) eff" where
  "delete_rows st t P =
     bindE (modifyE (doc_tables_update (\<lambda>m. m(table_name (options st) \<mapsto> t\<lparr>table_rows := filter (\<lambda>r. \<not> P r) (table_rows t)\<rparr>)))) (\<lambda>_.
     ret (length (filter P (table_rows t))))"

definition DeleteDocuments_ids :: "DuckDBStore \<Rightarrow> string list \<Rightarrow> UpdateResult \<Rightarrow> (DocDB, UpdateResult) eff" where
  "DeleteDocuments_ids st ids res =
     bindE (assert_non_empty_range ids ''ids should not be empty'') (\<lambda>_.
     with_table st (\<lambda>t.
     bindE (getE (\<lambda>db. list_all (is_uuid db) ids)) (\<lambda>ok.
     if \<not> ok then throw query_error
     else bindE (delete_rows st t (\<lambda>r. row_id r \<in> set ids)) (\<lambda>n.
       ret (res\<lparr>affected_rows := to_int32 (int n), returned_ids := returned_ids res @ ids\<rparr>)))))"

definition DeleteDocuments :: "DuckDBStore \<Rightarrow> SearchQuery \<Rightarrow> UpdateResult \<Rightarrow> (DocDB, UpdateResult) eff" where
  "DeleteDocuments st q res =
     with_table st (\<lambda>t.
     bindE (getE (\<lambda>db. where_condition db t q)) (\<lambda>c.
     case c of
       None \<Rightarrow> throw query_error
     | Some holds \<Rightarrow> bindE (delete_rows st t holds) (\<lambda>n. ret (res\<lparr>affected_rows := to_int32 (int n)\<rparr>))))"

section \<open>Stores\<close>

definition create_table :: "DuckDBStore \<Rightarrow> (DocDB, unit) eff" where
  "create_table st =
     modifyE (\<lambda>db.
       if create_or_replace_table (options st) \<or> doc_tables db (table_name (options st)) = None
       then db\<lparr>doc_tables := (doc_tables db)(table_name (options st) \<mapsto>
              \<lparr>table_schema = metadata_schema st, table_dimension = dimension (options st), table_rows = []\<rparr>)\<rparr>
       else db)"

definition BaseDuckDBStore :: "DuckDBStore \<Rightarrow> (DocDB, unit) eff" where
  "BaseDuckDBStore st =
     bindE (assert_lt (int (dimension (options st))) 10000 ''dimension should be less than 10000'') (\<lambda>_.
     bindE (assert_true (\<not> IsBlankString (table_name (options st))) ''table_name cannot be blank'') (\<lambda>_.
     bindE (liftR (make_create_table_sql (table_name (options st)) (dimension (options st)) (metadata_schema st)
       (create_or_replace_table (options st)))) (\<lambda>_.
     bindE (if bypass_table_check (options st) then ret () else create_table st) (\<lambda>_.
     bindE (getE (\<lambda>db. doc_tables db (table_name (options st)))) (\<lambda>t.
     if t = None then throw (ClientException ''Failed to prepare count statement'') else ret ())))))"

definition DuckDBDocStore :: "MetadataSchema \<Rightarrow> DuckDBStoreOptions \<Rightarrow> (DocDB, DuckDBStore) eff" where
  "DuckDBDocStore schema opts =
     (let st = \<lparr>options = opts, metadata_schema = schema, embeddings = None\<rparr> in
      bindE (BaseDuckDBStore st) (\<lambda>_.
      bindE (assert_true (dimension opts \<le> 0) ''assertion failed'') (\<lambda>_. ret st)))"

definition CreateDuckDBDocStore :: "DuckDBStoreOptions \<Rightarrow> MetadataSchema option \<Rightarrow> (DocDB, DuckDBStore) eff" where
  "CreateDuckDBDocStore opts schema =
     DuckDBDocStore (case schema of None \<Rightarrow> CreateDocStorePresetMetadataSchema | Some s \<Rightarrow> s) opts"

definition DuckDBVectorStore :: "Embeddings \<Rightarrow> MetadataSchema \<Rightarrow> DuckDBStoreOptions \<Rightarrow> (DocDB, DuckDBStore) eff" where
  "DuckDBVectorStore m schema opts =
     (let st = \<lparr>options = opts, metadata_schema = schema, embeddings = Some m\<rparr> in
      bindE (BaseDuckDBStore st) (\<lambda>_.
      bindE (assert_gt (int (dimension opts)) 0 ''value is not large enough'') (\<lambda>_.
      bindE (assert_true (GetDimension m = dimension opts) ''should have dimension set correctly'') (\<lambda>_. ret st))))"

definition CreateDuckDBVectorStore :: "Embeddings \<Rightarrow> DuckDBStoreOptions \<Rightarrow> MetadataSchema option \<Rightarrow> (DocDB, DuckDBStore) eff" where
  "CreateDuckDBVectorStore m opts schema =
     DuckDBVectorStore m (case schema of None \<Rightarrow> CreateVectorStorePresetMetadataSchema | Some s \<Rightarrow> s) opts"

definition Destroy :: "DuckDBStore \<Rightarrow> (DocDB, bool) eff" where
  "Destroy st =
     bindE (getE (\<lambda>db. doc_tables db (table_name (options st)) \<noteq> None)) (\<lambda>ok.
     bindE (modifyE (doc_tables_update (\<lambda>m. m(table_name (options st) := None)))) (\<lambda>_. ret ok))"

section \<open>Search\<close>

record SearchRequest =
  search_query :: string
  top_k :: int
  metadata_filter :: "SearchQuery option"

definition by_similarity :: "DocDB \<Rightarrow> rat list \<Rightarrow> DocRow list \<Rightarrow> DocRow list" where
  "by_similarity db v rows =
     sort_key (\<lambda>r. - similarity db (row_vector r) v) (sort_key (\<lambda>r. tie_break db (row_id r)) rows)"

definition SearchDocuments :: "DuckDBStore \<Rightarrow> SearchRequest \<Rightarrow> (DocDB, Document list) eff" where
  "SearchDocuments st request =
     (case embeddings st of
        None \<Rightarrow> throw UndefinedBehaviour
      | Some m \<Rightarrow>
          let limit = (if top_k request > 0 then min (top_k request) 10000 else 10) in
          bindE (liftR (EmbedQuery m (search_query request))) (\<lambda>v.
          bindE (getE fmt_double) (\<lambda>fmt.
          bindE (case metadata_filter request of
              None \<Rightarrow> ret QueryNotSet
            | Some q \<Rightarrow>
                bindE (liftR (make_search_sql fmt (table_name (options st)) (metadata_schema st) v q limit)) (\<lambda>_. ret q)) (\<lambda>q.
          with_table st (\<lambda>t.
          bindE (getE (\<lambda>db. where_condition db t q)) (\<lambda>c.
          case c of
            None \<Rightarrow> throw query_error
          | Some holds \<Rightarrow>
              bindE (getE by_similarity) (\<lambda>ranked.
              observe_query_result (metadata_schema st) row_fields (take (nat limit) (ranked v (filter holds (table_rows t)))))))))))"

end
