(* ===== verification/Ingestor.thy ===== *)
theory Ingestor
  imports Text_Splitter
begin

text \<open>
  \<^verbatim>\<open>instinct-retrieval/include/ingestor\<close> (\<^verbatim>\<open>BaseIngestor\<close>,
  \<^verbatim>\<open>SingleFileIngestor\<close>, \<^verbatim>\<open>PDFFileIngestor\<close>, \<^verbatim>\<open>DOCXFileIngestor\<close>),
  the choice among them in \<^verbatim>\<open>RetrieverObjectFactory.hpp\<close>, and
  \<^verbatim>\<open>chain/SummaryChain.hpp\<close>.

  PDFium and DuckX are outside the repository: the pages of a PDF file (or the exception its constructor
  throws) and the paragraphs of a DOCX file, each the list of its runs, are arguments. A source of
  documents is the list it delivers and the error it ends with, if any.
\<close>

type_synonym source = "Document list \<times> exn option"

section \<open>Documents of a file\<close>

definition CreateNewDocument :: "(Document \<Rightarrow> Document) option \<Rightarrow> string \<Rightarrow> string \<Rightarrow> int \<Rightarrow> string \<Rightarrow> Document" where
  "CreateNewDocument document_post_processor t parent_doc_id page_no source =
     (let document = AddPresetMetadataFields \<lparr>doc_id = [], doc_text = t, metadata = []\<rparr> parent_doc_id page_no source 0 0 in
      case document_post_processor of None \<Rightarrow> document | Some f \<Rightarrow> f document)"

record Ingestor =
  post_processor :: "(Document \<Rightarrow> Document) option"
  ingest_path :: string
  file_source :: string

definition ingestor_document :: "Ingestor \<Rightarrow> string \<Rightarrow> int \<Rightarrow> Document" where
  "ingestor_document g t page_no =
     CreateNewDocument (post_processor g) t ROOT_DOC_ID page_no
       (if IsBlankString (file_source g) then ingest_path g else file_source g)"

definition SingleFile_Load :: "Ingestor \<Rightarrow> string \<Rightarrow> source" where
  "SingleFile_Load g content = ([ingestor_document g content 1], None)"

fun PDF_Load_loop :: "Ingestor \<Rightarrow> nat \<Rightarrow> string result list \<Rightarrow> source" where
  "PDF_Load_loop g i [] = ([], None)"
| "PDF_Load_loop g i (Inl e # pages) = ([], Some e)"
| "PDF_Load_loop g i (Inr t # pages) = apfst ((#) (ingestor_document g t (int i + 1))) (PDF_Load_loop g (Suc i) pages)"

definition PDF_Load :: "Ingestor \<Rightarrow> string result list result \<Rightarrow> source" where
  "PDF_Load g pdf = (case pdf of Inl e \<Rightarrow> ([], Some e) | Inr pages \<Rightarrow> PDF_Load_loop g 0 pages)"

definition max_paragraph_per_doc :: nat where "max_paragraph_per_doc = 20"

definition flush_docx :: "Ingestor \<Rightarrow> string \<Rightarrow> int \<Rightarrow> Document list \<times> int" where
  "flush_docx g buf page_no =
     (if \<not> IsBlankString buf then ([ingestor_document g buf (page_no + 1)], page_no + 1) else ([], page_no))"

fun DOCX_Load_loop :: "Ingestor \<Rightarrow> nat \<Rightarrow> int \<Rightarrow> string \<Rightarrow> string list list \<Rightarrow> Document list" where
  "DOCX_Load_loop g i page_no buf [] = (if buf \<noteq> [] then fst (flush_docx g buf page_no) else [])"
| "DOCX_Load_loop g i page_no buf (p # paragraphs) =
     (let buf = buf @ concat p in
      if Suc i mod max_paragraph_per_doc = 0
      then (let (docs, page_no) = flush_docx g buf page_no in docs @ DOCX_Load_loop g (Suc i) page_no [] paragraphs)
      else DOCX_Load_loop g (Suc i) page_no buf paragraphs)"

definition DOCX_Load :: "Ingestor \<Rightarrow> string list list \<Rightarrow> source" where
  "DOCX_Load g paragraphs = (DOCX_Load_loop g 0 0 [] paragraphs, None)"

section \<open>Choice of an ingestor\<close>

text \<open>
  \<open>.+\.(.+)\<close> matched greedily against the whole path: the text after the last dot that has a
  character on either side. A dot of the pattern does not match a line terminator.
\<close>

definition ext_name :: "string \<Rightarrow> string option" where
  "ext_name path =
     (if list_ex (\<lambda>c. c = CHR 0x0A \<or> c = CHR 0x0D) path then None
      else case find (\<lambda>i. path ! i = CHR ''.'') (rev [1..<length path - 1]) of
        None \<Rightarrow> None
      | Some i \<Rightarrow> Some (drop (Suc i) path))"

datatype IngestorKind = PDFFileIngestor | PlainTextFileIngestor | DOCXFileIngestor

definition ingestor_kind :: "string \<Rightarrow> IngestorKind option" where
  "ingestor_kind path_string =
     (case ext_name path_string of
        None \<Rightarrow> None
      | Some m \<Rightarrow>
          let extname = ToLower m in
          if extname = ''pdf'' then Some PDFFileIngestor
          else if extname = ''txt'' \<or> extname = ''md'' then Some PlainTextFileIngestor
          else if extname = ''docx'' then Some DOCXFileIngestor
          else None)"

text \<open>\<open>fail_fast\<close> decides between an exception and a null pointer. The file exists and is regular.\<close>

definition CreateIngestor :: "string \<Rightarrow> string \<Rightarrow> (Document \<Rightarrow> Document) option \<Rightarrow> bool \<Rightarrow> (IngestorKind \<times> Ingestor) option result" where
  "CreateIngestor path parent_doc_id post fail_fast =
     (case ingestor_kind path of
        Some k \<Rightarrow> Inr (Some (k, \<lparr>post_processor = post, ingest_path = path, file_source = parent_doc_id\<rparr>))
      | None \<Rightarrow>
          if fail_fast then Inl (InstinctException (''Cannot build ingestor for file '' @ path)) else Inr None)"

definition Load :: "(string \<Rightarrow> string result list result) \<Rightarrow> (string \<Rightarrow> string list list) \<Rightarrow> IngestorKind \<times> Ingestor \<Rightarrow> string \<Rightarrow> source" where
  "Load pdf_pages docx_paragraphs kg content =
     (case fst kg of
        PDFFileIngestor \<Rightarrow> PDF_Load (snd kg) (pdf_pages content)
      | PlainTextFileIngestor \<Rightarrow> SingleFile_Load (snd kg) content
      | DOCXFileIngestor \<Rightarrow> DOCX_Load (snd kg) (docx_paragraphs content))"

fun LoadWithSplitter :: "(Document \<Rightarrow> Document list result) \<Rightarrow> Document list \<Rightarrow> exn option \<Rightarrow> source" where
  "LoadWithSplitter SplitDoc [] e = ([], e)"
| "LoadWithSplitter SplitDoc (doc # docs) e =
     (case SplitDoc doc of
        Inl x \<Rightarrow> ([], Some x)
      | Inr parts \<Rightarrow> apfst ((@) parts) (LoadWithSplitter SplitDoc docs e))"

section \<open>Summaries\<close>

definition string_size_reducible :: "nat \<Rightarrow> string list \<Rightarrow> string \<Rightarrow> bool" where
  "string_size_reducible limit d delta \<longleftrightarrow> sum_list (map length d) + length delta \<ge> limit"

definition DocumentListInput :: "string list \<Rightarrow> string" where
  "DocumentListInput input = concat (map (\<lambda>t. t @ [CHR 0x0A]) input)"

text \<open>
  One pass: each text goes through the chain, its answers are collected until the next one would make
  the batch reducible, and each batch goes through the chain again.
\<close>

fun summary_pass :: "(string list \<Rightarrow> string result) \<Rightarrow> (string list \<Rightarrow> string \<Rightarrow> bool) \<Rightarrow> string list \<Rightarrow> string list \<Rightarrow>
    string list result" where
  "summary_pass chain reducible buf [] =
     (if buf \<noteq> [] then bindR (chain buf) (\<lambda>s. Inr [s]) else Inr [])"
| "summary_pass chain reducible buf (t # ts) =
     bindR (chain [t]) (\<lambda>a.
       if buf \<noteq> [] \<and> reducible buf a
       then bindR (chain buf) (\<lambda>s. bindR (summary_pass chain reducible [a] ts) (\<lambda>ss. Inr (s # ss)))
       else summary_pass chain reducible (buf @ [a]) ts)"

partial_function (option) CreateSummary :: "(string list \<Rightarrow> string result) \<Rightarrow> (string list \<Rightarrow> string \<Rightarrow> bool) \<Rightarrow> string list \<Rightarrow>
    string result option" where
  "CreateSummary chain reducible source =
     (case summary_pass chain reducible [] source of
        Inl e \<Rightarrow> Some (Inl e)
      | Inr [] \<Rightarrow> Some (Inl (ClientException ''should have multiple summaries to continue''))
      | Inr [s] \<Rightarrow> Some (Inr s)
      | Inr summaries \<Rightarrow> CreateSummary chain reducible summaries)"

declare CreateSummary.simps [code]

end
