(* ===== verification/Retriever.thy ===== *)
theory Retriever
  imports Doc_Store Ingestor Entity_Store
begin

text \<open>
  \<^verbatim>\<open>instinct-retrieval/include/retrieval\<close>, \<^verbatim>\<open>DuckDBVectorStoreOperator.hpp\<close> with
  \<^verbatim>\<open>VectorStoreMetadataDataMapper.hpp\<close>, and
  \<^verbatim>\<open>instinct-assistant/.../SimpleRetrieverOperator.hpp\<close>.

  An iterator of documents is the list it delivers. Embedding, ranking and language models, the hash of
  the instance ids and the splitters (with the conversion between UTF-8 and ICU strings around them)
  are arguments. The order in which a set of parent ids is walked is that of their first occurrence;
  the answer of \<open>MultiGetDocuments\<close> does not depend on it. The times of an instance are not
  kept.
\<close>

section \<open>Vector store instances\<close>

interpretation instance_table: table instinct_vector_store_metadata instinct_vector_store_metadata_update vsi_instance_id
  by unfold_locales simp

definition InsertInstance :: "VectorStoreInstanceMetadata \<Rightarrow> (DocDB, string option) eff" where
  "InsertInstance row =
     bindE (context_string (vsi_instance_id row)) (\<lambda>_.
     bindE (context_string (vsi_embedding_table_name row)) (\<lambda>_.
     bindE (DT_InsertOne instinct_vector_store_metadata instinct_vector_store_metadata_update vsi_instance_id row) (\<lambda>_.
     ret (Some ''1''))))"

definition Mapper_ListInstances :: "(DocDB, VectorStoreInstanceMetadata list) eff" where
  "Mapper_ListInstances = DT_SelectMany instinct_vector_store_metadata (\<lambda>_ rows. rows)"

definition Mapper_RemoveInstance :: "string \<Rightarrow> (DocDB, nat) eff" where
  "Mapper_RemoveInstance i =
     DT_Execute_delete instinct_vector_store_metadata instinct_vector_store_metadata_update (\<lambda>r. vsi_instance_id r = i)"

definition GetInstance :: "string \<Rightarrow> (DocDB, VectorStoreInstanceMetadata option) eff" where
  "GetInstance i = DT_SelectOne instinct_vector_store_metadata (filter (\<lambda>r. vsi_instance_id r = i))"

record DuckDBVectorStoreOperator =
  default_metadata_schema :: MetadataSchema
  embedding_model_selector :: "string \<Rightarrow> MetadataSchema \<Rightarrow> Embeddings"
  sha256 :: "string \<Rightarrow> string"

definition TableNameForInstance :: "DuckDBVectorStoreOperator \<Rightarrow> string \<Rightarrow> string" where
  "TableNameForInstance p i = ''vs_'' @ sha256 p i"

definition ConfigureDuckDBOptions :: "DuckDBVectorStoreOperator \<Rightarrow> Embeddings \<Rightarrow> bool \<Rightarrow> string \<Rightarrow> DuckDBStoreOptions" where
  "ConfigureDuckDBOptions p m bypass_check i =
     \<lparr>table_name = TableNameForInstance p i, dimension = GetDimension m, bypass_unknown_fields = True,
      create_or_replace_table = False, bypass_table_check = bypass_check, instance_id = i\<rparr>"

definition CreateInstance :: "DuckDBVectorStoreOperator \<Rightarrow> string \<Rightarrow> MetadataSchema \<Rightarrow> (DocDB, DuckDBStore) eff" where
  "CreateInstance p i schema =
     bindE (assert_not_blank i ''should have non-blank instance_id'') (\<lambda>_.
     bindE (GetInstance i) (\<lambda>inst.
     bindE (assert_true (inst = None) (''instance with id '' @ i @ '' already exists'')) (\<lambda>_.
     let m = embedding_model_selector p i schema in
     bindE (CreateDuckDBVectorStore m (ConfigureDuckDBOptions p m False i) (Some schema)) (\<lambda>st.
     bindE (InsertInstance \<lparr>vsi_instance_id = i, vsi_metadata_schema = schema,
       vsi_embedding_table_name = TableNameForInstance p i\<rparr>) (\<lambda>pk.
     bindE (assert_true (pk \<noteq> None) ''should have one instance inserted'') (\<lambda>_. ret st))))))"

definition CreateInstance_default :: "DuckDBVectorStoreOperator \<Rightarrow> string \<Rightarrow> (DocDB, DuckDBStore) eff" where
  "CreateInstance_default p i = CreateInstance p i (default_metadata_schema p)"

definition LoadInstance :: "DuckDBVectorStoreOperator \<Rightarrow> string \<Rightarrow> (DocDB, DuckDBStore option) eff" where
  "LoadInstance p i =
     bindE (assert_not_blank i ''should have non-blank instance_id'') (\<lambda>_.
     bindE (GetInstance i) (\<lambda>inst.
     case inst of
       None \<Rightarrow> ret None
     | Some d \<Rightarrow>
         let m = embedding_model_selector p i (vsi_metadata_schema d) in
         bindE (CreateDuckDBVectorStore m (ConfigureDuckDBOptions p m True i) (Some (vsi_metadata_schema d))) (\<lambda>st.
         ret (Some st))))"

definition ListInstances :: "(DocDB, string list) eff" where
  "ListInstances = bindE Mapper_ListInstances (\<lambda>ds. ret (map vsi_instance_id ds))"

definition RemoveInstance :: "DuckDBVectorStoreOperator \<Rightarrow> string \<Rightarrow> (DocDB, bool) eff" where
  "RemoveInstance p i =
     bindE (LoadInstance p i) (\<lambda>inst.
     bindE (case inst of None \<Rightarrow> ret () | Some st \<Rightarrow> bindE (Destroy st) (\<lambda>_. ret ())) (\<lambda>_.
     bindE (Mapper_RemoveInstance i) (\<lambda>n. ret (n = 1))))"

section \<open>Multi-vector retrievers\<close>

type_synonym splitter = "string \<Rightarrow> string list result"

definition utf8_splitter :: "BaseTextSplitter \<Rightarrow> (ustring \<Rightarrow> ustring list result option) \<Rightarrow> splitter" where
  "utf8_splitter c SplitText t =
     (case SplitText (fromUTF8 c t) of
        None \<Rightarrow> Inl OutOfFuel
      | Some r \<Rightarrow> bindR r (\<lambda>chunks. Inr (map (toUTF8String c) chunks)))"

record MultiVectorRetriever =
  doc_store :: DuckDBStore
  vector_store :: DuckDBStore
  guidance :: "Document \<Rightarrow> (DocDB, Document list) eff"

definition parent_of :: "Document \<Rightarrow> string result" where
  "parent_of doc =
     (case GetStringValueMetadataField doc METADATA_SCHEMA_PARENT_DOC_ID_KEY of
        None \<Rightarrow> Inl (ClientException ''should have found parent_doc_id in parent doc's metadata'')
      | Some i \<Rightarrow>
          if IsNotBlankString i then Inr i
          else Inl (ClientException ''should have found parent_doc_id in parent doc's metadata''))"

definition MultiVector_Retrieve :: "MultiVectorRetriever \<Rightarrow> SearchRequest \<Rightarrow> (DocDB, Document list) eff" where
  "MultiVector_Retrieve r request =
     bindE (SearchDocuments (vector_store r) request) (\<lambda>docs.
     bindE (liftR (mapR parent_of docs)) (\<lambda>ids.
     MultiGetDocuments (doc_store r) (rev (remdups (rev ids)))))"

definition BATCH_SIZE :: nat where "BATCH_SIZE = 50"

function buffer :: "nat \<Rightarrow> 'a list \<Rightarrow> 'a list list" where
  "buffer n xs = (if xs = [] \<or> n = 0 then [] else take n xs # buffer n (drop n xs))"
  by pat_completeness auto
termination by (relation "measure (\<lambda>(n, xs). length xs)") (auto simp: length_greater_0_conv)

declare buffer.simps [simp del]

definition ingest_children :: "MultiVectorRetriever \<Rightarrow> Document \<Rightarrow> (DocDB, unit) eff" where
  "ingest_children r parent_doc =
     bindE (guidance r parent_doc) (\<lambda>sub_docs.
     bindE (AddDocuments (vector_store r) sub_docs) (\<lambda>(_, res).
     assert_true (failed_documents res = []) ''all sub docs should be inserted successfully''))"

definition ingest_batch :: "MultiVectorRetriever \<Rightarrow> Document list \<Rightarrow> (DocDB, unit) eff" where
  "ingest_batch r buf =
     bindE (AddDocuments (doc_store r) buf) (\<lambda>(batch, _). forE (ingest_children r) batch)"

text \<open>
  A buffer that is not full when the
  source fails is dropped.
\<close>

definition MultiVector_Ingest :: "MultiVectorRetriever \<Rightarrow> source \<Rightarrow> (DocDB, unit) eff" where
  "MultiVector_Ingest r input =
     (case snd input of
        None \<Rightarrow> forE (ingest_batch r) (buffer BATCH_SIZE (fst input))
      | Some e \<Rightarrow>
          bindE (forE (ingest_batch r) (filter (\<lambda>b. length b = BATCH_SIZE) (buffer BATCH_SIZE (fst input)))) (\<lambda>_. throw e))"

definition MultiVector_Remove :: "MultiVectorRetriever \<Rightarrow> SearchQuery \<Rightarrow> (DocDB, unit) eff" where
  "MultiVector_Remove r q =
     bindE (DeleteDocuments (doc_store r) q no_result) (\<lambda>res.
     bindE (DeleteDocuments (vector_store r) q res) (\<lambda>_. ret ()))"

text \<open>The guidance of the chunked retriever: the chunks of a document as documents.\<close>

definition child_document :: "Document \<Rightarrow> nat \<Rightarrow> string \<Rightarrow> Document result" where
  "child_document parent_doc i str =
     (case GetStringValueMetadataField parent_doc METADATA_SCHEMA_FILE_SOURCE_KEY of
        Some source \<Rightarrow>
          if IsNotBlankString source
          then (let start = find_pos str (doc_text parent_doc) 0 in
            Inr (AddPresetMetadataFields \<lparr>doc_id = [], doc_text = str, metadata = metadata parent_doc\<rparr> (doc_id parent_doc)
              (int i + 1) source (to_int32 start) (to_int32 (start + int (length str)))))
          else Inl (ClientException ''should have found parent_doc_id in parent doc's metadata'')
      | None \<Rightarrow> Inl (ClientException ''should have found parent_doc_id in parent doc's metadata''))"

definition SplitChildDoc :: "splitter \<Rightarrow> Document \<Rightarrow> Document list result" where
  "SplitChildDoc child_splitter parent_doc =
     bindR (child_splitter (doc_text parent_doc)) (\<lambda>chunks.
     mapR (\<lambda>(i, str). child_document parent_doc i str) (enumerate 0 chunks))"

definition ChunkedMultiVectorRetriever :: "DuckDBStore \<Rightarrow> DuckDBStore \<Rightarrow> splitter \<Rightarrow> MultiVectorRetriever" where
  "ChunkedMultiVectorRetriever ds vs child_splitter =
     \<lparr>doc_store = ds, vector_store = vs, guidance = (\<lambda>doc. liftR (SplitChildDoc child_splitter doc))\<rparr>"

definition split_parent :: "splitter \<Rightarrow> Document \<Rightarrow> Document list result" where
  "split_parent parent_splitter doc =
     bindR (parent_splitter (doc_text doc)) (\<lambda>parts.
     Inr (map (\<lambda>t. \<lparr>doc_id = [], doc_text = t, metadata = metadata doc\<rparr>) parts))"

fun split_source :: "splitter \<Rightarrow> Document list \<Rightarrow> exn option \<Rightarrow> source" where
  "split_source parent_splitter [] e = ([], e)"
| "split_source parent_splitter (doc # docs) e =
     (case split_parent parent_splitter doc of
        Inl x \<Rightarrow> ([], Some x)
      | Inr parts \<Rightarrow> apfst ((@) parts) (split_source parent_splitter docs e))"

definition Chunked_Ingest :: "MultiVectorRetriever \<Rightarrow> splitter option \<Rightarrow> source \<Rightarrow> (DocDB, unit) eff" where
  "Chunked_Ingest r parent_splitter input =
     (case parent_splitter of
        None \<Rightarrow> MultiVector_Ingest r input
      | Some sp \<Rightarrow> MultiVector_Ingest r (split_source sp (fst input) (snd input)))"

text \<open>The guidance by a summary and by hypothetical questions; the chains are arguments.\<close>

definition source_of :: "Document \<Rightarrow> (DocDB, string) eff" where
  "source_of doc =
     (let s = GetStringValueMetadataField doc METADATA_SCHEMA_FILE_SOURCE_KEY in
      bindE (assert_true (s \<noteq> None \<and> IsNotBlankString (the s)) ''parent doc should have file_source field'') (\<lambda>_. ret (the s)))"

definition summary_guidance :: "(string \<Rightarrow> string result) \<Rightarrow> Document \<Rightarrow> (DocDB, Document list) eff" where
  "summary_guidance summary_chain doc =
     bindE (assert_true (\<not> IsBlankString (doc_id doc)) ''should have valid doc id'') (\<lambda>_.
     bindE (liftR (summary_chain (doc_text doc))) (\<lambda>generation.
     bindE new_uuid (\<lambda>i.
     bindE (source_of doc) (\<lambda>source.
     ret [AddPresetMetadataFields \<lparr>doc_id = i, doc_text = generation, metadata = []\<rparr> (doc_id doc) 0 source 0 0]))))"

definition queries_guidance :: "(string \<Rightarrow> string list result) \<Rightarrow> Document \<Rightarrow> (DocDB, Document list) eff" where
  "queries_guidance query_chain doc =
     bindE (assert_true (\<not> IsBlankString (doc_id doc)) ''should have valid doc id'') (\<lambda>_.
     bindE (liftR (query_chain (doc_text doc))) (\<lambda>queries.
     mapE (\<lambda>(i, q).
       bindE new_uuid (\<lambda>u.
       bindE (source_of doc) (\<lambda>source.
       ret (AddPresetMetadataFields \<lparr>doc_id = u, doc_text = q, metadata = []\<rparr> (doc_id doc) (int i) source 0 0))))
       (enumerate 0 queries)))"

section \<open>The other retrievers\<close>

definition VectorStoreRetriever_Remove :: "DuckDBStore \<Rightarrow> SearchQuery \<Rightarrow> (DocDB, unit) eff" where
  "VectorStoreRetriever_Remove st q =
     bindE (DeleteDocuments st q no_result) (\<lambda>res.
     assert_true (failed_documents res = []) ''should have all documents deleted'')"

definition VectorStoreRetriever_Retrieve :: "DuckDBStore \<Rightarrow> SearchRequest \<Rightarrow> (DocDB, Document list) eff" where
  "VectorStoreRetriever_Retrieve st request = SearchDocuments st request"

text \<open>The documents are collected before any is added, so a source that fails adds nothing.\<close>

definition VectorStoreRetriever_Ingest :: "DuckDBStore \<Rightarrow> source \<Rightarrow> (DocDB, unit) eff" where
  "VectorStoreRetriever_Ingest st input =
     (case snd input of
        Some e \<Rightarrow> throw e
      | None \<Rightarrow>
          bindE (AddDocuments st (fst input)) (\<lambda>(_, res).
          assert_true (failed_documents res = []) ''should not have failed documents''))"

type_synonym retrieve = "SearchRequest \<Rightarrow> (DocDB, Document list) eff"

definition Retrieve_text :: "retrieve \<Rightarrow> string \<Rightarrow> int \<Rightarrow> (DocDB, Document list) eff" where
  "Retrieve_text r t k = r \<lparr>search_query = t, top_k = k, metadata_filter = None\<rparr>"

definition AsContextRetrieverFunction :: "retrieve \<Rightarrow> int \<Rightarrow> string \<Rightarrow> (DocDB, string) eff" where
  "AsContextRetrieverFunction r k question_string =
     bindE (Retrieve_text r question_string k) (\<lambda>docs. ret (CombineDocuments docs))"

text \<open>\<open>distinct\<close> keeps the first of equal documents.\<close>

definition MultiQuery_Retrieve :: "retrieve \<Rightarrow> (string \<Rightarrow> string list result) \<Rightarrow> retrieve" where
  "MultiQuery_Retrieve base query_chain request =
     bindE (liftR (query_chain (search_query request))) (\<lambda>queries.
     bindE (assert_true (length queries > 1) ''should have multiple generated queries.'') (\<lambda>_.
     bindE (mapE (\<lambda>q. base (request\<lparr>search_query := q\<rparr>)) queries) (\<lambda>docs.
     ret (rev (remdups (rev (concat docs)))))))"

text \<open>
  What a multi-path retriever means to deliver: the ids of all documents by descending score, each
  looked up as the last document of that id; \<open>std_sort\<close> is the library's sort, which need not be
  stable.
\<close>

definition ranked_documents :: "((string \<times> rat) list \<Rightarrow> (string \<times> rat) list) \<Rightarrow> int \<Rightarrow> Document list \<Rightarrow> rat list \<Rightarrow> Document list" where
  "ranked_documents std_sort k docs scores =
     (let doc_id_idx = map_of (rev (map (\<lambda>d. (doc_id d, d)) docs)) in
      map (\<lambda>(i, _). the (doc_id_idx i)) (take (nat k) (std_sort (zip (map doc_id docs) scores))))"

text \<open>
  The observable made for two or more retrievers captures the local variables by reference and runs
  when it is subscribed to, after they are gone.
\<close>

definition MultiPath_Retrieve :: "(string \<Rightarrow> string \<Rightarrow> rat result) \<Rightarrow> retrieve list \<Rightarrow> retrieve" where
  "MultiPath_Retrieve GetRankingScore retrievers request =
     (if length retrievers = 1 then (retrievers ! 0) request
      else bindE (mapE (\<lambda>r. r request) retrievers) (\<lambda>batches.
        bindE (liftR (mapR (\<lambda>d. GetRankingScore (search_query request) (doc_text d)) (concat batches))) (\<lambda>scores.
        throw UndefinedBehaviour)))"

section \<open>The retriever operator\<close>

definition VECTOR_STORE_ID_KEY :: string where "VECTOR_STORE_ID_KEY = ''vs_id''"

record SimpleRetrieverOperator =
  vector_store_operator :: DuckDBVectorStoreOperator
  shared_doc_store :: DuckDBStore
  parent_chunk_size :: int
  child_chunk_size :: int
  child_chunk_overlap :: int
  child_splitter :: splitter
  parent_splitter :: splitter

definition check_operator :: "SimpleRetrieverOperator \<Rightarrow> (DocDB, unit) eff" where
  "check_operator p =
     bindE (forE (\<lambda>n. assert_true (list_ex (\<lambda>f. fs_name f = n) (metadata_schema (shared_doc_store p)))
       (n @ '' should exist in given MetadataSchema'')) [METADATA_SCHEMA_PARENT_DOC_ID_KEY, VECTOR_STORE_ID_KEY]) (\<lambda>_.
     bindE (assert_positive (child_chunk_size p) ''value should be positive '') (\<lambda>_.
     bindE (assert_gte (child_chunk_overlap p) 0 ''value is not small enough'') (\<lambda>_.
     bindE (assert_lte (child_chunk_overlap p) (child_chunk_size p) ''value should be less or equal'') (\<lambda>_.
     if parent_chunk_size p > 0
     then assert_true (parent_chunk_size p > child_chunk_size p) ''parent_chunk_size should be larger than child_chunk_size''
     else ret ()))))"

definition Simple_ProvisionRetriever :: "SimpleRetrieverOperator \<Rightarrow> string \<Rightarrow> (DocDB, DuckDBStore) eff" where
  "Simple_ProvisionRetriever p i = CreateInstance_default (vector_store_operator p) i"

definition string_term :: "string \<Rightarrow> string \<Rightarrow> SearchQuery" where
  "string_term name s = TermQuery name \<lparr>value_kind = StringValue s, value_is_null = False\<rparr>"

definition Simple_CleanupRetriever :: "SimpleRetrieverOperator \<Rightarrow> string \<Rightarrow> (DocDB, bool) eff" where
  "Simple_CleanupRetriever p i =
     bindE (DeleteDocuments (shared_doc_store p) (string_term VECTOR_STORE_ID_KEY i) no_result) (\<lambda>res.
     if failed_documents res = [] then RemoveInstance (vector_store_operator p) i else ret False)"

definition Simple_GetStatefulRetriever :: "SimpleRetrieverOperator \<Rightarrow> string \<Rightarrow> (DocDB, MultiVectorRetriever \<times> splitter option) eff" where
  "Simple_GetStatefulRetriever p i =
     bindE (assert_not_blank i ''should have non-blank vector_store_object_id'') (\<lambda>_.
     bindE (LoadInstance (vector_store_operator p) i) (\<lambda>st.
     bindE (assert_true (st \<noteq> None) (''should have found vector store by id '' @ i)) (\<lambda>_.
     ret (ChunkedMultiVectorRetriever (shared_doc_store p) (the st) (child_splitter p),
       if parent_chunk_size p > 0 then Some (parent_splitter p) else None))))"

definition Simple_GetStatelessRetriever :: "SimpleRetrieverOperator \<Rightarrow> (string \<Rightarrow> string \<Rightarrow> rat result) \<Rightarrow> string list \<Rightarrow> (DocDB, retrieve) eff" where
  "Simple_GetStatelessRetriever p GetRankingScore ids =
     bindE (assert_true (ids \<noteq> []) ''assertion failed'') (\<lambda>_.
     bindE (mapE (\<lambda>i.
       bindE (LoadInstance (vector_store_operator p) i) (\<lambda>_.
       bindE (Simple_GetStatefulRetriever p i) (\<lambda>(r, _). ret (MultiVector_Retrieve r)))) ids) (\<lambda>children.
     ret (MultiPath_Retrieve GetRankingScore children)))"

definition CreatePresetMetadataSchemaForRetrieverOperator :: MetadataSchema where
  "CreatePresetMetadataSchemaForRetrieverOperator =
     CreateDocStorePresetMetadataSchema @ [\<lparr>fs_name = VECTOR_STORE_ID_KEY, fs_type = VARCHAR\<rparr>]"

end
