(* ===== verification/Ingestor_Correct.thy ===== *)
theory Ingestor_Correct
  imports Ingestor
begin

text \<open>
  What the ingestors and the summary chain guarantee: when recursive summarising ends and when it does
  not, and which documents the files give.
\<close>

section \<open>Summaries\<close>

text \<open>
  Answers of at most \<open>s\<close> characters with \<open>2 * s\<close> below the limit: no batch of one is
  closed, so a pass at least halves the number of texts.
\<close>

lemma summary_pass_halves:
  assumes "\<And>xs. chain xs = Inr (g xs)" and "\<And>xs. length (g xs) \<le> s" and "2 * s < limit" and "\<And>b. b \<in> set buf \<Longrightarrow> length b \<le> s"
  shows "\<exists>ss. summary_pass chain (string_size_reducible limit) buf ts = Inr ss \<and>
    (ss = [] \<longleftrightarrow> buf = [] \<and> ts = []) \<and>
    length ss \<le> (if length buf < 2 then (length ts + length buf + 1) div 2 else 1 + (length ts + 1) div 2)"
  using assms(4)
proof (induction ts arbitrary: buf)
  case Nil
  then show ?case using assms(1) [of buf] by (cases buf) auto
next
  case (Cons t ts)
  define a where "a = g [t]"
  have a: "chain [t] = Inr a" "length a \<le> s" using assms(1,2) by (simp_all add: a_def)
  show ?case
  proof (cases "buf \<noteq> [] \<and> string_size_reducible limit buf a")
    case True
    have "length buf \<ge> 2"
    proof (rule ccontr)
      assume "\<not> length buf \<ge> 2"
      then obtain b where "buf = [b]" using True by (cases buf) (auto simp: Suc_le_eq)
      then show False using True a(2) Cons.prems assms(3) by (auto simp: string_size_reducible_def)
    qed
    moreover obtain ss where "summary_pass chain (string_size_reducible limit) [a] ts = Inr ss" "length ss \<le> (length ts + 2) div 2"
      using Cons.IH [of "[a]"] a(2) by auto
    ultimately show ?thesis using True a(1) assms(1) [of buf] by auto
  next
    case False
    obtain ss where "summary_pass chain (string_size_reducible limit) (buf @ [a]) ts = Inr ss" "ss \<noteq> []"
        "length ss \<le> (if length (buf @ [a]) < 2 then (length ts + length (buf @ [a]) + 1) div 2 else 1 + (length ts + 1) div 2)"
      using Cons.IH [of "buf @ [a]"] Cons.prems a(2) by auto
    moreover have "summary_pass chain (string_size_reducible limit) buf (t # ts) =
        summary_pass chain (string_size_reducible limit) (buf @ [a]) ts"
      using False a(1) by auto
    ultimately show ?thesis by (cases buf) (auto split: if_splits)
  qed
qed

lemma CreateSummary_ends:
  assumes "\<And>xs. chain xs = Inr (g xs)" and "\<And>xs. length (g xs) \<le> s" and "2 * s < limit"
  shows "source \<noteq> [] \<Longrightarrow> \<exists>r. CreateSummary chain (string_size_reducible limit) source = Some (Inr r)"
proof (induction "length source" arbitrary: source rule: less_induct)
  case less
  obtain ss where ss: "summary_pass chain (string_size_reducible limit) [] source = Inr ss" "ss \<noteq> []"
      "length ss \<le> (length source + 1) div 2"
    using summary_pass_halves [where chain = chain and g = g and s = s and limit = limit and buf = "[]" and ts = source, OF assms] less.prems by auto
  show ?case
  proof (cases ss rule: list.exhaust [case_names Nil Cons])
    case Nil
    then show ?thesis using ss by simp
  next
    case (Cons r rs)
    show ?thesis
    proof (cases rs)
      case Nil
      then show ?thesis using ss Cons by (subst CreateSummary.simps) simp
    next
      case (Cons r' rs')
      then have "length ss \<ge> 2" using \<open>ss = r # rs\<close> by simp
      then have "length ss < length source" using ss(3) by linarith
      then show ?thesis using less.hyps [of ss] ss Cons \<open>ss = r # rs\<close> by (subst CreateSummary.simps) simp
    qed
  qed
qed



lemma summary_pass_singletons:
  assumes "\<And>xs. \<exists>a. chain xs = Inr a \<and> length a \<ge> limit"
  shows "length buf \<le> 1 \<Longrightarrow> \<exists>ss. summary_pass chain (string_size_reducible limit) buf ts = Inr ss \<and> length ss = length buf + length ts"
proof (induction ts arbitrary: buf)
  case Nil
  then show ?case using assms [of buf] by (cases buf) auto
next
  case (Cons t ts)
  obtain a where a: "chain [t] = Inr a" "length a \<ge> limit" using assms by blast
  obtain s where s: "chain buf = Inr s" using assms by blast
  obtain ss where ss: "summary_pass chain (string_size_reducible limit) [a] ts = Inr ss" "length ss = 1 + length ts"
    using Cons.IH [of "[a]"] by auto
  have "string_size_reducible limit buf a" using a(2) by (simp add: string_size_reducible_def)
  then show ?case using a s ss Cons.prems by (cases buf) auto
qed

text \<open>
  Summarising need not end. If every answer alone is as long as the limit, each batch holds one
  text, a pass never has fewer texts than the one before, and two documents are enough for the recursion
  to go on for ever.
\<close>

theorem CreateSummary_diverges:
  assumes "\<forall>xs. \<exists>a. chain xs = Inr a \<and> length a \<ge> limit" and "length source \<ge> 2"
  shows "CreateSummary chain (string_size_reducible limit) source = None"
proof -
  let ?P = "\<lambda>chain reducible source (r :: string result). reducible = string_size_reducible limit \<longrightarrow>
      (\<forall>xs. \<exists>a. chain xs = Inr a \<and> length a \<ge> limit) \<longrightarrow> length source < 2"
  have "?P chain reducible source r" if "CreateSummary chain reducible source = Some r" for chain reducible source r
  proof (rule CreateSummary.raw_induct [of ?P, OF _ that])
    fix f chain reducible source r
    assume IH: "\<And>c k src y. f c k src = Some y \<Longrightarrow> ?P c k src y"
      and step: "(case summary_pass chain reducible [] source of
        Inl e \<Rightarrow> Some (Inl e)
      | Inr [] \<Rightarrow> Some (Inl (ClientException ''should have multiple summaries to continue''))
      | Inr [s] \<Rightarrow> Some (Inr s)
      | Inr (s # v # va) \<Rightarrow> f chain reducible (s # v # va)) = Some r"
    show "?P chain reducible source r"
    proof (intro impI)
      assume red: "reducible = string_size_reducible limit" and answers: "\<forall>xs. \<exists>a. chain xs = Inr a \<and> length a \<ge> limit"
      obtain ss where ss: "summary_pass chain reducible [] source = Inr ss" "length ss = length source"
        using summary_pass_singletons [of chain limit "[]" source] answers red by auto
      show "length source < 2"
      proof (rule ccontr)
        assume "\<not> length source < 2"
        then obtain x y zs where xyz: "ss = x # y # zs" using ss(2) by (cases ss; cases "tl ss") auto
        then have "length ss < 2" using IH [of chain reducible ss r] step ss(1) red answers by simp
        then show False using xyz by simp
      qed
    qed
  qed
  then show ?thesis using assms by (cases "CreateSummary chain (string_size_reducible limit) source") force+
qed

theorem CreateSummary_diverges_witness:
  "CreateSummary (\<lambda>xs. Inr ''a long answer'') (string_size_reducible 8) [''one'', ''two''] = None"
  by (rule CreateSummary_diverges) simp_all

end
