(* ===== verification/File_Store.thy ===== *)
theory File_Store
  imports Assistant_Services Document_Utils
begin

text \<open>
  Files, vector stores and their files and batches: the entities, the object store
  (\<^verbatim>\<open>FileSystemObjectStore.hpp\<close>), the statements on \<open>instinct_file\<close> of
  \<^verbatim>\<open>EntitySQLUtils.hpp\<close> and the three data mappers of
  \<^verbatim>\<open>instinct-assistant/include/assistant/v2/data_mapper\<close>.

  The world of these components extends the one of the assistant services by four tables, the file
  tasks that are scheduled, and the objects on disk: a map from paths to contents. Which paths can be
  opened is decided by the file system and a field no operation changes. An absent
  \<open>sanity_check_at\<close> is \<open>0\<close>.
\<close>

section \<open>Entities\<close>

datatype FileObjectPurpose = unknown_file_object_purpose | assistants | assistants_output

record FileObject =
  f_id :: string
  f_created_at :: int
  f_modified_at :: int
  f_bytes :: int
  f_filename :: string
  f_purpose :: FileObjectPurpose

datatype VectorStoreStatus = unknown_vector_Store_status | vs_expired | vs_in_progress | vs_completed

datatype ExpirationAnchor = unknown_vector_store_expiration_anchor | anchor_last_active_at

record VectorStoreExpirationPolicy =
  anchor :: ExpirationAnchor
  days :: nat

record FileCounts =
  count_in_progress :: int
  count_completed :: int
  count_failed :: int
  count_cancelled :: int
  count_total :: int

record VectorStoreObject =
  v_id :: string
  v_created_at :: int
  v_modified_at :: int
  v_name :: string
  v_file_counts :: "FileCounts option"
  v_status :: VectorStoreStatus
  v_expires_after :: "VectorStoreExpirationPolicy option"
  v_expires_at :: int
  v_last_active_at :: int
  v_metadata :: "json option"
  v_summary :: string

datatype VectorStoreFileStatus = unknown_vector_store_file_status | vsf_in_progress | vsf_completed | vsf_failed | vsf_cancelled

record VectorStoreFileError =
  file_error_code :: CommonErrorType
  file_error_message :: string

record VectorStoreFileObject =
  vf_file_id :: string
  vf_created_at :: int
  vf_modified_at :: int
  vf_vector_store_id :: string
  vf_status :: VectorStoreFileStatus
  vf_last_error :: "VectorStoreFileError option"
  vf_file_batch_id :: string
  vf_summary :: string

datatype VectorStoreFileBatchStatus =
  unknown_vector_store_file_batch_status | vsfb_in_progress | vsfb_completed | vsfb_cancelled | vsfb_failed

record VectorStoreFileBatchObject =
  b_id :: string
  b_created_at :: int
  b_modified_at :: int
  b_vector_store_id :: string
  b_status :: VectorStoreFileBatchStatus
  b_last_error :: "VectorStoreFileError option"
  b_sanity_check_at :: int
  b_file_counts :: "FileCounts option"

record FileWorld = World +
  instinct_file :: "FileObject list"
  instinct_vector_store :: "VectorStoreObject list"
  instinct_vector_store_file :: "VectorStoreFileObject list"
  instinct_vector_store_file_batch :: "VectorStoreFileBatchObject list"
  file_tasks :: "VectorStoreFileObject Task list"
  objects :: "string \<rightharpoonup> string"
  can_open :: "string \<Rightarrow> bool"

text \<open>The primary key of a vector store file is the pair of the two ids.\<close>

definition vf_key :: "VectorStoreFileObject \<Rightarrow> string \<times> string" where
  "vf_key f = (vf_file_id f, vf_vector_store_id f)"

interpretation file_table: table instinct_file instinct_file_update f_id
  by unfold_locales simp

interpretation vector_store_table: table instinct_vector_store instinct_vector_store_update v_id
  by unfold_locales simp

interpretation vector_store_file_table: table instinct_vector_store_file instinct_vector_store_file_update vf_key
  by unfold_locales simp

interpretation batch_table: table instinct_vector_store_file_batch instinct_vector_store_file_batch_update b_id
  by unfold_locales simp

section \<open>The object store\<close>

type_synonym ('x, 'a) feff = "('x FileWorld_scheme, 'a) eff"

datatype OSSErrorType = FileNotOpen | ObjectNotFound | EmptyFile

text \<open>\<open>root / bucket_name / object_key\<close>; an absolute right operand replaces the left one.\<close>

definition path_join :: "string \<Rightarrow> string \<Rightarrow> string" where
  "path_join p q =
     (case q of
        c # _ \<Rightarrow> if c = CHR ''/'' then q else if p = [] \<or> last p = CHR ''/'' then p @ q else p @ ''/'' @ q
      | [] \<Rightarrow> if p = [] \<or> last p = CHR ''/'' then p else p @ ''/'')"

definition object_path :: "string \<Rightarrow> string \<Rightarrow> string \<Rightarrow> string" where
  "object_path folder bucket_name object_key = path_join (path_join folder bucket_name) object_key"

text \<open>
  \<open>PutObject\<close> with a stream and with a buffer; the directories exist by then. A file that is
  neither there nor can be opened makes \<open>file_size\<close> throw.
\<close>

definition put_stream :: "string \<Rightarrow> string \<Rightarrow> ('x, OSSErrorType option) feff" where
  "put_stream path content w =
     (if \<not> can_open w path
      then (case objects w path of
              None \<Rightarrow> (Inl (RuntimeError ''file_size''), w)
            | Some old \<Rightarrow>
                if old = [] then (Inr (Some EmptyFile), w\<lparr>objects := (objects w)(path := None)\<rparr>)
                else (Inr (Some FileNotOpen), w))
      else if content = [] then (Inr (Some EmptyFile), w\<lparr>objects := (objects w)(path := None)\<rparr>)
      else (Inr None, w\<lparr>objects := (objects w)(path \<mapsto> content)\<rparr>))"

definition put_buffer :: "string \<Rightarrow> string \<Rightarrow> ('x, OSSErrorType option) feff" where
  "put_buffer path content w =
     (Inr None, if can_open w path then w\<lparr>objects := (objects w)(path \<mapsto> content)\<rparr> else w)"

text \<open>The stream overload tells a file that cannot be opened; \<open>ReadString\<close> reads it as empty.\<close>

definition get_stream :: "string \<Rightarrow> ('x, OSSErrorType + string) feff" where
  "get_stream path = getE (\<lambda>w.
     case objects w path of
       None \<Rightarrow> Inl ObjectNotFound
     | Some content \<Rightarrow> if can_open w path then Inr content else Inl FileNotOpen)"

definition get_buffer :: "string \<Rightarrow> ('x, OSSErrorType + string) feff" where
  "get_buffer path = getE (\<lambda>w.
     case objects w path of None \<Rightarrow> Inl ObjectNotFound | Some content \<Rightarrow> Inr (if can_open w path then content else []))"

definition DeleteObject :: "string \<Rightarrow> ('x, OSSErrorType option) feff" where
  "DeleteObject path w =
     (if objects w path = None then (Inr (Some ObjectNotFound), w) else (Inr None, w\<lparr>objects := (objects w)(path := None)\<rparr>))"

text \<open>The size is cast to \<open>int32_t\<close>.\<close>

definition GetObjectState :: "string \<Rightarrow> ('x, OSSErrorType + int) feff" where
  "GetObjectState path = getE (\<lambda>w.
     case objects w path of None \<Rightarrow> Inl ObjectNotFound | Some content \<Rightarrow> Inr (to_int32 (int (length content))))"

definition oss_error_string :: "OSSErrorType \<Rightarrow> string" where
  "oss_error_string e = (if e = ObjectNotFound then ''ObjectNotFound'' else ''UnknwnOSSError'')"

definition assert_status_ok :: "OSSErrorType option \<Rightarrow> ('s, unit) eff" where
  "assert_status_ok status =
     (case status of
        None \<Rightarrow> ret ()
      | Some e \<Rightarrow> throw (ClientException (''ObjectStore operation failed. error_type='' @ oss_error_string e @ '' ,message='')))"

end
