(* ===== verification/File_SQL.thy ===== *)
theory File_SQL
  imports File_Store
begin

text \<open>
  The statements on \<open>instinct_file\<close> of \<^verbatim>\<open>EntitySQLUtils.hpp\<close> and the data mappers
  \<^verbatim>\<open>VectorStoreFileDataMapper.hpp\<close>, \<^verbatim>\<open>VectorStoreDataMapper.hpp\<close> and
  \<^verbatim>\<open>VectorStoreFileBatchDataMapper.hpp\<close>. An insert without \<open>returning\<close> gives
  back one row, the number of rows it inserted.
\<close>

section \<open>Files\<close>

definition InsertOneFile :: "FileObject \<Rightarrow> ('x, string) feff" where
  "InsertOneFile f =
     bindE (check_presence [(''id'', True), (''filename'', True), (''bytes'', True), (''purpose'', True)]) (\<lambda>_.
     bindE sql_now (\<lambda>t.
     bindE (DT_InsertOne instinct_file instinct_file_update f_id (f\<lparr>f_created_at := t, f_modified_at := t\<rparr>)) (\<lambda>_. ret ''1'')))"

text \<open>Only a purpose that is not the default is in the context; the literal \<open>"purpose"\<close> is never blank.\<close>

definition SelectManyFiles :: "FileObjectPurpose \<Rightarrow> ('x, FileObject list) feff" where
  "SelectManyFiles purpose =
     DT_SelectMany instinct_file (\<lambda>w rows.
       order_by desc f_created_at f_id w
         (filter (\<lambda>f. purpose \<noteq> unknown_file_object_purpose \<and> IsNotBlankString ''purpose'' \<longrightarrow> f_purpose f = purpose) rows))"

definition SelectOneFile :: "string \<Rightarrow> ('x, FileObject option) feff" where
  "SelectOneFile file_id = bindE (context_string file_id) (\<lambda>i. DT_SelectOne instinct_file (filter (\<lambda>f. f_id f = i)))"

definition SQL_DeleteFile :: "string \<Rightarrow> ('x, nat) feff" where
  "SQL_DeleteFile file_id =
     bindE (context_string file_id) (\<lambda>i. DT_Execute_delete instinct_file instinct_file_update (\<lambda>f. f_id f = i))"

section \<open>Pages of the data mappers\<close>

text \<open>The rows are compared with the limit of the statement, which is one more than asked for.\<close>

definition mapper_page :: "('a \<Rightarrow> string) \<Rightarrow> int \<Rightarrow> 'a list \<Rightarrow> 'a ListResponse" where
  "mapper_page idf limit rows =
     (let n = length rows in
      if int n > limit
      then \<lparr>list_data = butlast rows, first_id = idf (hd rows), last_id = idf (rows ! (n - 2)), has_more = True\<rparr>
      else if n > 0
      then \<lparr>list_data = rows, first_id = idf (hd rows), last_id = idf (last rows), has_more = False\<rparr>
      else \<lparr>list_data = [], first_id = [], last_id = [], has_more = False\<rparr>)"

definition in_window :: "string \<Rightarrow> string \<Rightarrow> string \<Rightarrow> bool" where
  "in_window after before i \<longleftrightarrow>
     (IsNotBlankString after \<longrightarrow> after < i) \<and> (IsNotBlankString before \<longrightarrow> i < before)"

section \<open>Vector stores\<close>

record CreateVectorStoreRequest =
  cv_file_ids :: "string list"
  cv_name :: string
  cv_expires_after :: "VectorStoreExpirationPolicy option"
  cv_metadata :: "json option"

record ModifyVectorStoreRequest =
  mv_vector_store_id :: string
  mv_name :: string
  mv_expires_after :: "VectorStoreExpirationPolicy option"
  mv_metadata :: "json option"
  mv_status :: VectorStoreStatus
  mv_summary :: string

definition check_expires_after :: "VectorStoreExpirationPolicy option \<Rightarrow> ('s, unit) eff" where
  "check_expires_after policy =
     (case policy of
        None \<Rightarrow> ret ()
      | Some e \<Rightarrow>
          bindE (assert_true (anchor e = anchor_last_active_at) ''should have anchor set to last_active_at'') (\<lambda>_.
          assert_gt (int (days e)) 0 ''should have expires_after.days set with a positive value''))"

text \<open>The \<open>metadata\<close> of the request is not written.\<close>

definition InsertVectorStore :: "CreateVectorStoreRequest \<Rightarrow> ('x, string option) feff" where
  "InsertVectorStore req =
     bindE (next_object_id ''vs'') (\<lambda>i.
     bindE (check_expires_after (cv_expires_after req)) (\<lambda>_.
     bindE sql_now (\<lambda>t.
     bindE (DT_InsertOne instinct_vector_store instinct_vector_store_update v_id
       \<lparr>v_id = i, v_created_at = t, v_modified_at = t, v_name = cv_name req, v_file_counts = None,
        v_status = vs_in_progress, v_expires_after = cv_expires_after req, v_expires_at = 0, v_last_active_at = t,
        v_metadata = None, v_summary = []\<rparr>) (\<lambda>pk. ret (Some pk)))))"

definition Mapper_ListVectorStores :: "ListRequest \<Rightarrow> ('x, VectorStoreObject ListResponse) feff" where
  "Mapper_ListVectorStores params =
     bindE (liftR (list_limit (lr_limit params))) (\<lambda>limit.
     bindE (DT_SelectMany instinct_vector_store (\<lambda>w rows.
       take (nat limit) (order_by (list_order (lr_order params)) v_created_at v_id w
         (filter (\<lambda>v. in_window (lr_after params) (lr_before params) (v_id v)) rows)))) (\<lambda>list.
     ret (mapper_page v_id limit list)))"

definition UpdateVectorStore :: "ModifyVectorStoreRequest \<Rightarrow> ('x, nat) feff" where
  "UpdateVectorStore update =
     bindE (check_expires_after (mv_expires_after update)) (\<lambda>_.
     bindE (context_string (mv_vector_store_id update)) (\<lambda>i.
     bindE sql_now (\<lambda>t.
     DT_Execute_update instinct_vector_store instinct_vector_store_update (\<lambda>v. v_id v = i) (\<lambda>v.
       v\<lparr>v_name := (if IsNotBlankString (mv_name update) then mv_name update else v_name v),
         v_expires_after := (case mv_expires_after update of None \<Rightarrow> v_expires_after v | Some e \<Rightarrow> Some e),
         v_metadata := (case mv_metadata update of None \<Rightarrow> v_metadata v | Some m \<Rightarrow> Some m),
         v_summary := (if IsNotBlankString (mv_summary update) then mv_summary update else v_summary v),
         v_status := (if mv_status update \<noteq> unknown_vector_Store_status then mv_status update else v_status v),
         v_modified_at := t\<rparr>))))"

definition Mapper_DeleteVectorStore :: "string \<Rightarrow> ('x, nat) feff" where
  "Mapper_DeleteVectorStore vector_store_id =
     bindE (context_string vector_store_id) (\<lambda>i.
     DT_Execute_delete instinct_vector_store instinct_vector_store_update (\<lambda>v. v_id v = i))"

definition Mapper_GetVectorStore :: "string \<Rightarrow> ('x, VectorStoreObject option) feff" where
  "Mapper_GetVectorStore i = DT_SelectOne instinct_vector_store (filter (\<lambda>v. v_id v = i))"

section \<open>Files of a vector store\<close>

record ModifyVectorStoreFileRequest =
  mf_file_id :: string
  mf_vector_store_id :: string
  mf_status :: VectorStoreFileStatus
  mf_last_error :: "VectorStoreFileError option"
  mf_summary :: string

text \<open>The list requests of files and of batches; only the first has a \<open>filter\<close> the statement uses.\<close>

record ListFilesQuery =
  lf_vector_store_id :: string
  lf_batch_id :: string
  lf_after :: string
  lf_before :: string
  lf_filter :: VectorStoreFileStatus
  lf_limit :: int
  lf_order :: ListRequestOrder

definition new_vector_store_file :: "int \<Rightarrow> string \<Rightarrow> string \<Rightarrow> string \<Rightarrow> VectorStoreFileObject" where
  "new_vector_store_file t vector_store_id batch_id file_id =
     \<lparr>vf_file_id = file_id, vf_created_at = t, vf_modified_at = t, vf_vector_store_id = vector_store_id,
      vf_status = vsf_in_progress, vf_last_error = None, vf_file_batch_id = batch_id, vf_summary = []\<rparr>"

definition InsertVectorStoreFile :: "string \<Rightarrow> string \<Rightarrow> ('x, nat) feff" where
  "InsertVectorStoreFile vector_store_id file_id =
     bindE (context_string file_id) (\<lambda>f. bindE (context_string vector_store_id) (\<lambda>vs.
     bindE sql_now (\<lambda>t.
     bindE (DT_InsertMany instinct_vector_store_file instinct_vector_store_file_update vf_key
       [new_vector_store_file t vs [] f]) (\<lambda>_. ret 1))))"

definition InsertManyVectorStoreFiles :: "string \<Rightarrow> string list \<Rightarrow> string \<Rightarrow> ('x, string list) feff" where
  "InsertManyVectorStoreFiles vector_store_id file_ids batch_id =
     bindE (assert_true (file_ids \<noteq> []) ''should have at least one file id'') (\<lambda>_.
     bindE sql_now (\<lambda>t.
     bindE (DT_InsertMany instinct_vector_store_file instinct_vector_store_file_update vf_key
       (map (new_vector_store_file t vector_store_id batch_id) file_ids)) (\<lambda>_. ret [show_nat (length file_ids)])))"

text \<open>The table has no column \<open>filter\<close>.\<close>

definition Mapper_ListVectorStoreFiles :: "ListFilesQuery \<Rightarrow> ('x, VectorStoreFileObject ListResponse) feff" where
  "Mapper_ListVectorStoreFiles req =
     bindE (liftR (list_limit (lf_limit req))) (\<lambda>limit.
     if lf_filter req \<noteq> unknown_vector_store_file_status then throw sql_error
     else bindE (DT_SelectMany instinct_vector_store_file (\<lambda>w rows.
       take (nat limit) (order_by (list_order (lf_order req)) vf_created_at vf_file_id w
         (filter (\<lambda>f. vf_vector_store_id f = lf_vector_store_id req \<and>
            in_window (lf_after req) (lf_before req) (vf_file_id f)) rows)))) (\<lambda>list.
     ret (mapper_page vf_file_id limit list)))"

text \<open>An empty \<open>in ()\<close> is a syntax error.\<close>

definition ListVectorStoreFiles_of_ids :: "string \<Rightarrow> string list \<Rightarrow> ('x, VectorStoreFileObject list) feff" where
  "ListVectorStoreFiles_of_ids vector_store_id file_ids =
     (if file_ids = [] then throw sql_error
      else DT_SelectMany instinct_vector_store_file (\<lambda>_. filter (\<lambda>f.
        vf_vector_store_id f = vector_store_id \<and> vf_file_id f \<in> set file_ids)))"

definition ListVectorStoreFiles_of_stores :: "string list \<Rightarrow> ('x, VectorStoreFileObject list) feff" where
  "ListVectorStoreFiles_of_stores store_ids =
     (if store_ids = [] then throw sql_error
      else DT_SelectMany instinct_vector_store_file (\<lambda>_. filter (\<lambda>f. vf_vector_store_id f \<in> set store_ids)))"

definition ListVectorStoreFiles_of_batch :: "ListFilesQuery \<Rightarrow> ('x, VectorStoreFileObject ListResponse) feff" where
  "ListVectorStoreFiles_of_batch req =
     bindE (liftR (list_limit (lf_limit req))) (\<lambda>limit.
     bindE (DT_SelectMany instinct_vector_store_file (\<lambda>w rows.
       take (nat limit) (order_by (list_order (lf_order req)) vf_created_at vf_file_id w
         (filter (\<lambda>f. vf_vector_store_id f = lf_vector_store_id req \<and> vf_file_batch_id f = lf_batch_id req \<and>
            in_window (lf_after req) (lf_before req) (vf_file_id f)) rows)))) (\<lambda>list.
     ret (mapper_page vf_file_id limit list)))"

definition count_status :: "VectorStoreFileStatus \<Rightarrow> VectorStoreFileObject list \<Rightarrow> int" where
  "count_status s rows = int (length (filter (\<lambda>f. vf_status f = s) rows))"

text \<open>A \<open>sum\<close> over no rows is \<open>NULL\<close> and counts as \<open>0\<close>.\<close>

definition CountVectorStoreFiles :: "string \<Rightarrow> string \<Rightarrow> ('x, FileCounts) feff" where
  "CountVectorStoreFiles vector_store_id file_batch_id =
     bindE (context_string vector_store_id) (\<lambda>vs.
     bindE (DT_SelectMany instinct_vector_store_file (\<lambda>_. filter (\<lambda>f.
       vf_vector_store_id f = vs \<and> (file_batch_id \<noteq> [] \<longrightarrow> vf_file_batch_id f = file_batch_id)))) (\<lambda>rows.
     ret \<lparr>count_in_progress = to_int32 (count_status vsf_in_progress rows), count_completed = to_int32 (count_status vsf_completed rows),
          count_failed = to_int32 (count_status vsf_failed rows), count_cancelled = to_int32 (count_status vsf_cancelled rows),
          count_total = to_int32 (int (length rows))\<rparr>))"

definition Mapper_DeleteVectorStoreFile :: "string \<Rightarrow> string \<Rightarrow> ('x, nat) feff" where
  "Mapper_DeleteVectorStoreFile vector_store_id file_id =
     DT_Execute_delete instinct_vector_store_file instinct_vector_store_file_update
       (\<lambda>f. vf_vector_store_id f = vector_store_id \<and> vf_file_id f = file_id)"

definition DeleteVectorStoreFiles :: "string \<Rightarrow> ('x, nat) feff" where
  "DeleteVectorStoreFiles vector_store_id =
     DT_Execute_delete instinct_vector_store_file instinct_vector_store_file_update
       (\<lambda>f. vf_vector_store_id f = vector_store_id)"

definition Mapper_GetVectorStoreFile :: "string \<Rightarrow> string \<Rightarrow> ('x, VectorStoreFileObject option) feff" where
  "Mapper_GetVectorStoreFile vector_store_id file_id =
     DT_SelectOne instinct_vector_store_file (filter (\<lambda>f. vf_file_id f = file_id \<and> vf_vector_store_id f = vector_store_id))"

definition CancelVectorStoreFiles :: "string \<Rightarrow> string \<Rightarrow> ('x, nat) feff" where
  "CancelVectorStoreFiles vector_store_id batch_id =
     bindE (assert_not_blank batch_id ''should provide batch_id'') (\<lambda>_.
     bindE (assert_not_blank vector_store_id ''should provide vector_store_id'') (\<lambda>_.
     bindE sql_now (\<lambda>t.
     DT_Execute_update instinct_vector_store_file instinct_vector_store_file_update
       (\<lambda>f. vf_vector_store_id f = vector_store_id \<and> vf_file_batch_id f = batch_id \<and> vf_status f = vsf_in_progress)
       (\<lambda>f. f\<lparr>vf_status := vsf_cancelled, vf_modified_at := t\<rparr>))))"

definition updated_file :: "ModifyVectorStoreFileRequest \<Rightarrow> int \<Rightarrow> VectorStoreFileObject \<Rightarrow> VectorStoreFileObject" where
  "updated_file update t f =
     f\<lparr>vf_status := (if mf_status update \<noteq> unknown_vector_store_file_status then mf_status update else vf_status f),
       vf_last_error := (case mf_last_error update of None \<Rightarrow> vf_last_error f | Some e \<Rightarrow> Some e),
       vf_summary := (if IsNotBlankString (mf_summary update) then mf_summary update else vf_summary f),
       vf_modified_at := t\<rparr>"

definition UpdateVectorStoreFile :: "ModifyVectorStoreFileRequest \<Rightarrow> ('x, nat) feff" where
  "UpdateVectorStoreFile update =
     bindE (context_string (mf_vector_store_id update)) (\<lambda>vs. bindE (context_string (mf_file_id update)) (\<lambda>i.
     bindE sql_now (\<lambda>t.
     DT_Execute_update instinct_vector_store_file instinct_vector_store_file_update
       (\<lambda>f. vf_vector_store_id f = vs \<and> vf_file_id f = i) (updated_file update t))))"

section \<open>Batches\<close>

record ModifyVectorStoreFileBatchRequest =
  mb_batch_id :: string
  mb_vector_store_id :: string
  mb_status :: VectorStoreFileBatchStatus
  mb_last_error :: "VectorStoreFileError option"
  mb_sanity_check_at :: int

definition InsertVectorStoreFileBatch :: "string \<Rightarrow> ('x, string option) feff" where
  "InsertVectorStoreFileBatch vector_store_id =
     bindE (next_object_id ''vsfb'') (\<lambda>i.
     bindE sql_now (\<lambda>t.
     bindE (DT_InsertOne instinct_vector_store_file_batch instinct_vector_store_file_batch_update b_id
       \<lparr>b_id = i, b_created_at = t, b_modified_at = t, b_vector_store_id = vector_store_id, b_status = vsfb_in_progress,
        b_last_error = None, b_sanity_check_at = 0, b_file_counts = None\<rparr>) (\<lambda>pk. ret (Some pk))))"

text \<open>The vector store id is not part of the query.\<close>

definition Mapper_GetVectorStoreFileBatch :: "string \<Rightarrow> string \<Rightarrow> ('x, VectorStoreFileBatchObject option) feff" where
  "Mapper_GetVectorStoreFileBatch vs_store_id batch_id =
     DT_SelectOne instinct_vector_store_file_batch (filter (\<lambda>b. b_id b = batch_id))"

definition updated_batch :: "ModifyVectorStoreFileBatchRequest \<Rightarrow> int \<Rightarrow> VectorStoreFileBatchObject \<Rightarrow> VectorStoreFileBatchObject" where
  "updated_batch req t b =
     b\<lparr>b_status := (if mb_status req \<noteq> unknown_vector_store_file_batch_status then mb_status req else b_status b),
       b_last_error := (case mb_last_error req of None \<Rightarrow> b_last_error b | Some e \<Rightarrow> Some e),
       b_sanity_check_at := (if mb_sanity_check_at req > 0 then mb_sanity_check_at req else b_sanity_check_at b),
       b_modified_at := t\<rparr>"

definition UpdateVectorStoreFileBatch :: "ModifyVectorStoreFileBatchRequest \<Rightarrow> ('x, nat) feff" where
  "UpdateVectorStoreFileBatch req =
     bindE (context_string (mb_batch_id req)) (\<lambda>i.
     bindE sql_now (\<lambda>t.
     DT_Execute_update instinct_vector_store_file_batch instinct_vector_store_file_batch_update
       (\<lambda>b. b_id b = i) (updated_batch req t)))"

text \<open>Without a limit the template has no variable to render.\<close>

definition ListPendingFileBatchObjects :: "string \<Rightarrow> int \<Rightarrow> ('x, VectorStoreFileBatchObject list) feff" where
  "ListPendingFileBatchObjects vector_store_id limit =
     (if limit = 0 then throw (RenderError ''variable not found'')
      else if limit < 0 then throw sql_error
      else DT_SelectMany instinct_vector_store_file_batch (\<lambda>w rows.
        take (nat limit) (order_by asc b_modified_at b_id w
          (filter (\<lambda>b. b_sanity_check_at b = 0 \<and> (vector_store_id \<noteq> [] \<longrightarrow> b_vector_store_id b = vector_store_id)) rows))))"

end
