(* ===== verification/File_Services.thy ===== *)
theory File_Services
  imports File_SQL Retriever
begin

text \<open>
  \<^verbatim>\<open>FileServiceImpl.hpp\<close> and \<^verbatim>\<open>VectorStoreServiceImpl.hpp\<close>. No operation runs in a
  transaction.

  The retriever operator is an interface of which the service holds a pointer that may be null: a
  record of the operations it calls, each with its effects on the same world. What they answer is not
  fixed here.
\<close>

section \<open>Files\<close>

definition bucket_name :: string where "bucket_name = ''mini-assistant''"

definition purpose_string :: "FileObjectPurpose \<Rightarrow> string" where
  "purpose_string purpose =
     (if purpose = assistants then ''assistants'' else if purpose = assistants_output then ''assistants_output'' else ''unknown'')"

text \<open>\<open>back()\<close> of the id, a plain ASCII character, modulo 10 is the partition.\<close>

definition map_file_object_key :: "FileObjectPurpose \<Rightarrow> string \<Rightarrow> string" where
  "map_file_object_key purpose file_id =
     purpose_string purpose @ ''/'' @ show_nat (of_char (last file_id) mod 10) @ ''/'' @ file_id"

record UploadFileRequest =
  uf_file_content :: string
  uf_filename :: string
  uf_purpose :: FileObjectPurpose

text \<open>\<open>folder\<close> is the root directory the object store was created with.\<close>

definition file_path :: "string \<Rightarrow> FileObjectPurpose \<Rightarrow> string \<Rightarrow> string" where
  "file_path folder purpose file_id = object_path folder bucket_name (map_file_object_key purpose file_id)"

definition ListFiles :: "FileObjectPurpose \<Rightarrow> ('x, FileObject list) feff" where
  "ListFiles purpose = SelectManyFiles purpose"

definition RetrieveFile :: "string \<Rightarrow> ('x, FileObject option) feff" where
  "RetrieveFile file_id = SelectOneFile file_id"

definition UploadFile_write_db :: "string \<Rightarrow> UploadFileRequest \<Rightarrow> string \<Rightarrow> ('x, FileObject option) feff" where
  "UploadFile_write_db folder req i =
     bindE (GetObjectState (file_path folder (uf_purpose req) i)) (\<lambda>state.
     bindE (assert_status_ok (case state of Inl e \<Rightarrow> Some e | Inr _ \<Rightarrow> None)) (\<lambda>_.
     bindE (InsertOneFile \<lparr>f_id = i, f_created_at = 0, f_modified_at = 0, f_bytes = (case state of Inl _ \<Rightarrow> 0 | Inr n \<Rightarrow> n),
       f_filename = uf_filename req, f_purpose = uf_purpose req\<rparr>) (\<lambda>_.
     RetrieveFile i)))"

definition UploadFile :: "string \<Rightarrow> UploadFileRequest \<Rightarrow> ('x, FileObject option) feff" where
  "UploadFile folder req =
     bindE (assert_true (uf_purpose req \<noteq> unknown_file_object_purpose) ''should provide purpose'') (\<lambda>_.
     bindE (next_object_id ''file'') (\<lambda>i.
     bindE (put_buffer (file_path folder (uf_purpose req) i) (uf_file_content req)) (\<lambda>status.
     bindE (assert_status_ok status) (\<lambda>_.
     UploadFile_write_db folder req i))))"

definition UploadFile_stream :: "string \<Rightarrow> UploadFileRequest \<Rightarrow> string \<Rightarrow> ('x, FileObject option) feff" where
  "UploadFile_stream folder req input_stream =
     bindE (next_object_id ''file'') (\<lambda>i.
     bindE (put_stream (file_path folder (uf_purpose req) i) input_stream) (\<lambda>status.
     bindE (assert_status_ok status) (\<lambda>_.
     UploadFile_write_db folder req i)))"

definition DeleteFile :: "string \<Rightarrow> string \<Rightarrow> ('x, DeleteResponse) feff" where
  "DeleteFile folder file_id =
     bindE (assert_not_blank file_id ''should provide file_id'') (\<lambda>_.
     bindE (RetrieveFile file_id) (\<lambda>file.
     case file of
       None \<Rightarrow> ret \<lparr>deleted_id = file_id, deleted = False\<rparr>
     | Some f \<Rightarrow>
         bindE (SQL_DeleteFile file_id) (\<lambda>count.
         bindE (DeleteObject (file_path folder (f_purpose f) (f_id f))) (\<lambda>status.
         if status = Some ObjectNotFound then ret \<lparr>deleted_id = file_id, deleted = False\<rparr>
         else bindE (assert_status_ok status) (\<lambda>_. ret \<lparr>deleted_id = f_id f, deleted = (count = 1)\<rparr>)))))"

definition DownloadFile :: "string \<Rightarrow> string \<Rightarrow> ('x, string option) feff" where
  "DownloadFile folder file_id =
     bindE (RetrieveFile file_id) (\<lambda>file.
     case file of
       None \<Rightarrow> ret None
     | Some f \<Rightarrow>
         bindE (get_buffer (file_path folder (f_purpose f) (f_id f))) (\<lambda>status.
         case status of
           Inr buf \<Rightarrow> ret (Some buf)
         | Inl e \<Rightarrow> if e = ObjectNotFound then ret None else bindE (assert_status_ok (Some e)) (\<lambda>_. ret (Some []))))"

text \<open>The bytes written to the output stream are the result.\<close>

definition DownloadFile_stream :: "string \<Rightarrow> string \<Rightarrow> ('x, string) feff" where
  "DownloadFile_stream folder file_id =
     bindE (RetrieveFile file_id) (\<lambda>file.
     bindE (assert_true (file \<noteq> None) (''Attempted to download non-existing file: bucket='' @ bucket_name @ '', file_id='' @ file_id)) (\<lambda>_.
     case file of
       None \<Rightarrow> throw UndefinedBehaviour
     | Some f \<Rightarrow>
         bindE (get_stream (file_path folder (f_purpose f) (f_id f))) (\<lambda>status.
         case status of
           Inr buf \<Rightarrow> ret buf
         | Inl e \<Rightarrow> bindE (assert_status_ok (Some e)) (\<lambda>_. ret []))))"

section \<open>Vector stores\<close>

record 's StatefulRetriever =
  Remove :: "SearchQuery \<Rightarrow> ('s, unit) eff"
  Ingest :: "source \<Rightarrow> ('s, unit) eff"
  FindInDocStore :: "FindRequest \<Rightarrow> ('s, Document list) eff"

record 's RetrieverOperator =
  ProvisionRetriever :: "string \<Rightarrow> ('s, bool) eff"
  CleanupRetriever :: "string \<Rightarrow> ('s, bool) eff"
  GetStatefulRetriever :: "string \<Rightarrow> ('s, 's StatefulRetriever option) eff"

definition FileObjectTask_CATEGORY :: string where "FileObjectTask_CATEGORY = ''vector_store_file_object''"

definition enqueue_file :: "string \<Rightarrow> VectorStoreFileObject \<Rightarrow> ('x, unit) feff" where
  "enqueue_file i f =
     modifyE (file_tasks_update (\<lambda>ts. ts @ [\<lparr>task_id = i, category = FileObjectTask_CATEGORY, payload = f\<rparr>]))"

definition ListVectorStores :: "ListRequest \<Rightarrow> ('x, VectorStoreObject ListResponse) feff" where
  "ListVectorStores req =
     bindE (Mapper_ListVectorStores req) (\<lambda>resp.
     bindE (mapE (\<lambda>vs. bindE (CountVectorStoreFiles (v_id vs) []) (\<lambda>counts. ret (vs\<lparr>v_file_counts := Some counts\<rparr>)))
       (list_data resp)) (\<lambda>d. ret (resp\<lparr>list_data := d\<rparr>)))"

definition GetVectorStore :: "string \<Rightarrow> ('x, VectorStoreObject option) feff" where
  "GetVectorStore vector_store_id =
     bindE (Mapper_GetVectorStore vector_store_id) (\<lambda>vs.
     case vs of
       None \<Rightarrow> ret None
     | Some v \<Rightarrow>
         bindE (CountVectorStoreFiles vector_store_id []) (\<lambda>counts. ret (Some (v\<lparr>v_file_counts := Some counts\<rparr>))))"

definition create_and_schedule_files :: "string \<Rightarrow> string list \<Rightarrow> ('x, unit) feff" where
  "create_and_schedule_files pk file_ids =
     (if file_ids = [] then ret ()
      else bindE (InsertManyVectorStoreFiles pk file_ids []) (\<lambda>_.
        bindE (getE has_scheduler) (\<lambda>scheduler.
        if scheduler
        then bindE (ListVectorStoreFiles_of_ids pk file_ids) (\<lambda>files. forE (enqueue_file pk) files)
        else ret ())))"

definition CreateVectorStore ::
    "'x FileWorld_scheme RetrieverOperator option \<Rightarrow> CreateVectorStoreRequest \<Rightarrow> ('x, VectorStoreObject option) feff" where
  "CreateVectorStore retriever_operator req =
     bindE (InsertVectorStore req) (\<lambda>r.
     bindE (assert_true (r \<noteq> None) ''should have object inserted'') (\<lambda>_.
     let pk = the r in
     bindE (create_and_schedule_files pk (cv_file_ids req)) (\<lambda>_.
     bindE (GetVectorStore pk) (\<lambda>vs.
     bindE (assert_true (vs \<noteq> None) ''should have found created VectorStore'') (\<lambda>_.
     bindE (case retriever_operator of
         None \<Rightarrow> ret ()
       | Some p \<Rightarrow> bindE (ProvisionRetriever p pk) (\<lambda>ok. assert_true ok ''db instance should be created'')) (\<lambda>_.
     ret vs))))))"

definition ModifyVectorStore :: "ModifyVectorStoreRequest \<Rightarrow> ('x, VectorStoreObject option) feff" where
  "ModifyVectorStore req =
     bindE (UpdateVectorStore req) (\<lambda>count.
     bindE (assert_true (count = 1) ''should have vector object updated'') (\<lambda>_.
     GetVectorStore (mv_vector_store_id req)))"

definition DeleteVectorStore ::
    "'x FileWorld_scheme RetrieverOperator option \<Rightarrow> string \<Rightarrow> ('x, DeleteResponse) feff" where
  "DeleteVectorStore retriever_operator vector_store_id =
     bindE (Mapper_GetVectorStore vector_store_id) (\<lambda>vs.
     bindE (assert_true (vs \<noteq> None) ''should have found VectorStoreObject with request'') (\<lambda>_.
     bindE (CountVectorStoreFiles vector_store_id []) (\<lambda>count.
     if count_in_progress count = 0
     then bindE (DeleteVectorStoreFiles vector_store_id) (\<lambda>_.
          bindE (Mapper_DeleteVectorStore vector_store_id) (\<lambda>n.
          bindE (assert_true (n = 1) ''should have VectorStore deleted'') (\<lambda>_.
          bindE (case retriever_operator of None \<Rightarrow> ret True | Some p \<Rightarrow> CleanupRetriever p (v_id (the vs))) (\<lambda>ok.
          ret \<lparr>deleted_id = vector_store_id, deleted = ok\<rparr>))))
     else ret \<lparr>deleted_id = vector_store_id, deleted = False\<rparr>)))"

section \<open>Files of a vector store\<close>

definition ListVectorStoreFiles :: "ListFilesQuery \<Rightarrow> ('x, VectorStoreFileObject ListResponse) feff" where
  "ListVectorStoreFiles req = Mapper_ListVectorStoreFiles req"

definition GetVectorStoreFile :: "string \<Rightarrow> string \<Rightarrow> ('x, VectorStoreFileObject option) feff" where
  "GetVectorStoreFile vector_store_id file_id =
     bindE (assert_not_blank vector_store_id ''should have provide vector_store_id'') (\<lambda>_.
     bindE (assert_not_blank file_id ''should have provide file_id'') (\<lambda>_.
     Mapper_GetVectorStoreFile vector_store_id file_id))"

definition CreateVectorStoreFile :: "string \<Rightarrow> string \<Rightarrow> ('x, VectorStoreFileObject option) feff" where
  "CreateVectorStoreFile vector_store_id file_id =
     bindE (assert_not_blank file_id ''should provide file_id'') (\<lambda>_.
     bindE (assert_not_blank vector_store_id ''should provide vector_store_id'') (\<lambda>_.
     bindE (InsertVectorStoreFile vector_store_id file_id) (\<lambda>n.
     bindE (assert_true (n \<noteq> 0) ''should have vector store file created'') (\<lambda>_.
     bindE (GetVectorStoreFile vector_store_id file_id) (\<lambda>file_object.
     bindE (getE has_scheduler) (\<lambda>scheduler.
     bindE (if scheduler
       then (case file_object of None \<Rightarrow> throw UndefinedBehaviour | Some f \<Rightarrow> enqueue_file (vf_file_id f) f)
       else ret ()) (\<lambda>_.
     ret file_object)))))))"

text \<open>Dereferencing the absent vector store is undefined, as is a null retriever.\<close>

definition DeleteVectorStoreFile ::
    "'x FileWorld_scheme RetrieverOperator option \<Rightarrow> string \<Rightarrow> string \<Rightarrow> ('x, DeleteResponse) feff" where
  "DeleteVectorStoreFile retriever_operator vector_store_id file_id =
     bindE (assert_not_blank vector_store_id ''should have provide vector_store_id'') (\<lambda>_.
     bindE (assert_not_blank file_id ''should have provide file_id'') (\<lambda>_.
     bindE (Mapper_DeleteVectorStoreFile vector_store_id file_id) (\<lambda>count.
     bindE (case retriever_operator of
         None \<Rightarrow> ret ()
       | Some p \<Rightarrow>
           bindE (Mapper_GetVectorStore vector_store_id) (\<lambda>vs.
           case vs of
             None \<Rightarrow> throw UndefinedBehaviour
           | Some v \<Rightarrow>
               bindE (GetStatefulRetriever p (v_id v)) (\<lambda>retriever.
               case retriever of
                 None \<Rightarrow> throw UndefinedBehaviour
               | Some r \<Rightarrow> Remove r (string_term METADATA_SCHEMA_PARENT_DOC_ID_KEY file_id)))) (\<lambda>_.
     ret \<lparr>deleted_id = file_id, deleted = (count = 1)\<rparr>))))"

definition ModifyVectorStoreFile :: "ModifyVectorStoreFileRequest \<Rightarrow> ('x, VectorStoreFileObject option) feff" where
  "ModifyVectorStoreFile req =
     bindE (assert_not_blank (mf_file_id req) ''should provide file_id'') (\<lambda>_.
     bindE (assert_not_blank (mf_vector_store_id req) ''should provide vector_store_id'') (\<lambda>_.
     bindE (Mapper_GetVectorStoreFile (mf_vector_store_id req) (mf_file_id req)) (\<lambda>found.
     bindE (assert_true (found \<noteq> None) ''should have found VectorStoreFileObject before update'') (\<lambda>_.
     bindE (UpdateVectorStoreFile req) (\<lambda>n.
     bindE (assert_true (n = 1) ''should have VectorStoreFile updated'') (\<lambda>_.
     Mapper_GetVectorStoreFile (mf_vector_store_id req) (mf_file_id req)))))))"

section \<open>Batches\<close>

definition GetVectorStoreFileBatch :: "string \<Rightarrow> string \<Rightarrow> ('x, VectorStoreFileBatchObject option) feff" where
  "GetVectorStoreFileBatch vector_store_id batch_id =
     bindE (assert_not_blank vector_store_id ''should provide valid vector_store_id'') (\<lambda>_.
     bindE (assert_not_blank batch_id ''should provide valid batch_id'') (\<lambda>_.
     bindE (CountVectorStoreFiles vector_store_id batch_id) (\<lambda>counts.
     bindE (Mapper_GetVectorStoreFileBatch vector_store_id batch_id) (\<lambda>batch_object.
     case batch_object of
       None \<Rightarrow> throw UndefinedBehaviour
     | Some b \<Rightarrow> ret (Some (b\<lparr>b_file_counts := Some counts\<rparr>))))))"

definition CreateVectorStoreFileBatch :: "string \<Rightarrow> string list \<Rightarrow> ('x, VectorStoreFileBatchObject option) feff" where
  "CreateVectorStoreFileBatch vector_store_id file_ids =
     bindE (assert_true (file_ids \<noteq> []) ''should provide at least one file_id'') (\<lambda>_.
     bindE (assert_not_blank vector_store_id ''should provide valid vector_store_id'') (\<lambda>_.
     bindE (InsertVectorStoreFileBatch vector_store_id) (\<lambda>r.
     bindE (assert_true (r \<noteq> None) ''should have VectorStoreFileBatch inserted'') (\<lambda>_.
     let pk = the r in
     bindE (InsertManyVectorStoreFiles vector_store_id file_ids pk) (\<lambda>_.
     bindE (getE has_scheduler) (\<lambda>scheduler.
     bindE (if scheduler
       then bindE (ListVectorStoreFiles_of_ids vector_store_id file_ids) (\<lambda>files. forE (\<lambda>f. enqueue_file (vf_file_id f) f) files)
       else ret ()) (\<lambda>_.
     GetVectorStoreFileBatch vector_store_id pk)))))))"

definition CancelVectorStoreFileBatch :: "string \<Rightarrow> string \<Rightarrow> ('x, VectorStoreFileBatchObject option) feff" where
  "CancelVectorStoreFileBatch vector_store_id batch_id =
     bindE (assert_not_blank batch_id ''should have non-blank'') (\<lambda>_.
     bindE (UpdateVectorStoreFileBatch \<lparr>mb_batch_id = batch_id, mb_vector_store_id = vector_store_id,
       mb_status = vsfb_cancelled, mb_last_error = None, mb_sanity_check_at = 0\<rparr>) (\<lambda>n.
     bindE (assert_true (n = 1) ''should have VectorStoreFileBatch updated'') (\<lambda>_.
     bindE (CancelVectorStoreFiles vector_store_id batch_id) (\<lambda>m.
     bindE (assert_true (m > 0) ''should have vector store files updated'') (\<lambda>_.
     GetVectorStoreFileBatch vector_store_id batch_id)))))"

definition ListFilesInVectorStoreBatch :: "ListFilesQuery \<Rightarrow> ('x, VectorStoreFileObject ListResponse) feff" where
  "ListFilesInVectorStoreBatch req =
     bindE (assert_not_blank (lf_vector_store_id req) ''should provide valid vector_store_id'') (\<lambda>_.
     bindE (assert_not_blank (lf_batch_id req) ''should provide valid batch_id'') (\<lambda>_.
     ListVectorStoreFiles_of_batch req))"

definition ListAllVectorStoreObjectFiles :: "string list \<Rightarrow> ('x, VectorStoreFileObject list) feff" where
  "ListAllVectorStoreObjectFiles store_ids =
     bindE (assert_true (store_ids \<noteq> []) ''should provide at least vector store id'') (\<lambda>_.
     ListVectorStoreFiles_of_stores store_ids)"

definition ModifyVectorStoreFileBatch :: "ModifyVectorStoreFileBatchRequest \<Rightarrow> ('x, VectorStoreFileBatchObject option) feff" where
  "ModifyVectorStoreFileBatch req =
     bindE (assert_not_blank (mb_batch_id req) ''batch id should not be blank'') (\<lambda>_.
     bindE (assert_not_blank (mb_vector_store_id req) ''vector store id should not be blank'') (\<lambda>_.
     bindE (UpdateVectorStoreFileBatch req) (\<lambda>n.
     bindE (assert_true (n \<noteq> 0) ''assertion failed'') (\<lambda>_.
     GetVectorStoreFileBatch (mb_vector_store_id req) (mb_batch_id req)))))"

definition ListPendingFileBatcheObjects :: "string \<Rightarrow> int \<Rightarrow> ('x, VectorStoreFileBatchObject list) feff" where
  "ListPendingFileBatcheObjects vector_store_id limit =
     bindE (assert_true (limit \<ge> 1) ''limit should be a positive number'') (\<lambda>_.
     ListPendingFileBatchObjects vector_store_id limit)"

end
