(* ===== verification/File_Correct.thy ===== *)
theory File_Correct
  imports File_Services
begin

text \<open>
  What the file service and the vector store service guarantee: the file service implements a map from
  file ids to files, and the pages and status changes of the vector store service.
\<close>

section \<open>Paths of objects\<close>

definition slash_free :: "string \<Rightarrow> bool" where
  "slash_free s \<longleftrightarrow> CHR ''/'' \<notin> set s"

lemma last_component:
  assumes "xs @ ''/'' @ i = ys @ ''/'' @ j" and "slash_free i" and "slash_free j"
  shows "i = j"
proof -
  have "takeWhile (\<lambda>c. c \<noteq> CHR ''/'') (rev (xs @ ''/'' @ i)) = rev i" if "slash_free i" for xs i :: string
    using that by (auto simp: slash_free_def takeWhile_append)
  then show ?thesis using assms by (metis rev_rev_ident)
qed

lemma path_join_relative:
  assumes "q \<noteq> []" and "hd q \<noteq> CHR ''/''"
  shows "path_join p q = (if p = [] \<or> last p = CHR ''/'' then p else p @ ''/'') @ q"
  using assms by (cases q) (auto simp: path_join_def)

lemma purpose_string_relative: "purpose_string p \<noteq> []" "hd (purpose_string p) \<noteq> CHR ''/''"
  by (simp_all add: purpose_string_def)

lemma file_path_split:
  obtains prefix where "file_path folder p i = prefix @ ''/'' @ i"
proof -
  have "map_file_object_key p i \<noteq> []" "hd (map_file_object_key p i) \<noteq> CHR ''/''"
    using purpose_string_relative [of p] by (auto simp: map_file_object_key_def hd_append)
  then show thesis using that
    by (auto simp: file_path_def object_path_def path_join_relative map_file_object_key_def append_assoc [symmetric]
        simp del: append_assoc split: if_splits)
qed

lemma file_path_inj:
  assumes "file_path folder p i = file_path folder p' j" and "slash_free i" and "slash_free j"
  shows "i = j"
  using assms file_path_split [of folder p i] file_path_split [of folder p' j] last_component by metis

section \<open>The file service as a map\<close>

text \<open>What the service stores under an id: the name, the purpose and the content.\<close>

definition file_at :: "string \<Rightarrow> 'x FileWorld_scheme \<Rightarrow> string \<Rightarrow> (string \<times> FileObjectPurpose \<times> string) option" where
  "file_at folder w i =
     (case find (\<lambda>f. f_id f = i) (instinct_file w) of
        None \<Rightarrow> None
      | Some f \<Rightarrow> map_option (\<lambda>c. (f_filename f, f_purpose f, c)) (objects w (file_path folder (f_purpose f) i)))"

text \<open>
  Ids are unique and have no slash, the object of each file exists, and no object has the path of a
  file that does not exist. Every path below the folder can be opened.
\<close>

definition files_ok :: "string \<Rightarrow> 'x FileWorld_scheme \<Rightarrow> bool" where
  "files_ok folder w \<longleftrightarrow>
     distinct (map f_id (instinct_file w)) \<and>
     (\<forall>f \<in> set (instinct_file w). f_id f \<noteq> [] \<and> slash_free (f_id f) \<and> objects w (file_path folder (f_purpose f) (f_id f)) \<noteq> None) \<and>
     (\<forall>p i. can_open w (file_path folder p i))"

lemma new_id_ok: "slash_free (object_id ''file'' n)" "object_id ''file'' n \<noteq> []"
proof -
  have "slash_free (show_nat m)" for m
  proof (induction m rule: show_nat.induct)
    case (1 n)
    have "CHR ''/'' \<noteq> digit_char d" if "d < 10" for d
    proof
      assume "CHR ''/'' = digit_char d"
      then have "of_char (digit_char d) = (of_char (CHR ''/'') :: nat)" by metis
      then show False using that by (simp add: digit_char_def)
    qed
    then show ?case using 1 by (subst show_nat.simps) (auto simp: slash_free_def)
  qed
  then show "slash_free (object_id ''file'' n)" "object_id ''file'' n \<noteq> []"
    by (simp_all add: object_id_def show_int_def slash_free_def)
qed

definition next_file_id :: "'x FileWorld_scheme \<Rightarrow> string" where
  "next_file_id w = object_id ''file'' (id_numbers w (id_count w))"

lemma SelectOneFile_eq:
  assumes "file_table.keys_ok w" and "i \<noteq> []"
  shows "SelectOneFile i w = (Inr (find (\<lambda>f. f_id f = i) (instinct_file w)), w)"
  using assms(2) by (simp add: SelectOneFile_def store_simps file_table.select_by_key [OF assms(1)])

lemma SelectOneFile_bind:
  assumes "file_table.keys_ok w" and "i \<noteq> []"
  shows "bindE (SelectOneFile i) g w = g (find (\<lambda>f. f_id f = i) (instinct_file w)) w"
  by (rule bindE_ret [where m = "SelectOneFile i"]) (rule SelectOneFile_eq [OF assms])

lemma assert_status_bind:
  "bindE (assert_status_ok s) f w =
     (case s of None \<Rightarrow> f () w
      | Some e \<Rightarrow> (Inl (ClientException (''ObjectStore operation failed. error_type='' @ oss_error_string e @ '' ,message='')), w))"
  by (simp add: assert_status_ok_def split: option.split)

lemma put_buffer_bind:
  "bindE (put_buffer path c) f w = f None (if can_open w path then w\<lparr>objects := (objects w)(path \<mapsto> c)\<rparr> else w)"
  by (simp add: bindE_def put_buffer_def)

definition stored_file :: "'x FileWorld_scheme \<Rightarrow> UploadFileRequest \<Rightarrow> FileObject" where
  "stored_file w req = \<lparr>f_id = next_file_id w, f_created_at = clock w (ticks w), f_modified_at = clock w (ticks w),
     f_bytes = to_int32 (int (length (uf_file_content req))), f_filename = uf_filename req, f_purpose = uf_purpose req\<rparr>"

definition uploaded :: "string \<Rightarrow> UploadFileRequest \<Rightarrow> 'x FileWorld_scheme \<Rightarrow> 'x FileWorld_scheme" where
  "uploaded folder req w =
     instinct_file_update (\<lambda>fs. fs @ [stored_file w req])
       (ticks_update Suc ((id_count_update Suc w)
          \<lparr>objects := (objects w)(file_path folder (uf_purpose req) (next_file_id w) \<mapsto> uf_file_content req)\<rparr>))"

lemma find_new: "next_file_id w \<notin> f_id ` set fs \<Longrightarrow> find (\<lambda>f. f_id f = next_file_id w) (fs @ [stored_file w req]) = Some (stored_file w req)"
  by (induction fs) (auto simp: stored_file_def)

lemma check_presence_True: "check_presence [(a, True), (b, True), (c, True), (d, True)] = ret ()"
  by (rule ext) (simp add: check_presence_def store_simps)

lemma UploadFile_eq:
  assumes ok: "files_ok folder w" and fresh: "next_file_id w \<notin> f_id ` set (instinct_file w)" and "uf_purpose req \<noteq> unknown_file_object_purpose"
  shows "UploadFile folder req w = (Inr (Some (stored_file w req)), uploaded folder req w)"
proof -
  have d: "distinct (map f_id (instinct_file w @ [stored_file w req]))"
    using ok fresh by (simp add: files_ok_def stored_file_def)
  have n: "next_file_id w \<noteq> []" by (simp add: next_file_id_def new_id_ok)
  let ?w = "uploaded folder req w"
  have "UploadFile folder req w = RetrieveFile (next_file_id w) ?w"
    using d ok assms(3)
    by (simp add: UploadFile_def UploadFile_write_db_def store_simps put_buffer_bind assert_status_bind GetObjectState_def files_ok_def
        next_file_id_def [symmetric] InsertOneFile_def check_presence_True file_table.insert_one_bind uploaded_def stored_file_def)
  also have "\<dots> = (Inr (Some (stored_file w req)), ?w)"
    unfolding RetrieveFile_def
    by (subst SelectOneFile_eq) (use d n find_new [OF fresh, of req] in \<open>simp_all add: file_table.keys_ok_def uploaded_def\<close>)
  finally show ?thesis .
qed


lemma get_buffer_bind:
  "bindE (get_buffer path) f w =
     f (case objects w path of None \<Rightarrow> Inl ObjectNotFound | Some content \<Rightarrow> Inr (if can_open w path then content else [])) w"
  by (simp add: get_buffer_def)

lemma find_id: "find (\<lambda>f. f_id f = i) fs = Some f \<Longrightarrow> f \<in> set fs \<and> f_id f = i"
  by (auto simp: find_Some_iff)

lemma files_okD:
  assumes "files_ok folder w" and "f \<in> set (instinct_file w)"
  shows "f_id f \<noteq> []" "slash_free (f_id f)" "\<exists>c. objects w (file_path folder (f_purpose f) (f_id f)) = Some c"
  using assms by (auto simp: files_ok_def)

lemma files_ok_keys: "files_ok folder w \<Longrightarrow> file_table.keys_ok w"
  by (simp add: files_ok_def file_table.keys_ok_def)

lemma file_at_uploaded:
  assumes ok: "files_ok folder w" and fresh: "next_file_id w \<notin> f_id ` set (instinct_file w)"
  shows "file_at folder (uploaded folder req w) =
    (file_at folder w)(next_file_id w \<mapsto> (uf_filename req, uf_purpose req, uf_file_content req))"
proof (rule ext)
  fix i
  show "file_at folder (uploaded folder req w) i =
    ((file_at folder w)(next_file_id w \<mapsto> (uf_filename req, uf_purpose req, uf_file_content req))) i"
  proof (cases "i = next_file_id w")
    case True
    then show ?thesis by (simp add: file_at_def uploaded_def find_new [OF fresh]) (simp add: stored_file_def)
  next
    case False
    then have "find (\<lambda>f. f_id f = i) (instinct_file w @ [stored_file w req]) = find (\<lambda>f. f_id f = i) (instinct_file w)"
      by (simp add: find_append stored_file_def split: option.split)
    moreover have "file_path folder (f_purpose f) i \<noteq> file_path folder (uf_purpose req) (next_file_id w)"
      if "find (\<lambda>f. f_id f = i) (instinct_file w) = Some f" for f
      using find_id [OF that] files_okD(2) [OF ok, of f] file_path_inj [of folder "f_purpose f" i "uf_purpose req" "next_file_id w"]
        new_id_ok(1) False by (auto simp: next_file_id_def)
    ultimately show ?thesis using False by (auto simp: file_at_def uploaded_def split: option.split)
  qed
qed

lemma files_ok_uploaded:
  assumes ok: "files_ok folder w" and fresh: "next_file_id w \<notin> f_id ` set (instinct_file w)"
  shows "files_ok folder (uploaded folder req w)"
  using assms by (auto simp: files_ok_def uploaded_def stored_file_def next_file_id_def new_id_ok)

lemma DownloadFile_eq:
  assumes ok: "files_ok folder w" and "i \<noteq> []"
  shows "DownloadFile folder i w = (Inr (map_option (\<lambda>(n, p, c). c) (file_at folder w i)), w)"
proof (cases "find (\<lambda>f. f_id f = i) (instinct_file w)")
  case None
  then show ?thesis
    by (simp add: DownloadFile_def RetrieveFile_def SelectOneFile_bind [OF files_ok_keys [OF ok] assms(2)] file_at_def)
next
  case (Some f)
  then have f: "f \<in> set (instinct_file w)" "f_id f = i" using find_id by blast+
  obtain c where "objects w (file_path folder (f_purpose f) i) = Some c" using files_okD(3) [OF ok f(1)] f(2) by auto
  moreover have "can_open w (file_path folder (f_purpose f) i)" using ok by (simp add: files_ok_def)
  ultimately show ?thesis using Some f(2)
    by (simp add: DownloadFile_def RetrieveFile_def SelectOneFile_bind [OF files_ok_keys [OF ok] assms(2)] file_at_def
        get_buffer_bind)
qed


definition removed :: "string \<Rightarrow> FileObject \<Rightarrow> 'x FileWorld_scheme \<Rightarrow> 'x FileWorld_scheme" where
  "removed folder f w =
     (instinct_file_update (filter (\<lambda>g. f_id g \<noteq> f_id f)) w)
       \<lparr>objects := (objects w)(file_path folder (f_purpose f) (f_id f) := None)\<rparr>"

lemma count_key:
  assumes "file_table.keys_ok w" and "f \<in> set (instinct_file w)"
  shows "length (filter (\<lambda>g. f_id g = f_id f) (instinct_file w)) = 1"
proof -
  have "find (\<lambda>g. f_id g = f_id f) (instinct_file w) \<noteq> None" using assms(2) by (auto simp: find_None_iff)
  then show ?thesis using file_table.filter_key [OF assms(1), of "f_id f" "\<lambda>_. True"] by auto
qed

lemma DeleteFile_eq:
  assumes ok: "files_ok folder w" and nb: "\<not> IsBlankString i"
  shows "DeleteFile folder i w =
    (case find (\<lambda>f. f_id f = i) (instinct_file w) of
       None \<Rightarrow> (Inr \<lparr>deleted_id = i, deleted = False\<rparr>, w)
     | Some f \<Rightarrow> (Inr \<lparr>deleted_id = i, deleted = True\<rparr>, removed folder f w))"
proof -
  have i: "i \<noteq> []" using nb by auto
  show ?thesis
  proof (cases "find (\<lambda>f. f_id f = i) (instinct_file w)")
    case None
    then show ?thesis using nb
      by (simp add: DeleteFile_def RetrieveFile_def store_simps SelectOneFile_bind [OF files_ok_keys [OF ok] i])
  next
    case (Some f)
    then have f: "f \<in> set (instinct_file w)" "f_id f = i" using find_id by blast+
    obtain c where c: "objects w (file_path folder (f_purpose f) i) = Some c" using files_okD(3) [OF ok f(1)] f(2) by auto
    have n: "length (filter (\<lambda>g. f_id g = i) (instinct_file w)) = Suc 0"
      using count_key [OF files_ok_keys [OF ok] f(1)] f(2) by simp
    show ?thesis using nb Some f(2) i c n
      by (simp add: DeleteFile_def RetrieveFile_def store_simps SelectOneFile_bind [OF files_ok_keys [OF ok] i]
          SQL_DeleteFile_def DT_Execute_delete_def removed_def bindE_def [of "DeleteObject _"] DeleteObject_def assert_status_bind)
  qed
qed

lemma file_at_removed:
  assumes ok: "files_ok folder w" and f: "f \<in> set (instinct_file w)"
  shows "file_at folder (removed folder f w) = (file_at folder w)(f_id f := None)"
proof (rule ext)
  fix i
  show "file_at folder (removed folder f w) i = ((file_at folder w)(f_id f := None)) i"
  proof (cases "i = f_id f")
    case True
    then show ?thesis by (simp add: file_at_def removed_def find_None_iff split: option.split) (auto simp: find_Some_iff nth_mem dest!: nth_mem)
  next
    case False
    have "find (\<lambda>g. f_id g = i) (filter (\<lambda>g. f_id g \<noteq> f_id f) rows) = find (\<lambda>g. f_id g = i) rows" for rows :: "FileObject list"
      using False by (induction rows) auto
    moreover have "file_path folder (f_purpose g) i \<noteq> file_path folder (f_purpose f) (f_id f)"
      if "find (\<lambda>g. f_id g = i) (instinct_file w) = Some g" for g
      using find_id [OF that] files_okD(2) [OF ok] f file_path_inj [of folder "f_purpose g" i "f_purpose f" "f_id f"] False by auto
    ultimately show ?thesis using False
      by (cases "find (\<lambda>g. f_id g = i) (instinct_file w)") (simp_all add: file_at_def removed_def)
  qed
qed

lemma files_ok_removed:
  assumes ok: "files_ok folder w" and f: "f \<in> set (instinct_file w)"
  shows "files_ok folder (removed folder f w)"
proof -
  have "file_path folder (f_purpose g) (f_id g) \<noteq> file_path folder (f_purpose f) (f_id f)"
    if "g \<in> set (instinct_file w)" "f_id g \<noteq> f_id f" for g
    using files_okD(2) [OF ok] f that file_path_inj [of folder "f_purpose g" "f_id g" "f_purpose f" "f_id f"] by auto
  then show ?thesis using assms by (auto simp: files_ok_def removed_def distinct_map_filter)
qed


text \<open>
  C3: the file service is a map from ids to name, purpose and content. An upload adds one entry under a
  fresh id, a download reads the content of the entry and changes nothing, a deletion removes the entry
  and tells whether there was one; each keeps the rows and the objects consistent.
\<close>

theorem file_service_refines_map:
  assumes "files_ok folder w" and "next_file_id w \<notin> f_id ` set (instinct_file w)"
    and "uf_purpose req \<noteq> unknown_file_object_purpose" and "\<not> IsBlankString i"
  shows "\<exists>w1 w2 f. UploadFile folder req w = (Inr (Some f), w1) \<and> f_id f = next_file_id w \<and> files_ok folder w1 \<and>
      file_at folder w1 = (file_at folder w)(f_id f \<mapsto> (uf_filename req, uf_purpose req, uf_file_content req)) \<and>
    DownloadFile folder i w = (Inr (map_option (\<lambda>(n, p, c). c) (file_at folder w i)), w) \<and>
    DeleteFile folder i w = (Inr \<lparr>deleted_id = i, deleted = (file_at folder w i \<noteq> None)\<rparr>, w2) \<and> files_ok folder w2 \<and>
      file_at folder w2 = (file_at folder w)(i := None)"
proof -
  have i: "i \<noteq> []" using assms(4) by auto
  have "\<exists>w2. DeleteFile folder i w = (Inr \<lparr>deleted_id = i, deleted = (file_at folder w i \<noteq> None)\<rparr>, w2) \<and> files_ok folder w2 \<and>
      file_at folder w2 = (file_at folder w)(i := None)"
  proof (cases "find (\<lambda>f. f_id f = i) (instinct_file w)")
    case None
    then show ?thesis using DeleteFile_eq [OF assms(1,4)] assms(1) by (auto simp: file_at_def)
  next
    case (Some f)
    then have f: "f \<in> set (instinct_file w)" "f_id f = i" using find_id by blast+
    then show ?thesis
      using DeleteFile_eq [OF assms(1,4)] Some file_at_removed [OF assms(1) f(1)] files_ok_removed [OF assms(1) f(1)]
        files_okD(3) [OF assms(1) f(1)] by (auto simp: file_at_def)
  qed
  then show ?thesis
    using UploadFile_eq [OF assms(1-3)] DownloadFile_eq [OF assms(1) i] file_at_uploaded [OF assms(1,2)]
      files_ok_uploaded [OF assms(1,2)] by (auto simp: stored_file_def)
qed


definition demo_object_file :: FileObject where
  "demo_object_file = \<lparr>f_id = ''f1'', f_created_at = 1, f_modified_at = 1, f_bytes = 3, f_filename = ''a.txt'', f_purpose = assistants\<rparr>"

definition demo_object_world :: FileWorld where
  "demo_object_world = \<lparr>id_numbers = (\<lambda>n. 100 + int n), id_count = 0, clock = (\<lambda>n. 10 + int n), ticks = 0, tie_rank = (\<lambda>_. 0),
     has_scheduler = True, scheduled = [], instinct_assistant = [], instinct_thread = [], instinct_thread_message = [],
     instinct_thread_run = [], instinct_thread_run_step = [],
     instinct_file = [demo_object_file], instinct_vector_store = [], instinct_vector_store_file = [],
     instinct_vector_store_file_batch = [], file_tasks = [],
     objects = [file_path ''data'' assistants ''f1'' \<mapsto> ''abc''], can_open = (\<lambda>_. True)\<rparr>"

theorem file_service_refines_map_witness:
  "\<exists>w1 w2 f. UploadFile ''data'' \<lparr>uf_file_content = ''xyz'', uf_filename = ''b.txt'', uf_purpose = assistants\<rparr> demo_object_world =
      (Inr (Some f), w1) \<and>
    file_at ''data'' w1 (f_id f) = Some (''b.txt'', assistants, ''xyz'') \<and>
    DownloadFile ''data'' ''f1'' demo_object_world = (Inr (Some ''abc''), demo_object_world) \<and>
    DeleteFile ''data'' ''f1'' demo_object_world = (Inr \<lparr>deleted_id = ''f1'', deleted = True\<rparr>, w2) \<and> file_at ''data'' w2 ''f1'' = None"
proof -
  have "files_ok ''data'' demo_object_world"
    by (simp add: files_ok_def demo_object_world_def demo_object_file_def slash_free_def)
  moreover have "next_file_id demo_object_world \<notin> f_id ` set (instinct_file demo_object_world)"
    by (simp add: next_file_id_def object_id_def demo_object_world_def demo_object_file_def)
  moreover have "\<not> IsBlankString ''f1''" by (simp add: IsBlankString_iff isspace_def)
  moreover have "file_at ''data'' demo_object_world ''f1'' = Some (''a.txt'', assistants, ''abc'')"
    by (simp add: file_at_def demo_object_world_def demo_object_file_def)
  ultimately show ?thesis
    using file_service_refines_map [of "''data''" demo_object_world
      "\<lparr>uf_file_content = ''xyz'', uf_filename = ''b.txt'', uf_purpose = assistants\<rparr>" "''f1''"] by auto
qed

end
