(* ===== verification/File_Handlers.thy ===== *)
theory File_Handlers
  imports File_Services
begin

text \<open>
  The task handler of a vector store file (\<^verbatim>\<open>FileObjectTaskHandler.hpp\<close>), the background
  task over file batches (\<^verbatim>\<open>FileBatchObjectBackgroundTask.hpp\<close>) and the temporary file of
  \<^verbatim>\<open>TempFile.hpp\<close>.

  A temporary file is an entry of the same file system as the objects. Its folder, with a fresh UUID, is
  part of the environment of the handler, as are the retriever operator, the text splitter, the readers
  of PDF and DOCX files and the summary chain. A summary that does not end is \<open>OutOfFuel\<close>, which no
  handler catches.
\<close>

section \<open>Temporary files\<close>

definition temp_path :: "string \<Rightarrow> string \<Rightarrow> string" where
  "temp_path temp_folder filename = path_join temp_folder filename"

definition open_temp :: "string \<Rightarrow> ('x, unit) feff" where
  "open_temp path =
     bindE (getE (\<lambda>w. can_open w path)) (\<lambda>ok.
     bindE (modifyE (\<lambda>w. if ok then w\<lparr>objects := (objects w)(path \<mapsto> [])\<rparr> else w)) (\<lambda>_.
     assert_true ok ''file should be opened''))"

definition close_temp :: "string \<Rightarrow> ('x, unit) feff" where
  "close_temp path = modifyE (\<lambda>w. w\<lparr>objects := (objects w)(path := None)\<rparr>)"

text \<open>The scope of a temporary file: it is removed when the scope is left, also by an exception.\<close>

definition with_temp :: "string \<Rightarrow> ('x, 'a) feff \<Rightarrow> ('x, 'a) feff" where
  "with_temp path body =
     bindE (open_temp path) (\<lambda>_.
     bindE (catchE body (\<lambda>e. bindE (close_temp path) (\<lambda>_. throw e))) (\<lambda>x.
     bindE (close_temp path) (\<lambda>_. ret x)))"

section \<open>Handling a file\<close>

record 'x FileHandlerEnv =
  operator :: "'x FileWorld_scheme RetrieverOperator"
  object_folder :: string
  temp_folder :: string
  pdf_pages :: "string \<Rightarrow> string result list result"
  docx_paragraphs :: "string \<Rightarrow> string list list"
  split_options :: BaseTextSplitter
  split_text :: "ustring \<Rightarrow> ustring list result option"
  summary_chain :: "string list \<Rightarrow> string result"
  summary_input_max_size :: nat

definition FileObject_Accept :: "'p Task \<Rightarrow> bool" where
  "FileObject_Accept t = (category t = FileObjectTask_CATEGORY)"

definition CheckVectorStoreFileOk :: "string \<Rightarrow> string \<Rightarrow> ('x, bool) feff" where
  "CheckVectorStoreFileOk vs_store_id file_id =
     bindE (GetVectorStoreFile vs_store_id file_id) (\<lambda>obj.
     ret (case obj of None \<Rightarrow> False | Some f \<Rightarrow> vf_status f = vsf_in_progress))"

text \<open>\<open>DownloadFile_\<close> truncates the temporary file and streams the object into it.\<close>

definition DownloadFile_to :: "'x FileHandlerEnv \<Rightarrow> FileObject \<Rightarrow> string \<Rightarrow> ('x, unit) feff" where
  "DownloadFile_to env file_object path =
     bindE (modifyE (\<lambda>w. if can_open w path then w\<lparr>objects := (objects w)(path \<mapsto> [])\<rparr> else w)) (\<lambda>_.
     bindE (DownloadFile_stream (object_folder env) (f_id file_object)) (\<lambda>content.
     modifyE (\<lambda>w. if can_open w path then w\<lparr>objects := (objects w)(path \<mapsto> content)\<rparr> else w)))"

definition add_vector_store_id :: "string \<Rightarrow> Document \<Rightarrow> Document" where
  "add_vector_store_id vs_id document =
     document\<lparr>metadata := metadata document @ [string_field VECTOR_STORE_ID_KEY vs_id]\<rparr>"

definition split_document :: "'x FileHandlerEnv \<Rightarrow> Document \<Rightarrow> Document list result" where
  "split_document env doc =
     (case SplitDocument (split_options env) (split_text env) doc of None \<Rightarrow> Inl OutOfFuel | Some r \<Rightarrow> r)"

definition chunk_source :: "'x FileHandlerEnv \<Rightarrow> IngestorKind \<times> Ingestor \<Rightarrow> string \<Rightarrow> source" where
  "chunk_source env g content =
     (let (docs, e) = Load (pdf_pages env) (docx_paragraphs env) g content in LoadWithSplitter (split_document env) docs e)"

definition summarize :: "'x FileHandlerEnv \<Rightarrow> Document list \<Rightarrow> string result" where
  "summarize env docs =
     (case CreateSummary (summary_chain env) (string_size_reducible (summary_input_max_size env)) (map doc_text docs) of
        None \<Rightarrow> Inl OutOfFuel
      | Some r \<Rightarrow> r)"

text \<open>The \<open>try\<close> block: the summary of the file once it is in the index.\<close>

definition ingest_file :: "'x FileHandlerEnv \<Rightarrow> VectorStoreFileObject \<Rightarrow> ('x, string) feff" where
  "ingest_file env f =
     bindE (GetVectorStore (vf_vector_store_id f)) (\<lambda>vs_object.
     bindE (assert_true (vs_object \<noteq> None) ''should have found VectorStoreObject for file'') (\<lambda>_.
     bindE (RetrieveFile (vf_file_id f)) (\<lambda>file_object.
     bindE (assert_true (file_object \<noteq> None) ''should have found file object with VectorStoreFileObject'') (\<lambda>_.
     let path = temp_path (temp_folder env) (f_filename (the file_object)) in
     with_temp path
      (bindE (DownloadFile_to env (the file_object) path) (\<lambda>_.
       bindE (liftR (CreateIngestor path (vf_file_id f) (Some (add_vector_store_id (vf_vector_store_id f))) False)) (\<lambda>ingestor.
       bindE (assert_true (ingestor \<noteq> None) ''should have created ingestor for file'') (\<lambda>_.
       bindE (GetStatefulRetriever (operator env) (v_id (the vs_object))) (\<lambda>retriever.
       case retriever of
         None \<Rightarrow> throw UndefinedBehaviour
       | Some r \<Rightarrow>
           bindE (getE (\<lambda>w. case objects w path of None \<Rightarrow> [] | Some content \<Rightarrow> content)) (\<lambda>content.
           bindE (Ingest r (chunk_source env (the ingestor) content)) (\<lambda>_.
           bindE (FindInDocStore r \<lparr>find_limit = 0, find_offset = 0,
             find_query = string_term METADATA_SCHEMA_FILE_SOURCE_KEY (vf_file_id f), find_sorters = []\<rparr>) (\<lambda>docs.
           liftR (summarize env docs)))))))))))))"

definition caught_message :: "exn \<Rightarrow> string" where
  "caught_message e =
     (case e of
        ClientException m \<Rightarrow> m | InstinctException m \<Rightarrow> m | RuntimeError m \<Rightarrow> m | RenderError m \<Rightarrow> m
      | OutOfRange \<Rightarrow> ''out_of_range'' | InvalidArgument \<Rightarrow> ''invalid_argument'' | _ \<Rightarrow> [])"

definition no_file_change :: "VectorStoreFileObject \<Rightarrow> ModifyVectorStoreFileRequest" where
  "no_file_change f = \<lparr>mf_file_id = vf_file_id f, mf_vector_store_id = vf_vector_store_id f,
     mf_status = vsf_in_progress, mf_last_error = None, mf_summary = []\<rparr>"

text \<open>
  \<open>catch (...)\<close>: the request that is written afterwards. Undefined behaviour and a summary that
  does not end are no exceptions.
\<close>

definition handled :: "'x FileHandlerEnv \<Rightarrow> VectorStoreFileObject \<Rightarrow> ('x, ModifyVectorStoreFileRequest) feff" where
  "handled env f =
     catchE (bindE (ingest_file env f) (\<lambda>summary.
         ret ((no_file_change f)\<lparr>mf_summary := summary, mf_status := vsf_completed\<rparr>)))
       (\<lambda>e. if e = UndefinedBehaviour \<or> e = OutOfFuel then throw e
         else ret ((no_file_change f)\<lparr>mf_status := vsf_failed,
           mf_last_error := Some \<lparr>file_error_code = server_error, file_error_message = caught_message e\<rparr>\<rparr>))"

definition finished_status :: "FileCounts \<Rightarrow> VectorStoreFileBatchStatus" where
  "finished_status c =
     (if count_cancelled c > 0 then vsfb_cancelled
      else if count_failed c > 0 then vsfb_failed
      else if count_completed c = count_total c then vsfb_completed
      else unknown_vector_store_file_batch_status)"

definition finish_batch :: "VectorStoreFileObject \<Rightarrow> ('x, unit) feff" where
  "finish_batch f =
     (if \<not> IsNotBlankString (vf_file_batch_id f) then ret ()
      else bindE (GetVectorStoreFileBatch (vf_vector_store_id f) (vf_file_batch_id f)) (\<lambda>r.
        case r of
          None \<Rightarrow> throw UndefinedBehaviour
        | Some b \<Rightarrow>
            (case b_file_counts b of
               None \<Rightarrow> ret ()
             | Some c \<Rightarrow>
                 if count_in_progress c = 0
                 then bindE (ModifyVectorStoreFileBatch \<lparr>mb_batch_id = b_id b, mb_vector_store_id = b_vector_store_id b,
                        mb_status = finished_status c, mb_last_error = None, mb_sanity_check_at = 0\<rparr>) (\<lambda>r.
                      assert_true (r \<noteq> None) ''assertion failed'')
                 else ret ())))"

definition FileObject_Handle :: "'x FileHandlerEnv \<Rightarrow> VectorStoreFileObject Task \<Rightarrow> ('x, unit) feff" where
  "FileObject_Handle env t =
     (let f = payload t in
      bindE (CheckVectorStoreFileOk (vf_vector_store_id f) (vf_file_id f)) (\<lambda>ok.
      if \<not> ok then ret ()
      else
        bindE (ModifyVectorStoreFile (no_file_change f)) (\<lambda>r.
        bindE (assert_true (r \<noteq> None) ''should have VectorStoreFileObject updated'') (\<lambda>_.
        bindE (handled env f) (\<lambda>req.
        bindE (CheckVectorStoreFileOk (vf_vector_store_id f) (vf_file_id f)) (\<lambda>ok.
        if \<not> ok then ret ()
        else
          bindE (ModifyVectorStoreFile req) (\<lambda>r.
          bindE (assert_true (r \<noteq> None) ''assertion failed'') (\<lambda>_.
          finish_batch f))))))))"

section \<open>The background task\<close>

record BatchScan =
  scan_request :: ModifyVectorStoreFileBatchRequest
  scan_terminal :: bool
  scan_completed :: bool
  scan_terms :: "string list"

definition scan_file :: "BatchScan \<Rightarrow> VectorStoreFileObject \<Rightarrow> BatchScan" where
  "scan_file s f =
     (case vf_status f of
        vsf_failed \<Rightarrow>
          s\<lparr>scan_request := (scan_request s)\<lparr>mb_status := vsfb_failed,
              mb_last_error := Some (case vf_last_error f of Some e \<Rightarrow> e
                | None \<Rightarrow> \<lparr>file_error_code = unknown_error_type, file_error_message = []\<rparr>)\<rparr>,
            scan_terminal := True, scan_completed := False, scan_terms := scan_terms s @ [vf_file_id f]\<rparr>
      | vsf_cancelled \<Rightarrow>
          s\<lparr>scan_request := (scan_request s)\<lparr>mb_status := vsfb_cancelled\<rparr>,
            scan_terminal := True, scan_completed := False, scan_terms := scan_terms s @ [vf_file_id f]\<rparr>
      | vsf_in_progress \<Rightarrow> s\<lparr>scan_terminal := False, scan_completed := False\<rparr>
      | _ \<Rightarrow> s)"

definition string_terms :: "string \<Rightarrow> string list \<Rightarrow> SearchQuery" where
  "string_terms name ss = TermsQuery name (map (\<lambda>s. \<lparr>value_kind = StringValue s, value_is_null = False\<rparr>) ss)"

text \<open>
  One pass of the \<open>do\<close> loop. The request has no cursor, so a further pass would list the same
  page again; \<open>has_more\<close> decides whether there is one.
\<close>

definition scan_page :: "'x FileWorld_scheme StatefulRetriever \<Rightarrow> ListFilesQuery \<Rightarrow> BatchScan \<Rightarrow> ('x, BatchScan \<times> bool) feff" where
  "scan_page retriever req s =
     bindE (ListFilesInVectorStoreBatch req) (\<lambda>resp.
     let s' = foldl scan_file (s\<lparr>scan_terms := []\<rparr>) (list_data resp) in
     bindE (if scan_terms s' \<noteq> [] then Remove retriever (string_terms METADATA_SCHEMA_FILE_SOURCE_KEY (scan_terms s')) else ret ()) (\<lambda>_.
     ret (s', has_more resp)))"

primrec scan_loop :: "nat \<Rightarrow> 'x FileWorld_scheme StatefulRetriever \<Rightarrow> ListFilesQuery \<Rightarrow> BatchScan \<Rightarrow> ('x, BatchScan) feff" where
  "scan_loop 0 retriever req s = throw OutOfFuel"
| "scan_loop (Suc n) retriever req s =
     bindE (scan_page retriever req s) (\<lambda>(s', more).
     if more \<and> \<not> scan_terminal s' then scan_loop n retriever req s' else ret s')"

definition batch_files_request :: "VectorStoreFileBatchObject \<Rightarrow> ListFilesQuery" where
  "batch_files_request b = \<lparr>lf_vector_store_id = b_vector_store_id b, lf_batch_id = b_id b, lf_after = [], lf_before = [],
     lf_filter = unknown_vector_store_file_status, lf_limit = 0, lf_order = unknown_list_request_order\<rparr>"

definition check_batch :: "nat \<Rightarrow> 'x FileWorld_scheme RetrieverOperator \<Rightarrow> VectorStoreFileBatchObject \<Rightarrow> ('x, unit) feff" where
  "check_batch fuel p b =
     bindE GetCurrentEpochMicroSeconds (\<lambda>now.
     bindE (GetStatefulRetriever p (b_vector_store_id b)) (\<lambda>retriever.
     bindE (assert_true (retriever \<noteq> None) (''should have found stateful retriever by vector store id: '' @ b_vector_store_id b)) (\<lambda>_.
     bindE (scan_loop fuel (the retriever) (batch_files_request b)
       \<lparr>scan_request = \<lparr>mb_batch_id = b_id b, mb_vector_store_id = b_vector_store_id b,
          mb_status = unknown_vector_store_file_batch_status, mb_last_error = None, mb_sanity_check_at = now\<rparr>,
        scan_terminal = False, scan_completed = True, scan_terms = []\<rparr>) (\<lambda>s.
     if scan_completed s
     then bindE (ModifyVectorStoreFileBatch ((scan_request s)\<lparr>mb_status := vsfb_completed\<rparr>)) (\<lambda>_. ret ())
     else if scan_terminal s then bindE (ModifyVectorStoreFileBatch (scan_request s)) (\<lambda>_. ret ())
     else ret ()))))"

definition Background_Handle :: "nat \<Rightarrow> int \<Rightarrow> 'x FileWorld_scheme RetrieverOperator \<Rightarrow> ('x, unit) feff" where
  "Background_Handle fuel scan_batch_size p =
     bindE (ListPendingFileBatcheObjects [] scan_batch_size) (\<lambda>batches. forE (check_batch fuel p) batches)"

end
