(* ===== verification/File_Handlers_Correct.thy ===== *)
theory File_Handlers_Correct
  imports File_Correct File_Handlers
begin

text \<open>
  What the handler of a vector store file, the background task over batches and the vector store
  service guarantee, whatever the retriever operator does.
\<close>

section \<open>No file stays in progress once its task returned\<close>

definition settled :: "string \<Rightarrow> string \<Rightarrow> 'x FileWorld_scheme \<Rightarrow> bool" where
  "settled vs_id file_id w \<longleftrightarrow>
     (\<forall>g \<in> set (instinct_vector_store_file w). vf_vector_store_id g = vs_id \<and> vf_file_id g = file_id \<longrightarrow>
        vf_status g \<noteq> vsf_in_progress)"

lemma select_one_cases:
  assumes "DT_SelectOne get (filter P) w = (Inr r, w')"
  shows "w' = w" and "r = None \<Longrightarrow> \<forall>x \<in> set (get w). \<not> P x"
    and "r = Some y \<Longrightarrow> P y \<and> (\<forall>x \<in> set (get w). P x \<longrightarrow> x = y)"
proof -
  have *: "w' = w \<and> (if filter P (get w) = [] then r = None else length (filter P (get w)) \<le> 1 \<and> r = Some (hd (filter P (get w))))"
    using assms by (auto simp: DT_SelectOne_def split: if_splits)
  then show "w' = w" and "r = None \<Longrightarrow> \<forall>x \<in> set (get w). \<not> P x"
    by (auto simp: filter_empty_conv split: if_splits)
  assume "r = Some y"
  then have "filter P (get w) = [y]" using * by (cases "filter P (get w)") (auto split: if_splits)
  then have "set (filter P (get w)) = {y}" by simp
  then show "P y \<and> (\<forall>x \<in> set (get w). P x \<longrightarrow> x = y)" by auto
qed

lemma CheckVectorStoreFileOk_settled:
  "returns (\<lambda>_ :: 'x FileWorld_scheme. True) (CheckVectorStoreFileOk vs i) (\<lambda>ok w. \<not> ok \<longrightarrow> settled vs i w)"
proof (rule returnsI)
  fix w w' :: "'x FileWorld_scheme" and ok
  assume run: "CheckVectorStoreFileOk vs i w = (Inr ok, w')"
  obtain r t where r: "GetVectorStoreFile vs i w = (Inr r, t)"
    by (rule bindE_InrE [OF run [unfolded CheckVectorStoreFileOk_def]]) blast
  have ok: "(case r of None \<Rightarrow> False | Some f \<Rightarrow> vf_status f = vsf_in_progress) = ok" "t = w'"
    using run unfolding CheckVectorStoreFileOk_def bindE_ret [of "GetVectorStoreFile vs i", OF r] by simp_all
  have sel: "DT_SelectOne instinct_vector_store_file (filter (\<lambda>f. vf_file_id f = i \<and> vf_vector_store_id f = vs)) w = (Inr r, w')"
    using r ok(2) by (simp add: GetVectorStoreFile_def Mapper_GetVectorStoreFile_def store_simps split: if_splits)
  show "\<not> ok \<longrightarrow> settled vs i w'"
  proof (cases r)
    case None
    then show ?thesis using select_one_cases(2) [OF sel] select_one_cases(1) [OF sel] by (auto simp: settled_def)
  next
    case (Some f)
    then show ?thesis using select_one_cases(3) [OF sel Some] select_one_cases(1) [OF sel] ok(1) by (auto simp: settled_def)
  qed
qed

lemma ModifyVectorStoreFile_settled:
  assumes "mf_status req \<in> {vsf_completed, vsf_failed}"
  shows "returns (\<lambda>_. True) (ModifyVectorStoreFile req) (\<lambda>_. settled (mf_vector_store_id req) (mf_file_id req))"
proof -
  have upd: "returns (\<lambda>_. True) (UpdateVectorStoreFile req) (\<lambda>_. settled (mf_vector_store_id req) (mf_file_id req))"
    using assms by (auto simp: returns_def UpdateVectorStoreFile_def store_simps DT_Execute_update_def settled_def updated_file_def
        split: if_splits)
  have get: "preserves P (Mapper_GetVectorStoreFile a b)" for P :: "'a FileWorld_scheme \<Rightarrow> bool" and a b
    unfolding Mapper_GetVectorStoreFile_def by (intro eff_rules)
  show ?thesis unfolding ModifyVectorStoreFile_def
    by (intro returns_bind [OF returns_any] returns_bind [OF upd] returns_bind [OF preserves_returns [OF preserves_asserts(1)]]
        preserves_returns [OF get])
qed

lemma handled_request:
  "returns (\<lambda>_. True) (handled env f) (\<lambda>req _. mf_status req \<in> {vsf_completed, vsf_failed} \<and>
     mf_vector_store_id req = vf_vector_store_id f \<and> mf_file_id req = vf_file_id f)"
  unfolding handled_def
  by (intro returns_catch returns_bind [OF returns_any] returns_rules) (auto simp: no_file_change_def)

lemma finish_batch_files: "preserves (settled vs i) (finish_batch f)"
proof -
  have "preserves (settled vs i) (GetVectorStoreFileBatch a b)" for a b
    unfolding GetVectorStoreFileBatch_def CountVectorStoreFiles_def Mapper_GetVectorStoreFileBatch_def
    by (auto intro!: eff_rules)
  moreover from this have "preserves (settled vs i) (ModifyVectorStoreFileBatch r)" for r
    unfolding ModifyVectorStoreFileBatch_def UpdateVectorStoreFileBatch_def DT_Execute_update_def GetCurrentEpochMicroSeconds_def
    by (auto intro!: eff_rules simp: settled_def)
  ultimately show ?thesis unfolding finish_batch_def by (auto intro!: eff_rules)
qed


lemma returns_assuming: "(b \<Longrightarrow> returns (\<lambda>_. True) m Q) \<Longrightarrow> returns (\<lambda>_. b) m Q"
  by (cases b) (simp_all add: returns_def)

definition request_ends :: "VectorStoreFileObject \<Rightarrow> ModifyVectorStoreFileRequest \<Rightarrow> bool" where
  "request_ends f req \<longleftrightarrow> mf_status req \<in> {vsf_completed, vsf_failed} \<and>
     mf_vector_store_id req = vf_vector_store_id f \<and> mf_file_id req = vf_file_id f"

lemma write_request_settles:
  assumes "request_ends f req"
  shows "returns (\<lambda>_. True) (bindE (ModifyVectorStoreFile req) (\<lambda>r. bindE (assert_true (r \<noteq> None) m) (\<lambda>_. finish_batch f)))
    (\<lambda>_. settled (vf_vector_store_id f) (vf_file_id f))"
proof -
  have "returns (\<lambda>_. True) (ModifyVectorStoreFile req) (\<lambda>_. settled (vf_vector_store_id f) (vf_file_id f))"
    using ModifyVectorStoreFile_settled [of req] assms by (simp add: request_ends_def)
  then show ?thesis
    by (rule returns_bind)
      (intro returns_bind [OF preserves_returns [OF preserves_asserts(1)]] preserves_returns [OF finish_batch_files])
qed

lemma second_check_settles:
  assumes "request_ends f req"
  shows "returns (\<lambda>_. True) (bindE (CheckVectorStoreFileOk (vf_vector_store_id f) (vf_file_id f)) (\<lambda>ok.
        if \<not> ok then ret ()
        else bindE (ModifyVectorStoreFile req) (\<lambda>r. bindE (assert_true (r \<noteq> None) m) (\<lambda>_. finish_batch f))))
      (\<lambda>_. settled (vf_vector_store_id f) (vf_file_id f))"
  by (rule returns_bind [OF CheckVectorStoreFileOk_settled], rule returns_if, rule returns_ret, simp,
      rule returns_weaken [OF write_request_settles [OF assms]]) simp_all

text \<open>
  C6: whatever the ingestor, the retriever operator and the summary chain do, when the handler of a file
  task returns, the file is no longer in progress: it is completed, failed, cancelled or gone.
\<close>

theorem handled_file_settles:
  assumes "FileObject_Handle env t w = (Inr (), w')"
  shows "settled (vf_vector_store_id (payload t)) (vf_file_id (payload t)) w'"
proof -
  let ?S = "settled (vf_vector_store_id (payload t)) (vf_file_id (payload t))"
  have rest: "returns (\<lambda>_. True) (bindE (handled env (payload t)) (\<lambda>req.
      bindE (CheckVectorStoreFileOk (vf_vector_store_id (payload t)) (vf_file_id (payload t))) (\<lambda>ok.
        if \<not> ok then ret ()
        else bindE (ModifyVectorStoreFile req) (\<lambda>r. bindE (assert_true (r \<noteq> None) m) (\<lambda>_. finish_batch (payload t))))))
      (\<lambda>_. ?S)" for m
    by (rule returns_bind [OF handled_request], rule returns_assuming, rule second_check_settles) (simp add: request_ends_def)
  have "returns (\<lambda>_. True) (FileObject_Handle env t) (\<lambda>_. ?S)"
    unfolding FileObject_Handle_def Let_def
    by (rule returns_bind [OF CheckVectorStoreFileOk_settled], rule returns_if, rule returns_ret, simp,
      rule returns_bind [OF returns_any], rule returns_bind [OF returns_any], rule rest)
  from returnsD [OF this _ assms] show ?thesis by simp
qed


section \<open>A concrete world\<close>

definition demo_file_row :: VectorStoreFileObject where
  "demo_file_row = \<lparr>vf_file_id = ''file_1'', vf_created_at = 1, vf_modified_at = 1, vf_vector_store_id = ''vs_1'',
     vf_status = vsf_in_progress, vf_last_error = None, vf_file_batch_id = [], vf_summary = []\<rparr>"

definition demo_files :: FileWorld where
  "demo_files = \<lparr>id_numbers = (\<lambda>n. 100 + int n), id_count = 0, clock = (\<lambda>n. 10 + int n), ticks = 0, tie_rank = (\<lambda>_. 0),
     has_scheduler = True, scheduled = [], instinct_assistant = [], instinct_thread = [], instinct_thread_message = [],
     instinct_thread_run = [], instinct_thread_run_step = [],
     instinct_file = [], instinct_vector_store = [], instinct_vector_store_file = [demo_file_row],
     instinct_vector_store_file_batch = [], file_tasks = [], objects = Map.empty, can_open = (\<lambda>_. True)\<rparr>"

definition demo_operator :: "FileWorld RetrieverOperator" where
  "demo_operator = \<lparr>ProvisionRetriever = (\<lambda>_. ret True), CleanupRetriever = (\<lambda>_. ret True), GetStatefulRetriever = (\<lambda>_. ret None)\<rparr>"

definition demo_handler_env :: "unit FileHandlerEnv" where
  "demo_handler_env = \<lparr>operator = demo_operator, object_folder = ''data'', temp_folder = ''tmp'', pdf_pages = (\<lambda>_. Inr []),
     docx_paragraphs = (\<lambda>_. []), split_options = \<lparr>chunk_size = 100, chunk_overlap = 0, keep_separator = False, strip_whitespace = True,
       GetLength = length, icu_split = (\<lambda>_ t _. [t]), icu_graphemes = map (\<lambda>c. [c]), icu_trim = id,
       fromUTF8 = map of_char, toUTF8String = map (\<lambda>c. CHR ''x'')\<rparr>,
     split_text = (\<lambda>t. Some (Inr [t])), summary_chain = (\<lambda>_. Inr []), summary_input_max_size = 100\<rparr>"


lemma demo_not_blank: "\<not> IsBlankString ''vs_1''" "\<not> IsBlankString ''file_1''" "\<not> IsBlankString ''b_1''"
  by (simp_all add: IsBlankString_iff isspace_def)

lemma ingest_file_without_store:
  assumes "\<forall>v \<in> set (instinct_vector_store w). v_id v \<noteq> vf_vector_store_id f"
  shows "ingest_file env f w = (Inl (ClientException ''should have found VectorStoreObject for file''), w)"
proof -
  have "filter (\<lambda>v. v_id v = vf_vector_store_id f) (instinct_vector_store w) = []" using assms by (simp add: filter_empty_conv)
  then show ?thesis by (simp add: ingest_file_def GetVectorStore_def Mapper_GetVectorStore_def DT_SelectOne_def store_simps)
qed

lemma handled_failure:
  assumes "ingest_file env f w = (Inl e, w')" and "e \<noteq> UndefinedBehaviour" and "e \<noteq> OutOfFuel"
  shows "bindE (handled env f) g w = g ((no_file_change f)\<lparr>mf_status := vsf_failed,
    mf_last_error := Some \<lparr>file_error_code = server_error, file_error_message = caught_message e\<rparr>\<rparr>) w'"
  using assms by (simp add: bindE_def handled_def catchE_def)

theorem handled_file_settles_witness:
  "settled ''vs_1'' ''file_1'' (snd (FileObject_Handle demo_handler_env
     \<lparr>task_id = ''t'', category = FileObjectTask_CATEGORY, payload = demo_file_row\<rparr> demo_files))"
proof -
  let ?t = "\<lparr>task_id = ''t'', category = FileObjectTask_CATEGORY, payload = demo_file_row\<rparr>"
  have "fst (FileObject_Handle demo_handler_env ?t demo_files) = Inr ()"
    by (simp add: Let_def FileObject_Handle_def CheckVectorStoreFileOk_def GetVectorStoreFile_def Mapper_GetVectorStoreFile_def store_simps
        DT_SelectOne_def demo_files_def demo_file_row_def demo_not_blank ModifyVectorStoreFile_def UpdateVectorStoreFile_def
        DT_Execute_update_def updated_file_def no_file_change_def finish_batch_def IsNotBlankString_def
        handled_failure [OF ingest_file_without_store])
  then have "FileObject_Handle demo_handler_env ?t demo_files = (Inr (), snd (FileObject_Handle demo_handler_env ?t demo_files))"
    by (simp add: prod_eq_iff)
  from handled_file_settles [OF this] show ?thesis by (simp add: demo_file_row_def)
qed


section \<open>Pages and batches\<close>

lemma mapper_page_taken:
  assumes "list_limit l = Inr limit"
  shows "has_more (mapper_page idf limit (take (nat limit) rows)) = False"
    and "list_data (mapper_page idf limit (take (nat limit) rows)) = take (nat limit) rows"
proof -
  have "limit > 0" using assms by (auto simp: list_limit_def DEFAULT_LIST_LIMIT_def split: if_splits)
  then have "\<not> int (length (take (nat limit) rows)) > limit" by simp
  then show "has_more (mapper_page idf limit (take (nat limit) rows)) = False"
    and "list_data (mapper_page idf limit (take (nat limit) rows)) = take (nat limit) rows"
    by (simp_all add: mapper_page_def Let_def)
qed

definition batch_rows :: "ListFilesQuery \<Rightarrow> 'x FileWorld_scheme \<Rightarrow> VectorStoreFileObject list" where
  "batch_rows req w =
     order_by (list_order (lf_order req)) vf_created_at vf_file_id w
       (filter (\<lambda>f. vf_vector_store_id f = lf_vector_store_id req \<and> vf_file_batch_id f = lf_batch_id req \<and>
          in_window (lf_after req) (lf_before req) (vf_file_id f)) (instinct_vector_store_file w))"

lemma ListFilesInVectorStoreBatch_eq:
  "ListFilesInVectorStoreBatch req w =
     (if IsBlankString (lf_vector_store_id req) then (Inl (ClientException ''should provide valid vector_store_id''), w)
      else if IsBlankString (lf_batch_id req) then (Inl (ClientException ''should provide valid batch_id''), w)
      else case list_limit (lf_limit req) of
          Inl e \<Rightarrow> (Inl e, w)
        | Inr limit \<Rightarrow> (Inr (mapper_page vf_file_id limit (take (nat limit) (batch_rows req w))), w))"
  unfolding ListFilesInVectorStoreBatch_def ListVectorStoreFiles_of_batch_def assert_binds DT_SelectMany_def batch_rows_def
  by (cases "list_limit (lf_limit req)") simp_all

lemma batch_page:
  assumes "ListFilesInVectorStoreBatch req w = (Inr resp, w')"
  obtains limit where "list_limit (lf_limit req) = Inr limit" "list_data resp = take (nat limit) (batch_rows req w)"
    "\<not> has_more resp" "w' = w"
proof (cases "list_limit (lf_limit req)")
  case (Inl e)
  then show thesis using assms by (simp add: ListFilesInVectorStoreBatch_eq split: if_splits)
next
  case (Inr limit)
  then have "resp = mapper_page vf_file_id limit (take (nat limit) (batch_rows req w))" "w' = w"
    using assms by (auto simp: ListFilesInVectorStoreBatch_eq split: if_splits)
  then show thesis using that [OF Inr] mapper_page_taken [OF Inr, of vf_file_id "batch_rows req w"] by simp
qed

lemma scan_page_last:
  "returns (\<lambda>_. True) (scan_page retriever req s) (\<lambda>(s', more) _. \<not> more)"
proof -
  have *: "returns (\<lambda>_. True) (ListFilesInVectorStoreBatch req) (\<lambda>resp _. \<not> has_more resp)"
    by (rule returnsI) (elim batch_page, simp)
  show ?thesis unfolding scan_page_def Let_def
    by (rule returns_bind [OF *], rule returns_assuming, rule returns_bind [OF returns_any], rule returns_ret) simp
qed

lemma scan_loop_first_page:
  "scan_loop (Suc n) retriever req s = bindE (scan_page retriever req s) (\<lambda>(s', more). ret s')"
proof (rule ext)
  fix w
  show "scan_loop (Suc n) retriever req s w = bindE (scan_page retriever req s) (\<lambda>(s', more). ret s') w"
  proof (cases "scan_page retriever req s w")
    case (Pair r w')
    show ?thesis
    proof (cases r)
      case (Inr p)
      then have "\<not> snd p" using returnsD [OF scan_page_last [of retriever req s], of w p w'] Pair by (auto split: prod.splits)
      then show ?thesis using Pair Inr by (cases p) (simp add: bindE_def)
    qed (use Pair in \<open>simp add: bindE_def\<close>)
  qed
qed


text \<open>
  the loop of the background task over the files of a batch always ends after its first pass, since
  the mapper never announces a further page: with more fuel it does the same.
\<close>

theorem scan_loop_one_pass:
  "scan_loop (Suc n) retriever req s w =
     (case scan_page retriever req s w of
        (Inl e, w') \<Rightarrow> (Inl e, w')
      | (Inr (s', again), w') \<Rightarrow> (Inr s', w'))"
  by (simp add: scan_loop_first_page bindE_def split: prod.split sum.split del: scan_loop.simps)

text \<open>
  What a scan over a list of files leaves: only the files that are not completed count, and of them the
  last one decides.
\<close>

definition unfinished_files :: "VectorStoreFileObject list \<Rightarrow> VectorStoreFileObject list" where
  "unfinished_files fs = filter (\<lambda>f. vf_status f \<in> {vsf_failed, vsf_cancelled, vsf_in_progress}) fs"

lemma scan_files:
  "scan_completed (foldl scan_file s fs) = (scan_completed s \<and> unfinished_files fs = [])"
  "scan_terminal (foldl scan_file s fs) =
     (if unfinished_files fs = [] then scan_terminal s else vf_status (last (unfinished_files fs)) \<noteq> vsf_in_progress)"
  "scan_terms (foldl scan_file s fs) =
     scan_terms s @ map vf_file_id (filter (\<lambda>f. vf_status f \<in> {vsf_failed, vsf_cancelled}) fs)"
  "mb_batch_id (scan_request (foldl scan_file s fs)) = mb_batch_id (scan_request s)"
  "mb_vector_store_id (scan_request (foldl scan_file s fs)) = mb_vector_store_id (scan_request s)"
  by (induction fs arbitrary: s) (auto simp: scan_file_def unfinished_files_def split: VectorStoreFileStatus.split)

lemma scan_files_status:
  assumes "scan_terminal (foldl scan_file s fs)" and "unfinished_files fs \<noteq> []"
  shows "mb_status (scan_request (foldl scan_file s fs)) =
    (if vf_status (last (unfinished_files fs)) = vsf_failed then vsfb_failed else vsfb_cancelled)"
  using assms
proof (induction fs rule: rev_induct)
  case (snoc f fs)
  then show ?case
    by (cases "vf_status f") (auto simp: scan_file_def unfinished_files_def split: if_splits)
qed (simp add: unfinished_files_def)

text \<open>
  the background task ends a batch by the last file of the first page that is not completed. A batch
  whose last such file failed is marked failed, although an earlier file is still in progress; the
  retriever drops the documents of the failed and cancelled files.
\<close>

theorem check_batch_ends_early:
  assumes "list_limit 0 = Inr limit" and "fs = take (nat limit) (batch_rows (batch_files_request b) (ticks_update Suc w))"
    and "unfinished_files fs \<noteq> []" and "vf_status (last (unfinished_files fs)) = vsf_failed"
    and "\<not> IsBlankString (b_id b)" and "\<not> IsBlankString (b_vector_store_id b)"
    and "GetStatefulRetriever p (b_vector_store_id b) (ticks_update Suc w) = (Inr (Some r), ticks_update Suc w)"
    and "Remove r (string_terms METADATA_SCHEMA_FILE_SOURCE_KEY
      (map vf_file_id (filter (\<lambda>f. vf_status f \<in> {vsf_failed, vsf_cancelled}) fs))) (ticks_update Suc w) = (Inr (), wr)"
  shows "\<exists>req. check_batch (Suc n) p b w = bindE (ModifyVectorStoreFileBatch req) (\<lambda>_. ret ()) wr \<and>
    mb_batch_id req = b_id b \<and> mb_vector_store_id req = b_vector_store_id b \<and> mb_status req = vsfb_failed"
proof -
  let ?w = "ticks_update Suc w"
  let ?init = "\<lparr>scan_request = \<lparr>mb_batch_id = b_id b, mb_vector_store_id = b_vector_store_id b,
      mb_status = unknown_vector_store_file_batch_status, mb_last_error = None, mb_sanity_check_at = clock w (ticks w)\<rparr>,
      scan_terminal = False, scan_completed = True, scan_terms = []\<rparr>"
  let ?s = "foldl scan_file ?init fs"
  have ids: "lf_vector_store_id (batch_files_request b) = b_vector_store_id b" "lf_batch_id (batch_files_request b) = b_id b"
    "lf_limit (batch_files_request b) = 0" by (simp_all add: batch_files_request_def)
  have resp: "ListFilesInVectorStoreBatch (batch_files_request b) ?w = (Inr (mapper_page vf_file_id limit fs), ?w)"
    using assms(1,2,5,6) by (simp add: ListFilesInVectorStoreBatch_eq ids)
  have fs: "list_data (mapper_page vf_file_id limit fs) = fs" unfolding assms(2) by (rule mapper_page_taken(2) [OF assms(1)])
  have "last (unfinished_files fs) \<in> set fs" using last_in_set [OF assms(3)] by (simp add: unfinished_files_def)
  then have terms: "scan_terms ?s \<noteq> []" using assms(4) by (auto simp: scan_files filter_empty_conv)
  have "scan_terms ?s = map vf_file_id (filter (\<lambda>f. vf_status f \<in> {vsf_failed, vsf_cancelled}) fs)" by (simp add: scan_files)
  then have "Remove r (string_terms METADATA_SCHEMA_FILE_SOURCE_KEY (scan_terms ?s)) ?w = (Inr (), wr)"
    using assms(8) by simp
  then have page: "scan_page r (batch_files_request b) ?init ?w = (Inr (?s, has_more (mapper_page vf_file_id limit fs)), wr)"
    using terms unfolding scan_page_def bindE_ret [where m = "ListFilesInVectorStoreBatch _", OF resp] Let_def fs
    by (simp add: bindE_def)
  then have "bindE (scan_loop (Suc n) r (batch_files_request b) ?init) g ?w = g ?s wr" for g :: "BatchScan \<Rightarrow> ('a, unit) feff"
    by (simp add: scan_loop_first_page bindE_def del: scan_loop.simps)
  then have "check_batch (Suc n) p b w = bindE (ModifyVectorStoreFileBatch (scan_request ?s)) (\<lambda>_. ret ()) wr"
    using assms(3,4) by (simp add: check_batch_def store_simps bindE_ret [where m = "GetStatefulRetriever p _", OF assms(7)]
        scan_files del: scan_loop.simps)
  moreover have "mb_status (scan_request ?s) = vsfb_failed"
    using scan_files_status [of ?init fs] assms(3,4) by (simp add: scan_files)
  ultimately show ?thesis by (intro exI [of _ "scan_request ?s"]) (simp add: scan_files)
qed


definition demo_retriever :: "FileWorld StatefulRetriever" where
  "demo_retriever = \<lparr>Remove = (\<lambda>_. ret ()), Ingest = (\<lambda>_. ret ()), FindInDocStore = (\<lambda>_. ret [])\<rparr>"

definition demo_batch :: VectorStoreFileBatchObject where
  "demo_batch = \<lparr>b_id = ''b_1'', b_created_at = 1, b_modified_at = 1, b_vector_store_id = ''vs_1'', b_status = vsfb_in_progress,
     b_last_error = None, b_sanity_check_at = 0, b_file_counts = None\<rparr>"

definition demo_batch_world :: FileWorld where
  "demo_batch_world = demo_files\<lparr>instinct_vector_store_file :=
       [demo_file_row\<lparr>vf_file_batch_id := ''b_1''\<rparr>,
        demo_file_row\<lparr>vf_file_id := ''file_2'', vf_created_at := 0, vf_file_batch_id := ''b_1'', vf_status := vsf_failed\<rparr>],
     instinct_vector_store_file_batch := [demo_batch]\<rparr>"

lemma demo_batch_rows:
  "take (nat 21) (batch_rows (batch_files_request demo_batch) (ticks_update Suc demo_batch_world)) = instinct_vector_store_file demo_batch_world"
  by (simp add: batch_rows_def batch_files_request_def demo_batch_def demo_batch_world_def demo_files_def demo_file_row_def list_order_def
      order_by_def in_window_def IsNotBlankString_def)

theorem check_batch_ends_early_witness:
  "\<exists>req. check_batch 1 (demo_operator\<lparr>GetStatefulRetriever := (\<lambda>_. ret (Some demo_retriever))\<rparr>) demo_batch demo_batch_world =
     bindE (ModifyVectorStoreFileBatch req) (\<lambda>_. ret ()) (ticks_update Suc demo_batch_world) \<and>
     mb_batch_id req = ''b_1'' \<and> mb_vector_store_id req = ''vs_1'' \<and> mb_status req = vsfb_failed"
  using check_batch_ends_early [where limit = 21 and b = demo_batch and w = demo_batch_world and n = 0 and r = demo_retriever and
      p = "demo_operator\<lparr>GetStatefulRetriever := (\<lambda>_. ret (Some demo_retriever))\<rparr>" and wr = "ticks_update Suc demo_batch_world",
      OF _ demo_batch_rows [symmetric]]
  by (simp add: list_limit_def DEFAULT_LIST_LIMIT_def demo_retriever_def demo_batch_world_def demo_files_def demo_file_row_def unfinished_files_def
      demo_batch_def demo_not_blank)

section \<open>Refusals and partial changes of the vector store service\<close>

lemma CountVectorStoreFiles_bind:
  assumes "vs \<noteq> []"
  shows "bindE (CountVectorStoreFiles vs []) g w = g
    (let rows = filter (\<lambda>f. vf_vector_store_id f = vs) (instinct_vector_store_file w) in
     \<lparr>count_in_progress = to_int32 (count_status vsf_in_progress rows), count_completed = to_int32 (count_status vsf_completed rows),
      count_failed = to_int32 (count_status vsf_failed rows), count_cancelled = to_int32 (count_status vsf_cancelled rows),
      count_total = to_int32 (int (length rows))\<rparr>) w"
  using assms by (simp add: CountVectorStoreFiles_def store_simps DT_SelectMany_def Let_def)

lemma Mapper_GetVectorStore_bind:
  assumes "vector_store_table.keys_ok w"
  shows "bindE (Mapper_GetVectorStore vs) g w = g (find (\<lambda>v. v_id v = vs) (instinct_vector_store w)) w"
  unfolding Mapper_GetVectorStore_def
  by (rule bindE_ret [where m = "DT_SelectOne instinct_vector_store _"]) (rule vector_store_table.select_by_key [OF assms])

lemma count_of_rows:
  assumes "length rows < 2 ^ 31"
  shows "to_int32 (count_status s rows) = count_status s rows"
proof -
  have "length (filter (\<lambda>f. vf_status f = s) rows) < 2 ^ 31" using length_filter_le assms by (rule le_less_trans)
  then show ?thesis unfolding count_status_def by (intro to_int32_id) (simp_all add: zless_nat_eq_int_zless)
qed


definition without_store :: "string \<Rightarrow> 'x FileWorld_scheme \<Rightarrow> 'x FileWorld_scheme" where
  "without_store vs w =
     instinct_vector_store_update (filter (\<lambda>v. v_id v \<noteq> vs))
       (instinct_vector_store_file_update (filter (\<lambda>f. vf_vector_store_id f \<noteq> vs)) w)"

lemma length_filter_id:
  assumes "vector_store_table.keys_ok w" and "v \<in> set (instinct_vector_store w)"
  shows "length (filter (\<lambda>u. v_id u = v_id v) (instinct_vector_store w)) = Suc 0"
    "\<exists>u. find (\<lambda>u. v_id u = v_id v) (instinct_vector_store w) = Some u \<and> v_id u = v_id v"
proof -
  have "find (\<lambda>u. v_id u = v_id v) (instinct_vector_store w) \<noteq> None" using assms(2) by (auto simp: find_None_iff)
  then obtain u where u: "find (\<lambda>u. v_id u = v_id v) (instinct_vector_store w) = Some u" by blast
  then show "\<exists>u. find (\<lambda>u. v_id u = v_id v) (instinct_vector_store w) = Some u \<and> v_id u = v_id v"
    by (auto simp: find_Some_iff)
  show "length (filter (\<lambda>u. v_id u = v_id v) (instinct_vector_store w)) = Suc 0"
    using vector_store_table.filter_key [OF assms(1), of "v_id v" "\<lambda>_. True"] u by simp
qed

text \<open>
  C23: a vector store with a file in progress is not deleted and nothing changes; otherwise the store and
  all its files are removed, and nothing else, before the retriever is cleaned up.
\<close>

theorem DeleteVectorStore_guarded:
  assumes "vector_store_table.keys_ok w" and "v \<in> set (instinct_vector_store w)" and "v_id v = vs" and "vs \<noteq> []"
    and "length (instinct_vector_store_file w) < 2 ^ 31"
  shows "DeleteVectorStore p vs w =
    (if \<exists>f \<in> set (instinct_vector_store_file w). vf_vector_store_id f = vs \<and> vf_status f = vsf_in_progress
     then (Inr \<lparr>deleted_id = vs, deleted = False\<rparr>, w)
     else bindE (case p of None \<Rightarrow> ret True | Some p \<Rightarrow> CleanupRetriever p vs) (\<lambda>ok. ret \<lparr>deleted_id = vs, deleted = ok\<rparr>)
       (without_store vs w))"
proof -
  let ?rows = "filter (\<lambda>f. vf_vector_store_id f = vs) (instinct_vector_store_file w)"
  have "length ?rows < 2 ^ 31" using length_filter_le assms(5) by (rule le_less_trans)
  then have count: "to_int32 (count_status vsf_in_progress ?rows) = count_status vsf_in_progress ?rows" by (rule count_of_rows)
  have none: "(count_status vsf_in_progress ?rows = 0) =
      (\<not> (\<exists>f \<in> set (instinct_vector_store_file w). vf_vector_store_id f = vs \<and> vf_status f = vsf_in_progress))"
    by (auto simp: count_status_def filter_empty_conv)
  obtain u where "find (\<lambda>u. v_id u = vs) (instinct_vector_store w) = Some u" "v_id u = vs"
    "length (filter (\<lambda>u. v_id u = vs) (instinct_vector_store w)) = Suc 0"
    using length_filter_id [OF assms(1,2)] assms(3) by auto
  then show ?thesis using assms(4)
    by (cases p) (auto simp: DeleteVectorStore_def Mapper_GetVectorStore_bind [OF assms(1)] store_simps CountVectorStoreFiles_bind Let_def
        count none DeleteVectorStoreFiles_def Mapper_DeleteVectorStore_def DT_Execute_delete_def without_store_def)
qed

definition demo_store :: VectorStoreObject where
  "demo_store = \<lparr>v_id = ''vs_1'', v_created_at = 1, v_modified_at = 1, v_name = ''s'', v_file_counts = None, v_status = vs_in_progress,
     v_expires_after = None, v_expires_at = 0, v_last_active_at = 1, v_metadata = None, v_summary = []\<rparr>"

theorem DeleteVectorStore_guarded_witness:
  "DeleteVectorStore None ''vs_1'' (demo_files\<lparr>instinct_vector_store := [demo_store]\<rparr>) =
     (Inr \<lparr>deleted_id = ''vs_1'', deleted = False\<rparr>, demo_files\<lparr>instinct_vector_store := [demo_store]\<rparr>)"
  using DeleteVectorStore_guarded [of "demo_files\<lparr>instinct_vector_store := [demo_store]\<rparr>" demo_store "''vs_1''" None]
  by (simp add: vector_store_table.keys_ok_def demo_files_def demo_store_def demo_file_row_def)

text \<open>
  cancelling a batch of which no file is in progress throws, but the batch has been marked cancelled
  by then.
\<close>

theorem CancelVectorStoreFileBatch_marks_first:
  assumes "batch_table.keys_ok w" and "b \<in> set (instinct_vector_store_file_batch w)" and "b_id b = i"
    and "\<not> IsBlankString i" and "\<not> IsBlankString vs"
    and "\<not> (\<exists>f \<in> set (instinct_vector_store_file w).
      vf_vector_store_id f = vs \<and> vf_file_batch_id f = i \<and> vf_status f = vsf_in_progress)"
  shows "fst (CancelVectorStoreFileBatch vs i w) = Inl (ClientException ''should have vector store files updated'') \<and>
    map b_status (filter (\<lambda>b. b_id b = i) (instinct_vector_store_file_batch (snd (CancelVectorStoreFileBatch vs i w)))) = [vsfb_cancelled]"
proof -
  have "find (\<lambda>b. b_id b = i) (instinct_vector_store_file_batch w) \<noteq> None" using assms(2,3) by (auto simp: find_None_iff)
  then obtain u where u: "filter (\<lambda>b. b_id b = i) (instinct_vector_store_file_batch w) = [u]"
    using batch_table.filter_key [OF assms(1), of i "\<lambda>_. True"] by auto
  have "filter (\<lambda>f. vf_vector_store_id f = vs \<and> vf_file_batch_id f = i \<and> vf_status f = vsf_in_progress) (instinct_vector_store_file w) = []"
    using assms(6) by (auto simp: filter_empty_conv)
  moreover have "map b_status (filter (\<lambda>b. b_id b = i) (map (\<lambda>r. if b_id r = i then updated_batch req t r else r) rows)) =
      map (\<lambda>r. b_status (updated_batch req t r)) (filter (\<lambda>b. b_id b = i) rows)" for req t rows
    by (induction rows) (auto simp: updated_batch_def)
  ultimately show ?thesis using assms(4,5) not_blank_nonempty [OF assms(4)] u
    by (simp add: CancelVectorStoreFileBatch_def store_simps UpdateVectorStoreFileBatch_def DT_Execute_update_def CancelVectorStoreFiles_def)
      (simp add: updated_batch_def)
qed

theorem CancelVectorStoreFileBatch_marks_first_witness:
  "fst (CancelVectorStoreFileBatch ''vs_1'' ''b_1'' (demo_batch_world\<lparr>instinct_vector_store_file := []\<rparr>)) =
     Inl (ClientException ''should have vector store files updated'')"
  using CancelVectorStoreFileBatch_marks_first [of "demo_batch_world\<lparr>instinct_vector_store_file := []\<rparr>" demo_batch "''b_1''" "''vs_1''"]
  by (simp add: batch_table.keys_ok_def demo_batch_world_def demo_batch_def demo_not_blank)

end
