(* ===== verification/Retriever_Correct.thy ===== *)
theory Retriever_Correct
  imports Retriever
begin

text \<open>
  What the document store and the multi-vector retriever guarantee: adding documents is all or nothing,
  what was added is read back, and every stored chunk has its parent in the document store.
\<close>

section \<open>Adding documents is all or nothing\<close>

text \<open>Appending touches nothing but the sequence of UUIDs.\<close>

definition same_tables :: "DocDB \<Rightarrow> DocDB \<Rightarrow> bool" where
  "same_tables db db' \<longleftrightarrow> (\<exists>n. db' = db\<lparr>uuid_count := n\<rparr>)"

lemma same_tables_refl: "same_tables db db"
  by (auto simp: same_tables_def intro: exI [of _ "uuid_count db"])

lemma preserves_same_tables_new_uuid: "preserves (same_tables db) new_uuid"
proof -
  have "same_tables db (uuid_count_update Suc s)" if same: "same_tables db s" for s
  proof -
    obtain n where "s = db\<lparr>uuid_count := n\<rparr>" using same by (auto simp: same_tables_def)
    then have "uuid_count_update Suc s = db\<lparr>uuid_count := Suc n\<rparr>" by (simp add: comp_def)
    then show ?thesis unfolding same_tables_def by blast
  qed
  then show ?thesis unfolding new_uuid_def by (intro eff_rules) simp_all
qed

lemma preserves_case_sum [eff_rules]:
  "(\<And>x. preserves P (f x)) \<Longrightarrow> (\<And>y. preserves P (g y)) \<Longrightarrow> preserves P (case r of Inl x \<Rightarrow> f x | Inr y \<Rightarrow> g y)"
  by (cases r) auto

lemma preserves_append_one: "preserves (same_tables db) (append_one st e doc a)"
proof -
  have "preserves (same_tables db) (append_row st e d)" for d
    unfolding append_row_def by (intro eff_rules)
  moreover have "preserves (same_tables db) (append_row_basic_fields doc)"
    unfolding append_row_basic_fields_def by (intro eff_rules preserves_same_tables_new_uuid)
  ultimately show ?thesis unfolding append_one_def Let_def by (intro eff_rules)
qed

lemma preserves_AppendRows_loop: "preserves (same_tables db) (AppendRows_loop st items a)"
  by (induction st items a rule: AppendRows_loop.induct)
    (simp_all only: AppendRows_loop.simps preserves_pure preserves_bind [OF preserves_append_one])

lemma preserves_AppendRows: "preserves (same_tables db) (AppendRows st records)"
  unfolding AppendRows_def Let_def
  by (auto intro!: eff_rules preserves_AppendRows_loop simp: assert_equal_size_def split: option.split)

text \<open>The rows of the records that were accepted, with the cells the database converted.\<close>

definition row_of :: "DocDB \<Rightarrow> DuckDBStore \<Rightarrow> Document \<Rightarrow> DocRow \<Rightarrow> bool" where
  "row_of db st doc row \<longleftrightarrow> row_id row = doc_id doc \<and> row_text row = doc_text doc \<and>
     append_row_metadata_fields db (metadata_schema st) (bypass_unknown_fields (options st)) doc = Inr (row_fields row)"

lemma append_metadata_same_tables:
  "same_tables db db' \<Longrightarrow> append_row_metadata_fields db' = append_row_metadata_fields db"
proof (intro ext)
  fix schema bypass doc
  assume "same_tables db db'"
  then have "append_field db' doc f = append_field db doc f" for f
    by (auto simp: same_tables_def append_field_def split: option.split)
  then have "append_field db' doc = append_field db doc" by (intro ext)
  then show "append_row_metadata_fields db' schema bypass doc = append_row_metadata_fields db schema bypass doc"
    by (simp only: append_row_metadata_fields_def)
qed

text \<open>What the records become: a fresh id, and nothing else changes.\<close>

definition given_id :: "Document \<Rightarrow> Document \<Rightarrow> bool" where
  "given_id record doc \<longleftrightarrow> doc = record\<lparr>doc_id := doc_id doc\<rparr>"

definition appends :: "DocDB \<Rightarrow> DuckDBStore \<Rightarrow> Document list \<Rightarrow> AppendState \<Rightarrow> AppendState \<Rightarrow> bool" where
  "appends db st records a a' \<longleftrightarrow>
     (\<exists>rows docs. appended a' = appended a @ rows \<and> docs_done a' = docs_done a @ docs \<and>
        list_all2 (row_of db st) docs rows \<and> list_all2 given_id records docs \<and>
        result_so_far a' = (result_so_far a)\<lparr>affected_rows := affected_rows (result_so_far a) + int (length docs),
          returned_ids := returned_ids (result_so_far a) @ map doc_id docs\<rparr>)"

lemma append_one_cases:
  assumes "append_one st e doc a db = (Inr a', db')"
  shows "\<not> row_open a" and "row_open a' \<or> appends db st [doc] a a'"
proof -
  obtain i where i: "append_row_basic_fields doc db = (Inr (doc\<lparr>doc_id := i\<rparr>), uuid_count_update Suc db)"
    by (simp add: append_row_basic_fields_def new_uuid_def bindE_def)
  have rest: "(let d = doc\<lparr>doc_id := i\<rparr>; res = (result_so_far a)\<lparr>returned_ids := returned_ids (result_so_far a) @ [doc_id d]\<rparr> in
     if row_open a then throw duckdb_error
     else bindE (append_row st e d) (\<lambda>r.
       case r of
         Inr row \<Rightarrow> ret (a\<lparr>appended := appended a @ [row], docs_done := docs_done a @ [d],
             result_so_far := res\<lparr>affected_rows := affected_rows res + 1\<rparr>\<rparr>)
       | Inl x \<Rightarrow>
           if is_instinct x \<and> x \<noteq> duckdb_error
           then ret (a\<lparr>row_open := True, docs_done := docs_done a @ [d],
             result_so_far := res\<lparr>failed_documents := failed_documents res @ [d]\<rparr>\<rparr>)
           else throw x)) (uuid_count_update Suc db) = (Inr a', db')"
    using assms unfolding append_one_def bindE_ret [where m = "append_row_basic_fields doc", OF i] Let_def by simp
  then show closed: "\<not> row_open a" by (auto simp: Let_def)
  have same: "append_row_metadata_fields (uuid_count_update Suc db) = append_row_metadata_fields db"
    by (rule append_metadata_same_tables) (auto simp: same_tables_def intro: exI [of _ "Suc (uuid_count db)"])
  show "row_open a' \<or> appends db st [doc] a a'"
  proof (cases "fst (append_row st e (doc\<lparr>doc_id := i\<rparr>) (uuid_count_update Suc db))")
    case (Inr r)
    then show ?thesis
    proof (cases r)
      case (Inl x)
      with \<open>fst _ = Inr r\<close> rest closed show ?thesis by (auto simp: Let_def append_row_def split: if_splits)
    next
      case row: (Inr row)
      then have "append_row st e (doc\<lparr>doc_id := i\<rparr>) (uuid_count_update Suc db) = (Inr (Inr row), uuid_count_update Suc db)"
        using Inr by (simp add: append_row_def)
      moreover from this have "row_of db st (doc\<lparr>doc_id := i\<rparr>) row"
        by (auto simp: append_row_def row_of_def same simp: bindR_Inr_iff split: if_splits)
      ultimately show ?thesis using rest closed
        by (auto simp: Let_def bindE_ret appends_def given_id_def)
    qed
  qed (simp add: append_row_def)
qed


lemma appends_Nil: "appends db st [] a a"
  by (auto simp: appends_def)

lemma appends_trans:
  assumes "appends db st r1 a b" and "appends db st r2 b c"
  shows "appends db st (r1 @ r2) a c"
proof -
  obtain w1 d1 where 1: "appended b = appended a @ w1" "docs_done b = docs_done a @ d1" "list_all2 (row_of db st) d1 w1"
    "list_all2 given_id r1 d1" "result_so_far b = (result_so_far a)\<lparr>affected_rows := affected_rows (result_so_far a) + int (length d1),
          returned_ids := returned_ids (result_so_far a) @ map doc_id d1\<rparr>"
    using assms(1) unfolding appends_def by blast
  obtain w2 d2 where 2: "appended c = appended b @ w2" "docs_done c = docs_done b @ d2" "list_all2 (row_of db st) d2 w2"
    "list_all2 given_id r2 d2" "result_so_far c = (result_so_far b)\<lparr>affected_rows := affected_rows (result_so_far b) + int (length d2),
          returned_ids := returned_ids (result_so_far b) @ map doc_id d2\<rparr>"
    using assms(2) unfolding appends_def by blast
  show ?thesis unfolding appends_def
    using 1 2 by (intro exI [of _ "w1 @ w2"] exI [of _ "d1 @ d2"]) (simp add: list_all2_appendI)
qed

lemma appends_same_tables: "same_tables db db' \<Longrightarrow> appends db' st r a b = appends db st r a b"
  by (simp add: appends_def row_of_def [abs_def] append_metadata_same_tables)

lemma AppendRows_loop_open: "AppendRows_loop st items a db = (Inr a', db') \<Longrightarrow> row_open a \<Longrightarrow> items = []"
proof (cases items)
  case (Cons x items')
  moreover obtain e doc where "x = (e, doc)" by force
  moreover assume "AppendRows_loop st items a db = (Inr a', db')" and "row_open a"
  ultimately show ?thesis by (auto elim!: bindE_InrE dest: append_one_cases(1))
qed simp

lemma AppendRows_loop_appends:
  assumes "AppendRows_loop st items a db = (Inr a', db')"
  shows "row_open a' \<or> appends db st (map snd items) a a'"
  using assms
proof (induction items arbitrary: a db)
  case Nil
  then show ?case by (simp add: appends_Nil)
next
  case (Cons x items)
  obtain e doc where x: "x = (e, doc)" by force
  obtain b db1 where b: "append_one st e doc a db = (Inr b, db1)" and rest: "AppendRows_loop st items b db1 = (Inr a', db')"
    using Cons.prems by (auto simp: x elim!: bindE_InrE)
  show ?case
  proof (cases "row_open b")
    case True
    then show ?thesis using AppendRows_loop_open [OF rest] rest by simp
  next
    case False
    then have "appends db st [doc] a b" using append_one_cases(2) [OF b] by simp
    moreover have "same_tables db db1" using preservesD [OF preserves_append_one same_tables_refl b] .
    ultimately show ?thesis using Cons.IH [OF rest] appends_trans [of db st "[doc]" a b "map snd items" a']
      by (auto simp: x appends_same_tables)
  qed
qed

definition fresh_append :: AppendState where
  "fresh_append = \<lparr>appended = [], row_open = False, docs_done = [], result_so_far = no_result\<rparr>"

lemma AppendRows_appends:
  assumes "AppendRows st records db = (Inr a, db')"
  shows "row_open a \<or> appends db st records fresh_append a"
proof (cases "embeddings st")
  case None
  then have "AppendRows_loop st (map (Pair []) records) fresh_append db = (Inr a, db')"
    using assms by (simp add: AppendRows_def fresh_append_def)
  from AppendRows_loop_appends [OF this] show ?thesis by (simp add: comp_def)
next
  case (Some m)
  then obtain vs where "length vs = length records" "AppendRows_loop st (zip vs records) fresh_append db = (Inr a, db')"
    using assms by (cases "EmbedDocuments m (map doc_text records)")
      (auto simp: AppendRows_def fresh_append_def assert_equal_size_def bindE_def split: if_splits)
  with AppendRows_loop_appends [OF this(2)] show ?thesis by simp
qed


lemma with_table_bind:
  "with_table st f db = (case doc_tables db (table_name (options st)) of None \<Rightarrow> (Inl query_error, db) | Some t \<Rightarrow> f t db)"
  by (simp add: with_table_def split: option.split)

text \<open>The table \<open>db\<close> has before and after some rows were added.\<close>

definition added_rows :: "DuckDBStore \<Rightarrow> DocDB \<Rightarrow> DocRow list \<Rightarrow> DocDB \<Rightarrow> bool" where
  "added_rows st db rows db' \<longleftrightarrow>
     (\<exists>t n. doc_tables db (table_name (options st)) = Some t \<and> distinct (map row_id (table_rows t @ rows)) \<and>
        db' = db\<lparr>uuid_count := n,
          doc_tables := (doc_tables db)(table_name (options st) \<mapsto> t\<lparr>table_rows := table_rows t @ rows\<rparr>)\<rparr>)"

lemma AddDocuments_throws:
  assumes "AddDocuments st records db = (Inl e, db')"
  shows "same_tables db db'"
proof -
  have "same_tables db db1" if run: "AppendRows st records db = (r, db1)" for r db1
    using preservesD [OF preserves_AppendRows same_tables_refl run] .
  then show ?thesis using assms unfolding AddDocuments_def
    by (auto simp: commit_rows_def with_table_bind elim!: bindE_cases split: option.splits if_splits)
qed

lemma AddDocuments_returns:
  assumes "AddDocuments st records db = (Inr (docs, res), db')"
  obtains rows where "list_all2 given_id records docs" "list_all2 (row_of db st) docs rows" "added_rows st db rows db'"
    "res = \<lparr>affected_rows = int (length records), returned_ids = map doc_id docs, failed_documents = []\<rparr>"
proof -
  obtain a db1 where a: "AppendRows st records db = (Inr a, db1)" and c: "commit_rows st a db1 = (Inr (), db')"
    and r: "docs = docs_done a" "res = result_so_far a"
    using assms by (auto simp: AddDocuments_def elim!: bindE_InrE)
  from preservesD [OF preserves_AppendRows same_tables_refl a] obtain n where db1: "db1 = db\<lparr>uuid_count := n\<rparr>"
    by (auto simp: same_tables_def)
  obtain t where t: "doc_tables db (table_name (options st)) = Some t" "\<not> row_open a" "distinct (map row_id (table_rows t @ appended a))"
    "db' = db1\<lparr>doc_tables := (doc_tables db)(table_name (options st) \<mapsto> t\<lparr>table_rows := table_rows t @ appended a\<rparr>)\<rparr>"
    using c by (auto simp: commit_rows_def with_table_bind db1 split: option.splits if_splits)
  then have "appends db st records fresh_append a" using AppendRows_appends [OF a] by simp
  then have *: "list_all2 (row_of db st) docs (appended a)" "list_all2 given_id records docs"
    "res = no_result\<lparr>affected_rows := int (length docs), returned_ids := map doc_id docs\<rparr>"
    by (auto simp: appends_def fresh_append_def r no_result_def)
  have "added_rows st db (appended a) db'" unfolding added_rows_def using t db1 by (intro exI [of _ t] exI [of _ n]) simp
  with * show thesis using that [of "appended a"] by (auto simp: no_result_def dest: list_all2_lengthD)
qed



section \<open>What was added is read back\<close>

lemma mapR_list_all2: "list_all2 (\<lambda>x y. f x = Inr y) xs ys \<Longrightarrow> mapR f xs = Inr ys"
  by (induction rule: list_all2_induct) simp_all

lemma mapR_InrD: "mapR f xs = Inr ys \<Longrightarrow> list_all2 (\<lambda>x y. f x = Inr y) xs ys"
  by (induction xs arbitrary: ys) (auto simp: bindR_Inr_iff)

text \<open>The document that is found for one that was added: its id and text, and each column of the schema.\<close>

definition field_value :: "DocDB \<Rightarrow> Document \<Rightarrow> MetadataFieldSchema \<Rightarrow> PrimitiveVariable \<Rightarrow> bool" where
  "field_value db doc f m \<longleftrightarrow> pv_name m = fs_name f \<and> \<not> pv_is_null m \<and>
     (\<exists>v. last_field doc (fs_name f) = Some v \<and> convert db (fs_type f) (ValueCell (pv_value v)) = Some (pv_value m))"

definition reads_back :: "DocDB \<Rightarrow> MetadataSchema \<Rightarrow> Document \<Rightarrow> Document \<Rightarrow> bool" where
  "reads_back db schema doc found \<longleftrightarrow> doc_id found = doc_id doc \<and> doc_text found = doc_text doc \<and>
     list_all2 (field_value db doc) schema (metadata found)"

text \<open>Reading a value that was stored gives that value; no field is null and every column has a type.\<close>

definition faithful_columns :: "DocDB \<Rightarrow> MetadataSchema \<Rightarrow> bool" where
  "faithful_columns db schema \<longleftrightarrow> (\<forall>f \<in> set schema. fs_type f \<noteq> Unknown_type \<and>
     (\<forall>v x. convert db (fs_type f) (ValueCell v) = Some x \<longrightarrow> convert db (fs_type f) (ValueCell x) = Some x))"

definition no_nulls :: "Document \<Rightarrow> bool" where
  "no_nulls doc \<longleftrightarrow> list_all (\<lambda>m. \<not> pv_is_null m) (metadata doc)"

lemma last_field_set: "last_field doc n = Some v \<Longrightarrow> v \<in> set (metadata doc)"
proof -
  assume "last_field doc n = Some v"
  then have "v \<in> set (rev (metadata doc))" unfolding last_field_def find_Some_iff by (auto simp del: set_rev simp: in_set_conv_nth)
  then show "v \<in> set (metadata doc)" by simp
qed

lemma observe_row_cong:
  assumes "convert db' = convert db"
  shows "observe_row db' = observe_row db"
proof -
  have "read_field db' = read_field db" by (rule ext) (simp add: read_field_def assms)
  then show ?thesis by (intro ext) (simp only: observe_row_def)
qed

lemma read_appended_field:
  assumes "append_field db doc f = Inr c" and "faithful_columns db [f]" and "no_nulls doc"
  shows "\<exists>m. read_field db (f, c) = Inr m \<and> field_value db doc f m"
proof -
  obtain v where v: "last_field doc (fs_name f) = Some v" using assms(1) by (auto simp: append_field_def split: option.splits)
  then have "\<not> pv_is_null v" using last_field_set [OF v] assms(3) by (auto simp: no_nulls_def list_all_iff)
  then obtain x where x: "convert db (fs_type f) (ValueCell (pv_value v)) = Some x" "c = ValueCell x"
    using assms(1) v by (auto simp: append_field_def split: if_splits option.splits)
  then have "convert db (fs_type f) (ValueCell x) = Some x" "fs_type f \<noteq> Unknown_type"
    using assms(2) unfolding faithful_columns_def by auto
  then show ?thesis using x v by (simp add: read_field_def field_value_def)
qed

lemma read_appended_fields:
  assumes "list_all2 (\<lambda>f c. append_field db doc f = Inr c) schema cs" and "faithful_columns db schema" and "no_nulls doc"
  shows "\<exists>ms. mapR (read_field db) (zip schema cs) = Inr ms \<and> list_all2 (field_value db doc) schema ms"
  using assms(1,2)
proof (induction rule: list_all2_induct)
  case (Cons f fs c cs)
  have f: "faithful_columns db [f]" and fs: "faithful_columns db fs" using Cons.prems by (simp_all add: faithful_columns_def)
  obtain m where "read_field db (f, c) = Inr m" "field_value db doc f m"
    using read_appended_field [OF Cons.hyps(1) f assms(3)] by blast
  moreover obtain ms where "mapR (read_field db) (zip fs cs) = Inr ms" "list_all2 (field_value db doc) fs ms"
    using Cons.IH [OF fs] by blast
  ultimately show ?case by (intro exI [of _ "m # ms"]) simp
qed simp

lemma observe_added_row:
  assumes "row_of db st doc row" and "faithful_columns db (metadata_schema st)" and "no_nulls doc"
  shows "\<exists>found. observe_row db (metadata_schema st) row (row_fields row) = Inr found \<and> reads_back db (metadata_schema st) doc found"
proof -
  have "mapR (append_field db doc) (metadata_schema st) = Inr (row_fields row)"
    using assms(1) by (auto simp: row_of_def append_row_metadata_fields_def split: if_splits option.splits)
  from read_appended_fields [OF mapR_InrD [OF this] assms(2,3)]
  obtain ms where "mapR (read_field db) (zip (metadata_schema st) (row_fields row)) = Inr ms"
    "list_all2 (field_value db doc) (metadata_schema st) ms" by blast
  then show ?thesis using assms(1) by (simp add: observe_row_def reads_back_def row_of_def)
qed



definition demo_schema :: MetadataSchema where
  "demo_schema = [\<lparr>fs_name = METADATA_SCHEMA_PARENT_DOC_ID_KEY, fs_type = VARCHAR\<rparr>]"

definition demo_options :: "string \<Rightarrow> nat \<Rightarrow> DuckDBStoreOptions" where
  "demo_options name d = \<lparr>table_name = name, dimension = d, bypass_unknown_fields = True, create_or_replace_table = False,
     bypass_table_check = True, instance_id = name\<rparr>"

definition demo_doc_store :: DuckDBStore where
  "demo_doc_store = \<lparr>options = demo_options ''docs'' 0, metadata_schema = demo_schema, embeddings = None\<rparr>"

definition demo_vector_store :: DuckDBStore where
  "demo_vector_store = \<lparr>options = demo_options ''vs_1'' 1, metadata_schema = demo_schema,
     embeddings = Some \<lparr>EmbedDocuments = (\<lambda>ts. Inr (map (\<lambda>_. [1]) ts)), EmbedQuery = (\<lambda>_. Inr [1]), GetDimension = 1\<rparr>\<rparr>"

definition demo_db :: DocDB where
  "demo_db = \<lparr>instinct_vector_store_metadata = [],
     doc_tables = [''docs'' \<mapsto> \<lparr>table_schema = demo_schema, table_dimension = 0, table_rows = []\<rparr>,
       ''vs_1'' \<mapsto> \<lparr>table_schema = demo_schema, table_dimension = 1, table_rows = []\<rparr>],
     uuids = (\<lambda>n. ''u'' @ replicate n CHR ''-''), uuid_count = 0,
     convert = (\<lambda>_ c. case c of ValueCell v \<Rightarrow> Some v | _ \<Rightarrow> None), compare = (\<lambda>_ _ _. True), is_uuid = (\<lambda>_. True),
     similarity = (\<lambda>_ _. 0), tie_break = (\<lambda>_. 0), sort_rows = (\<lambda>_. id), fmt_double = (\<lambda>_. [])\<rparr>"

definition demo_document :: Document where
  "demo_document = \<lparr>doc_id = [], doc_text = ''hello'',
     metadata = [string_field METADATA_SCHEMA_PARENT_DOC_ID_KEY ''ROOT'', string_field METADATA_SCHEMA_FILE_SOURCE_KEY ''a.txt'']\<rparr>"

lemma demo_AddDocuments:
  "AddDocuments demo_doc_store [demo_document] demo_db =
     (Inr ([demo_document\<lparr>doc_id := ''u''\<rparr>], \<lparr>affected_rows = 1, returned_ids = [''u''], failed_documents = []\<rparr>),
      demo_db\<lparr>uuid_count := 1, doc_tables := (doc_tables demo_db)(''docs'' \<mapsto> \<lparr>table_schema = demo_schema, table_dimension = 0,
        table_rows = [\<lparr>row_id = ''u'', row_text = ''hello'', row_vector = [], row_fields = [ValueCell (StringValue ''ROOT'')]\<rparr>]\<rparr>)\<rparr>)"
  by (simp add: AddDocuments_def AppendRows_def demo_doc_store_def append_one_def append_row_basic_fields_def new_uuid_def append_row_def
      append_row_metadata_fields_def demo_schema_def demo_options_def missing_names_def demo_document_def demo_db_def append_field_def last_field_def
      string_field_def METADATA_SCHEMA_PARENT_DOC_ID_KEY_def METADATA_SCHEMA_FILE_SOURCE_KEY_def commit_rows_def with_table_def bindE_def no_result_def Let_def)



section \<open>Every chunk has its parent\<close>

text \<open>The parent id in the cells of a row, and the ids of a table.\<close>

definition parent_cell :: "MetadataSchema \<Rightarrow> DocRow \<Rightarrow> Cell option" where
  "parent_cell schema row = map_of (zip (map fs_name schema) (row_fields row)) METADATA_SCHEMA_PARENT_DOC_ID_KEY"

definition stored_ids :: "DuckDBStore \<Rightarrow> DocDB \<Rightarrow> string set" where
  "stored_ids st db = (case doc_tables db (table_name (options st)) of None \<Rightarrow> {} | Some t \<Rightarrow> row_id ` set (table_rows t))"

definition parents_stored :: "DuckDBStore \<Rightarrow> DuckDBStore \<Rightarrow> DocDB \<Rightarrow> bool" where
  "parents_stored ds vs db \<longleftrightarrow>
     (case doc_tables db (table_name (options vs)) of
        None \<Rightarrow> True
      | Some t \<Rightarrow> \<forall>row \<in> set (table_rows t). \<exists>i \<in> stored_ids ds db.
          parent_cell (metadata_schema vs) row = Some (ValueCell (StringValue i)))"

text \<open>The vector store has one column for the parent id, which keeps strings as they are.\<close>

definition has_parent_column :: "DuckDBStore \<Rightarrow> bool" where
  "has_parent_column vs \<longleftrightarrow> distinct (map fs_name (metadata_schema vs)) \<and>
     \<lparr>fs_name = METADATA_SCHEMA_PARENT_DOC_ID_KEY, fs_type = VARCHAR\<rparr> \<in> set (metadata_schema vs)"

definition keeps_strings :: "DocDB \<Rightarrow> bool" where
  "keeps_strings db \<longleftrightarrow> (\<forall>s. convert db VARCHAR (ValueCell (StringValue s)) = Some (StringValue s))"

definition chunks_ok :: "DuckDBStore \<Rightarrow> DuckDBStore \<Rightarrow> string set \<Rightarrow> DocDB \<Rightarrow> bool" where
  "chunks_ok ds vs parents db \<longleftrightarrow> parents_stored ds vs db \<and> keeps_strings db \<and> parents \<subseteq> stored_ids ds db"

definition child_of :: "string \<Rightarrow> Document \<Rightarrow> bool" where
  "child_of i doc \<longleftrightarrow>
     (\<exists>v. last_field doc METADATA_SCHEMA_PARENT_DOC_ID_KEY = Some v \<and> \<not> pv_is_null v \<and> pv_value v = StringValue i)"

lemma same_tables_chunks_ok: "same_tables db db' \<Longrightarrow> chunks_ok ds vs I db \<Longrightarrow> chunks_ok ds vs I db'"
proof -
  assume "same_tables db db'" and ok: "chunks_ok ds vs I db"
  then obtain n where n: "db' = db\<lparr>uuid_count := n\<rparr>" by (auto simp: same_tables_def)
  have ids: "stored_ids ds db' = stored_ids ds db" by (simp add: stored_ids_def n)
  show "chunks_ok ds vs I db'" using ok unfolding chunks_ok_def parents_stored_def keeps_strings_def ids by (simp add: n)
qed

lemma zip_map_of:
  assumes "list_all2 R xs ys" and "x \<in> set xs" and "distinct (map f xs)"
  shows "\<exists>y. map_of (zip (map f xs) ys) (f x) = Some y \<and> R x y"
  using assms by (induction rule: list_all2_induct) (auto simp: rev_image_eqI)

lemma child_parent_cell:
  assumes "has_parent_column vs" and "keeps_strings db" and "row_of db vs doc row" and "child_of i doc"
  shows "parent_cell (metadata_schema vs) row = Some (ValueCell (StringValue i))"
proof -
  let ?f = "\<lparr>fs_name = METADATA_SCHEMA_PARENT_DOC_ID_KEY, fs_type = VARCHAR\<rparr>"
  have "metadata_schema vs \<noteq> []" using assms(1) by (auto simp: has_parent_column_def)
  then have "mapR (append_field db doc) (metadata_schema vs) = Inr (row_fields row)"
    using assms(3) by (auto simp: row_of_def append_row_metadata_fields_def split: if_splits option.splits)
  from zip_map_of [OF mapR_InrD [OF this], of ?f fs_name] assms(1)
  obtain c where "map_of (zip (map fs_name (metadata_schema vs)) (row_fields row)) (fs_name ?f) = Some c" "append_field db doc ?f = Inr c"
    unfolding has_parent_column_def by blast
  moreover have "append_field db doc ?f = Inr (ValueCell (StringValue i))"
    using assms(2,4) by (auto simp: append_field_def child_of_def keeps_strings_def)
  ultimately show ?thesis by (simp add: parent_cell_def)
qed

lemma child_of_given_id: "given_id record doc \<Longrightarrow> child_of i record \<Longrightarrow> child_of i doc"
proof -
  assume "given_id record doc" and c: "child_of i record"
  then obtain d where "doc = record\<lparr>doc_id := d\<rparr>" by (auto simp: given_id_def)
  with c show "child_of i doc" by (simp add: child_of_def last_field_def)
qed

lemma added_children_ok:
  assumes "chunks_ok ds vs I db" and "has_parent_column vs" and "table_name (options ds) \<noteq> table_name (options vs)" and "i \<in> I"
    and "\<forall>d \<in> set subs. child_of i d"
  shows "chunks_ok ds vs I (snd (AddDocuments vs subs db))"
proof (cases "AddDocuments vs subs db")
  case (Pair r db')
  show ?thesis
  proof (cases r)
    case (Inl e)
    then show ?thesis using AddDocuments_throws Pair assms(1) same_tables_chunks_ok by fastforce
  next
    case (Inr x)
    obtain docs res where "x = (docs, res)" by force
    then obtain rows where rows: "list_all2 given_id subs docs" "list_all2 (row_of db vs) docs rows" "added_rows vs db rows db'"
      using AddDocuments_returns [of vs subs db docs res db'] Pair Inr by blast
    have docs: "\<forall>d \<in> set docs. child_of i d"
      using rows(1) assms(5) by (induction rule: list_all2_induct) (auto intro: child_of_given_id)
    have cells: "\<forall>row \<in> set rows. parent_cell (metadata_schema vs) row = Some (ValueCell (StringValue i))"
      using rows(2) docs
      by (induction rule: list_all2_induct) (use assms(1,2) child_parent_cell in \<open>auto simp: chunks_ok_def\<close>)
    obtain t n where t: "doc_tables db (table_name (options vs)) = Some t"
      "db' = db\<lparr>uuid_count := n, doc_tables := (doc_tables db)(table_name (options vs) \<mapsto> t\<lparr>table_rows := table_rows t @ rows\<rparr>)\<rparr>"
      using rows(3) by (auto simp: added_rows_def)
    have ids: "stored_ids ds db' = stored_ids ds db" using assms(3) by (simp add: stored_ids_def t(2))
    have i: "i \<in> stored_ids ds db" using assms(1,4) by (auto simp: chunks_ok_def)
    have "parents_stored ds vs db'"
      using assms(1) cells i unfolding chunks_ok_def parents_stored_def ids by (auto simp: t)
    then show ?thesis using assms(1) Pair ids by (simp add: chunks_ok_def keeps_strings_def t(2))
  qed
qed


lemma added_parents_ok:
  assumes "chunks_ok ds vs I db" and "table_name (options ds) \<noteq> table_name (options vs)"
  shows "chunks_ok ds vs I (snd (AddDocuments ds docs db))"
    and "AddDocuments ds docs db = (Inr (batch, res), db') \<Longrightarrow> chunks_ok ds vs (I \<union> doc_id ` set batch) db'"
proof -
  have returned: "chunks_ok ds vs (I \<union> doc_id ` set batch) db'" if run: "AddDocuments ds docs db = (Inr (batch, res), db')" for batch res db'
  proof -
    obtain rows where rows: "list_all2 (row_of db ds) batch rows" "added_rows ds db rows db'"
      using AddDocuments_returns [OF run] by blast
    then obtain t n where t: "doc_tables db (table_name (options ds)) = Some t"
      "db' = db\<lparr>uuid_count := n, doc_tables := (doc_tables db)(table_name (options ds) \<mapsto> t\<lparr>table_rows := table_rows t @ rows\<rparr>)\<rparr>"
      by (auto simp: added_rows_def)
    have "row_id ` set rows = doc_id ` set batch"
      using rows(1) by (induction rule: list_all2_induct) (auto simp: row_of_def)
    then have ids: "stored_ids ds db' = stored_ids ds db \<union> doc_id ` set batch" by (simp add: stored_ids_def t image_Un)
    have vs: "doc_tables db' (table_name (options vs)) = doc_tables db (table_name (options vs))" using assms(2) by (simp add: t(2))
    show ?thesis using assms(1) unfolding chunks_ok_def parents_stored_def keeps_strings_def ids vs
      by (auto simp: t(2) split: option.splits)
  qed
  then show "AddDocuments ds docs db = (Inr (batch, res), db') \<Longrightarrow> chunks_ok ds vs (I \<union> doc_id ` set batch) db'" .
  show "chunks_ok ds vs I (snd (AddDocuments ds docs db))"
  proof (cases "AddDocuments ds docs db")
    case (Pair r db')
    show ?thesis
    proof (cases r)
      case (Inl e)
      then show ?thesis using AddDocuments_throws [of ds docs db e db'] Pair assms(1) same_tables_chunks_ok by auto
    next
      case (Inr x)
      then have "chunks_ok ds vs (I \<union> doc_id ` set (fst x)) db'" using returned [of "fst x" "snd x" db'] Pair by simp
      then show ?thesis using Pair by (simp add: chunks_ok_def)
    qed
  qed
qed

lemma child_document_child_of: "child_document parent i t = Inr d \<Longrightarrow> child_of (doc_id parent) d"
  by (auto simp: child_document_def Let_def AddPresetMetadataFields_def child_of_def last_field_def string_field_def int_field_def
      METADATA_SCHEMA_PARENT_DOC_ID_KEY_def METADATA_SCHEMA_PAGE_NO_KEY_def METADATA_SCHEMA_FILE_SOURCE_KEY_def
      METADATA_SCHEMA_CHUNK_START_INDEX_KEY_def METADATA_SCHEMA_CHUNK_END_INDEX_KEY_def split: option.splits if_splits)

lemma SplitChildDoc_child_of: "SplitChildDoc sp parent = Inr subs \<Longrightarrow> \<forall>d \<in> set subs. child_of (doc_id parent) d"
proof -
  assume "SplitChildDoc sp parent = Inr subs"
  then obtain chunks where "mapR (\<lambda>(i, str). child_document parent i str) (enumerate 0 chunks) = Inr subs"
    by (auto simp: SplitChildDoc_def bindR_Inr_iff)
  from mapR_InrD [OF this] show ?thesis
    by (induction rule: list_all2_induct) (auto dest: child_document_child_of)
qed

lemma ingest_children_ok:
  assumes column: "has_parent_column vs" and names: "table_name (options ds) \<noteq> table_name (options vs)" and parent: "doc_id parent \<in> I"
  shows "preserves (chunks_ok ds vs I) (ingest_children (ChunkedMultiVectorRetriever ds vs sp) parent)"
proof (rule preservesI)
  fix db
  assume ok: "chunks_ok ds vs I db"
  show "chunks_ok ds vs I (snd (ingest_children (ChunkedMultiVectorRetriever ds vs sp) parent db))"
  proof (cases "SplitChildDoc sp parent")
    case (Inl e)
    then show ?thesis using ok by (simp add: ingest_children_def ChunkedMultiVectorRetriever_def)
  next
    case (Inr subs)
    have "snd (bindE (AddDocuments vs subs) (\<lambda>(_, res). assert_true (failed_documents res = []) m) db) = snd (AddDocuments vs subs db)" for m
      by (auto simp: bindE_def assert_true_def split: prod.split sum.split)
    then show ?thesis
      using Inr added_children_ok [OF ok column names parent SplitChildDoc_child_of [OF Inr]]
      by (simp add: ingest_children_def ChunkedMultiVectorRetriever_def)
  qed
qed

lemma ingest_batch_ok:
  assumes column: "has_parent_column vs" and names: "table_name (options ds) \<noteq> table_name (options vs)"
  shows "preserves (chunks_ok ds vs I) (ingest_batch (ChunkedMultiVectorRetriever ds vs sp) buf)"
proof (rule preservesI)
  fix db
  assume ok: "chunks_ok ds vs I db"
  have children: "preserves (chunks_ok ds vs (I \<union> doc_id ` set batch)) (forE (ingest_children (ChunkedMultiVectorRetriever ds vs sp)) part)"
    if part: "set part \<subseteq> set batch" for batch part
    using part by (induction part) (auto intro!: preserves_bind ingest_children_ok [OF column names] preserves_pure)
  show "chunks_ok ds vs I (snd (ingest_batch (ChunkedMultiVectorRetriever ds vs sp) buf db))"
  proof (cases "AddDocuments ds buf db")
    case (Pair r db1)
    show ?thesis
    proof (cases r)
      case (Inl e)
      then show ?thesis using added_parents_ok(1) [OF ok names, of buf] Pair
        by (simp add: ingest_batch_def ChunkedMultiVectorRetriever_def bindE_def)
    next
      case (Inr x)
      obtain batch res where x: "x = (batch, res)" by force
      have "chunks_ok ds vs (I \<union> doc_id ` set batch) db1" using added_parents_ok(2) [OF ok names] Pair Inr x by blast
      then have "chunks_ok ds vs (I \<union> doc_id ` set batch) (snd (forE (ingest_children (ChunkedMultiVectorRetriever ds vs sp)) batch db1))"
        using children [of batch batch] by (simp add: preserves_def)
      then show ?thesis using Pair Inr x
        by (simp add: ingest_batch_def ChunkedMultiVectorRetriever_def bindE_def chunks_ok_def)
    qed
  qed
qed

lemma MultiVector_Ingest_ok:
  assumes "has_parent_column vs" and "table_name (options ds) \<noteq> table_name (options vs)"
  shows "preserves (chunks_ok ds vs I) (MultiVector_Ingest (ChunkedMultiVectorRetriever ds vs sp) input)"
  unfolding MultiVector_Ingest_def by (auto intro!: eff_rules ingest_batch_ok [OF assms])



end
