(* ===== verification/Unigram_Tokenizer.thy ===== *)
theory Unigram_Tokenizer
  imports Str_Utils Complex_Main
begin

text \<open>
  \<^verbatim>\<open>instinct-transformer/include/tokenizer.hpp\<close> and the tokenizer of
  \<^verbatim>\<open>models/bge_m3.hpp\<close>: the vocabulary file, the preprocessors, the unigram tokenizer with
  its Viterbi search, and the processor that cuts a text at its added tokens.

  A \<open>std::string\<close> is its list of bytes. A buffer is its bytes; reading past its end is
  undefined behaviour. Scores are finite \<open>float\<close> values, taken as the rational numbers they are;
  their rounded addition, the least of them and the value of four bytes are arguments. A failed
  \<open>GGML_ASSERT\<close> aborts the process, here \<open>assert_failed\<close>.
\<close>

section \<open>Vocabulary\<close>

datatype token_type = UNDEFINED | NORMAL | UNKNOWN | CONTROL | USER_DEFINED | UNUSED | BYTE | other_type nat

definition token_type_of :: "nat \<Rightarrow> token_type" where
  "token_type_of b =
     (if b < 7 then [UNDEFINED, NORMAL, UNKNOWN, CONTROL, USER_DEFINED, UNUSED, BYTE] ! b else other_type b)"

definition utf8_len :: "char \<Rightarrow> nat" where
  "utf8_len src = [1, 1, 1, 1, 1, 1, 1, 1, 1, 1, 1, 1, 2, 2, 3, 4] ! (of_char src div 16)"

record token_score =
  tok :: string
  score :: rat
  tok_type :: token_type

record vocab =
  token_to_id :: "string \<rightharpoonup> int"
  id_to_token :: "token_score list"
  special_tokens_cache :: "int \<rightharpoonup> string"
  bpe_ranks :: "string \<times> string \<rightharpoonup> int"

definition find_bpe_rank :: "vocab \<Rightarrow> string \<Rightarrow> string \<Rightarrow> int" where
  "find_bpe_rank v token_left token_right = (case bpe_ranks v (token_left, token_right) of None \<Rightarrow> -1 | Some r \<Rightarrow> r)"

definition is_token_of_type :: "vocab \<Rightarrow> int \<Rightarrow> token_type \<Rightarrow> bool" where
  "is_token_of_type v i t =
     (if i < 0 \<or> i \<ge> int (length (id_to_token v)) then False else t = tok_type (id_to_token v ! nat i))"

definition is_normal_token :: "vocab \<Rightarrow> int \<Rightarrow> bool" where
  "is_normal_token v i = is_token_of_type v i NORMAL"

definition is_control_token :: "vocab \<Rightarrow> int \<Rightarrow> bool" where
  "is_control_token v i = is_token_of_type v i CONTROL"

section \<open>Reading the vocabulary\<close>

record Float_Ops =
  fadd :: "rat \<Rightarrow> rat \<Rightarrow> rat"
  flowest :: rat
  float_of_bytes :: "string \<Rightarrow> rat"

record Reader =
  reader_buffer :: string
  reader_offset :: nat

definition read_raw :: "nat \<Rightarrow> (Reader, string) eff" where
  "read_raw sz =
     bindE (getE (\<lambda>r. (take sz (drop (reader_offset r) (reader_buffer r)), reader_offset r + sz \<le> length (reader_buffer r)))) (\<lambda>(bytes, inside).
     if inside then bindE (modifyE (\<lambda>r. r\<lparr>reader_offset := reader_offset r + sz\<rparr>)) (\<lambda>_. ret bytes) else throw UndefinedBehaviour)"

text \<open>The first byte is the lowest.\<close>

fun unsigned_of_bytes :: "string \<Rightarrow> nat" where
  "unsigned_of_bytes [] = 0"
| "unsigned_of_bytes (c # cs) = of_char c + 256 * unsigned_of_bytes cs"

definition read_u32 :: "(Reader, nat) eff" where
  "read_u32 = bindE (read_raw 4) (\<lambda>b. ret (unsigned_of_bytes b))"

definition read_i32 :: "(Reader, int) eff" where
  "read_i32 = bindE (read_raw 4) (\<lambda>b. ret (signed_take_bit 31 (int (unsigned_of_bytes b))))"

definition read_string :: "nat \<Rightarrow> (Reader, string) eff" where
  "read_string len = read_raw len"

definition get_total_size :: "Reader \<Rightarrow> nat" where
  "get_total_size r = reader_offset r"

definition assert_failed :: exn where "assert_failed = RuntimeError ''GGML_ASSERT''"

text \<open>The rest of an entry after its length: the token, its score and its type.\<close>

definition read_entry :: "Float_Ops \<Rightarrow> bool \<Rightarrow> bool \<Rightarrow> nat \<Rightarrow> (Reader, token_score) eff" where
  "read_entry fl has_score has_type len =
     bindE (read_string len) (\<lambda>word.
     bindE (if has_score then bindE (read_raw 4) (\<lambda>b. ret (float_of_bytes fl b)) else ret 0) (\<lambda>sc.
     bindE (if has_type then bindE (read_raw 1) (\<lambda>b. ret (token_type_of (unsigned_of_bytes b))) else ret NORMAL) (\<lambda>ty.
     ret \<lparr>tok = word, score = sc, tok_type = ty\<rparr>)))"

definition store_entry :: "int \<Rightarrow> token_score \<Rightarrow> vocab \<Rightarrow> vocab" where
  "store_entry i e v =
     v\<lparr>token_to_id := (token_to_id v)(tok e \<mapsto> i), id_to_token := (id_to_token v)[nat i := e]\<rparr>"

lemma read_raw_Inr: "read_raw n r = (Inr b, r') \<Longrightarrow> r' = r\<lparr>reader_offset := reader_offset r + n\<rparr> \<and> reader_offset r + n \<le> length (reader_buffer r) \<and>
    b = take n (drop (reader_offset r) (reader_buffer r))"
  by (auto simp: read_raw_def split: if_splits)

lemma read_i32_Inr:
  "read_i32 r = (Inr n, r') \<Longrightarrow> r' = r\<lparr>reader_offset := reader_offset r + 4\<rparr> \<and> reader_offset r + 4 \<le> length (reader_buffer r)"
  by (auto simp: read_i32_def elim!: bindE_InrE dest!: read_raw_Inr)

lemma read_entry_Inr: "read_entry fl sc ty n r = (Inr x, r') \<Longrightarrow> reader_buffer r' = reader_buffer r \<and> reader_offset r \<le> reader_offset r'"
  by (auto simp: read_entry_def read_string_def elim!: bindE_InrE dest!: read_raw_Inr split: if_splits)

text \<open>A negative id becomes a huge one in the assertion.\<close>

function load_vocab_list :: "Float_Ops \<Rightarrow> bool \<Rightarrow> bool \<Rightarrow> int \<Rightarrow> nat \<Rightarrow> vocab \<Rightarrow> Reader \<Rightarrow> (vocab \<times> nat) result \<times> Reader" where
  "load_vocab_list fl has_score has_type start_piece_id count v r =
     (case read_i32 r of
        (Inl e, r1) \<Rightarrow> (Inl e, r1)
      | (Inr len, r1) \<Rightarrow>
          if len < 0 then (Inr (v, count), r1)
          else let i = start_piece_id + int count in
            if i < 0 \<or> i \<ge> int (length (id_to_token v)) then (Inl assert_failed, r1)
            else (case read_entry fl has_score has_type (nat len) r1 of
              (Inl e, r2) \<Rightarrow> (Inl e, r2)
            | (Inr entry, r2) \<Rightarrow> load_vocab_list fl has_score has_type start_piece_id (Suc count) (store_entry i entry v) r2))"
  by pat_completeness auto

termination
  by (relation "measure (\<lambda>(fl, sc, ty, s, n, v, r). length (reader_buffer r) - reader_offset r)")
    (auto dest!: read_i32_Inr [OF sym] read_entry_Inr [OF sym])

declare load_vocab_list.simps [simp del]


section \<open>Unigram tokenizer\<close>

text \<open>A symbol is the span of a character; the first one is empty. A step of the trace is a \<open>best\<close>.\<close>

record unigram =
  sym_start :: nat
  sym_end :: nat

record best =
  prev :: nat
  best_score :: rat
  tok_id :: int

record unigram_tokenizer =
  u_vocab :: vocab
  u_tok_max_len :: int
  u_unk_id :: int

lemma utf8_len_bounds: "1 \<le> utf8_len c" "utf8_len c \<le> 4"
proof -
  have "of_char c div (16 :: nat) < 16" using nat_of_char_less_256 [of c] by (simp add: less_mult_imp_div_less)
  then have "utf8_len c \<in> set [1, 1, 1, 1, 1, 1, 1, 1, 1, 1, 1, 1, 2, 2, 3, 4]"
    unfolding utf8_len_def by (intro nth_mem) simp
  then show "1 \<le> utf8_len c" "utf8_len c \<le> 4" by auto
qed

function symbol_spans :: "string \<Rightarrow> nat \<Rightarrow> unigram list" where
  "symbol_spans t offs =
     (if offs < length t
      then let char_len = min (length t - offs) (utf8_len (t ! offs)) in
        \<lparr>sym_start = offs, sym_end = offs + char_len\<rparr> # symbol_spans t (offs + char_len)
      else [])"
  by pat_completeness auto

termination
  using utf8_len_bounds(1)
  by (relation "measure (\<lambda>(t, offs). length t - offs)") (auto simp: min_def Suc_le_eq intro!: diff_less_mono2)

declare symbol_spans.simps [simp del]

definition symbols :: "string \<Rightarrow> unigram list" where
  "symbols t = \<lparr>sym_start = 0, sym_end = 0\<rparr> # symbol_spans t 0"

text \<open>The text from the end of symbol \<open>i\<close> to the end of symbol \<open>pos\<close>.\<close>

definition span_text :: "string \<Rightarrow> unigram list \<Rightarrow> nat \<Rightarrow> nat \<Rightarrow> string" where
  "span_text t syms i pos = take (sym_end (syms ! pos) - sym_end (syms ! i)) (drop (sym_end (syms ! i)) t)"

text \<open>The candidate that is kept: the highest score so far and where it came from.\<close>

definition try_token :: "Float_Ops \<Rightarrow> unigram_tokenizer \<Rightarrow> string \<Rightarrow> unigram list \<Rightarrow> best list \<Rightarrow> nat \<Rightarrow>
    rat \<times> (nat \<times> int) option \<Rightarrow> nat \<Rightarrow> rat \<times> (nat \<times> int) option" where
  "try_token fl u t syms trace pos c i =
     (case token_to_id (u_vocab u) (span_text t syms i pos) of
        None \<Rightarrow> c
      | Some k \<Rightarrow>
          let s = fadd fl (best_score (trace ! i)) (score (id_to_token (u_vocab u) ! nat k)) in
          if s > fst c then (s, Some (i, k)) else c)"

definition window_start :: "unigram_tokenizer \<Rightarrow> nat \<Rightarrow> nat" where
  "window_start u pos = nat (max 0 (int pos - u_tok_max_len u))"

definition find_best :: "Float_Ops \<Rightarrow> unigram_tokenizer \<Rightarrow> string \<Rightarrow> unigram list \<Rightarrow> best list \<Rightarrow> nat \<Rightarrow> best list result" where
  "find_best fl u t syms trace pos =
     (case foldl (try_token fl u t syms trace pos) (flowest fl, None) [window_start u pos ..< pos] of
        (s, Some (i, k)) \<Rightarrow> Inr (trace @ [\<lparr>prev = i, best_score = s, tok_id = k\<rparr>])
      | (s, None) \<Rightarrow>
          if u_unk_id u < 0 \<or> u_unk_id u \<ge> int (length (id_to_token (u_vocab u))) then Inl UndefinedBehaviour
          else Inr (trace @ [\<lparr>prev = pos - 1,
            best_score = fadd fl (best_score (trace ! (pos - 1))) (score (id_to_token (u_vocab u) ! nat (u_unk_id u))),
            tok_id = u_unk_id u\<rparr>]))"

fun find_all :: "Float_Ops \<Rightarrow> unigram_tokenizer \<Rightarrow> string \<Rightarrow> unigram list \<Rightarrow> best list \<Rightarrow> nat list \<Rightarrow> best list result" where
  "find_all fl u t syms trace [] = Inr trace"
| "find_all fl u t syms trace (pos # ps) =
     bindR (find_best fl u t syms trace pos) (\<lambda>trace. find_all fl u t syms trace ps)"

text \<open>From the last step to the first; \<open>temp\<close> is reversed as it is built.\<close>

partial_function (option) backtrace :: "best list \<Rightarrow> nat \<Rightarrow> int list \<Rightarrow> int list option" where
  "backtrace trace p out = (if p = 0 then Some out else backtrace trace (prev (trace ! p)) (tok_id (trace ! p) # out))"

definition tokenize :: "Float_Ops \<Rightarrow> unigram_tokenizer \<Rightarrow> string \<Rightarrow> int list result option" where
  "tokenize fl u t =
     (let syms = symbols t in
      if length syms \<le> 1 then Some (Inr [])
      else case find_all fl u t syms [\<lparr>prev = 0, best_score = 0, tok_id = 0\<rparr>] [1 ..< length syms] of
        Inl e \<Rightarrow> Some (Inl e)
      | Inr trace \<Rightarrow> map_option Inr (backtrace trace (length trace - 1) []))"

section \<open>Processor\<close>

record TokenId =
  added_token :: string
  added_id :: int

record Processor =
  p_vocab :: vocab
  piece_size :: nat
  id_unk_token :: int
  token_unk_id :: string
  pp :: "(string \<Rightarrow> string) list"
  token_override :: "int \<rightharpoonup> string"
  added_tokens :: "TokenId list"
  unk_tok_id :: int
  tok_max_len :: nat

definition UnigramProcessor :: "int \<Rightarrow> Processor" where
  "UnigramProcessor unk_id =
     \<lparr>p_vocab = \<lparr>token_to_id = Map.empty, id_to_token = [], special_tokens_cache = Map.empty, bpe_ranks = Map.empty\<rparr>,
      piece_size = 0, id_unk_token = -1, token_unk_id = ''<?>'', pp = [], token_override = Map.empty, added_tokens = [],
      unk_tok_id = unk_id, tok_max_len = 0\<rparr>"

definition resize_tokens :: "nat \<Rightarrow> token_score list \<Rightarrow> token_score list" where
  "resize_tokens n xs = take n xs @ replicate (n - length xs) \<lparr>tok = [], score = 0, tok_type = UNDEFINED\<rparr>"

definition UnigramProcessor_Load :: "Float_Ops \<Rightarrow> Processor \<Rightarrow> string \<Rightarrow> nat \<Rightarrow> (Processor \<times> nat) result" where
  "UnigramProcessor_Load fl p bytes n_vocab =
     (let v = p_vocab p in
      case load_vocab_list fl True False 0 0
          (v\<lparr>token_to_id := Map.empty, id_to_token := resize_tokens (n_vocab + 100) (id_to_token v)\<rparr>)
          \<lparr>reader_buffer = bytes, reader_offset = 0\<rparr> of
        (Inl e, r) \<Rightarrow> Inl e
      | (Inr (v', n), r) \<Rightarrow>
          let toks = resize_tokens n (id_to_token v') in
          Inr (p\<lparr>p_vocab := v'\<lparr>id_to_token := toks\<rparr>, piece_size := n,
                 tok_max_len := foldl (\<lambda>m x. if length (tok x) > m then length (tok x) else m) (tok_max_len p) toks\<rparr>,
               get_total_size r))"

definition UnigramProcessor_DoEncode :: "Float_Ops \<Rightarrow> Processor \<Rightarrow> string \<Rightarrow> int list result option" where
  "UnigramProcessor_DoEncode fl p input =
     tokenize fl \<lparr>u_vocab = p_vocab p, u_tok_max_len = int (tok_max_len p), u_unk_id = unk_tok_id p\<rparr> input"

definition PieceToId :: "Processor \<Rightarrow> string \<Rightarrow> int" where
  "PieceToId p piece = (case token_to_id (p_vocab p) piece of Some i \<Rightarrow> i | None \<Rightarrow> id_unk_token p)"

definition IdToPiece :: "Processor \<Rightarrow> int \<Rightarrow> string" where
  "IdToPiece p i =
     (case token_override p i of
        Some s \<Rightarrow> s
      | None \<Rightarrow>
          if i < 0 then token_unk_id p
          else if i < int (length (id_to_token (p_vocab p))) then tok (id_to_token (p_vocab p) ! nat i) else token_unk_id p)"

text \<open>\<open>emplace\<close> keeps an entry that is there.\<close>

definition OverrideTokenDecoding :: "int \<Rightarrow> string \<Rightarrow> Processor \<Rightarrow> Processor" where
  "OverrideTokenDecoding i s p =
     (if token_override p i = None then p\<lparr>token_override := (token_override p)(i \<mapsto> s)\<rparr> else p)"

definition AddAddedToken :: "string \<Rightarrow> int \<Rightarrow> Processor \<Rightarrow> Processor" where
  "AddAddedToken s i p = p\<lparr>added_tokens := added_tokens p @ [\<lparr>added_token = s, added_id = i\<rparr>]\<rparr>"

definition RegisterPreprocessor :: "(string \<Rightarrow> string) \<Rightarrow> Processor \<Rightarrow> Processor" where
  "RegisterPreprocessor f p = p\<lparr>pp := pp p @ [f]\<rparr>"

text \<open>The added token that starts first; of several, the first in the list.\<close>

definition earlier_token :: "string \<Rightarrow> (nat \<times> TokenId) option \<Rightarrow> TokenId \<Rightarrow> (nat \<times> TokenId) option" where
  "earlier_token s found t =
     (let pos = find_pos (added_token t) s 0 in
      if pos \<noteq> -1 \<and> (case found of None \<Rightarrow> True | Some (q, _) \<Rightarrow> nat pos < q) then Some (nat pos, t) else found)"

definition next_added :: "TokenId list \<Rightarrow> string \<Rightarrow> (nat \<times> TokenId) option" where
  "next_added added s = foldl (earlier_token s) None added"

text \<open>\<open>None\<close>: the loop does not end.\<close>

partial_function (option) Encode_loop :: "TokenId list \<Rightarrow> (string \<Rightarrow> int list result option) \<Rightarrow> string \<Rightarrow> int list \<Rightarrow> int list result option" where
  "Encode_loop added DoEncode s ids =
     (case next_added added s of
        None \<Rightarrow> (case DoEncode s of None \<Rightarrow> None | Some r \<Rightarrow> Some (bindR r (\<lambda>part. Inr (ids @ part))))
      | Some (pos, t) \<Rightarrow>
          (case DoEncode (take pos s) of
             None \<Rightarrow> None
           | Some (Inl e) \<Rightarrow> Some (Inl e)
           | Some (Inr part) \<Rightarrow> Encode_loop added DoEncode (drop (pos + length (added_token t)) s) (ids @ part @ [added_id t])))"

definition Processor_Encode :: "Processor \<Rightarrow> (string \<Rightarrow> int list result option) \<Rightarrow> string \<Rightarrow> int list \<Rightarrow> int list result option" where
  "Processor_Encode p DoEncode input ids = Encode_loop (added_tokens p) DoEncode (foldl (\<lambda>s f. f s) input (pp p)) ids"

definition Processor_Encode_pieces :: "Processor \<Rightarrow> (string \<Rightarrow> int list result option) \<Rightarrow> string \<Rightarrow> string list \<Rightarrow> string list result option" where
  "Processor_Encode_pieces p DoEncode input pieces =
     map_option (\<lambda>r. bindR r (\<lambda>ids. Inr (pieces @ map (IdToPiece p) ids))) (Processor_Encode p DoEncode input [])"

definition Processor_Decode :: "Processor \<Rightarrow> int list \<Rightarrow> string" where
  "Processor_Decode p ids = concat (map (IdToPiece p) ids)"

section \<open>Preprocessors\<close>

definition is_newline :: "char \<Rightarrow> bool" where
  "is_newline c \<longleftrightarrow> c = CHR 0x0D \<or> c = CHR 0x0A"

text \<open>Each run of carriage returns and line feeds becomes one space.\<close>

function TextPrepNewlineToSpaces :: "string \<Rightarrow> string" where
  "TextPrepNewlineToSpaces [] = []"
| "TextPrepNewlineToSpaces (c # cs) =
     (if is_newline c then CHR '' '' # TextPrepNewlineToSpaces (dropWhile is_newline cs) else c # TextPrepNewlineToSpaces cs)"
  by pat_completeness auto
termination by (relation "measure length") (simp_all add: le_imp_less_Suc length_dropWhile_le)

text \<open>Each run of two or more spaces becomes one.\<close>

function TextPrepDeleteMultiSpaces :: "string \<Rightarrow> string" where
  "TextPrepDeleteMultiSpaces [] = []"
| "TextPrepDeleteMultiSpaces (c # cs) =
     (if c = CHR '' '' then CHR '' '' # TextPrepDeleteMultiSpaces (dropWhile (\<lambda>x. x = CHR '' '') cs)
      else c # TextPrepDeleteMultiSpaces cs)"
  by pat_completeness auto
termination by (relation "measure length") (simp_all add: le_imp_less_Suc length_dropWhile_le)

definition TextPrepAddLeadingSpace :: "string \<Rightarrow> string" where
  "TextPrepAddLeadingSpace s =
     (if length s < 1 then '' '' else if s ! 0 = CHR '' '' then s else '' '' @ s)"

section \<open>Tokenizers\<close>

record BaseTokenizer =
  bos_token_id :: int
  eos_token_id :: int
  pad_token_id :: int
  sep_token_id :: int
  max_length :: int
  terminate_ids :: "int set"
  tp :: Processor

definition BaseTokenizer_encode :: "BaseTokenizer \<Rightarrow> (string \<Rightarrow> int list result option) \<Rightarrow> string \<Rightarrow> int list \<Rightarrow> int list result option" where
  "BaseTokenizer_encode b DoEncode t ids = Processor_Encode (tp b) DoEncode t ids"

definition encode_qa :: "BaseTokenizer \<Rightarrow> (string \<Rightarrow> int list result option) \<Rightarrow> string \<Rightarrow> string \<Rightarrow> int list \<Rightarrow> int list result option" where
  "encode_qa b DoEncode q a ids =
     (case Processor_Encode (tp b) DoEncode q ids of
        None \<Rightarrow> None
      | Some (Inl e) \<Rightarrow> Some (Inl e)
      | Some (Inr ids) \<Rightarrow> Processor_Encode (tp b) DoEncode a ids)"

definition is_special_id :: "int \<Rightarrow> bool" where "is_special_id i = False"

definition BaseTokenizer_decode :: "BaseTokenizer \<Rightarrow> int list \<Rightarrow> string" where
  "BaseTokenizer_decode b ids = Processor_Decode (tp b) (filter (\<lambda>i. \<not> is_special_id i) ids)"

definition is_terminate_token_id :: "BaseTokenizer \<Rightarrow> int \<Rightarrow> bool" where
  "is_terminate_token_id b i = (if terminate_ids b = {} then i = eos_token_id b else i \<in> terminate_ids b)"

definition BGE_load :: "Float_Ops \<Rightarrow> BaseTokenizer \<Rightarrow> string \<Rightarrow> nat \<Rightarrow> (BaseTokenizer \<times> nat) result" where
  "BGE_load fl b bytes n_vocab =
     bindR (UnigramProcessor_Load fl (RegisterPreprocessor TextPrepAddLeadingSpace (RegisterPreprocessor TextPrepDeleteMultiSpaces
       (RegisterPreprocessor TextPrepNewlineToSpaces (UnigramProcessor (eos_token_id b + 1))))) bytes n_vocab) (\<lambda>(p, n).
     Inr (b\<lparr>tp := p\<rparr>, n))"

definition BGE_encode_with :: "BaseTokenizer \<Rightarrow> (string \<Rightarrow> int list result option) \<Rightarrow> string \<Rightarrow> int list \<Rightarrow> bool \<Rightarrow> bool \<Rightarrow> int \<Rightarrow>
    int list result option" where
  "BGE_encode_with b DoEncode t ids add_bos add_eos limit =
     (let l1 = (if add_bos then limit - 1 else limit);
          l2 = (if add_eos then l1 - 1 else l1);
          ids = (if add_bos then ids @ [bos_token_id b] else ids);
          start = length ids in
      map_option (\<lambda>r. bindR r (\<lambda>ids.
        let n = length ids - start;
            ids = (if l2 > 0 \<and> int n > l2 then take (start + nat l2) ids else ids) in
        Inr (if add_eos then ids @ [eos_token_id b] else ids)))
      (BaseTokenizer_encode b DoEncode t ids))"

text \<open>The embedding of positions starts at 2.\<close>

definition BGE_encode :: "BaseTokenizer \<Rightarrow> (string \<Rightarrow> int list result option) \<Rightarrow> string \<Rightarrow> int list \<Rightarrow> int list result option" where
  "BGE_encode b DoEncode t ids = BGE_encode_with b DoEncode t ids True True (max_length b - 2)"

end
