(* ===== verification/Unigram_Correct.thy ===== *)
theory Unigram_Correct
  imports Unigram_Tokenizer "HOL-Library.Sublist"
begin

text \<open>
  The unigram tokenizer finds a segmentation of greatest score, the processor gives back the text it
  was given, a vocabulary file is read back as it was written, and the tokenizer of the reranker
  respects its length limit.
\<close>

section \<open>Symbols\<close>

lemma symbol_spans_ends:
  assumes "offs \<le> length t"
  shows "(\<forall>x \<in> set (symbol_spans t offs). offs < sym_end x \<and> sym_end x \<le> length t) \<and>
    sorted_wrt (<) (map sym_end (symbol_spans t offs)) \<and>
    (offs < length t \<longrightarrow> symbol_spans t offs \<noteq> [] \<and> sym_end (last (symbol_spans t offs)) = length t)"
  using assms
proof (induction t offs rule: symbol_spans.induct)
  case (1 t offs)
  show ?case
  proof (cases "offs < length t")
    case False
    then show ?thesis by (subst (1 2 3 4) symbol_spans.simps) simp
  next
    case True
    let ?n = "min (length t - offs) (utf8_len (t ! offs))"
    have n: "1 \<le> ?n" "offs + ?n \<le> length t" using True utf8_len_bounds(1) [of "t ! offs"] by auto
    have eq: "symbol_spans t offs = \<lparr>sym_start = offs, sym_end = offs + ?n\<rparr> # symbol_spans t (offs + ?n)"
      using True by (subst symbol_spans.simps) (simp add: Let_def)
    have IH: "(\<forall>x \<in> set (symbol_spans t (offs + ?n)). offs + ?n < sym_end x \<and> sym_end x \<le> length t) \<and>
        sorted_wrt (<) (map sym_end (symbol_spans t (offs + ?n))) \<and>
        (offs + ?n < length t \<longrightarrow> symbol_spans t (offs + ?n) \<noteq> [] \<and> sym_end (last (symbol_spans t (offs + ?n))) = length t)"
      using 1(1) [OF True refl] n(2) by simp
    show ?thesis
    proof (cases "offs + ?n < length t")
      case True
      then show ?thesis unfolding eq using IH n by fastforce
    next
      case False
      then have "symbol_spans t (offs + ?n) = []" by (subst symbol_spans.simps) simp
      then show ?thesis unfolding eq using n False by simp
    qed
  qed
qed

lemma symbols_ends:
  "sym_end (symbols t ! 0) = 0" "sym_end (last (symbols t)) = length t" "sorted_wrt (<) (map sym_end (symbols t))"
  using symbol_spans_ends [of 0 t] by (auto simp: symbols_def symbol_spans.simps)

lemma symbols_mono:
  assumes "i < j" and "j < length (symbols t)"
  shows "sym_end (symbols t ! i) < sym_end (symbols t ! j)" "sym_end (symbols t ! j) \<le> length t"
proof -
  show less: "sym_end (symbols t ! i) < sym_end (symbols t ! j)"
    using symbols_ends(3) [of t] assms by (simp add: sorted_wrt_iff_nth_less)
  have "symbols t ! j \<in> set (symbol_spans t 0)" using assms by (cases j) (auto simp: symbols_def)
  then show "sym_end (symbols t ! j) \<le> length t" using symbol_spans_ends [of 0 t] by auto
qed

lemma symbols_length: "length (symbols t) \<le> 1 \<longleftrightarrow> t = []"
  using symbol_spans_ends [of 0 t] by (cases t) (auto simp: symbols_def symbol_spans.simps)

section \<open>Segmentations and their scores\<close>

text \<open>
  A step ends at \<open>pos\<close> with a token of the window, or with the unknown token and one character when
  the window has none. Scores are added from left to right, as the code adds them.
\<close>

definition token_step :: "unigram_tokenizer \<Rightarrow> string \<Rightarrow> unigram list \<Rightarrow> nat \<Rightarrow> nat \<Rightarrow> int \<Rightarrow> bool" where
  "token_step u t syms i pos k \<longleftrightarrow>
     window_start u pos \<le> i \<and> i < pos \<and> token_to_id (u_vocab u) (span_text t syms i pos) = Some k"

definition step :: "unigram_tokenizer \<Rightarrow> string \<Rightarrow> unigram list \<Rightarrow> nat \<Rightarrow> nat \<Rightarrow> int \<Rightarrow> bool" where
  "step u t syms i pos k \<longleftrightarrow>
     token_step u t syms i pos k \<or> ((\<nexists>i k. token_step u t syms i pos k) \<and> Suc i = pos \<and> k = u_unk_id u)"

definition token_value :: "unigram_tokenizer \<Rightarrow> int \<Rightarrow> rat" where
  "token_value u k = score (id_to_token (u_vocab u) ! nat k)"

inductive segmentation :: "Float_Ops \<Rightarrow> unigram_tokenizer \<Rightarrow> string \<Rightarrow> unigram list \<Rightarrow> nat \<Rightarrow> int list \<Rightarrow> rat \<Rightarrow> bool"
  for fl u t syms where
  seg_start: "segmentation fl u t syms 0 [] 0"
| seg_step: "segmentation fl u t syms i ids s \<Longrightarrow> step u t syms i pos k \<Longrightarrow> pos < length syms \<Longrightarrow>
    segmentation fl u t syms pos (ids @ [k]) (fadd fl s (token_value u k))"

text \<open>Rounded addition keeps the order, and no score reaches the value the search starts from.\<close>

definition float_ok :: "Float_Ops \<Rightarrow> unigram_tokenizer \<Rightarrow> string \<Rightarrow> bool" where
  "float_ok fl u t \<longleftrightarrow> (\<forall>a b c. a \<le> b \<longrightarrow> fadd fl a c \<le> fadd fl b c) \<and>
     (\<forall>pos ids s. segmentation fl u t (symbols t) pos ids s \<and> 0 < pos \<longrightarrow> flowest fl < s)"

section \<open>The search\<close>

lemma try_tokens:
  assumes "foldl (try_token fl u t syms trace pos) (s0, r0) is = (s, r)"
  shows "s0 \<le> s \<and> (\<forall>i \<in> set is. \<forall>k. token_to_id (u_vocab u) (span_text t syms i pos) = Some k \<longrightarrow>
      fadd fl (best_score (trace ! i)) (token_value u k) \<le> s) \<and>
    ((s, r) = (s0, r0) \<or> (\<exists>i k. r = Some (i, k) \<and> i \<in> set is \<and> token_to_id (u_vocab u) (span_text t syms i pos) = Some k \<and>
      s = fadd fl (best_score (trace ! i)) (token_value u k)))"
  using assms
proof (induction "is" arbitrary: s0 r0)
  case Nil
  then show ?case by simp
next
  case (Cons j js)
  obtain s1 r1 where 1: "try_token fl u t syms trace pos (s0, r0) j = (s1, r1)" by force
  have first: "s0 \<le> s1 \<and> (\<forall>k. token_to_id (u_vocab u) (span_text t syms j pos) = Some k \<longrightarrow>
      fadd fl (best_score (trace ! j)) (token_value u k) \<le> s1) \<and>
    ((s1, r1) = (s0, r0) \<or> (\<exists>k. r1 = Some (j, k) \<and> token_to_id (u_vocab u) (span_text t syms j pos) = Some k \<and>
      s1 = fadd fl (best_score (trace ! j)) (token_value u k)))"
    using 1 by (auto simp: try_token_def token_value_def Let_def split: option.splits if_splits)
  have "foldl (try_token fl u t syms trace pos) (s1, r1) js = (s, r)" using Cons.prems 1 by simp
  from Cons.IH [OF this] first show ?case
    by (elim conjE disjE exE) (auto intro: order_trans)
qed

definition best_step :: "Float_Ops \<Rightarrow> unigram_tokenizer \<Rightarrow> string \<Rightarrow> unigram list \<Rightarrow> best list \<Rightarrow> nat \<Rightarrow> best \<Rightarrow> bool" where
  "best_step fl u t syms trace pos b \<longleftrightarrow>
     step u t syms (prev b) pos (tok_id b) \<and> best_score b = fadd fl (best_score (trace ! prev b)) (token_value u (tok_id b)) \<and>
     (\<forall>i k. step u t syms i pos k \<longrightarrow> fadd fl (best_score (trace ! i)) (token_value u k) \<le> best_score b)"

definition unk_ok :: "unigram_tokenizer \<Rightarrow> bool" where
  "unk_ok u \<longleftrightarrow> 0 \<le> u_unk_id u \<and> u_unk_id u < int (length (id_to_token (u_vocab u)))"

text \<open>Steps look back only, so a longer trace keeps them.\<close>

lemma step_less: "step u t syms i pos k \<Longrightarrow> i < pos"
  by (auto simp: step_def token_step_def)

definition trace_ok :: "Float_Ops \<Rightarrow> unigram_tokenizer \<Rightarrow> string \<Rightarrow> unigram list \<Rightarrow> best list \<Rightarrow> bool" where
  "trace_ok fl u t syms trace \<longleftrightarrow> trace \<noteq> [] \<and> best_score (trace ! 0) = 0 \<and>
     (\<forall>pos. 0 < pos \<and> pos < length trace \<longrightarrow> best_step fl u t syms trace pos (trace ! pos))"

lemma backtrace_segmentation:
  assumes "trace_ok fl u t syms trace" and "length trace \<le> length syms" and "p < length trace"
  shows "\<exists>ids. backtrace trace p out = Some (ids @ out) \<and> segmentation fl u t syms p ids (best_score (trace ! p))"
  using assms(3)
proof (induction p arbitrary: out rule: less_induct)
  case (less p)
  show ?case
  proof (cases "p = 0")
    case True
    then show ?thesis using assms(1) by (subst backtrace.simps) (auto simp: trace_ok_def intro: seg_start)
  next
    case False
    then have b: "best_step fl u t syms trace p (trace ! p)" using assms(1) less.prems by (simp add: trace_ok_def)
    then have s: "step u t syms (prev (trace ! p)) p (tok_id (trace ! p))"
      "best_score (trace ! p) = fadd fl (best_score (trace ! prev (trace ! p))) (token_value u (tok_id (trace ! p)))"
      by (simp_all add: best_step_def)
    from step_less [OF s(1)] less.prems obtain ids where
      "backtrace trace (prev (trace ! p)) (tok_id (trace ! p) # out) = Some (ids @ tok_id (trace ! p) # out)"
      "segmentation fl u t syms (prev (trace ! p)) ids (best_score (trace ! prev (trace ! p)))"
      using less.IH [of "prev (trace ! p)" "tok_id (trace ! p) # out"] by auto
    moreover from seg_step [OF this(2) s(1)] less.prems assms(2)
    have "segmentation fl u t syms p (ids @ [tok_id (trace ! p)]) (best_score (trace ! p))" using s(2) by simp
    ultimately show ?thesis using False by (subst backtrace.simps) (auto intro: exI [of _ "ids @ [tok_id (trace ! p)]"])
  qed
qed

lemma find_best_step:
  assumes "float_ok fl u t" and "trace_ok fl u t syms trace" and "pos = length trace" and "pos < length syms" and "syms = symbols t"
    and "unk_ok u \<or> (\<exists>i k. token_step u t syms i pos k)"
  shows "\<exists>b. find_best fl u t syms trace pos = Inr (trace @ [b]) \<and> best_step fl u t syms trace pos b"
proof -
  obtain s r where sr: "foldl (try_token fl u t syms trace pos) (flowest fl, None) [window_start u pos ..< pos] = (s, r)" by force
  note c = try_tokens [OF sr]
  have steps: "fadd fl (best_score (trace ! i)) (token_value u k) \<le> s" if "token_step u t syms i pos k" for i k
    using c that by (auto simp: token_step_def)
  show ?thesis
  proof (cases r)
    case (Some p)
    then obtain i k where p: "r = Some (i, k)" "token_step u t syms i pos k" "s = fadd fl (best_score (trace ! i)) (token_value u k)"
      using c by (auto simp: token_step_def)
    then have "best_step fl u t syms trace pos \<lparr>prev = i, best_score = s, tok_id = k\<rparr>"
      using steps by (auto simp: best_step_def step_def)
    then show ?thesis using sr p(1) by (simp add: find_best_def)
  next
    case None
    then have "s = flowest fl" using c by auto
    have none: "\<not> token_step u t syms i pos k" for i k
    proof
      assume k: "token_step u t syms i pos k"
      then have "i < length trace" using assms(3) by (simp add: token_step_def)
      then obtain ids where "segmentation fl u t syms i ids (best_score (trace ! i))"
        using backtrace_segmentation [OF assms(2), of i "[]"] assms(3,4) by auto
      from seg_step [OF this _ assms(4)] k have "segmentation fl u t syms pos (ids @ [k]) (fadd fl (best_score (trace ! i)) (token_value u k))"
        by (simp add: step_def)
      moreover have "0 < pos" using k by (simp add: token_step_def)
      ultimately have "flowest fl < fadd fl (best_score (trace ! i)) (token_value u k)"
        using assms(1) unfolding float_ok_def assms(5) [symmetric] by blast
      then show False using steps [OF k] \<open>s = flowest fl\<close> by simp
    qed
    then have "unk_ok u" using assms(6) by blast
    moreover have "best_step fl u t syms trace pos \<lparr>prev = pos - 1,
        best_score = fadd fl (best_score (trace ! (pos - 1))) (token_value u (u_unk_id u)), tok_id = u_unk_id u\<rparr>"
    proof -
      have pos: "0 < pos" using assms(2,3) by (simp add: trace_ok_def)
      have "step u t syms i pos k \<longleftrightarrow> i = pos - 1 \<and> k = u_unk_id u" for i k using none pos by (auto simp: step_def)
      then show ?thesis by (simp add: best_step_def)
    qed
    ultimately show ?thesis using sr None by (auto simp: find_best_def unk_ok_def token_value_def)
  qed
qed

lemma best_step_append:
  assumes "best_step fl u t syms trace pos b" and "pos \<le> length trace"
  shows "best_step fl u t syms (trace @ rest) pos b"
  using assms step_less [of u t syms _ pos] by (fastforce simp: best_step_def nth_append)

lemma find_all_ok:
  assumes "float_ok fl u t" and "trace_ok fl u t syms trace" and "syms = symbols t" and "n \<le> length syms"
    and "\<And>pos. length trace \<le> pos \<Longrightarrow> pos < n \<Longrightarrow> unk_ok u \<or> (\<exists>i k. token_step u t syms i pos k)" and "length trace \<le> n"
  shows "\<exists>trace'. find_all fl u t syms trace [length trace ..< n] = Inr trace' \<and> trace_ok fl u t syms trace' \<and> length trace' = n"
  using assms(2,5,6)
proof (induction "n - length trace" arbitrary: trace)
  case 0
  then show ?case by simp
next
  case (Suc m)
  then have less: "length trace < n" by simp
  have "length trace > 0" using Suc.prems(1) by (simp add: trace_ok_def)
  then obtain b where b: "find_best fl u t syms trace (length trace) = Inr (trace @ [b])"
    "best_step fl u t syms trace (length trace) b"
    using find_best_step [OF assms(1) Suc.prems(1) refl _ assms(3)] Suc.prems(2) less assms(4) by fastforce
  have "best_step fl u t syms (trace @ [b]) pos ((trace @ [b]) ! pos)" if "0 < pos" "pos < length (trace @ [b])" for pos
  proof (cases "pos = length trace")
    case True
    then show ?thesis using best_step_append [OF b(2)] by simp
  next
    case False
    then have "pos < length trace" using that by simp
    then show ?thesis using best_step_append [of fl u t syms trace pos "trace ! pos" "[b]"] that Suc.prems(1)
      by (simp add: trace_ok_def nth_append)
  qed
  then have "trace_ok fl u t syms (trace @ [b])" using Suc.prems(1) by (simp add: trace_ok_def nth_append)
  from Suc.hyps(1) [of "trace @ [b]", OF _ this] Suc.hyps(2) Suc.prems(2) less
  show ?case by (simp add: upt_conv_Cons [OF less] b(1))
qed


lemma trace_optimal:
  assumes "segmentation fl u t syms p ids s" and "float_ok fl u t" and "trace_ok fl u t syms trace" and "p < length trace"
  shows "s \<le> best_score (trace ! p)"
  using assms(1,4)
proof (induction rule: segmentation.induct)
  case seg_start
  then show ?case using assms(3) by (simp add: trace_ok_def)
next
  case (seg_step i ids s pos k)
  have i: "i < pos" by (rule step_less [OF seg_step.hyps(2)])
  then have "fadd fl s (token_value u k) \<le> fadd fl (best_score (trace ! i)) (token_value u k)"
    using seg_step.IH seg_step.prems assms(2) by (simp add: float_ok_def)
  also have "\<dots> \<le> best_score (trace ! pos)"
  proof -
    have "best_step fl u t syms trace pos (trace ! pos)" using assms(3) seg_step.prems i by (simp add: trace_ok_def)
    then show ?thesis using seg_step.hyps(2) unfolding best_step_def by blast
  qed
  finally show ?case .
qed

text \<open>Every position can be reached: the unknown token is there, or some token ends at each character.\<close>

definition reachable :: "unigram_tokenizer \<Rightarrow> string \<Rightarrow> bool" where
  "reachable u t \<longleftrightarrow> unk_ok u \<or> (\<forall>pos. 0 < pos \<and> pos < length (symbols t) \<longrightarrow> (\<exists>i k. token_step u t (symbols t) i pos k))"

lemma tokenize_trace:
  assumes "float_ok fl u t" and "reachable u t" and "t \<noteq> []"
  obtains trace ids where "tokenize fl u t = Some (Inr ids)" "trace_ok fl u t (symbols t) trace" "length trace = length (symbols t)"
    "segmentation fl u t (symbols t) (length (symbols t) - 1) ids (best_score (trace ! (length (symbols t) - 1)))"
proof -
  let ?start = "[\<lparr>prev = 0, best_score = 0, tok_id = 0\<rparr>] :: best list"
  have n: "length (symbols t) > 1" using assms(3) symbols_length [of t] by linarith
  have "trace_ok fl u t (symbols t) ?start" by (simp add: trace_ok_def)
  from find_all_ok [OF assms(1) this refl order_refl] assms(2) n
  obtain trace where trace: "find_all fl u t (symbols t) ?start [1 ..< length (symbols t)] = Inr trace"
    "trace_ok fl u t (symbols t) trace" "length trace = length (symbols t)"
    by (auto simp: reachable_def)
  moreover obtain ids where "backtrace trace (length trace - 1) [] = Some ids"
    "segmentation fl u t (symbols t) (length trace - 1) ids (best_score (trace ! (length trace - 1)))"
  proof -
    have "length trace \<le> length (symbols t)" "length trace - 1 < length trace" using trace(3) n by simp_all
    from backtrace_segmentation [OF trace(2) this, of "[]"] show thesis using that by auto
  qed
  ultimately show thesis using that [of ids trace] n by (simp add: tokenize_def Let_def)
qed

text \<open>
  C7: the unigram tokenizer returns a segmentation of the whole text, and no segmentation into tokens of
  the window has a greater score. This needs of rounded addition only that it keeps the order.
\<close>

theorem tokenize_optimal:
  assumes "float_ok fl u t" and "unk_ok u"
  shows "\<exists>ids s. tokenize fl u t = Some (Inr ids) \<and> segmentation fl u t (symbols t) (length (symbols t) - 1) ids s \<and>
    (\<forall>ids' s'. segmentation fl u t (symbols t) (length (symbols t) - 1) ids' s' \<longrightarrow> s' \<le> s)"
proof (cases "t = []")
  case True
  have start: "segmentation fl u [] (symbols []) 0 [] 0" by (rule seg_start)
  have "s' = 0" if "segmentation fl u [] (symbols []) 0 ids' s'" for ids' s'
    using that by (cases rule: segmentation.cases) (auto dest: step_less)
  then show ?thesis using True start by (auto simp: tokenize_def symbols_def symbol_spans.simps)
next
  case False
  have "reachable u t" using assms(2) by (simp add: reachable_def)
  from tokenize_trace [OF assms(1) this False] obtain trace ids where *: "tokenize fl u t = Some (Inr ids)"
    "trace_ok fl u t (symbols t) trace" "length trace = length (symbols t)"
    "segmentation fl u t (symbols t) (length (symbols t) - 1) ids (best_score (trace ! (length (symbols t) - 1)))" .
  have "length (symbols t) - 1 < length trace" using *(3) by (simp add: symbols_def)
  then have "\<forall>ids' s'. segmentation fl u t (symbols t) (length (symbols t) - 1) ids' s' \<longrightarrow>
      s' \<le> best_score (trace ! (length (symbols t) - 1))"
    using trace_optimal [OF _ assms(1) *(2)] by blast
  then show ?thesis using *(1,4) by blast
qed


section \<open>Encoding and decoding\<close>

definition vocab_ok :: "vocab \<Rightarrow> bool" where
  "vocab_ok v \<longleftrightarrow> (\<forall>w k. token_to_id v w = Some k \<longrightarrow> 0 \<le> k \<and> k < int (length (id_to_token v)) \<and> tok (id_to_token v ! nat k) = w)"

text \<open>Each character of the text is itself a token.\<close>

definition covers :: "unigram_tokenizer \<Rightarrow> string \<Rightarrow> bool" where
  "covers u t \<longleftrightarrow> (\<forall>pos. 0 < pos \<and> pos < length (symbols t) \<longrightarrow> (\<exists>k. token_step u t (symbols t) (pos - 1) pos k))"

lemma covers_reachable: "covers u t \<Longrightarrow> reachable u t"
  unfolding covers_def reachable_def by blast

lemma segmentation_text:
  assumes "segmentation fl u t syms p ids s" and "syms = symbols t" and "vocab_ok (u_vocab u)" and "covers u t"
  shows "concat (map (\<lambda>k. tok (id_to_token (u_vocab u) ! nat k)) ids) = take (sym_end (syms ! p)) t \<and>
    (\<forall>k \<in> set ids. 0 \<le> k \<and> k < int (length (id_to_token (u_vocab u))))"
  using assms(1)
proof (induction rule: segmentation.induct)
  case seg_start
  then show ?case using symbols_ends(1) [of t] assms(2) by simp
next
  case (seg_step i ids s pos k)
  have i: "i < pos" by (rule step_less [OF seg_step.hyps(2)])
  then have "0 < pos \<and> pos < length (symbols t)" using seg_step.hyps(3) assms(2) by simp
  then have "\<exists>i k. token_step u t (symbols t) i pos k" using assms(4) unfolding covers_def by blast
  then have "\<exists>i k. token_step u t syms i pos k" by (simp only: assms(2))
  with seg_step.hyps(2) have "token_step u t syms i pos k" unfolding step_def by blast
  then have "token_to_id (u_vocab u) (span_text t syms i pos) = Some k" by (simp add: token_step_def)
  then have k: "0 \<le> k" "k < int (length (id_to_token (u_vocab u)))" "tok (id_to_token (u_vocab u) ! nat k) = span_text t syms i pos"
    using assms(3) unfolding vocab_ok_def by blast+
  have "sym_end (syms ! i) < sym_end (syms ! pos)" using symbols_mono [OF i, of t] seg_step.hyps(3) assms(2) by simp
  then have "take (sym_end (syms ! i)) t @ span_text t syms i pos = take (sym_end (syms ! pos)) t"
    using take_add [of "sym_end (syms ! i)" "sym_end (syms ! pos) - sym_end (syms ! i)" t] by (simp add: span_text_def)
  moreover have "concat (map (\<lambda>k. tok (id_to_token (u_vocab u) ! nat k)) ids) = take (sym_end (syms ! i)) t"
    "\<forall>k \<in> set ids. 0 \<le> k \<and> k < int (length (id_to_token (u_vocab u)))" using seg_step.IH by simp_all
  ultimately show ?case using k by simp
qed

lemma tokenize_lossless:
  assumes "float_ok fl u t" and "vocab_ok (u_vocab u)" and "covers u t"
  shows "\<exists>ids. tokenize fl u t = Some (Inr ids) \<and> concat (map (\<lambda>k. tok (id_to_token (u_vocab u) ! nat k)) ids) = t \<and>
    (\<forall>k \<in> set ids. 0 \<le> k \<and> k < int (length (id_to_token (u_vocab u))))"
proof (cases "t = []")
  case True
  then show ?thesis by (simp add: tokenize_def symbols_def symbol_spans.simps)
next
  case False
  from tokenize_trace [OF assms(1) covers_reachable [OF assms(3)] False] obtain ids s where
    ids: "tokenize fl u t = Some (Inr ids)" "segmentation fl u t (symbols t) (length (symbols t) - 1) ids s" by metis
  have "sym_end (symbols t ! (length (symbols t) - 1)) = length t"
  proof -
    have "symbols t \<noteq> []" by (simp add: symbols_def)
    from last_conv_nth [OF this] show ?thesis using symbols_ends(2) [of t] by simp
  qed
  then show ?thesis using segmentation_text [OF ids(2) refl assms(2,3)] ids(1) by auto
qed

lemma find_pos_text:
  assumes "find_pos sub s 0 \<noteq> -1"
  shows "take (nat (find_pos sub s 0)) s @ sub @ drop (nat (find_pos sub s 0) + length sub) s = s"
proof -
  have "take (length sub) (drop (nat (find_pos sub s 0)) s) = sub" using find_pos_bounds [of sub s 0] assms by auto
  then show ?thesis by (metis append_take_drop_id drop_drop add.commute)
qed

lemma next_added_some:
  assumes "next_added added s = Some (pos, x)"
  shows "x \<in> set added" "find_pos (added_token x) s 0 = int pos"
proof -
  have "\<forall>pos x. foldl (earlier_token s) f ts = Some (pos, x) \<longrightarrow> f = Some (pos, x) \<or> (x \<in> set ts \<and> find_pos (added_token x) s 0 = int pos)"
    for f ts
  proof (induction ts arbitrary: f)
    case (Cons a ts)
    have "find_pos (added_token a) s 0 \<ge> 0" if "find_pos (added_token a) s 0 \<noteq> -1"
      using find_pos_bounds [of "added_token a" s 0] that by auto
    then have "earlier_token s f a = f \<or> earlier_token s f a = Some (nat (find_pos (added_token a) s 0), a) \<and>
        int (nat (find_pos (added_token a) s 0)) = find_pos (added_token a) s 0"
      by (auto simp: earlier_token_def Let_def)
    then show ?case using Cons.IH [of "earlier_token s f a"] by auto
  qed simp
  then have "\<forall>pos x. next_added added s = Some (pos, x) \<longrightarrow> x \<in> set added \<and> find_pos (added_token x) s 0 = int pos"
    unfolding next_added_def by blast
  then show "x \<in> set added" "find_pos (added_token x) s 0 = int pos" using assms by auto
qed

definition added_ok :: "Processor \<Rightarrow> bool" where
  "added_ok p \<longleftrightarrow> (\<forall>x \<in> set (added_tokens p). added_token x \<noteq> [] \<and> IdToPiece p (added_id x) = added_token x)"

lemma Encode_loop_text:
  assumes "\<forall>part. sublist part s \<longrightarrow> (\<exists>ids. DoEncode part = Some (Inr ids) \<and> Processor_Decode p ids = part)" and "added_ok p"
  shows "\<exists>out. Encode_loop (added_tokens p) DoEncode s ids = Some (Inr (ids @ out)) \<and> Processor_Decode p out = s"
  using assms(1)
proof (induction s arbitrary: ids rule: length_induct)
  case (1 s)
  show ?case
  proof (cases "next_added (added_tokens p) s")
    case None
    obtain part where "DoEncode s = Some (Inr part)" "Processor_Decode p part = s" using 1(2) by blast
    then show ?thesis using None by (subst Encode_loop.simps) auto
  next
    case (Some found)
    obtain pos x where x: "next_added (added_tokens p) s = Some (pos, x)" using Some by (cases found) auto
    have whole: "take pos s @ added_token x @ drop (pos + length (added_token x)) s = s"
      using find_pos_text [of "added_token x" s] next_added_some(2) [OF x] by simp
    have ok: "added_token x \<noteq> []" "IdToPiece p (added_id x) = added_token x"
      using assms(2) next_added_some(1) [OF x] by (auto simp: added_ok_def)
    let ?rest = "drop (pos + length (added_token x)) s"
    obtain part where part: "DoEncode (take pos s) = Some (Inr part)" "Processor_Decode p part = take pos s"
      using 1(2) sublist_take [of pos s] by blast
    have "length (take pos s @ added_token x @ ?rest) = length s" using whole by simp
    then have "length ?rest < length s" using ok(1) by (cases "added_token x") simp_all
    moreover have "\<forall>part. sublist part ?rest \<longrightarrow> (\<exists>ids. DoEncode part = Some (Inr ids) \<and> Processor_Decode p ids = part)"
      using 1(2) sublist_drop [of "pos + length (added_token x)" s] sublist_order.order_trans by blast
    ultimately obtain out where out: "Encode_loop (added_tokens p) DoEncode ?rest (ids @ part @ [added_id x]) =
        Some (Inr ((ids @ part @ [added_id x]) @ out))" "Processor_Decode p out = ?rest"
      using 1(1) by blast
    have "Processor_Decode p (part @ added_id x # out) = s"
      using part(2) out(2) ok(2) whole by (simp add: Processor_Decode_def)
    then show ?thesis using x part(1) out(1)
      by (subst Encode_loop.simps) (auto intro!: exI [of _ "part @ added_id x # out"])
  qed
qed


definition unigram_of :: "Processor \<Rightarrow> unigram_tokenizer" where
  "unigram_of p = \<lparr>u_vocab = p_vocab p, u_tok_max_len = int (tok_max_len p), u_unk_id = unk_tok_id p\<rparr>"

definition preprocessed :: "Processor \<Rightarrow> string \<Rightarrow> string" where
  "preprocessed p s = foldl (\<lambda>s f. f s) s (pp p)"


text \<open>Text of one-byte characters.\<close>

lemma ascii_spans:
  assumes "\<forall>c \<in> set t. utf8_len c = 1"
  shows "symbol_spans t offs = map (\<lambda>i. \<lparr>sym_start = i, sym_end = Suc i\<rparr>) [offs ..< length t]"
  using assms
proof (induction t offs rule: symbol_spans.induct)
  case (1 t offs)
  show ?case
  proof (cases "offs < length t")
    case True
    then have n: "min (length t - offs) (utf8_len (t ! offs)) = 1" using 1(2) by simp
    have "symbol_spans t offs = \<lparr>sym_start = offs, sym_end = Suc offs\<rparr> # symbol_spans t (Suc offs)"
      using True n by (subst symbol_spans.simps) (simp add: Let_def)
    then show ?thesis using 1(1) [OF True refl] 1(2) n True by (simp add: upt_conv_Cons)
  qed (simp add: symbol_spans.simps)
qed

lemma ascii_covers:
  assumes "\<forall>c \<in> set t. utf8_len c = 1 \<and> token_to_id (u_vocab u) [c] \<noteq> None" and "u_tok_max_len u \<ge> 1"
  shows "covers u t"
proof -
  have syms: "symbols t = \<lparr>sym_start = 0, sym_end = 0\<rparr> # map (\<lambda>i. \<lparr>sym_start = i, sym_end = Suc i\<rparr>) [0 ..< length t]"
    using ascii_spans [of t 0] assms(1) by (simp add: symbols_def)
  have ends: "sym_end (symbols t ! i) = i" if "i \<le> length t" for i
    using that by (cases i) (simp_all add: syms)
  have "\<exists>k. token_step u t (symbols t) (pos - 1) pos k" if pos: "0 < pos" "pos < length (symbols t)" for pos
  proof -
    have le: "pos \<le> length t" using pos by (simp add: syms)
    then have "span_text t (symbols t) (pos - 1) pos = [t ! (pos - 1)]"
      using pos ends [of pos] ends [of "pos - 1"]
      by (simp add: span_text_def take_Suc_conv_app_nth Cons_nth_drop_Suc [symmetric])
    moreover have "t ! (pos - 1) \<in> set t" using le pos by simp
    moreover have "window_start u pos \<le> pos - 1" using assms(2) pos by (simp add: window_start_def)
    ultimately show ?thesis using assms(1) pos by (auto simp: token_step_def)
  qed
  then show ?thesis by (simp add: covers_def)
qed

text \<open>Addition that saturates, and a vocabulary of a few tokens.\<close>

definition demo_float :: Float_Ops where
  "demo_float = \<lparr>fadd = (\<lambda>a b. max (-10) (a + b)), flowest = -100, float_of_bytes = (\<lambda>b. of_nat (unsigned_of_bytes b))\<rparr>"

lemma demo_float_ok: "float_ok demo_float u t"
proof -
  have "-10 \<le> s" if "segmentation demo_float u t syms pos ids s" "0 < pos" for syms pos ids s
    using that by (cases rule: segmentation.cases) (auto simp: demo_float_def)
  then show ?thesis by (fastforce simp: float_ok_def demo_float_def)
qed

definition demo_entries :: "token_score list" where
  "demo_entries = map (\<lambda>(w, sc). \<lparr>tok = w, score = sc, tok_type = NORMAL\<rparr>)
     [(''a'', -2), (''b'', -2), (''<'', -4), (''s'', -4), (''>'', -4), (''ab'', -3), (''<s>'', 0)]"

definition demo_vocab :: vocab where
  "demo_vocab = \<lparr>token_to_id = [''a'' \<mapsto> 0, ''b'' \<mapsto> 1, ''<'' \<mapsto> 2, ''s'' \<mapsto> 3, ''>'' \<mapsto> 4, ''ab'' \<mapsto> 5, ''<s>'' \<mapsto> 6],
     id_to_token = demo_entries, special_tokens_cache = Map.empty, bpe_ranks = Map.empty\<rparr>"

definition demo_processor :: Processor where
  "demo_processor = (UnigramProcessor 3)\<lparr>p_vocab := demo_vocab, tok_max_len := 3,
     added_tokens := [\<lparr>added_token = ''<s>'', added_id = 6\<rparr>]\<rparr>"

theorem tokenize_optimal_witness:
  "\<exists>ids s. tokenize demo_float (unigram_of demo_processor) ''abba'' = Some (Inr ids) \<and>
     segmentation demo_float (unigram_of demo_processor) ''abba'' (symbols ''abba'') (length (symbols ''abba'') - 1) ids s"
  using tokenize_optimal [OF demo_float_ok, of "unigram_of demo_processor" "''abba''"]
  by (auto simp: unk_ok_def unigram_of_def demo_processor_def UnigramProcessor_def demo_vocab_def demo_entries_def)



section \<open>The loop over added tokens\<close>

text \<open>
  An empty added token is found at the start of every text and takes nothing from it: the loop of
  \<open>Encode\<close> does not end.
\<close>

theorem empty_added_token_diverges:
  assumes "\<forall>s. \<exists>ids. DoEncode s = Some (Inr ids)"
  shows "Encode_loop [\<lparr>added_token = [], added_id = k\<rparr>] DoEncode s ids = None"
proof -
  let ?added = "[\<lparr>added_token = [], added_id = k\<rparr>]"
  let ?P = "\<lambda>added D s ids (r :: int list result). added = ?added \<longrightarrow> (\<forall>s. \<exists>ids. D s = Some (Inr ids)) \<longrightarrow> False"
  have found: "next_added ?added s = Some (0, \<lparr>added_token = [], added_id = k\<rparr>)" for s
    by (cases s) (simp_all add: next_added_def earlier_token_def)
  have "?P added D s ids r" if run: "Encode_loop added D s ids = Some r" for added D s ids r
  proof (rule Encode_loop.raw_induct [of ?P, OF _ run])
    fix f added D s ids r
    assume IH: "\<And>added D s ids r. f added D s ids = Some r \<Longrightarrow> ?P added D s ids r"
      and step: "(case next_added added s of
        None \<Rightarrow> (case D s of None \<Rightarrow> None | Some r \<Rightarrow> Some (bindR r (\<lambda>part. Inr (ids @ part))))
      | Some (pos, t) \<Rightarrow>
          (case D (take pos s) of
             None \<Rightarrow> None
           | Some (Inl e) \<Rightarrow> Some (Inl e)
           | Some (Inr part) \<Rightarrow> f added D (drop (pos + length (added_token t)) s) (ids @ part @ [added_id t]))) = Some r"
    show "?P added D s ids r"
    proof (intro impI)
      assume added: "added = ?added" and D: "\<forall>s. \<exists>ids. D s = Some (Inr ids)"
      obtain part where "D [] = Some (Inr part)" using D by blast
      then have "f added D s (ids @ part @ [k]) = Some r" using step by (simp add: added found)
      then show False using IH [of added D s] added D by blast
    qed
  qed
  from this [of ?added DoEncode s ids] assms show ?thesis by (cases "Encode_loop ?added DoEncode s ids") blast+
qed

theorem empty_added_token_diverges_witness:
  "Encode_loop [\<lparr>added_token = [], added_id = 7\<rparr>] (\<lambda>_. Some (Inr [])) ''text'' [] = None"
  by (rule empty_added_token_diverges) simp

section \<open>The vocabulary file\<close>

text \<open>
  The format that is read: the length of a token as four bytes, its bytes and four bytes of score, for
  each token; then a negative length.
\<close>

definition i32_bytes :: "int \<Rightarrow> string" where
  "i32_bytes n =
     (let m = nat (n mod 2 ^ 32) in [char_of m, char_of (m div 256), char_of (m div 65536), char_of (m div 16777216)])"

definition entry_bytes :: "(rat \<Rightarrow> string) \<Rightarrow> token_score \<Rightarrow> string" where
  "entry_bytes float_bytes e = i32_bytes (int (length (tok e))) @ tok e @ float_bytes (score e)"

definition vocab_bytes :: "(rat \<Rightarrow> string) \<Rightarrow> token_score list \<Rightarrow> string" where
  "vocab_bytes float_bytes es = concat (map (entry_bytes float_bytes) es) @ i32_bytes (-1)"

lemma four_bytes:
  assumes "m < 2 ^ 32"
  shows "unsigned_of_bytes [char_of m, char_of (m div 256), char_of (m div 65536), char_of (m div 16777216)] = m"
proof -
  have "m div 16777216 < 256" using assms by (simp add: less_mult_imp_div_less)
  moreover have "m div 65536 = 256 * (m div 16777216) + m div 65536 mod 256"
    using mult_div_mod_eq [of 256 "m div 65536"] by (simp add: div_mult2_eq [symmetric])
  moreover have "m div 256 = 256 * (m div 65536) + m div 256 mod 256"
    using mult_div_mod_eq [of 256 "m div 256"] by (simp add: div_mult2_eq [symmetric])
  moreover have "m = 256 * (m div 256) + m mod 256" by simp
  moreover have "unsigned_of_bytes [char_of m, char_of (m div 256), char_of (m div 65536), char_of (m div 16777216)] =
      m mod 256 + 256 * (m div 256 mod 256 + 256 * (m div 65536 mod 256 + 256 * (m div 16777216 mod 256)))"
    by simp
  ultimately show ?thesis by (metis mod_less add.commute)
qed

lemma i32_bytes_value:
  assumes "- (2 ^ 31) \<le> n" and "n < 2 ^ 31"
  shows "signed_take_bit 31 (int (unsigned_of_bytes (i32_bytes n))) = n" "length (i32_bytes n) = 4"
proof -
  have "nat (n mod 2 ^ 32) < 2 ^ 32" by (simp add: nat_less_iff)
  then have "int (unsigned_of_bytes (i32_bytes n)) = take_bit 32 n"
    unfolding i32_bytes_def Let_def by (subst four_bytes) (simp_all add: take_bit_eq_mod)
  then have "signed_take_bit 31 (int (unsigned_of_bytes (i32_bytes n))) = signed_take_bit 31 n"
    by (simp add: signed_take_bit_take_bit)
  then show "signed_take_bit 31 (int (unsigned_of_bytes (i32_bytes n))) = n" using assms by (simp add: signed_take_bit_int_eq_self)
  show "length (i32_bytes n) = 4" by (simp add: i32_bytes_def Let_def)
qed

definition pending :: "Reader \<Rightarrow> string" where
  "pending r = drop (reader_offset r) (reader_buffer r)"

definition advance :: "nat \<Rightarrow> Reader \<Rightarrow> Reader" where
  "advance n r = r\<lparr>reader_offset := reader_offset r + n\<rparr>"

lemma pending_advance: "pending r = xs @ ys \<Longrightarrow> pending (advance (length xs) r) = ys"
  by (simp add: pending_def advance_def add.commute flip: drop_drop)

lemma advance_advance: "advance m (advance n r) = advance (n + m) r"
  by (simp add: advance_def add.assoc comp_def)

lemma read_raw_pending:
  assumes "pending r = xs @ ys" and "xs @ ys \<noteq> []"
  shows "read_raw (length xs) r = (Inr xs, advance (length xs) r)"
proof -
  have "length (pending r) = length xs + length ys" using assms by simp
  then have "reader_offset r + length xs \<le> length (reader_buffer r)" using assms(2)
    by (cases xs; cases ys) (auto simp: pending_def)
  moreover have "take (length xs) (drop (reader_offset r) (reader_buffer r)) = xs" using assms by (simp add: pending_def)
  ultimately show ?thesis by (simp add: read_raw_def advance_def)
qed

lemma read_i32_pending:
  assumes "pending r = i32_bytes n @ ys" and "- (2 ^ 31) \<le> n" and "n < 2 ^ 31"
  shows "read_i32 r = (Inr n, advance 4 r)" "pending (advance 4 r) = ys"
proof -
  have "i32_bytes n @ ys \<noteq> []" using i32_bytes_value(2) [OF assms(2,3)] by (cases "i32_bytes n") auto
  then show "read_i32 r = (Inr n, advance 4 r)"
    using read_raw_pending [OF assms(1)] i32_bytes_value [OF assms(2,3)] by (simp add: read_i32_def bindE_def)
  show "pending (advance 4 r) = ys" using pending_advance [OF assms(1)] i32_bytes_value(2) [OF assms(2,3)] by simp
qed

text \<open>Scores are written as four bytes that are read as the same value.\<close>

definition file_ok :: "Float_Ops \<Rightarrow> (rat \<Rightarrow> string) \<Rightarrow> token_score list \<Rightarrow> bool" where
  "file_ok fl float_bytes es \<longleftrightarrow> (\<forall>e \<in> set es. length (tok e) < 2 ^ 31 \<and> tok_type e = NORMAL \<and>
     length (float_bytes (score e)) = 4 \<and> float_of_bytes fl (float_bytes (score e)) = score e)"

lemma read_entry_pending:
  assumes "pending r = tok e @ float_bytes (score e) @ ys" and "file_ok fl float_bytes [e]"
  shows "\<exists>r'. read_entry fl True False (length (tok e)) r = (Inr e, r') \<and> pending r' = ys \<and>
    r' = advance (length (tok e) + 4) r"
proof -
  have f: "length (float_bytes (score e)) = 4" "float_of_bytes fl (float_bytes (score e)) = score e" "tok_type e = NORMAL"
    using assms(2) by (simp_all add: file_ok_def)
  have ne: "tok e @ float_bytes (score e) @ ys \<noteq> []" "float_bytes (score e) @ ys \<noteq> []" using f(1) by auto
  note 1 = read_raw_pending [OF assms(1) ne(1)]
  note p1 = pending_advance [OF assms(1)]
  note 2 = read_raw_pending [OF p1 ne(2)]
  note p2 = pending_advance [OF p1]
  have "read_entry fl True False (length (tok e)) r = (Inr e, advance 4 (advance (length (tok e)) r))"
    using 1 2 f by (simp add: read_entry_def read_string_def bindE_def)
  then show ?thesis using p2 f(1) by (simp add: advance_advance)
qed

fun store_entries :: "nat \<Rightarrow> token_score list \<Rightarrow> vocab \<Rightarrow> vocab" where
  "store_entries n [] v = v"
| "store_entries n (e # es) v = store_entries (Suc n) es (store_entry (int n) e v)"

lemma load_vocab_list_pending:
  assumes "pending r = vocab_bytes float_bytes es @ ys" and "file_ok fl float_bytes es" and "n + length es \<le> length (id_to_token v)"
  shows "load_vocab_list fl True False 0 n v r =
    (Inr (store_entries n es v, n + length es), advance (length (vocab_bytes float_bytes es)) r)"
  using assms
proof (induction es arbitrary: n v r)
  case Nil
  then have "pending r = i32_bytes (-1) @ ys" by (simp add: vocab_bytes_def)
  from read_i32_pending [OF this] have "read_i32 r = (Inr (-1), advance 4 r)" by simp
  then show ?case using i32_bytes_value(2) [of "-1"] by (simp add: load_vocab_list.simps vocab_bytes_def)
next
  case (Cons e es)
  have ok: "file_ok fl float_bytes [e]" "file_ok fl float_bytes es" "int (length (tok e)) < 2 ^ 31"
    using Cons.prems(2) by (auto simp: file_ok_def)
  have "pending r = i32_bytes (int (length (tok e))) @ tok e @ float_bytes (score e) @ vocab_bytes float_bytes es @ ys"
    using Cons.prems(1) by (simp add: vocab_bytes_def entry_bytes_def)
  from read_i32_pending [OF this _ ok(3)]
  have len: "read_i32 r = (Inr (int (length (tok e))), advance 4 r)"
    "pending (advance 4 r) = tok e @ float_bytes (score e) @ vocab_bytes float_bytes es @ ys" by simp_all
  from read_entry_pending [OF len(2) ok(1)]
  have entry: "read_entry fl True False (length (tok e)) (advance 4 r) = (Inr e, advance (4 + (length (tok e) + 4)) r)"
    "pending (advance (4 + (length (tok e) + 4)) r) = vocab_bytes float_bytes es @ ys"
    by (auto simp: advance_advance)
  have "load_vocab_list fl True False 0 n v r = load_vocab_list fl True False 0 (Suc n) (store_entry (int n) e v)
      (advance (4 + (length (tok e) + 4)) r)"
    using len(1) entry(1) Cons.prems(3) by (subst load_vocab_list.simps) simp
  also have "\<dots> = (Inr (store_entries (Suc n) es (store_entry (int n) e v), Suc n + length es),
      advance (length (vocab_bytes float_bytes es)) (advance (4 + (length (tok e) + 4)) r))"
    by (rule Cons.IH [OF entry(2) ok(2)]) (use Cons.prems(3) in \<open>simp add: store_entry_def\<close>)
  finally show ?case
    using i32_bytes_value(2) [of "int (length (tok e))"] ok by (simp add: vocab_bytes_def entry_bytes_def advance_advance file_ok_def add_ac)
qed

lemma store_entries_tokens:
  "n + length es \<le> length (id_to_token v) \<Longrightarrow>
   id_to_token (store_entries n es v) = take n (id_to_token v) @ es @ drop (n + length es) (id_to_token v)"
proof (induction es arbitrary: n v)
  case (Cons e es)
  have "n < length (id_to_token v)" using Cons.prems by simp
  then have "take (Suc n) ((id_to_token v)[n := e]) = take n (id_to_token v) @ [e]"
    by (simp add: take_Suc_conv_app_nth)
  then show ?case using Cons by (simp add: store_entry_def)
qed simp

lemma store_entries_other: "w \<notin> tok ` set es \<Longrightarrow> token_to_id (store_entries n es v) w = token_to_id v w"
  by (induction es arbitrary: n v) (auto simp: store_entry_def)

lemma store_entries_ids:
  assumes "distinct (map tok es)" and "i < length es"
  shows "token_to_id (store_entries n es v) (tok (es ! i)) = Some (int (n + i))"
  using assms
proof (induction es arbitrary: n v i)
  case (Cons e es)
  show ?case
  proof (cases i)
    case 0
    then show ?thesis using Cons.prems store_entries_other [of "tok e" es "Suc n" "store_entry (int n) e v"]
      by (simp add: store_entry_def)
  next
    case (Suc j)
    then show ?thesis using Cons.IH [of j "Suc n" "store_entry (int n) e v"] Cons.prems by simp
  qed
qed simp

lemma foldl_max_size:
  "m \<le> foldl (\<lambda>m x. if length (tok x) > m then length (tok x) else m) m es \<and>
   (\<forall>e \<in> set es. length (tok e) \<le> foldl (\<lambda>m x. if length (tok x) > m then length (tok x) else m) m es)"
proof (induction es arbitrary: m)
  case (Cons e es)
  show ?case using Cons.IH [of "if length (tok e) > m then length (tok e) else m"] by (auto split: if_splits)
qed simp

text \<open>
  C17: a vocabulary of distinct tokens that was written to a file is read back: each token at its number,
  with its score, whatever follows in the file; the search window is as wide as the longest token.
\<close>

theorem vocabulary_roundtrip:
  assumes "file_ok fl float_bytes es" and "length es \<le> n_vocab + 100" and "distinct (map tok es)"
  shows "\<exists>p'. UnigramProcessor_Load fl p (vocab_bytes float_bytes es @ rest) n_vocab = Inr (p', length (vocab_bytes float_bytes es)) \<and>
    id_to_token (p_vocab p') = es \<and> piece_size p' = length es \<and>
    map (token_to_id (p_vocab p')) (map tok es) = map (\<lambda>i. Some (int i)) [0 ..< length es] \<and>
    vocab_ok (p_vocab p') \<and> list_all (\<lambda>e. length (tok e) \<le> tok_max_len p') es"
proof -
  let ?v = "(p_vocab p)\<lparr>token_to_id := Map.empty, id_to_token := resize_tokens (n_vocab + 100) (id_to_token (p_vocab p))\<rparr>"
  let ?r = "\<lparr>reader_buffer = vocab_bytes float_bytes es @ rest, reader_offset = 0\<rparr>"
  let ?w = "store_entries 0 es ?v"
  have "pending ?r = vocab_bytes float_bytes es @ rest" by (simp add: pending_def)
  moreover have len: "0 + length es \<le> length (id_to_token ?v)" using assms(2) by (simp add: resize_tokens_def)
  ultimately have load: "load_vocab_list fl True False 0 0 ?v ?r = (Inr (?w, length es), advance (length (vocab_bytes float_bytes es)) ?r)"
    using load_vocab_list_pending [of ?r float_bytes es rest fl 0 ?v] assms(1) by simp
  have toks: "resize_tokens (length es) (id_to_token ?w) = es"
    using store_entries_tokens [OF len] by (simp add: resize_tokens_def)
  have ids: "token_to_id ?w (tok (es ! i)) = Some (int i)" if "i < length es" for i
    using store_entries_ids [OF assms(3) that, of 0 ?v] by simp
  then have numbers: "map (token_to_id ?w) (map tok es) = map (\<lambda>i. Some (int i)) [0 ..< length es]"
    by (intro nth_equalityI) simp_all
  have "vocab_ok (?w\<lparr>id_to_token := es\<rparr>)"
    unfolding vocab_ok_def
  proof (intro allI impI)
    fix t k
    assume k: "token_to_id (?w\<lparr>id_to_token := es\<rparr>) t = Some k"
    then have "t \<in> tok ` set es" using store_entries_other [of t es 0 ?v] by auto
    then obtain i where "i < length es" "t = tok (es ! i)" by (auto simp: in_set_conv_nth)
    then show "0 \<le> k \<and> k < int (length (id_to_token (?w\<lparr>id_to_token := es\<rparr>))) \<and> tok (id_to_token (?w\<lparr>id_to_token := es\<rparr>) ! nat k) = t"
      using ids k by auto
  qed
  moreover have "list_all (\<lambda>e. length (tok e) \<le> foldl (\<lambda>m x. if length (tok x) > m then length (tok x) else m) (tok_max_len p) es) es"
    using foldl_max_size [of "tok_max_len p" es] by (simp add: list_all_iff)
  ultimately show ?thesis using load toks numbers
    by (simp add: UnigramProcessor_Load_def Let_def get_total_size_def advance_def)
qed

theorem vocabulary_roundtrip_witness:
  "\<exists>p'. UnigramProcessor_Load (demo_float\<lparr>float_of_bytes := (\<lambda>b. - of_nat (of_char (hd b)))\<rparr>) (UnigramProcessor 2)
      (vocab_bytes (\<lambda>x. char_of (nat \<lfloor>- x\<rfloor>) # ''000'') demo_entries) 7 =
      Inr (p', length (vocab_bytes (\<lambda>x. char_of (nat \<lfloor>- x\<rfloor>) # ''000'') demo_entries)) \<and>
    id_to_token (p_vocab p') = demo_entries \<and> vocab_ok (p_vocab p')"
proof -
  have "file_ok (demo_float\<lparr>float_of_bytes := (\<lambda>b. - of_nat (of_char (hd b)))\<rparr>) (\<lambda>x. char_of (nat \<lfloor>- x\<rfloor>) # ''000'') demo_entries"
    by (simp add: file_ok_def demo_entries_def demo_float_def)
  moreover have "distinct (map tok demo_entries)" "length demo_entries \<le> 7 + 100" by (simp_all add: demo_entries_def)
  ultimately show ?thesis
    using vocabulary_roundtrip [of _ "\<lambda>x. char_of (nat \<lfloor>- x\<rfloor>) # ''000''" demo_entries 7 "UnigramProcessor 2" "[]"] by auto
qed

section \<open>Preprocessing\<close>

text \<open>No newline, no two spaces in a row, a space at the start.\<close>

fun single_spaced :: "string \<Rightarrow> bool" where
  "single_spaced (a # b # cs) \<longleftrightarrow> \<not> (a = CHR '' '' \<and> b = CHR '' '') \<and> single_spaced (b # cs)"
| "single_spaced _ \<longleftrightarrow> True"

definition normal_text :: "string \<Rightarrow> bool" where
  "normal_text s \<longleftrightarrow> (\<forall>c \<in> set s. \<not> is_newline c) \<and> single_spaced s \<and> s \<noteq> [] \<and> hd s = CHR '' ''"

definition normalize :: "string \<Rightarrow> string" where
  "normalize s = TextPrepAddLeadingSpace (TextPrepDeleteMultiSpaces (TextPrepNewlineToSpaces s))"

lemma newlines_gone: "c \<in> set (TextPrepNewlineToSpaces s) \<Longrightarrow> \<not> is_newline c"
  by (induction s rule: TextPrepNewlineToSpaces.induct) (auto simp: is_newline_def split: if_splits)

lemma newlines_id: "\<forall>c \<in> set s. \<not> is_newline c \<Longrightarrow> TextPrepNewlineToSpaces s = s"
  by (induction s) auto

lemma spaces_set: "set (TextPrepDeleteMultiSpaces s) \<subseteq> set s"
proof (induction s rule: TextPrepDeleteMultiSpaces.induct)
  case (2 c cs)
  then show ?case using set_dropWhileD [of _ "\<lambda>x. x = CHR '' ''" cs] by auto
qed simp

lemma spaces_hd: "TextPrepDeleteMultiSpaces s = x # xs \<Longrightarrow> s \<noteq> [] \<and> hd s = x"
  by (cases s) (auto split: if_splits)

lemma spaces_single: "single_spaced (TextPrepDeleteMultiSpaces s)"
proof (induction s rule: TextPrepDeleteMultiSpaces.induct)
  case (2 c cs)
  show ?case
  proof (cases "c = CHR '' ''")
    case True
    have "TextPrepDeleteMultiSpaces (dropWhile (\<lambda>x. x = CHR '' '') cs) = x # xs \<Longrightarrow> x \<noteq> CHR '' ''" for x xs
      using spaces_hd [of "dropWhile (\<lambda>x. x = CHR '' '') cs" x xs] hd_dropWhile [of "\<lambda>x. x = CHR '' ''" cs] by auto
    then show ?thesis using 2(1) [OF True] True
      by (cases "TextPrepDeleteMultiSpaces (dropWhile (\<lambda>x. x = CHR '' '') cs)") auto
  next
    case False
    then show ?thesis using 2(2) [OF False] by (cases "TextPrepDeleteMultiSpaces cs") auto
  qed
qed simp

lemma spaces_id: "single_spaced s \<Longrightarrow> TextPrepDeleteMultiSpaces s = s"
proof (induction s rule: single_spaced.induct)
  case (1 a b cs)
  then show ?case by (cases "a = CHR '' ''") auto
qed auto

lemma normalize_normal: "normal_text (normalize s)"
proof -
  let ?t = "TextPrepDeleteMultiSpaces (TextPrepNewlineToSpaces s)"
  have "\<forall>c \<in> set ?t. \<not> is_newline c" using spaces_set newlines_gone by blast
  moreover have "single_spaced ?t" by (rule spaces_single)
  ultimately show ?thesis
    by (cases ?t) (auto simp: normal_text_def normalize_def TextPrepAddLeadingSpace_def is_newline_def)
qed

lemma normalize_id: "normal_text s \<Longrightarrow> normalize s = s"
  using spaces_id [of s] newlines_id [of s] by (cases s) (simp_all add: normal_text_def normalize_def TextPrepAddLeadingSpace_def)


definition demo_base :: BaseTokenizer where
  "demo_base = \<lparr>bos_token_id = 0, eos_token_id = 2, pad_token_id = 1, sep_token_id = 2, max_length = 8, terminate_ids = {},
     tp = demo_processor\<rparr>"

text \<open>
  the preprocessors of the reranker's tokenizer bring every text into a form without newlines, without
  two spaces in a row and with a space at the start, and leave a text of that form alone.
\<close>

theorem preprocessing_normalizes:
  assumes "BGE_load fl b bytes n = Inr (b', m)"
  shows "normal_text (preprocessed (tp b') s) \<and> preprocessed (tp b') (preprocessed (tp b') s) = preprocessed (tp b') s"
proof -
  have "pp (tp b') = [TextPrepNewlineToSpaces, TextPrepDeleteMultiSpaces, TextPrepAddLeadingSpace]"
    using assms by (auto simp: BGE_load_def bindR_Inr_iff UnigramProcessor_Load_def Let_def RegisterPreprocessor_def UnigramProcessor_def
        split: prod.splits sum.splits)
  then have "preprocessed (tp b') s = normalize s" for s by (simp add: preprocessed_def normalize_def)
  then show ?thesis using normalize_normal normalize_id by simp
qed

theorem preprocessing_normalizes_witness:
  "\<exists>b' m. BGE_load demo_float demo_base (vocab_bytes (\<lambda>_. []) []) 0 = Inr (b', m) \<and>
     preprocessed (tp b') (preprocessed (tp b') ''a  b'') = preprocessed (tp b') ''a  b''"
proof -
  let ?r = "\<lparr>reader_buffer = vocab_bytes (\<lambda>_. []) [], reader_offset = 0\<rparr>"
  have "pending ?r = vocab_bytes (\<lambda>_. []) [] @ []" by (simp add: pending_def)
  from load_vocab_list_pending [OF this, of demo_float 0]
  have "load_vocab_list demo_float True False 0 0 v ?r = (Inr (v, 0), advance (length (vocab_bytes (\<lambda>_. []) [])) ?r)" for v
    by (simp add: file_ok_def)
  then obtain b' m where "BGE_load demo_float demo_base (vocab_bytes (\<lambda>_. []) []) 0 = Inr (b', m)"
    by (simp add: BGE_load_def UnigramProcessor_Load_def Let_def)
  then show ?thesis using preprocessing_normalizes [of demo_float demo_base "vocab_bytes (\<lambda>_. []) []" 0 b' m "''a  b''"] by blast
qed

lemma Encode_loop_appends:
  assumes "Encode_loop added D s ids = Some (Inr r)"
  shows "\<exists>out. r = ids @ out"
proof -
  let ?P = "\<lambda>added (D :: string \<Rightarrow> int list result option) (s :: string) ids (x :: int list result). \<forall>r. x = Inr r \<longrightarrow> (\<exists>out. r = ids @ out)"
  have "?P added D s ids x" if run: "Encode_loop added D s ids = Some x" for added D s ids x
  proof (rule Encode_loop.raw_induct [of ?P, OF _ run])
    fix f added D s ids x
    assume IH: "\<And>added D s ids x. f added D s ids = Some x \<Longrightarrow> ?P added D s ids x"
      and run: "(case next_added added s of
        None \<Rightarrow> (case D s of None \<Rightarrow> None | Some r \<Rightarrow> Some (bindR r (\<lambda>part. Inr (ids @ part))))
      | Some (pos, t) \<Rightarrow>
          (case D (take pos s) of
             None \<Rightarrow> None
           | Some (Inl e) \<Rightarrow> Some (Inl e)
           | Some (Inr part) \<Rightarrow> f added D (drop (pos + length (added_token t)) s) (ids @ part @ [added_id t]))) = Some x"
    show "?P added D s ids x"
    proof (cases "next_added added s")
      case None
      then show ?thesis using run by (auto simp: bindR_Inr_iff split: option.splits)
    next
      case (Some found)
      obtain pos t where found: "found = (pos, t)" by force
      show ?thesis
      proof (cases "D (take pos s)")
        case part: (Some y)
        show ?thesis
        proof (cases y)
          case (Inr z)
          then show ?thesis using run Some found part IH by fastforce
        qed (use run Some found part in auto)
      qed (use run Some found in auto)
    qed
  qed
  then show ?thesis using assms by blast
qed

section \<open>The length limit\<close>

text \<open>
  C18: the ids for the reranker start with the begin token, end with the end token and, when the limit
  leaves room for more than the two, are at most \<open>max_length - 2\<close>, the number of positions.
\<close>

theorem BGE_encode_bounds:
  assumes "BGE_encode b DoEncode t [] = Some (Inr ids)" and "max_length b > 4"
  shows "hd ids = bos_token_id b \<and> last ids = eos_token_id b \<and> 2 \<le> length ids \<and> int (length ids) \<le> max_length b - 2"
proof -
  obtain r where r: "BaseTokenizer_encode b DoEncode t [bos_token_id b] = Some (Inr r)"
    using assms(1) by (auto simp: BGE_encode_def BGE_encode_with_def Let_def bindR_Inr_iff)
  then obtain out where "r = bos_token_id b # out"
    using Encode_loop_appends [of "added_tokens (tp b)" DoEncode _ "[bos_token_id b]" r]
    by (auto simp: BaseTokenizer_encode_def Processor_Encode_def)
  with r have out: "BaseTokenizer_encode b DoEncode t [bos_token_id b] = Some (Inr (bos_token_id b # out))" by simp
  have "ids = bos_token_id b # (if int (length out) > max_length b - 4 then take (nat (max_length b - 4)) out else out) @ [eos_token_id b]"
    using assms(1,2) out by (auto simp: BGE_encode_def BGE_encode_with_def Let_def split: if_splits)
  then show ?thesis using assms(2) by auto
qed

theorem BGE_encode_bounds_witness:
  "\<exists>ids. BGE_encode demo_base (\<lambda>t. Some (Inr (map of_char t))) ''a long text'' [] = Some (Inr ids) \<and> int (length ids) \<le> 6 \<and> last ids = 2"
proof -
  have "next_added [\<lparr>added_token = ''<s>'', added_id = 6\<rparr>] ''a long text'' = None" by (simp add: next_added_def earlier_token_def)
  then have "\<exists>ids. BGE_encode demo_base (\<lambda>t. Some (Inr (map of_char t))) ''a long text'' [] = Some (Inr ids)"
    by (simp add: BGE_encode_def BGE_encode_with_def BaseTokenizer_encode_def Processor_Encode_def demo_base_def demo_processor_def
        UnigramProcessor_def Let_def Encode_loop.simps)
  then obtain ids where "BGE_encode demo_base (\<lambda>t. Some (Inr (map of_char t))) ''a long text'' [] = Some (Inr ids)" ..
  then show ?thesis using BGE_encode_bounds [of demo_base "\<lambda>t. Some (Inr (map of_char t))" "''a long text''" ids]
    by (simp add: demo_base_def)
qed

end
