(* ===== verification/ReACT_Agent.thy ===== *)
theory ReACT_Agent
  imports OpenAI_Agent
begin

text \<open>
  \<^verbatim>\<open>instinct-llm/include/agent/patterns/react/\<close>: the scratch pad a planner is shown, the parser of the
  model's answer, the worker and the executor of a ReACT agent.

  The prompt template and the model behind it are one effect, \<open>react_model\<close>, from the values of
  the template to the text of the answer. \<open>render_parameters\<close> prints the parameters of a tool.
\<close>

section \<open>What the model is shown\<close>

text \<open>\<open>step.thought().continuation().tool_call_message()\<close>: the default message when it is not set.\<close>

definition react_message :: "AgentThought \<Rightarrow> Message" where
  "react_message th = (case th of Continuation (Some m) _ \<Rightarrow> m | _ \<Rightarrow> empty_message)"

fun scratch_step :: "AgentStep \<Rightarrow> string result" where
  "scratch_step (Thought th) =
     (case tool_calls (react_message th) of
        [] \<Rightarrow> Inl UndefinedBehaviour
      | call # _ \<Rightarrow> Inr (msg_content (react_message th) @ [CHR 0x0A] @ ''Action: '' @ fn_name call @
                       [CHR 0x0A] @ ''Action Input: '' @ fn_arguments call))"
| "scratch_step (Observation obs) =
     (case tool_messages obs of
        [] \<Rightarrow> Inl (ClientException ''should provide succssful observation'')
      | m # _ \<Rightarrow> Inr ([CHR 0x0A] @ ''Observation: '' @ msg_content m @ [CHR 0x0A] @ ''Thought: ''))"
| "scratch_step NoStep = Inr []"

record ReACTContext =
  agent_scratchpad :: string
  react_input :: string
  tool_names :: string
  rendered_tools :: string

definition RenderFunctionTools :: "(FunctionToolSchema \<Rightarrow> string) \<Rightarrow> FunctionToolSchema list \<Rightarrow> string" where
  "RenderFunctionTools render_parameters tools =
     JoinWith (map (\<lambda>t. tool_name t @ '': '' @ tool_description t @ '' arg='' @ render_parameters t) tools) [CHR 0x0A]"

definition ReACT_ParseInput :: "(FunctionToolSchema \<Rightarrow> string) \<Rightarrow> AgentState \<Rightarrow> ('w, ReACTContext) eff" where
  "ReACT_ParseInput render_parameters state =
     bindE (liftR (mapR scratch_step (previous_steps state))) (\<lambda>parts.
      let prompt_input = ExtractLatestPromptString (state_input state) in
      bindE (assert_true (IsNotBlankString prompt_input) ''should provide valid prompt input'') (\<lambda>_.
        ret \<lparr>agent_scratchpad = concat parts, react_input = prompt_input,
             tool_names = JoinWith (map tool_name (function_tools state)) '','',
             rendered_tools = RenderFunctionTools render_parameters (function_tools state)\<rparr>))"

section \<open>The model's answer\<close>

definition is_nl :: "char \<Rightarrow> bool" where "is_nl c \<longleftrightarrow> c = CHR 0x0A"

record ReACTParserOptions =
  final_answer_tokens :: string
  action_name_token :: string
  action_input_token :: string

definition default_react_options :: ReACTParserOptions where
  "default_react_options = \<lparr>final_answer_tokens = ''Final Answer: '', action_name_token = ''Action: '',
     action_input_token = ''Action Input: ''\<rparr>"

text \<open>\<open>line.substr(idx + token.size())\<close> when \<open>find\<close> succeeds.\<close>

definition text_after :: "string \<Rightarrow> string \<Rightarrow> string option" where
  "text_after token line =
     (let idx = find_pos token line 0 in if idx \<noteq> -1 then Some (drop (nat idx + length token) line) else None)"

definition react_thought :: "ReACTParserOptions \<Rightarrow> string \<Rightarrow> string" where
  "react_thought opts content =
     (let idx = find_pos (action_name_token opts) content 0 in if idx \<noteq> -1 then Trim (take (nat idx) content) else [])"

definition scan_line :: "ReACTParserOptions \<Rightarrow> string \<Rightarrow> string \<times> string \<Rightarrow> string \<times> string" where
  "scan_line opts line found =
     ((case text_after (action_name_token opts) line of Some t \<Rightarrow> t | None \<Rightarrow> fst found),
      (case text_after (action_input_token opts) line of Some t \<Rightarrow> t | None \<Rightarrow> snd found))"

definition action_fields :: "ReACTParserOptions \<Rightarrow> string \<Rightarrow> string \<times> string" where
  "action_fields opts content = fold (scan_line opts) (ReSplit is_nl content) ([], [])"

definition final_answer :: "ReACTParserOptions \<Rightarrow> string \<Rightarrow> string" where
  "final_answer opts content = (case text_after (final_answer_tokens opts) content of Some t \<Rightarrow> t | None \<Rightarrow> [])"

definition ReACT_ParseResult :: "('w, string) eff \<Rightarrow> ReACTParserOptions \<Rightarrow> string \<Rightarrow> ('w, AgentThought) eff" where
  "ReACT_ParseResult uuid opts content =
     (let thought = react_thought opts content; action_name = fst (action_fields opts content);
          action_input = snd (action_fields opts content) in
      if IsNotBlankString action_name \<and> IsNotBlankString thought
      then bindE uuid (\<lambda>ident. ret (Continuation (Some (empty_message\<lparr>msg_content := thought,
             tool_calls := [\<lparr>tc_id = ident, tc_is_function = False, fn_name = action_name, fn_arguments = action_input\<rparr>]\<rparr>)) None))
      else if IsNotBlankString (final_answer opts content)
      then ret (Finish (empty_finish\<lparr>response := final_answer opts content\<rparr>))
      else throw (InstinctException ''Illegal response for a ReACT agent.''))"

section \<open>Planner, worker, executor\<close>

definition ReACTPlanner :: "(ReACTContext \<Rightarrow> ('w, string) eff) \<Rightarrow> (FunctionToolSchema \<Rightarrow> string) \<Rightarrow> ('w, string) eff \<Rightarrow>
    AgentState \<Rightarrow> ('w, AgentThought) eff" where
  "ReACTPlanner react_model render_parameters uuid state =
     bindE (ReACT_ParseInput render_parameters state) (\<lambda>context.
     bindE (react_model context) (ReACT_ParseResult uuid default_react_options))"

text \<open>Only the first call is used. The message of the exception also shows the call; it is left out.\<close>

definition ReACTWorker_Invoke :: "('w, string) eff \<Rightarrow> 'w LocalFunctionToolkit list \<Rightarrow> AgentThought \<Rightarrow>
    ('w, AgentObservation) eff" where
  "ReACTWorker_Invoke uuid tks input =
     (case tool_calls (react_message input) of
        [] \<Rightarrow> throw (ClientException ''should have continuation for ReACT executor.'')
      | invocation # _ \<Rightarrow>
          bindE (invoke_first uuid tks invocation) (\<lambda>fn_result.
            if has_error fn_result then throw (InstinctException ''Function execution failed.'')
            else ret \<lparr>tool_messages = [empty_message\<lparr>msg_content := return_value fn_result,
                                                     tool_call_id := invocation_id fn_result\<rparr>],
                      observation_custom = None\<rparr>))"

definition ReACT_InitializeState :: "'w LocalFunctionToolkit list \<Rightarrow> PromptValue \<Rightarrow> AgentState" where
  "ReACT_InitializeState tks input = (InitializeState input)\<lparr>function_tools := concat (map schemas tks)\<rparr>"

definition ReACT_ResolveNextStep :: "(AgentState \<Rightarrow> ('w, AgentThought) eff) \<Rightarrow> (AgentThought \<Rightarrow> ('w, AgentObservation) eff) \<Rightarrow>
    AgentState \<Rightarrow> ('w, AgentStep \<times> AgentState) eff" where
  "ReACT_ResolveNextStep planner worker state =
     (let steps = previous_steps state; emit = (\<lambda>step. ret (step, add_step step state)) in
      if steps = [] \<or> has_observation (last steps)
      then bindE (planner state) (\<lambda>thought. emit (Thought thought))
      else
        (case last steps of
           Thought (Continuation (Some m) cu) \<Rightarrow>
             bindE (worker (Continuation (Some m) cu)) (\<lambda>observation. emit (Observation observation))
         | Thought (Continuation None _) \<Rightarrow> throw (InstinctException ''IllegalState for ReACTAgentExecutor'')
         | Thought _ \<Rightarrow> throw (ClientException ''thought should have continuation'')
         | _ \<Rightarrow> throw (InstinctException ''IllegalState for ReACTAgentExecutor'')))"

end
