(* ===== verification/ReACT_Correct.thy ===== *)
theory ReACT_Correct
  imports ReACT_Agent
begin

text \<open>
  What the ReACT agent guarantees: its scratch pad is read back as it was written, its transcript keeps
  its shape, it ends when the model gives a final answer, and otherwise never.
\<close>

section \<open>The scratch pad is read back\<close>

lemma Trim_snoc_newline: "IsNotBlankString s \<Longrightarrow> Trim (s @ [CHR 0x0A]) = Trim s"
  by (auto simp: Trim_def Let_def IsNotBlankString_def IsBlankString_iff isspace_def dropWhile_append)

lemma Trim_fixed_ends:
  assumes "Trim s = s" and "IsNotBlankString s"
  shows "s \<noteq> []" and "\<not> is_nl (last s)"
proof -
  show "s \<noteq> []" using assms(2) by (auto simp: IsNotBlankString_def)
  then have "\<not> isspace (last s)" using Trim_ends [of s] assms(1) by auto
  then show "\<not> is_nl (last s)" by (auto simp: isspace_def is_nl_def)
qed

lemma scan_action_line:
  "scan_line default_react_options (''Action: '' @ name) found = (name, snd (scan_line default_react_options (''Action: '' @ name) found))"
  by (simp add: scan_line_def text_after_def default_react_options_def Let_def)

lemma scan_input_line:
  assumes "text_after ''Action: '' args = None"
  shows "scan_line default_react_options (''Action Input: '' @ args) (name, x) = (name, args)"
proof -
  have "find_pos ''Action: '' args 14 = -1"
    using assms find_pos_shift [of "''Action: ''" args 14 0] by (auto simp: text_after_def Let_def split: if_splits)
  then show ?thesis
    by (simp add: scan_line_def text_after_def default_react_options_def Let_def eval_nat_numeral)
qed

lemma react_lines:
  assumes "Trim th = th" and "IsNotBlankString th" and "\<forall>c \<in> set (name @ args). \<not> is_nl c"
  shows "ReSplit is_nl (th @ [CHR 0x0A] @ ''Action: '' @ name @ [CHR 0x0A] @ ''Action Input: '' @ args) =
    ReSplit is_nl th @ [''Action: '' @ name, ''Action Input: '' @ args]"
proof -
  have "ReSplit is_nl ((''Action: '' @ name) @ CHR 0x0A # (''Action Input: '' @ args)) =
      ReSplit is_nl (''Action: '' @ name) @ ReSplit is_nl (''Action Input: '' @ args)"
    by (rule ReSplit_append) (use assms(3) in \<open>auto simp: is_nl_def\<close>)
  moreover have "ReSplit is_nl (''Action: '' @ name) = [''Action: '' @ name]"
    by (rule ReSplit_line) (use assms(3) in \<open>auto simp: is_nl_def\<close>)
  moreover have "ReSplit is_nl (''Action Input: '' @ args) = [''Action Input: '' @ args]"
    by (rule ReSplit_line) (use assms(3) in \<open>auto simp: is_nl_def\<close>)
  moreover have "ReSplit is_nl (th @ CHR 0x0A # ((''Action: '' @ name) @ CHR 0x0A # (''Action Input: '' @ args))) =
      ReSplit is_nl th @ ReSplit is_nl ((''Action: '' @ name) @ CHR 0x0A # (''Action Input: '' @ args))"
    by (rule ReSplit_append) (use Trim_fixed_ends [OF assms(1,2)] in \<open>auto simp: is_nl_def\<close>)
  ultimately show ?thesis by simp
qed

lemma react_fields:
  assumes "Trim th = th" and "IsNotBlankString th" and "\<forall>c \<in> set (name @ args). \<not> is_nl c"
    and "text_after ''Action: '' args = None"
  shows "action_fields default_react_options (th @ [CHR 0x0A] @ ''Action: '' @ name @ [CHR 0x0A] @ ''Action Input: '' @ args) = (name, args)"
proof -
  have "fold (scan_line default_react_options) [''Action: '' @ name, ''Action Input: '' @ args] found =
      scan_line default_react_options (''Action Input: '' @ args) (scan_line default_react_options (''Action: '' @ name) found)" for found
    by (simp only: fold_Cons fold_Nil comp_apply id_apply)
  then have "fold (scan_line default_react_options) [''Action: '' @ name, ''Action Input: '' @ args] found = (name, args)" for found
    by (subst (asm) scan_action_line) (simp only: scan_input_line [OF assms(4)])
  then show ?thesis by (simp only: action_fields_def react_lines [OF assms(1-3)] fold_append comp_apply)
qed

lemma react_thought_text:
  assumes "Trim th = th" and "IsNotBlankString th" and "text_after ''Action: '' th = None"
  shows "react_thought default_react_options (th @ [CHR 0x0A] @ ''Action: '' @ r) = th"
proof -
  have "find_pos ''Action: '' th 0 = -1" using assms(3) by (auto simp: text_after_def Let_def split: if_splits)
  then have "find_pos ''Action: '' (th @ CHR 0x0A # (''Action: '' @ r)) 0 = int (length th + 1)"
    by (subst find_pos_sep) simp_all
  then show ?thesis using assms(1,2)
    by (simp add: react_thought_def default_react_options_def Let_def Trim_snoc_newline nat_add_distrib)
qed

text \<open>
  C36: what the planner is shown of a thought that asks for a tool is parsed to the same thought, the tool
  and its input, if the thought is trimmed and not blank and holds no action token, and name and
  input are single lines of which the input holds no action token.
\<close>

theorem react_scratchpad_roundtrip:
  assumes "Trim th = th" and "IsNotBlankString th" and "text_after ''Action: '' th = None"
    and "IsNotBlankString name" and "\<forall>c \<in> set (name @ args). \<not> is_nl c" and "text_after ''Action: '' args = None"
    and "m = empty_message\<lparr>msg_content := th,
          tool_calls := [\<lparr>tc_id = ident, tc_is_function = False, fn_name = name, fn_arguments = args\<rparr>]\<rparr>"
  shows "\<exists>content. scratch_step (Thought (Continuation (Some m) cu)) = Inr content \<and>
    ReACT_ParseResult (ret ident) default_react_options content w = (Inr (Continuation (Some m) None), w)"
proof -
  let ?t = "th @ [CHR 0x0A] @ ''Action: '' @ name @ [CHR 0x0A] @ ''Action Input: '' @ args"
  have "scratch_step (Thought (Continuation (Some m) cu)) = Inr ?t"
    by (simp add: react_message_def assms(7))
  moreover have "ReACT_ParseResult (ret ident) default_react_options ?t w = (Inr (Continuation (Some m) None), w)"
    by (simp only: ReACT_ParseResult_def Let_def react_fields [OF assms(1,2,5,6)] react_thought_text [OF assms(1-3)])
      (simp add: assms(2,4,7))
  ultimately show ?thesis by blast
qed

theorem react_scratchpad_roundtrip_witness:
  "\<exists>content. scratch_step (Thought (Continuation (Some (empty_message\<lparr>msg_content := ''I look'',
        tool_calls := [\<lparr>tc_id = ''i'', tc_is_function = False, fn_name = ''find'', fn_arguments = ''{}''\<rparr>]\<rparr>)) None)) = Inr content \<and>
    fst (ReACT_ParseResult (ret ''i'') default_react_options content ()) =
      Inr (Continuation (Some (empty_message\<lparr>msg_content := ''I look'',
        tool_calls := [\<lparr>tc_id = ''i'', tc_is_function = False, fn_name = ''find'', fn_arguments = ''{}''\<rparr>]\<rparr>)) None)"
proof -
  have "Trim ''I look'' = ''I look''" by (simp add: Trim_def isspace_def)
  moreover have "IsNotBlankString ''I look''" "IsNotBlankString ''find''"
    by (simp_all add: IsNotBlankString_def IsBlankString_iff isspace_def)
  moreover have "text_after ''Action: '' ''I look'' = None" "text_after ''Action: '' ''{}'' = None"
    by (simp_all add: text_after_def)
  moreover have "\<forall>c \<in> set (''find'' @ ''{}''). \<not> is_nl c" by (simp add: is_nl_def)
  ultimately show ?thesis
    using react_scratchpad_roundtrip [of "''I look''" "''find''" "''{}''" _ "''i''" None "()"] by fastforce
qed

section \<open>The shape of a run\<close>

fun react_step_ok :: "AgentStep \<Rightarrow> bool" where
  "react_step_ok (Thought (Continuation (Some m) _)) = (length (tool_calls m) = 1)"
| "react_step_ok (Thought (Finish _)) = True"
| "react_step_ok (Observation obs) = (length (tool_messages obs) = 1)"
| "react_step_ok _ = False"

fun react_follows :: "AgentStep \<Rightarrow> AgentStep \<Rightarrow> bool" where
  "react_follows (Observation _) b = (\<exists>t. b = Thought t)"
| "react_follows (Thought (Continuation _ _)) b = (\<exists>obs. b = Observation obs)"
| "react_follows _ _ = False"

definition react_shape :: "AgentStep list \<Rightarrow> bool" where
  "react_shape steps \<longleftrightarrow> list_all react_step_ok steps \<and> (steps = [] \<or> (\<exists>t. hd steps = Thought t)) \<and> successively react_follows steps"

lemma react_shape_snoc:
  "react_shape (steps @ [s]) \<longleftrightarrow> react_shape steps \<and> react_step_ok s \<and>
    (if steps = [] then \<exists>t. s = Thought t else react_follows (last steps) s)"
  by (auto simp: react_shape_def successively_append_iff)

lemma ReACTPlanner_step:
  assumes "ReACTPlanner react_model render uuid state w = (Inr th, w')"
  shows "react_step_ok (Thought th)"
  using assms by (auto simp: ReACTPlanner_def ReACT_ParseResult_def Let_def split: if_splits elim!: bindE_InrE)

lemma ReACTWorker_step:
  assumes "ReACTWorker_Invoke uuid tks th w = (Inr obs, w')"
  shows "react_step_ok (Observation obs)"
  using assms by (auto simp: ReACTWorker_Invoke_def split: if_splits list.splits elim!: bindE_InrE)

interpretation react_machine: step_machine
    "ReACT_ResolveNextStep (ReACTPlanner react_model render uuid) (ReACTWorker_Invoke uuid tks)" react_shape
  for react_model :: "ReACTContext \<Rightarrow> ('w, string) eff" and render and uuid and tks :: "'w LocalFunctionToolkit list"
proof unfold_locales
  fix state w step state' w'
  assume r: "ReACT_ResolveNextStep (ReACTPlanner react_model render uuid) (ReACTWorker_Invoke uuid tks) state w = (Inr (step, state'), w')"
    and s: "react_shape (previous_steps state)"
  show "state' = add_step step state \<and> react_shape (previous_steps state')"
  proof (cases "previous_steps state = [] \<or> has_observation (last (previous_steps state))")
    case True
    with r obtain th where th: "ReACTPlanner react_model render uuid state w = (Inr th, w')"
      "step = Thought th" "state' = add_step step state"
      by (auto simp: ReACT_ResolveNextStep_def Let_def elim!: bindE_InrE)
    note ReACTPlanner_step [OF th(1)]
    moreover have "previous_steps state = [] \<or> react_follows (last (previous_steps state)) (Thought th)"
      using True by (cases "last (previous_steps state)") auto
    ultimately show ?thesis using th(2,3) s by (auto simp: react_shape_snoc)
  next
    case False
    with r obtain m cu obs where o: "last (previous_steps state) = Thought (Continuation (Some m) cu)"
      "ReACTWorker_Invoke uuid tks (Continuation (Some m) cu) w = (Inr obs, w')"
      "step = Observation obs" "state' = add_step step state"
      by (auto simp: ReACT_ResolveNextStep_def Let_def elim!: bindE_InrE
          split: AgentStep.splits AgentThought.splits option.splits)
    with False s ReACTWorker_step [OF o(2)] show ?thesis by (simp add: react_shape_snoc)
  qed
qed

text \<open>
  A run of the ReACT executor alternates between thoughts that ask for one tool and observations with
  one message, each state adds one step to the one before, and a stream that completes ends with an answer.
\<close>

theorem react_stream_shape:
  assumes "Stream (ReACT_ResolveNextStep (ReACTPlanner react_model render uuid) (ReACTWorker_Invoke uuid tks)) fuel state w = Some (out, r, w')"
    and "react_shape (previous_steps state)"
  shows "(\<forall>s \<in> set out. react_shape (previous_steps s)) \<and> grows_from state out \<and>
    (r = Inr () \<longrightarrow> (\<exists>answer. out \<noteq> [] \<and> last (previous_steps (last out)) = Thought (Finish answer)))"
proof -
  note st = react_machine.Stream_shape [OF assms]
  have "\<exists>answer. last (previous_steps (last out)) = Thought (Finish answer)" if "r = Inr ()"
  proof -
    from st that have o: "out \<noteq> []" "\<not> goes_on (last (previous_steps (last out)))" by auto
    with st have sh: "react_shape (previous_steps (last out))" by simp
    have ne: "previous_steps (last out) \<noteq> []"
    proof -
      obtain ss s where "out = ss @ [s]" using o(1) by (metis append_butlast_last_id)
      with st show ?thesis by (auto simp: grows_from_snoc)
    qed
    with sh have "react_step_ok (last (previous_steps (last out)))" by (auto simp: react_shape_def list_all_iff)
    with o(2) show ?thesis
      by (cases "last (previous_steps (last out))" rule: react_step_ok.cases) (auto simp: goes_on_def)
  qed
  with st show ?thesis by blast
qed

section \<open>Rounds\<close>

text \<open>In a state of this kind the planner is asked, and the scratch pad can be written.\<close>

definition awaits_plan :: "AgentState \<Rightarrow> bool" where
  "awaits_plan state \<longleftrightarrow> react_shape (previous_steps state) \<and>
     (previous_steps state = [] \<or> has_observation (last (previous_steps state))) \<and>
     IsNotBlankString (ExtractLatestPromptString (state_input state))"

lemma followed_step_written:
  assumes "react_step_ok s" and "\<nexists>f. s = Thought (Finish f)"
  shows "\<exists>c. scratch_step s = Inr c"
  using assms
proof (cases s rule: react_step_ok.cases)
  case (1 m)
  with assms(1) show ?thesis by (cases "tool_calls m") (auto simp: react_message_def)
next
  case (3 obs)
  with assms(1) show ?thesis by (cases "tool_messages obs") auto
qed auto

lemma scratch_written:
  assumes "react_shape steps" and "steps = [] \<or> has_observation (last steps)"
  shows "\<exists>parts. mapR scratch_step steps = Inr parts"
proof -
  have "\<exists>c. scratch_step s = Inr c" if s: "s \<in> set steps" for s
  proof (rule followed_step_written)
    show "react_step_ok s" using assms(1) s by (auto simp: react_shape_def list_all_iff)
    show "\<nexists>f. s = Thought (Finish f)"
    proof
      assume "\<exists>f. s = Thought (Finish f)"
      then obtain f where f: "s = Thought (Finish f)" by blast
      from s obtain xs ys where xy: "steps = xs @ s # ys" by (auto dest: split_list)
      show False
      proof (cases ys)
        case Nil
        with xy f assms(2) show False by simp
      next
        case (Cons y zs)
        with xy f assms(1) show False by (auto simp: react_shape_def successively_append_iff)
      qed
    qed
  qed
  then have "mapR scratch_step steps = Inr (map (\<lambda>s. SOME c. scratch_step s = Inr c) steps)"
    by (intro mapR_all_Inr) (metis (mono_tags, lifting) someI_ex)
  then show ?thesis by blast
qed

lemma ParseInput_returns:
  "awaits_plan state \<Longrightarrow> \<exists>context. ReACT_ParseInput render state w = (Inr context, w)"
  using scratch_written [of "previous_steps state"]
  by (auto simp: awaits_plan_def ReACT_ParseInput_def Let_def)

definition asks_tool :: "string \<Rightarrow> bool" where
  "asks_tool content \<longleftrightarrow> IsNotBlankString (fst (action_fields default_react_options content)) \<and>
     IsNotBlankString (react_thought default_react_options content)"

definition asked_call :: "string \<Rightarrow> string \<Rightarrow> ToolCallObject" where
  "asked_call ident content = \<lparr>tc_id = ident, tc_is_function = False, fn_name = fst (action_fields default_react_options content),
     fn_arguments = snd (action_fields default_react_options content)\<rparr>"

definition asked :: "string \<Rightarrow> string \<Rightarrow> AgentThought" where
  "asked ident content = Continuation (Some (empty_message\<lparr>msg_content := react_thought default_react_options content,
     tool_calls := [asked_call ident content]\<rparr>)) None"

definition answered :: "string \<Rightarrow> AgentThought" where
  "answered content = Finish (empty_finish\<lparr>response := final_answer default_react_options content\<rparr>)"

lemma parse_asks: "asks_tool content \<Longrightarrow> uuid w = (Inr ident, w') \<Longrightarrow>
    ReACT_ParseResult uuid default_react_options content w = (Inr (asked ident content), w')"
  by (simp add: ReACT_ParseResult_def asks_tool_def asked_def asked_call_def Let_def bindE_def)

lemma parse_answers: "\<not> asks_tool content \<Longrightarrow> IsNotBlankString (final_answer default_react_options content) \<Longrightarrow>
    ReACT_ParseResult uuid default_react_options content w = (Inr (answered content), w)"
  by (auto simp: ReACT_ParseResult_def asks_tool_def answered_def Let_def)

lemma react_plan_step:
  assumes "awaits_plan state"
  shows "\<exists>ctx. \<forall>content w1 th w2. react_model ctx w = (Inr content, w1) \<longrightarrow>
    ReACT_ParseResult uuid default_react_options content w1 = (Inr th, w2) \<longrightarrow>
    ReACT_ResolveNextStep (ReACTPlanner react_model render uuid) worker state w =
      (Inr (Thought th, add_step (Thought th) state), w2)"
proof -
  obtain ctx where c: "ReACT_ParseInput render state w = (Inr ctx, w)"
    using ParseInput_returns [OF assms, where render = render and w = w] by auto
  show ?thesis
  proof (intro exI [of _ ctx] allI impI)
    fix content w1 th w2
    assume "react_model ctx w = (Inr content, w1)" "ReACT_ParseResult uuid default_react_options content w1 = (Inr th, w2)"
    with c have "ReACTPlanner react_model render uuid state w = (Inr th, w2)"
      by (simp add: ReACTPlanner_def bindE_def)
    with assms show "ReACT_ResolveNextStep (ReACTPlanner react_model render uuid) worker state w =
        (Inr (Thought th, add_step (Thought th) state), w2)"
      by (auto simp: ReACT_ResolveNextStep_def awaits_plan_def bindE_def)
  qed
qed

text \<open>A planner whose model always gives the same request.\<close>

lemma plan_asks:
  assumes "awaits_plan state" and "\<And>c w. \<exists>w'. react_model c w = (Inr content, w')" and "asks_tool content"
    and "\<And>w. \<exists>ident w'. uuid w = (Inr ident, w') \<and> served tks (asked_call ident content)"
  shows "\<exists>ident w'. served tks (asked_call ident content) \<and>
    ReACT_ResolveNextStep (ReACTPlanner react_model render uuid) worker state w =
      (Inr (Thought (asked ident content), add_step (Thought (asked ident content)) state), w')"
proof -
  obtain ctx where step: "\<forall>content w1 th w2. react_model ctx w = (Inr content, w1) \<longrightarrow>
      ReACT_ParseResult uuid default_react_options content w1 = (Inr th, w2) \<longrightarrow>
      ReACT_ResolveNextStep (ReACTPlanner react_model render uuid) worker state w =
        (Inr (Thought th, add_step (Thought th) state), w2)"
    using react_plan_step [where react_model = react_model and uuid = uuid and render = render and w = w and worker = worker, OF assms(1)] by blast
  obtain w1 where w1: "react_model ctx w = (Inr content, w1)" using assms(2) by blast
  obtain ident w2 where w2: "uuid w1 = (Inr ident, w2)" "served tks (asked_call ident content)" using assms(4) by blast
  show ?thesis using step w1 parse_asks [where uuid = uuid, OF assms(3) w2(1)] w2(2) by blast
qed

lemma react_work_step:
  assumes "previous_steps state \<noteq> []" and "last (previous_steps state) = Thought (asked ident content)"
    and "served tks (asked_call ident content)" and "tame tks"
  shows "\<exists>obs w'. invoke_first uuid tks (asked_call ident content) w = (Inr obs, w') \<and>
    (let step = Observation \<lparr>tool_messages = [empty_message\<lparr>msg_content := return_value obs, tool_call_id := invocation_id obs\<rparr>],
                              observation_custom = None\<rparr>
     in ReACT_ResolveNextStep planner (ReACTWorker_Invoke uuid tks) state w = (Inr (step, add_step step state), w'))"
proof -
  obtain r w' where "invoke_first uuid tks (asked_call ident content) w = (Inr r, w')" "\<not> has_error r"
    using invoke_first_answers [OF assms(3,4), of uuid] unfolding answers_def by blast
  with assms(1,2) show ?thesis
    by (intro exI [of _ r] exI [of _ w'])
      (simp add: ReACT_ResolveNextStep_def asked_def ReACTWorker_Invoke_def react_message_def bindE_def Let_def)
qed

section \<open>No bound on the number of rounds\<close>

text \<open>\<open>max_react_loop\<close> is not read: a model that keeps asking for a tool keeps the loop running.\<close>

definition busy :: "'w LocalFunctionToolkit list \<Rightarrow> string \<Rightarrow> AgentStep \<Rightarrow> AgentState \<Rightarrow> bool" where
  "busy tks content step state \<longleftrightarrow> react_shape (previous_steps state) \<and> previous_steps state \<noteq> [] \<and>
     last (previous_steps state) = step \<and> IsNotBlankString (ExtractLatestPromptString (state_input state)) \<and>
     (has_observation step \<or> (\<exists>ident. step = Thought (asked ident content) \<and> served tks (asked_call ident content)))"

lemma state_input_add_step [simp]: "state_input (add_step s st) = state_input st"
  by (simp add: add_step_def)

lemma busy_goes_on: "busy tks content step state \<Longrightarrow> goes_on step"
  by (auto simp: busy_def goes_on_def asked_def)

lemma awaits_plan_busy:
  assumes "awaits_plan state" and "served tks (asked_call ident content)"
  shows "busy tks content (Thought (asked ident content)) (add_step (Thought (asked ident content)) state)"
proof -
  have "previous_steps state = [] \<or> react_follows (last (previous_steps state)) (Thought (asked ident content))"
    using assms(1) by (cases "last (previous_steps state)") (auto simp: awaits_plan_def)
  with assms show ?thesis by (auto simp: busy_def awaits_plan_def react_shape_snoc asked_def)
qed

lemma busy_resolve:
  assumes "\<And>c w. \<exists>w'. react_model c w = (Inr content, w')" and "asks_tool content" and "tame tks"
    and "\<And>w. \<exists>ident w'. uuid w = (Inr ident, w') \<and> served tks (asked_call ident content)" and "busy tks content step state"
  shows "\<exists>step' state' w'. ReACT_ResolveNextStep (ReACTPlanner react_model render uuid) (ReACTWorker_Invoke uuid tks) state w =
    (Inr (step', state'), w') \<and> busy tks content step' state'"
proof (cases "has_observation step")
  case True
  with assms(5) have aw: "awaits_plan state" by (auto simp: busy_def awaits_plan_def)
  show ?thesis using plan_asks [where react_model = react_model and uuid = uuid and tks = tks and render = render and w = w
      and worker = "ReACTWorker_Invoke uuid tks", OF aw assms(1,2,4)] awaits_plan_busy [OF aw] by blast
next
  case False
  with assms(5) obtain ident where "step = Thought (asked ident content)" "served tks (asked_call ident content)"
    by (auto simp: busy_def)
  moreover from this assms(5) have "previous_steps state \<noteq> []" "last (previous_steps state) = Thought (asked ident content)"
    by (auto simp: busy_def)
  ultimately obtain obs w' where "ReACT_ResolveNextStep (ReACTPlanner react_model render uuid) (ReACTWorker_Invoke uuid tks) state w =
      (Inr (Observation \<lparr>tool_messages = [obs], observation_custom = None\<rparr>,
            add_step (Observation \<lparr>tool_messages = [obs], observation_custom = None\<rparr>) state), w')"
    using react_work_step [of state ident content tks uuid w "ReACTPlanner react_model render uuid"] assms(3) by (auto simp: Let_def)
  moreover have "busy tks content (Observation \<lparr>tool_messages = [obs], observation_custom = None\<rparr>)
      (add_step (Observation \<lparr>tool_messages = [obs], observation_custom = None\<rparr>) state)"
    using assms(5) False by (auto simp: busy_def react_shape_snoc asked_def)
  ultimately show ?thesis by blast
qed

lemma busy_forever:
  assumes "\<And>c w. \<exists>w'. react_model c w = (Inr content, w')" and "asks_tool content" and "tame tks"
    and "\<And>w. \<exists>ident w'. uuid w = (Inr ident, w') \<and> served tks (asked_call ident content)" and "busy tks content step state"
  shows "Stream_loop (ReACT_ResolveNextStep (ReACTPlanner react_model render uuid) (ReACTWorker_Invoke uuid tks)) fuel step state out w = None"
  using assms(5)
proof (induction fuel arbitrary: step state out w)
  case 0
  with busy_goes_on show ?case by (subst Stream_loop.simps) auto
next
  case (Suc fuel)
  obtain step' state' w' where "ReACT_ResolveNextStep (ReACTPlanner react_model render uuid) (ReACTWorker_Invoke uuid tks) state w =
      (Inr (step', state'), w')" "busy tks content step' state'"
    using busy_resolve [where react_model = react_model and uuid = uuid and tks = tks and render = render and w = w, OF assms(1-4) Suc.prems] by blast
  with Suc.IH busy_goes_on [OF Suc.prems] show ?case by (subst Stream_loop.simps) simp
qed

text \<open>
  the executor has no bound on its rounds: with a model whose every answer asks for a tool that is served,
  the stream does not end, whatever the number of steps it is given.
\<close>

theorem react_never_stops:
  assumes "\<And>c w. \<exists>w'. react_model c w = (Inr content, w')" and "asks_tool content" and "tame tks"
    and "\<And>w. \<exists>ident w'. uuid w = (Inr ident, w') \<and> served tks (asked_call ident content)"
    and "IsNotBlankString (ExtractLatestPromptString input)"
  shows "Stream (ReACT_ResolveNextStep (ReACTPlanner react_model render uuid) (ReACTWorker_Invoke uuid tks)) fuel
    (ReACT_InitializeState tks input) w = None"
proof -
  let ?st = "ReACT_InitializeState tks input"
  have aw: "awaits_plan ?st"
    using assms(5) by (simp add: awaits_plan_def ReACT_InitializeState_def InitializeState_def react_shape_def)
  obtain ident w2 where "served tks (asked_call ident content)"
      "ReACT_ResolveNextStep (ReACTPlanner react_model render uuid) (ReACTWorker_Invoke uuid tks) ?st w =
        (Inr (Thought (asked ident content), add_step (Thought (asked ident content)) ?st), w2)"
    using plan_asks [where react_model = react_model and uuid = uuid and tks = tks and render = render and w = w
      and worker = "ReACTWorker_Invoke uuid tks", OF aw assms(1,2,4)] by blast
  with busy_forever [where react_model = react_model and uuid = uuid and tks = tks, OF assms(1-4) awaits_plan_busy [OF aw]]
  show ?thesis by (simp add: Stream_def)
qed

lemma served_tool_witness:
  "served [pure_toolkit [(''find'', Inr)] :: 'w LocalFunctionToolkit] (asked_call ''i'' (''I look'' @ [CHR 0x0A] @ ''Action: '' @ ''find'' @ [CHR 0x0A] @ ''Action Input: '' @ ''{}''))"
  "asks_tool (''I look'' @ [CHR 0x0A] @ ''Action: '' @ ''find'' @ [CHR 0x0A] @ ''Action Input: '' @ ''{}'')"
proof -
  let ?c = "''I look'' @ [CHR 0x0A] @ ''Action: '' @ ''find'' @ [CHR 0x0A] @ ''Action Input: '' @ ''{}''"
  have th: "Trim ''I look'' = ''I look''" "IsNotBlankString ''I look''" "IsNotBlankString ''find''"
    by (simp_all add: Trim_def isspace_def IsNotBlankString_def IsBlankString_iff)
  have f: "action_fields default_react_options ?c = (''find'', ''{}'')"
    by (rule react_fields [OF th(1,2)]) (simp_all add: is_nl_def text_after_def)
  have t: "react_thought default_react_options ?c = ''I look''"
    by (rule react_thought_text [OF th(1,2)]) (simp add: text_after_def)
  show "asks_tool ?c" using th by (simp only: asks_tool_def f t fst_conv)
  have "functions_map (pure_toolkit [(''find'', Inr)] :: 'w LocalFunctionToolkit) ''find'' = Some (pure_tool (''find'', Inr))"
    by (simp add: pure_toolkit_def CreateLocalToolkit_def RegisterFunctionTool_def new_toolkit_def pure_tool_def Let_def)
  then show "served [pure_toolkit [(''find'', Inr)] :: 'w LocalFunctionToolkit] (asked_call ''i'' ?c)"
    unfolding asked_call_def f using th(3) by (simp add: served_def IsBlankString_iff isspace_def)
qed

lemma pure_toolkit_tame: "tame [pure_toolkit fs :: 'w LocalFunctionToolkit]"
  by (auto simp: tame_def tame_tool_def pure_tool_def dest!: pure_toolkit_lookup split: sum.splits)

theorem react_never_stops_witness:
  "Stream (ReACT_ResolveNextStep
     (ReACTPlanner (\<lambda>_. ret (''I look'' @ [CHR 0x0A] @ ''Action: '' @ ''find'' @ [CHR 0x0A] @ ''Action Input: '' @ ''{}'')) (\<lambda>_. []) (ret ''i''))
     (ReACTWorker_Invoke (ret ''i'') [pure_toolkit [(''find'', Inr)]])) 1000
     (ReACT_InitializeState [pure_toolkit [(''find'', Inr)] :: unit LocalFunctionToolkit] (StringPrompt ''q'')) () = None"
  by (rule react_never_stops [OF _ served_tool_witness(2) pure_toolkit_tame])
    (use served_tool_witness(1) in \<open>simp_all add: IsNotBlankString_def IsBlankString_iff isspace_def\<close>)

section \<open>A final answer ends the run\<close>

text \<open>A model that gives the answers of a list one after another.\<close>

definition next_reply :: "ReACTContext \<Rightarrow> (string list, string) eff" where
  "next_reply c w = (case w of [] \<Rightarrow> (Inl OutOfRange, w) | r # rs \<Rightarrow> (Inr r, rs))"

definition keeps_world :: "'w LocalFunctionToolkit list \<Rightarrow> bool" where
  "keeps_world tks \<longleftrightarrow> (\<forall>tk \<in> set tks. \<forall>n tool a w. functions_map tk n = Some tool \<longrightarrow> snd (Execute tool a w) = w)"

lemma invoke_first_keeps_world:
  assumes "keeps_world tks" and "invoke_first (ret ident) tks call w = (r, w')"
  shows "w' = w"
proof -
  have "preserves (\<lambda>s. s = w) (invoke_first (ret ident) tks call)"
    by (rule preserves_invoke_first) (use assms(1) in \<open>auto simp: keeps_world_def preserves_def intro: eff_rules\<close>)
  from preservesD [OF this refl assms(2)] show ?thesis .
qed

lemma scripted_plan:
  assumes "awaits_plan state" and "ReACT_ParseResult (ret ident) default_react_options reply replies = (Inr th, replies)"
  shows "ReACT_ResolveNextStep (ReACTPlanner next_reply render (ret ident)) worker state (reply # replies) =
    (Inr (Thought th, add_step (Thought th) state), replies)"
proof -
  obtain ctx where step: "\<forall>content w1 th w2. next_reply ctx (reply # replies) = (Inr content, w1) \<longrightarrow>
      ReACT_ParseResult (ret ident) default_react_options content w1 = (Inr th, w2) \<longrightarrow>
      ReACT_ResolveNextStep (ReACTPlanner next_reply render (ret ident)) worker state (reply # replies) =
        (Inr (Thought th, add_step (Thought th) state), w2)"
    using react_plan_step [where react_model = next_reply and uuid = "ret ident" and render = render
          and w = "reply # replies" and worker = worker, OF assms(1)] by blast
  have "next_reply ctx (reply # replies) = (Inr reply, replies)" by (simp add: next_reply_def)
  with step assms(2) show ?thesis by blast
qed

abbreviation "scripted_resolve render ident tks \<equiv>
  ReACT_ResolveNextStep (ReACTPlanner next_reply render (ret ident)) (ReACTWorker_Invoke (ret ident) tks)"

lemma observed_awaits_plan:
  assumes "busy tks content (Thought (asked ident content)) state"
  shows "awaits_plan (add_step (Observation \<lparr>tool_messages = [m], observation_custom = cu\<rparr>) state)"
  using assms by (auto simp: busy_def awaits_plan_def react_shape_snoc asked_def)

lemma scripted_round:
  assumes "awaits_plan state" and "asks_tool reply" and "served tks (asked_call ident reply)" and "tame tks" and "keeps_world tks"
  shows "\<exists>obs. let asking = add_step (Thought (asked ident reply)) state; state' = add_step (Observation obs) asking in
    scripted_resolve render ident tks state (reply # replies) = (Inr (Thought (asked ident reply), asking), replies) \<and>
    scripted_resolve render ident tks asking replies = (Inr (Observation obs, state'), replies) \<and> awaits_plan state'"
proof -
  let ?asking = "add_step (Thought (asked ident reply)) state"
  have p: "scripted_resolve render ident tks state (reply # replies) = (Inr (Thought (asked ident reply), ?asking), replies)"
    by (rule scripted_plan [OF assms(1)]) (simp add: parse_asks [OF assms(2)])
  obtain r w' where i: "invoke_first (ret ident) tks (asked_call ident reply) replies = (Inr r, w')"
      "scripted_resolve render ident tks ?asking replies = (Inr (Observation \<lparr>tool_messages = [empty_message\<lparr>msg_content := return_value r, tool_call_id := invocation_id r\<rparr>], observation_custom = None\<rparr>,
        add_step (Observation \<lparr>tool_messages = [empty_message\<lparr>msg_content := return_value r, tool_call_id := invocation_id r\<rparr>], observation_custom = None\<rparr>) ?asking), w')"
    using react_work_step [of ?asking ident reply tks "ret ident" replies "ReACTPlanner next_reply render (ret ident)", OF _ _ assms(3,4)]
    by (auto simp: Let_def)
  have w: "w' = replies" by (rule invoke_first_keeps_world [OF assms(5) i(1)])
  have "busy tks reply (Thought (asked ident reply)) ?asking" by (rule awaits_plan_busy [OF assms(1,3)])
  note observed_awaits_plan [OF this]
  with p i(2) w show ?thesis
    by (intro exI [of _ "\<lparr>tool_messages = [empty_message\<lparr>msg_content := return_value r, tool_call_id := invocation_id r\<rparr>], observation_custom = None\<rparr>"])
      (simp add: Let_def del: ret_apply)
qed

lemma Stream_step: "resolve state w = (Inr (step, state'), w') \<Longrightarrow>
    Stream resolve fuel state w = Stream_loop resolve fuel step state' [state'] w'"
  by (simp add: Stream_def)

lemma Stream_loop_step: "goes_on step \<Longrightarrow> resolve state w = (Inr (step', state'), w') \<Longrightarrow>
    Stream_loop resolve (Suc fuel) step state out w = Stream_loop resolve fuel step' state' (out @ [state']) w'"
  by (subst Stream_loop.simps) simp

lemma Stream_loop_stop: "\<not> goes_on step \<Longrightarrow> Stream_loop resolve fuel step state out w = Some (out, Inr (), w)"
  by (subst Stream_loop.simps) simp

lemma not_goes_on_answered: "\<not> goes_on (Thought (answered content))"
  by (simp add: answered_def goes_on_def)

lemma awaits_goes_on: "awaits_plan state \<Longrightarrow> previous_steps state \<noteq> [] \<Longrightarrow> goes_on (last (previous_steps state))"
  by (auto simp: awaits_plan_def goes_on_def)

lemma scripted_loop_finishes:
  assumes "\<forall>reply \<in> set replies. asks_tool reply \<and> served tks (asked_call ident reply)" and "tame tks" and "keeps_world tks"
    and "\<not> asks_tool final" and "IsNotBlankString (final_answer default_react_options final)"
    and "awaits_plan state" and "previous_steps state \<noteq> []"
  shows "\<exists>out'. Stream_loop (scripted_resolve render ident tks) (2 * length replies + 1) (last (previous_steps state)) state out
      (replies @ [final]) = Some (out', Inr (), []) \<and> out' \<noteq> [] \<and> last (previous_steps (last out')) = Thought (answered final)"
  using assms(1,6,7)
proof (induction replies arbitrary: state out)
  case Nil
  have "scripted_resolve render ident tks state [final] = (Inr (Thought (answered final), add_step (Thought (answered final)) state), [])"
    by (rule scripted_plan [OF Nil.prems(2)]) (rule parse_answers [OF assms(4,5)])
  from Stream_loop_step [where resolve = "scripted_resolve render ident tks", OF awaits_goes_on [OF Nil.prems(2,3)] this, of 0 out]
  show ?case by (simp add: Stream_loop_stop not_goes_on_answered del: ret_apply)
next
  case (Cons reply replies)
  from Cons.prems(1) have a: "asks_tool reply" "served tks (asked_call ident reply)" by simp_all
  let ?asking = "add_step (Thought (asked ident reply)) state"
  from scripted_round [OF Cons.prems(2) a assms(2,3), of render "replies @ [final]"]
  obtain obs where r: "scripted_resolve render ident tks state (reply # replies @ [final]) =
        (Inr (Thought (asked ident reply), ?asking), replies @ [final])"
      "scripted_resolve render ident tks ?asking (replies @ [final]) =
        (Inr (Observation obs, add_step (Observation obs) ?asking), replies @ [final])"
      "awaits_plan (add_step (Observation obs) ?asking)" by (auto simp: Let_def)
  let ?st = "add_step (Observation obs) ?asking"
  have "goes_on (Thought (asked ident reply))" by (simp add: goes_on_def asked_def)
  from Stream_loop_step [where resolve = "scripted_resolve render ident tks", OF this r(2)]
    Stream_loop_step [where resolve = "scripted_resolve render ident tks", OF awaits_goes_on [OF Cons.prems(2,3)] r(1)]
  have "Stream_loop (scripted_resolve render ident tks) (Suc (Suc (2 * length replies + 1))) (last (previous_steps state)) state out
      (reply # replies @ [final]) =
      Stream_loop (scripted_resolve render ident tks) (2 * length replies + 1) (Observation obs) ?st ((out @ [?asking]) @ [?st])
        (replies @ [final])" by (simp only:)
  moreover have "\<exists>out'. Stream_loop (scripted_resolve render ident tks) (2 * length replies + 1) (last (previous_steps ?st)) ?st (out @ [?asking, ?st])
        (replies @ [final]) = Some (out', Inr (), []) \<and> out' \<noteq> [] \<and> last (previous_steps (last out')) = Thought (answered final)"
    by (rule Cons.IH) (use Cons.prems(1) r(3) in simp_all)
  ultimately show ?case by (simp del: ret_apply)
qed

text \<open>
  When the model asks for served tools a number of times and then gives a final answer, the run takes
  two steps for each request and one more, and ends with that answer.
\<close>

theorem react_run_finishes:
  assumes "\<forall>reply \<in> set replies. asks_tool reply \<and> served tks (asked_call ident reply)" and "tame tks" and "keeps_world tks"
    and "\<not> asks_tool final" and "IsNotBlankString (final_answer default_react_options final)"
    and "IsNotBlankString (ExtractLatestPromptString input)"
  shows "\<exists>out. Stream (ReACT_ResolveNextStep (ReACTPlanner next_reply render (ret ident)) (ReACTWorker_Invoke (ret ident) tks))
      (2 * length replies) (ReACT_InitializeState tks input) (replies @ [final]) = Some (out, Inr (), []) \<and> out \<noteq> [] \<and>
    last (previous_steps (last out)) = Thought (Finish (empty_finish\<lparr>response := final_answer default_react_options final\<rparr>))"
proof -
  let ?init = "ReACT_InitializeState tks input"
  have aw: "awaits_plan ?init"
    using assms(6) by (simp add: awaits_plan_def ReACT_InitializeState_def InitializeState_def react_shape_def)
  show ?thesis
  proof (cases replies)
    case Nil
    have "scripted_resolve render ident tks ?init [final] = (Inr (Thought (answered final), add_step (Thought (answered final)) ?init), [])"
      by (rule scripted_plan [OF aw]) (rule parse_answers [OF assms(4,5)])
    from Stream_step [where resolve = "scripted_resolve render ident tks", OF this, of 0] Nil show ?thesis
      by (simp add: Stream_loop_stop not_goes_on_answered answered_def [symmetric] del: ret_apply)
  next
    case (Cons reply rest)
    from assms(1) Cons have a: "asks_tool reply" "served tks (asked_call ident reply)" by simp_all
    let ?asking = "add_step (Thought (asked ident reply)) ?init"
    from scripted_round [OF aw a assms(2,3), of render "rest @ [final]"]
    obtain obs where r: "scripted_resolve render ident tks ?init (reply # rest @ [final]) =
          (Inr (Thought (asked ident reply), ?asking), rest @ [final])"
        "scripted_resolve render ident tks ?asking (rest @ [final]) =
          (Inr (Observation obs, add_step (Observation obs) ?asking), rest @ [final])"
        "awaits_plan (add_step (Observation obs) ?asking)" by (auto simp: Let_def)
    let ?st = "add_step (Observation obs) ?asking"
    have "goes_on (Thought (asked ident reply))" by (simp add: goes_on_def asked_def)
    from Stream_loop_step [where resolve = "scripted_resolve render ident tks", OF this r(2)]
      Stream_step [where resolve = "scripted_resolve render ident tks", OF r(1)]
    have "Stream (scripted_resolve render ident tks) (Suc (2 * length rest + 1)) ?init (reply # rest @ [final]) =
        Stream_loop (scripted_resolve render ident tks) (2 * length rest + 1) (Observation obs) ?st ([?asking] @ [?st]) (rest @ [final])"
      by (simp only:)
    moreover have "\<exists>out'. Stream_loop (scripted_resolve render ident tks) (2 * length rest + 1) (last (previous_steps ?st)) ?st [?asking, ?st]
        (rest @ [final]) = Some (out', Inr (), []) \<and> out' \<noteq> [] \<and> last (previous_steps (last out')) = Thought (answered final)"
      by (rule scripted_loop_finishes) (use assms Cons r(3) in simp_all)
    ultimately show ?thesis using Cons by (simp add: answered_def del: ret_apply)
  qed
qed

theorem react_run_finishes_witness:
  "\<exists>out. Stream (ReACT_ResolveNextStep (ReACTPlanner next_reply (\<lambda>_. []) (ret ''i''))
        (ReACTWorker_Invoke (ret ''i'') [pure_toolkit [(''find'', Inr)]])) 2
      (ReACT_InitializeState [pure_toolkit [(''find'', Inr)] :: string list LocalFunctionToolkit] (StringPrompt ''q''))
      [''I look'' @ [CHR 0x0A] @ ''Action: '' @ ''find'' @ [CHR 0x0A] @ ''Action Input: '' @ ''{}'', ''Final Answer: 42''] =
      Some (out, Inr (), []) \<and> out \<noteq> [] \<and>
    last (previous_steps (last out)) = Thought (Finish (empty_finish\<lparr>response := ''42''\<rparr>))"
proof -
  have f: "\<not> asks_tool ''Final Answer: 42''" "final_answer default_react_options ''Final Answer: 42'' = ''42''"
    by (simp_all add: asks_tool_def react_thought_def final_answer_def text_after_def default_react_options_def IsNotBlankString_def)
  have k: "keeps_world [pure_toolkit [(''find'', Inr)] :: string list LocalFunctionToolkit]"
    by (auto simp: keeps_world_def pure_tool_def dest!: pure_toolkit_lookup)
  from react_run_finishes [where replies = "[''I look'' @ [CHR 0x0A] @ ''Action: '' @ ''find'' @ [CHR 0x0A] @ ''Action Input: '' @ ''{}'']"
      and final = "''Final Answer: 42''" and input = "StringPrompt ''q''" and render = "\<lambda>_. []" and ident = "''i''",
      OF _ pure_toolkit_tame k f(1)] served_tool_witness f(2)
  show ?thesis by (simp add: IsNotBlankString_def IsBlankString_iff isspace_def)
qed

theorem react_stream_shape_witness:
  "react_shape (previous_steps (ReACT_InitializeState ([] :: string list LocalFunctionToolkit list) (StringPrompt ''q''))) \<and>
   (\<exists>out. Stream (ReACT_ResolveNextStep (ReACTPlanner next_reply (\<lambda>_. []) (ret ''i'')) (ReACTWorker_Invoke (ret ''i'') [])) 0
      (ReACT_InitializeState ([] :: string list LocalFunctionToolkit list) (StringPrompt ''q'')) [''Final Answer: 42''] = Some (out, Inr (), []) \<and>
    list_all (\<lambda>s. react_shape (previous_steps s)) out)"
proof -
  let ?init = "ReACT_InitializeState ([] :: string list LocalFunctionToolkit list) (StringPrompt ''q'')"
  have sh: "react_shape (previous_steps ?init)" by (simp add: ReACT_InitializeState_def InitializeState_def react_shape_def)
  have aw: "awaits_plan ?init"
    by (simp add: awaits_plan_def ReACT_InitializeState_def InitializeState_def react_shape_def IsNotBlankString_def IsBlankString_iff isspace_def)
  have "ReACT_ParseResult (ret ''i'') default_react_options ''Final Answer: 42'' ([] :: string list) = (Inr (answered ''Final Answer: 42''), [])"
    by (rule parse_answers) (simp_all add: asks_tool_def react_thought_def final_answer_def text_after_def
        default_react_options_def IsNotBlankString_def IsBlankString_iff isspace_def)
  from Stream_step [where resolve = "scripted_resolve (\<lambda>_. []) ''i'' []", OF scripted_plan [where render = "\<lambda>_. []" and worker = "ReACTWorker_Invoke (ret ''i'') []", OF aw this], of 0]
  have run: "Stream (scripted_resolve (\<lambda>_. []) ''i'' []) 0 ?init [''Final Answer: 42''] =
      Some ([add_step (Thought (answered ''Final Answer: 42'')) ?init], Inr (), [])"
    by (simp add: Stream_loop_stop not_goes_on_answered del: ret_apply)
  from react_stream_shape [OF run sh] sh run show ?thesis by (auto simp: list_all_iff)
qed

end
