(* ===== verification/Protobuf_Json.thy ===== *)
theory Protobuf_Json
  imports Str_Utils Complex_Main "HOL-Library.AList"
begin

text \<open>
  \<^verbatim>\<open>instinct-core/include/tools/ProtobufUtils.hpp\<close>: how messages become JSON objects.

  A message is the list of the fields of its descriptor, in that order, with what reflection says of
  each: whether \<open>HasField\<close> holds and the value it gets, the elements of a repeated field, the entries of a
  map. Integers of all widths are \<open>int\<close>, \<open>float\<close> and \<open>double\<close> are rationals. A message of the type
  \<open>google.protobuf.Struct\<close> is its map of values, one of type \<open>google.protobuf.Any\<close> its bytes, which the
  protobuf library prints (\<open>any_json\<close>).

  A JSON object that nothing was put into is \<open>null\<close>; it is the empty list of members here, and
  \<open>ordered_json\<close> keeps the order in which members were put in.
\<close>

section \<open>JSON\<close>

datatype ordered_json =
    ONull
  | OBool bool
  | OInt int
  | OFloat rat
  | OString string
  | OArray "ordered_json list"
  | OObject "(string \<times> ordered_json) list"

type_synonym members = "(string \<times> ordered_json) list"

definition object_of :: "members \<Rightarrow> ordered_json" where
  "object_of ms = (if ms = [] then ONull else OObject ms)"

text \<open>\<open>object[key] = v\<close>\<close>

definition put :: "string \<Rightarrow> ordered_json \<Rightarrow> members \<Rightarrow> members" where
  "put k v out = AList.update k v out"

text \<open>\<open>object[key].push_back(v)\<close> and \<open>object[key][sub] = v\<close>: the wrong kind of value is a type error of the library.\<close>

definition push_back :: "string \<Rightarrow> ordered_json \<Rightarrow> members \<Rightarrow> members result" where
  "push_back k v out =
     (case map_of out k of
        None \<Rightarrow> Inr (put k (OArray [v]) out)
      | Some ONull \<Rightarrow> Inr (put k (OArray [v]) out)
      | Some (OArray vs) \<Rightarrow> Inr (put k (OArray (vs @ [v])) out)
      | Some _ \<Rightarrow> Inl (RuntimeError ''type_error''))"

definition put_in :: "string \<Rightarrow> string \<Rightarrow> ordered_json \<Rightarrow> members \<Rightarrow> members result" where
  "put_in k sub v out =
     (case map_of out k of
        None \<Rightarrow> Inr (put k (OObject [(sub, v)]) out)
      | Some ONull \<Rightarrow> Inr (put k (OObject [(sub, v)]) out)
      | Some (OObject ms) \<Rightarrow> Inr (put k (OObject (put sub v ms)) out)
      | Some _ \<Rightarrow> Inl (RuntimeError ''type_error''))"

section \<open>Messages\<close>

datatype pb_scalar = PString string | PInt int | PFloat rat | PBool bool | PEnum int string

datatype pb_value =
    kind_not_set
  | null_value
  | number_value rat
  | string_value string
  | bool_value bool
  | struct_value "(string \<times> pb_value) list"
  | list_value "pb_value list"

datatype pb_message = PMessage "(string \<times> pb_field) list"
and pb_field =
    Scalar bool pb_scalar
  | RepeatedScalar "pb_scalar list"
  | SubMessage "pb_message option"
  | SubStruct "(string \<times> pb_value) list option"
  | SubAny "string option"
  | RepeatedMessage "pb_message list"
  | MessageMap "(string \<times> pb_message) list"
  | ScalarMap "(string \<times> pb_scalar) list"

section \<open>Structs\<close>

text \<open>
  The loop over a \<open>list_value\<close> asks the reflection of \<open>ListValue\<close> for the elements of
  \<open>value_message\<close>, which is of another type: its first round is undefined. \<open>None\<close> is the answer \<open>false\<close>.
\<close>

fun convert_value :: "pb_value \<Rightarrow> ordered_json option result"
and convert_struct :: "(string \<times> pb_value) list \<Rightarrow> members \<Rightarrow> members result" where
  "convert_value kind_not_set = Inr None"
| "convert_value null_value = Inr (Some ONull)"
| "convert_value (number_value d) = Inr (Some (OFloat d))"
| "convert_value (string_value s) = Inr (Some (OString s))"
| "convert_value (bool_value b) = Inr (Some (OBool b))"
| "convert_value (struct_value es) = bindR (convert_struct es []) (\<lambda>sub. Inr (Some (object_of sub)))"
| "convert_value (list_value vs) = (if vs = [] then Inr (Some ONull) else Inl UndefinedBehaviour)"
| "convert_struct [] out = Inr out"
| "convert_struct ((k, v) # es) out =
     bindR (convert_value v) (\<lambda>ok. convert_struct es (case ok of None \<Rightarrow> out | Some j \<Rightarrow> put k j out))"

section \<open>Fields and messages\<close>

fun scalar_json :: "pb_scalar \<Rightarrow> ordered_json" where
  "scalar_json (PString s) = OString s"
| "scalar_json (PInt i) = OInt i"
| "scalar_json (PFloat d) = OFloat d"
| "scalar_json (PBool b) = OBool b"
| "scalar_json (PEnum n name) = OString name"

fun not_default :: "pb_scalar \<Rightarrow> bool" where
  "not_default (PString s) = IsNotBlankString s"
| "not_default (PInt i) = (i \<noteq> 0)"
| "not_default (PFloat d) = (d \<noteq> 0)"
| "not_default (PBool b) = b"
| "not_default (PEnum n name) = (n \<noteq> 0)"

definition scalar_field :: "bool \<Rightarrow> string \<Rightarrow> bool \<Rightarrow> pb_scalar \<Rightarrow> members \<Rightarrow> members" where
  "scalar_field keep_default_values name has v out =
     (if keep_default_values \<or> has \<or> not_default v then put name (scalar_json v) out else out)"

fun repeated_scalar_field :: "string \<Rightarrow> pb_scalar list \<Rightarrow> members \<Rightarrow> members result" where
  "repeated_scalar_field name [] out = Inr out"
| "repeated_scalar_field name (v # vs) out = bindR (push_back name (scalar_json v) out) (repeated_scalar_field name vs)"

text \<open>
  The loops over fields, items and entries: each round changes the JSON object or throws. The last
  argument of the conversions is the JSON object that is filled.
\<close>

fun each :: "(members \<Rightarrow> members result) list \<Rightarrow> members \<Rightarrow> members result" where
  "each [] out = Inr out"
| "each (f # fs) out = bindR (f out) (each fs)"

primrec convert_message :: "(bool \<Rightarrow> string \<Rightarrow> ordered_json) \<Rightarrow> bool \<Rightarrow> pb_message \<Rightarrow> members \<Rightarrow> members result"
and convert_field :: "(bool \<Rightarrow> string \<Rightarrow> ordered_json) \<Rightarrow> bool \<Rightarrow> pb_field \<Rightarrow> string \<Rightarrow> members \<Rightarrow> members result" where
  "convert_message any_json keep (PMessage fs) =
     each (map (\<lambda>p. snd p (fst p)) (map (map_prod id (convert_field any_json keep)) fs))"
| "convert_field any_json keep (Scalar has v) = (\<lambda>name out. Inr (scalar_field keep name has v out))"
| "convert_field any_json keep (RepeatedScalar vs) = (\<lambda>name. repeated_scalar_field name vs)"
| "convert_field any_json keep (SubMessage m) = (\<lambda>name out.
     case map_option (convert_message any_json keep) m of
       None \<Rightarrow> Inr out
     | Some convert \<Rightarrow> bindR (convert []) (\<lambda>sub. Inr (put name (object_of sub) out)))"
| "convert_field any_json keep (SubStruct m) = (\<lambda>name out.
     case m of
       None \<Rightarrow> Inr out
     | Some es \<Rightarrow> bindR (convert_struct es []) (\<lambda>sub. Inr (put name (object_of sub) out)))"
| "convert_field any_json keep (SubAny m) = (\<lambda>name out.
     case m of None \<Rightarrow> Inr out | Some bytes \<Rightarrow> Inr (put name (any_json keep bytes) out))"
| "convert_field any_json keep (RepeatedMessage ms) = (\<lambda>name.
     each (map (\<lambda>convert out. bindR (convert []) (\<lambda>sub. push_back name (object_of sub) out))
            (map (convert_message any_json keep) ms)))"
| "convert_field any_json keep (MessageMap es) = (\<lambda>name.
     each (map (\<lambda>p out. bindR (snd p []) (\<lambda>sub. put_in name (fst p) (object_of sub) out))
            (map (map_prod id (convert_message any_json keep)) es)))"
| "convert_field any_json keep (ScalarMap es) = (\<lambda>name out. Inr out)"

definition ConvertMessageToJsonObject :: "(bool \<Rightarrow> string \<Rightarrow> ordered_json) \<Rightarrow> bool \<Rightarrow> pb_message \<Rightarrow> ordered_json result" where
  "ConvertMessageToJsonObject any_json keep_default_values message =
     bindR (convert_message any_json keep_default_values message []) (\<lambda>out. Inr (object_of out))"


section \<open>Through the JSON functions of the library\<close>

text \<open>
  The parser and the printer of the library are arguments; they give \<open>None\<close> for a status that is not ok. The
  text of the status, which the message of the first exception has, is left out.
\<close>

definition ConvertJSONObjectToMessage :: "(string \<Rightarrow> 'm option) \<Rightarrow> ('j \<Rightarrow> string) \<Rightarrow> 'j \<Rightarrow> 'm result" where
  "ConvertJSONObjectToMessage parse_json dump json_object =
     (case parse_json (dump json_object) of
        None \<Rightarrow> Inl (ClientException ''Protobuf function returned with error status'')
      | Some message \<Rightarrow> Inr message)"

definition Deserialize :: "(string \<Rightarrow> 'm option) \<Rightarrow> string \<Rightarrow> 'm result" where
  "Deserialize parse_json buf =
     (case parse_json buf of
        None \<Rightarrow> Inl (ClientException ''failed to parse protobuf message from response body'')
      | Some result \<Rightarrow> Inr result)"

definition Serialize :: "('m \<Rightarrow> string option) \<Rightarrow> 'm \<Rightarrow> string result" where
  "Serialize print_json obj =
     (case print_json obj of
        None \<Rightarrow> Inl (ClientException ''failed to dump parameters from protobuf message'')
      | Some param_string \<Rightarrow> Inr param_string)"

end
