(* ===== verification/Protobuf_Correct.thy ===== *)
theory Protobuf_Correct
  imports Protobuf_Json
begin

text \<open>
  What the conversion of messages to JSON guarantees: it gives every field that is present exactly one
  member with the meaning of its value, and two messages of a type that give the same JSON are equal.
\<close>

section \<open>What the JSON should be\<close>

definition member :: "string \<Rightarrow> ordered_json option \<Rightarrow> members" where
  "member k v = (case v of None \<Rightarrow> [] | Some j \<Rightarrow> [(k, j)])"

lemma member_simps [simp]: "member k None = []" "member k (Some j) = [(k, j)]"
  by (simp_all add: member_def)

primrec meant_value :: "pb_value \<Rightarrow> ordered_json option" where
  "meant_value kind_not_set = None"
| "meant_value null_value = Some ONull"
| "meant_value (number_value d) = Some (OFloat d)"
| "meant_value (string_value s) = Some (OString s)"
| "meant_value (bool_value b) = Some (OBool b)"
| "meant_value (struct_value es) = Some (object_of
     (concat (map (\<lambda>p. member (fst p) (snd p)) (map (map_prod id meant_value) es))))"
| "meant_value (list_value vs) = Some (OArray (concat (map (\<lambda>v. case v of None \<Rightarrow> [] | Some j \<Rightarrow> [j]) (map meant_value vs))))"

definition meant_members :: "('a \<Rightarrow> ordered_json option) \<Rightarrow> (string \<times> 'a) list \<Rightarrow> members" where
  "meant_members m es = concat (map (\<lambda>p. member (fst p) (m (snd p))) es)"

primrec meant_message :: "(bool \<Rightarrow> string \<Rightarrow> ordered_json) \<Rightarrow> bool \<Rightarrow> pb_message \<Rightarrow> members"
and meant_field :: "(bool \<Rightarrow> string \<Rightarrow> ordered_json) \<Rightarrow> bool \<Rightarrow> pb_field \<Rightarrow> ordered_json option" where
  "meant_message any_json keep (PMessage fs) =
     concat (map (\<lambda>p. member (fst p) (snd p)) (map (map_prod id (meant_field any_json keep)) fs))"
| "meant_field any_json keep (Scalar has v) = (if keep \<or> has \<or> not_default v then Some (scalar_json v) else None)"
| "meant_field any_json keep (RepeatedScalar vs) = (if vs = [] then None else Some (OArray (map scalar_json vs)))"
| "meant_field any_json keep (SubMessage m) = map_option object_of (map_option (meant_message any_json keep) m)"
| "meant_field any_json keep (SubStruct m) = map_option (\<lambda>es. object_of (meant_members meant_value es)) m"
| "meant_field any_json keep (SubAny m) = map_option (any_json keep) m"
| "meant_field any_json keep (RepeatedMessage ms) =
     (if ms = [] then None else Some (OArray (map object_of (map (meant_message any_json keep) ms))))"
| "meant_field any_json keep (MessageMap es) =
     (if es = [] then None else Some (OObject (map (map_prod id object_of) (map (map_prod id (meant_message any_json keep)) es))))"
| "meant_field any_json keep (ScalarMap es) = None"

text \<open>Names and keys are distinct, and no list value is anywhere.\<close>

primrec plain_value :: "pb_value \<Rightarrow> bool" where
  "plain_value kind_not_set = True"
| "plain_value null_value = True"
| "plain_value (number_value d) = True"
| "plain_value (string_value s) = True"
| "plain_value (bool_value b) = True"
| "plain_value (struct_value es) = (distinct (map fst es) \<and> list_all snd (map (map_prod id plain_value) es))"
| "plain_value (list_value vs) = False"

definition plain_struct :: "(string \<times> pb_value) list \<Rightarrow> bool" where
  "plain_struct es \<longleftrightarrow> distinct (map fst es) \<and> (\<forall>p \<in> set es. plain_value (snd p))"

primrec plain_message :: "pb_message \<Rightarrow> bool" and plain_field :: "pb_field \<Rightarrow> bool" where
  "plain_message (PMessage fs) = (distinct (map fst fs) \<and> list_all snd (map (map_prod id plain_field) fs))"
| "plain_field (Scalar has v) = True"
| "plain_field (RepeatedScalar vs) = True"
| "plain_field (SubMessage m) = (\<forall>b \<in> set_option (map_option plain_message m). b)"
| "plain_field (SubStruct m) = (\<forall>es \<in> set_option m. plain_struct es)"
| "plain_field (SubAny m) = True"
| "plain_field (RepeatedMessage ms) = list_all id (map plain_message ms)"
| "plain_field (MessageMap es) = (distinct (map fst es) \<and> list_all snd (map (map_prod id plain_message) es))"
| "plain_field (ScalarMap es) = True"

section \<open>Putting members\<close>

lemma put_fresh: "k \<notin> fst ` set out \<Longrightarrow> put k v out = out @ [(k, v)]"
  unfolding put_def by (induction out) auto

lemma put_last: "k \<notin> fst ` set out \<Longrightarrow> put k v (out @ [(k, x)]) = out @ [(k, v)]"
  unfolding put_def by (induction out) auto

lemma map_of_last: "k \<notin> fst ` set out \<Longrightarrow> map_of (out @ [(k, x)]) k = Some x"
  by (induction out) auto

lemma map_of_fresh: "k \<notin> fst ` set out \<Longrightarrow> map_of out k = None"
  by (simp add: map_of_eq_None_iff)

lemma push_back_fresh: "k \<notin> fst ` set out \<Longrightarrow> push_back k v out = Inr (out @ [(k, OArray [v])])"
  by (simp add: push_back_def map_of_fresh put_fresh)

lemma push_back_last: "k \<notin> fst ` set out \<Longrightarrow> push_back k v (out @ [(k, OArray vs)]) = Inr (out @ [(k, OArray (vs @ [v]))])"
  by (simp add: push_back_def map_of_last put_last del: map_of_append)

lemma put_in_fresh: "k \<notin> fst ` set out \<Longrightarrow> put_in k sub v out = Inr (out @ [(k, OObject [(sub, v)])])"
  by (simp add: put_in_def map_of_fresh put_fresh)

lemma put_in_last:
  "k \<notin> fst ` set out \<Longrightarrow> sub \<notin> fst ` set ms \<Longrightarrow> put_in k sub v (out @ [(k, OObject ms)]) = Inr (out @ [(k, OObject (ms @ [(sub, v)]))])"
  by (simp add: put_in_def map_of_last put_last put_fresh del: map_of_append)

lemma push_all_last: "k \<notin> fst ` set out \<Longrightarrow>
    each (map (\<lambda>v. push_back k v) vs) (out @ [(k, OArray ws)]) = Inr (out @ [(k, OArray (ws @ vs))])"
  by (induction vs arbitrary: ws) (simp_all add: push_back_last)

lemma push_all: "k \<notin> fst ` set out \<Longrightarrow>
    each (map (\<lambda>v. push_back k v) vs) out = Inr (if vs = [] then out else out @ [(k, OArray vs)])"
  by (cases vs) (simp_all add: push_back_fresh push_all_last)

lemma repeated_scalar_field_eq: "repeated_scalar_field k vs out = each (map (\<lambda>v. push_back k v) (map scalar_json vs)) out"
  by (induction vs arbitrary: out) (simp_all add: bindR_def split: sum.split)

lemma put_in_all_last: "k \<notin> fst ` set out \<Longrightarrow> distinct (map fst (ms @ es)) \<Longrightarrow>
    each (map (\<lambda>p. put_in k (fst p) (snd p)) es) (out @ [(k, OObject ms)]) = Inr (out @ [(k, OObject (ms @ es))])"
proof (induction es arbitrary: ms)
  case (Cons e es)
  then have "fst e \<notin> fst ` set ms" by auto
  with Cons show ?case by (simp add: put_in_last)
qed simp

lemma put_in_all: "k \<notin> fst ` set out \<Longrightarrow> distinct (map fst es) \<Longrightarrow>
    each (map (\<lambda>p. put_in k (fst p) (snd p)) es) out = Inr (if es = [] then out else out @ [(k, OObject es)])"
  by (cases es) (simp_all add: put_in_fresh put_in_all_last)

text \<open>Rounds that each add what they should to members with other names.\<close>

lemma each_adds:
  assumes "\<And>x out. x \<in> set xs \<Longrightarrow> name x \<notin> fst ` set out \<Longrightarrow>
      step x out = Inr (out @ member (name x) (meant x))"
    and "distinct (map name xs)" and "\<forall>x \<in> set xs. name x \<notin> fst ` set out"
  shows "each (map step xs) out = Inr (out @ concat (map (\<lambda>x. member (name x) (meant x)) xs))"
  using assms
proof (induction xs arbitrary: out)
  case (Cons x xs)
  let ?out = "out @ member (name x) (meant x)"
  have "step x out = Inr ?out" using Cons.prems by simp
  moreover have "each (map step xs) ?out = Inr (?out @ concat (map (\<lambda>x. member (name x) (meant x)) xs))"
  proof (rule Cons.IH)
    show "\<forall>y \<in> set xs. name y \<notin> fst ` set ?out"
    proof
      fix y assume "y \<in> set xs"
      with Cons.prems(2) have "name y \<noteq> name x" by (metis distinct.simps(2) image_eqI list.set_map list.simps(9))
      with Cons.prems(3) \<open>y \<in> set xs\<close> show "name y \<notin> fst ` set ?out" by (cases "meant x") auto
    qed
  qed (use Cons.prems in auto)
  ultimately show ?case by simp
qed simp

section \<open>The conversion gives what it should\<close>

lemma convert_struct_eq: "convert_struct es out =
    each (map (\<lambda>p out. bindR (convert_value (snd p)) (\<lambda>ok. Inr (case ok of None \<Rightarrow> out | Some j \<Rightarrow> put (fst p) j out))) es) out"
proof (induction es arbitrary: out)
  case (Cons p es)
  then show ?case by (cases p) (simp add: bindR_def cong: option.case_cong split: sum.split)
qed simp

lemma struct_adds:
  assumes "\<And>p. p \<in> set es \<Longrightarrow> convert_value (snd p) = Inr (meant_value (snd p))" and "distinct (map fst es)"
  shows "convert_struct es [] = Inr (meant_members meant_value es)"
proof -
  have "each (map (\<lambda>p out. bindR (convert_value (snd p)) (\<lambda>ok. Inr (case ok of None \<Rightarrow> out | Some j \<Rightarrow> put (fst p) j out))) es) [] =
      Inr ([] @ concat (map (\<lambda>p. member (fst p) (meant_value (snd p))) es))"
  proof (rule each_adds)
    fix p and out :: members assume "p \<in> set es" "fst p \<notin> fst ` set out"
    with assms(1) show "bindR (convert_value (snd p)) (\<lambda>ok. Inr (case ok of None \<Rightarrow> out | Some j \<Rightarrow> put (fst p) j out)) =
        Inr (out @ member (fst p) (meant_value (snd p)))"
      by (cases "meant_value (snd p)") (simp_all add: put_fresh)
  qed (use assms(2) in simp_all)
  then show ?thesis by (simp add: convert_struct_eq meant_members_def)
qed

lemma convert_value_meant: "plain_value v \<Longrightarrow> convert_value v = Inr (meant_value v)"
proof (induction v)
  case (struct_value es)
  have "convert_struct es [] = Inr (meant_members meant_value es)"
  proof (rule struct_adds)
    fix p assume p: "p \<in> set es"
    with struct_value.prems have "plain_value (snd p)" by (auto simp: list_all_iff)
    moreover have "snd p \<in> Basic_BNFs.snds p" by (cases p) simp
    ultimately show "convert_value (snd p) = Inr (meant_value (snd p))" using struct_value.IH p by blast
  qed (use struct_value.prems in simp)
  then show ?case by (simp add: meant_members_def comp_def)
qed simp_all

lemma plain_struct_meant: "plain_struct es \<Longrightarrow> convert_struct es [] = Inr (meant_members meant_value es)"
  by (rule struct_adds) (auto simp: plain_struct_def convert_value_meant)

lemma convert_message_meant:
  "plain_message m \<Longrightarrow> convert_message any_json keep m [] = Inr (meant_message any_json keep m)"
  "plain_field f \<Longrightarrow> name \<notin> fst ` set out \<Longrightarrow> convert_field any_json keep f name out =
    Inr (out @ member name (meant_field any_json keep f))"
proof (induction m and f arbitrary: and name out)
  case (PMessage fs)
  have "each (map (\<lambda>p. convert_field any_json keep (snd p) (fst p)) fs) [] =
      Inr ([] @ concat (map (\<lambda>p. member (fst p) (meant_field any_json keep (snd p))) fs))"
  proof (rule each_adds)
    fix p and out :: members assume p: "p \<in> set fs" "fst p \<notin> fst ` set out"
    with PMessage.prems have "plain_field (snd p)" by (auto simp: list_all_iff)
    moreover have "snd p \<in> Basic_BNFs.snds p" by (cases p) simp
    ultimately show "convert_field any_json keep (snd p) (fst p) out =
        Inr (out @ member (fst p) (meant_field any_json keep (snd p)))"
      using PMessage.IH p by blast
  qed (use PMessage.prems in simp_all)
  then show ?case by (simp add: comp_def)
next
  case (Scalar has v)
  then show ?case by (simp add: scalar_field_def put_fresh)
next
  case (RepeatedScalar vs)
  then show ?case by (simp add: repeated_scalar_field_eq push_all del: each.simps map_map)
next
  case (SubMessage m)
  then show ?case by (cases m) (simp_all add: put_fresh)
next
  case (SubStruct m)
  then show ?case by (cases m) (simp_all add: put_fresh plain_struct_meant)
next
  case (SubAny m)
  then show ?case by (cases m) (simp_all add: put_fresh)
next
  case (RepeatedMessage ms)
  have eq: "map (\<lambda>convert out. bindR (convert []) (\<lambda>sub. push_back name (object_of sub) out)) (map (convert_message any_json keep) ms) =
      map (\<lambda>v. push_back name v) (map (\<lambda>m. object_of (meant_message any_json keep m)) ms)"
    using RepeatedMessage by (auto simp: list_all_iff fun_eq_iff)
  show ?case unfolding convert_field.simps eq push_all [OF RepeatedMessage.prems(2)] by (simp add: comp_def)
next
  case (MessageMap es)
  have eq: "map (\<lambda>p out. bindR (snd p []) (\<lambda>sub. put_in name (fst p) (object_of sub) out)) (map (map_prod id (convert_message any_json keep)) es) =
      map (\<lambda>p. put_in name (fst p) (snd p)) (map (\<lambda>p. (fst p, object_of (meant_message any_json keep (snd p)))) es)"
    using MessageMap by (fastforce simp: list_all_iff fun_eq_iff)
  have d: "distinct (map fst (map (\<lambda>p. (fst p, object_of (meant_message any_json keep (snd p)))) es))"
    using MessageMap.prems(1) by (simp add: comp_def)
  show ?case unfolding convert_field.simps eq put_in_all [OF MessageMap.prems(2) d]
    by (simp add: comp_def map_prod_def case_prod_beta)
next
  case (ScalarMap es)
  then show ?case by simp
qed

text \<open>
  A message whose field names and keys are distinct and that holds no list value is converted
  without an error, and every field that is present becomes exactly one member, in the order of the fields, with the
  meaning of its value: a scalar that is set or not the default (or every one, when defaults are
  kept), a repeated field or a map of messages that is not empty, a message that is set.
\<close>

theorem message_json_meant:
  assumes "plain_message m"
  shows "ConvertMessageToJsonObject any_json keep m = Inr (object_of (meant_message any_json keep m))"
  using convert_message_meant(1) [OF assms, of any_json keep] by (simp add: ConvertMessageToJsonObject_def)

definition demo_message :: pb_message where
  "demo_message = PMessage
     [(''id'', Scalar True (PString ''m1'')), (''count'', Scalar False (PInt 0)),
      (''tags'', RepeatedScalar [PString ''a'', PString ''b'']),
      (''text'', SubMessage (Some (PMessage [(''value'', Scalar True (PString ''hi''))]))),
      (''metadata'', SubStruct (Some [(''k'', string_value ''abc''), (''unset'', kind_not_set)])),
      (''options'', MessageMap [(''o'', PMessage [])])]"

theorem message_json_meant_witness:
  "ConvertMessageToJsonObject (\<lambda>_ _. ONull) False demo_message = Inr (OObject
     [(''id'', OString ''m1''), (''tags'', OArray [OString ''a'', OString ''b'']),
      (''text'', OObject [(''value'', OString ''hi'')]), (''metadata'', OObject [(''k'', OString ''abc'')]),
      (''options'', OObject [(''o'', ONull)])])"
proof -
  have "plain_message demo_message" by (simp add: demo_message_def plain_struct_def)
  from message_json_meant [OF this, of "\<lambda>_ _. ONull" False] show ?thesis
    by (simp add: demo_message_def object_of_def meant_members_def)
qed

section \<open>List values\<close>

lemma convert_errors:
  "convert_value v = Inl e \<Longrightarrow> e = UndefinedBehaviour"
  "convert_struct es out = Inl e \<Longrightarrow> e = UndefinedBehaviour"
  by (induction v and es out arbitrary: e and e rule: convert_value_convert_struct.induct)
    (auto simp: bindR_def split: sum.splits if_splits)

text \<open>
  A struct in which a value is a list that is not empty is never converted: the elements are read through the
  reflection of another type.
\<close>

theorem list_value_undefined:
  assumes "(k, list_value vs) \<in> set es" and "vs \<noteq> []"
  shows "convert_struct es out = Inl UndefinedBehaviour"
  using assms(1)
proof (induction es arbitrary: out)
  case (Cons p es)
  show ?case
  proof (cases "p = (k, list_value vs)")
    case False
    with Cons show ?thesis by (cases p) (auto simp: bindR_def split: sum.split dest: convert_errors)
  qed (use assms(2) in simp)
qed simp

theorem list_value_undefined_witness:
  "convert_struct [(''a'', bool_value True), (''l'', list_value [null_value])] [] = Inl UndefinedBehaviour"
  by (rule list_value_undefined [of "''l''" "[null_value]"]) simp_all

section \<open>The conversion loses nothing\<close>

text \<open>
  The types of fields, and a schema: the fields of each type of message. Maps of scalars are dropped
  by the conversion and \<open>Any\<close> is printed by the library, so neither has a type here.
\<close>

datatype scalar_type = TString | TInt | TFloat | TBool | TEnum "(int \<times> string) list"

datatype field_type = TScalar scalar_type | TRepeated scalar_type | TMessage string | TStruct | TRepeatedMessage string | TMessageMap string

type_synonym schema = "string \<Rightarrow> (string \<times> field_type) list"

fun scalar_typed :: "scalar_type \<Rightarrow> pb_scalar \<Rightarrow> bool" where
  "scalar_typed TString (PString s) = True"
| "scalar_typed TInt (PInt i) = True"
| "scalar_typed TFloat (PFloat d) = True"
| "scalar_typed TBool (PBool b) = True"
| "scalar_typed (TEnum ns) (PEnum n name) = ((n, name) \<in> set ns \<and> distinct (map snd ns))"
| "scalar_typed _ _ = False"

text \<open>What reflection gets for a field without presence.\<close>

fun zero_of :: "scalar_type \<Rightarrow> pb_scalar \<Rightarrow> bool" where
  "zero_of TString v = (v = PString [])"
| "zero_of TInt v = (v = PInt 0)"
| "zero_of TFloat v = (v = PFloat 0)"
| "zero_of TBool v = (v = PBool False)"
| "zero_of (TEnum ns) v = (\<exists>name. map_of ns 0 = Some name \<and> v = PEnum 0 name)"

text \<open>An empty struct within a struct is printed like a null value, so it is excluded.\<close>

primrec kinds_set :: "pb_value \<Rightarrow> bool" where
  "kinds_set kind_not_set = False"
| "kinds_set null_value = True"
| "kinds_set (number_value d) = True"
| "kinds_set (string_value s) = True"
| "kinds_set (bool_value b) = True"
| "kinds_set (struct_value es) = (es \<noteq> [] \<and> list_all snd (map (map_prod id kinds_set) es))"
| "kinds_set (list_value vs) = list_all id (map kinds_set vs)"

primrec typed_message :: "schema \<Rightarrow> pb_message \<Rightarrow> string \<Rightarrow> bool"
and typed_field :: "schema \<Rightarrow> pb_field \<Rightarrow> field_type \<Rightarrow> bool" where
  "typed_message env (PMessage fs) = (\<lambda>tn. distinct (map fst fs) \<and>
     list_all2 (\<lambda>p d. fst p = fst d \<and> snd p (snd d)) (map (map_prod id (typed_field env)) fs) (env tn))"
| "typed_field env (Scalar has v) = (\<lambda>t. \<exists>st. t = TScalar st \<and> scalar_typed st v \<and> (\<not> has \<longrightarrow> zero_of st v))"
| "typed_field env (RepeatedScalar vs) = (\<lambda>t. \<exists>st. t = TRepeated st \<and> (\<forall>v \<in> set vs. scalar_typed st v))"
| "typed_field env (SubMessage m) = (\<lambda>t. \<exists>tn. t = TMessage tn \<and> (\<forall>b \<in> set_option (map_option (typed_message env) m). b tn))"
| "typed_field env (SubStruct m) = (\<lambda>t. t = TStruct \<and> (\<forall>es \<in> set_option m. \<forall>p \<in> set es. kinds_set (snd p) \<and> plain_value (snd p)))"
| "typed_field env (SubAny m) = (\<lambda>t. False)"
| "typed_field env (RepeatedMessage ms) = (\<lambda>t. \<exists>tn. t = TRepeatedMessage tn \<and> (\<forall>b \<in> set (map (typed_message env) ms). b tn))"
| "typed_field env (MessageMap es) = (\<lambda>t. \<exists>tn. t = TMessageMap tn \<and> (\<forall>p \<in> set (map (map_prod id (typed_message env)) es). snd p tn))"
| "typed_field env (ScalarMap es) = (\<lambda>t. False)"

lemma map_eq_inj:
  "map f xs = map f ys \<Longrightarrow> (\<And>x y. x \<in> set xs \<Longrightarrow> y \<in> set ys \<Longrightarrow> f x = f y \<Longrightarrow> x = y) \<Longrightarrow> xs = ys"
proof (induction xs arbitrary: ys)
  case (Cons x xs)
  then show ?case by (cases ys) auto
qed simp

lemma object_of_inj: "object_of a = object_of b \<longleftrightarrow> a = b"
  by (auto simp: object_of_def)

lemma unique_name: "inj_on snd A \<Longrightarrow> (a, c) \<in> A \<Longrightarrow> (b, c) \<in> A \<Longrightarrow> a = b"
  using inj_onD [of snd A "(a, c)" "(b, c)"] by simp

lemma scalar_inj: "scalar_typed st v \<Longrightarrow> scalar_typed st v' \<Longrightarrow> scalar_json v = scalar_json v' \<Longrightarrow> v = v'"
  by (cases st; cases v; cases v') (auto simp: distinct_map dest: unique_name)

lemma members_all_set: "(\<And>p. p \<in> set es \<Longrightarrow> m (snd p) \<noteq> None) \<Longrightarrow>
    concat (map (\<lambda>p. member (fst p) (m (snd p))) es) = map (\<lambda>p. (fst p, the (m (snd p)))) es"
proof (induction es)
  case (Cons p es)
  obtain j where "m (snd p) = Some j" using Cons.prems [of p] by auto
  moreover have "concat (map (\<lambda>p. member (fst p) (m (snd p))) es) = map (\<lambda>p. (fst p, the (m (snd p)))) es"
    by (rule Cons.IH) (rule Cons.prems, simp)
  ultimately show ?case by simp
qed simp

lemma kinds_set_meant: "kinds_set v \<Longrightarrow> meant_value v \<noteq> None"
  by (cases v) auto

lemma struct_members: "\<forall>p \<in> set es. kinds_set (snd p) \<Longrightarrow>
    meant_members meant_value es = map (\<lambda>p. (fst p, the (meant_value (snd p)))) es"
  unfolding meant_members_def by (rule members_all_set) (auto dest: kinds_set_meant)

lemma meant_struct_value: "meant_value (struct_value es) = Some (object_of (meant_members meant_value es))"
  by (simp add: meant_members_def comp_def)

lemma struct_members_inj:
  assumes "\<And>p v'. p \<in> set es \<Longrightarrow> kinds_set v' \<Longrightarrow> plain_value v' \<Longrightarrow> meant_value (snd p) = meant_value v' \<Longrightarrow> snd p = v'"
    and "\<forall>p \<in> set es. kinds_set (snd p)" and "\<forall>p \<in> set es'. kinds_set (snd p) \<and> plain_value (snd p)"
    and "meant_members meant_value es = meant_members meant_value es'"
  shows "es = es'"
proof (rule map_eq_inj [where f = "\<lambda>p. (fst p, the (meant_value (snd p)))"])
  show "map (\<lambda>p. (fst p, the (meant_value (snd p)))) es = map (\<lambda>p. (fst p, the (meant_value (snd p)))) es'"
    using assms(2-4) by (simp add: struct_members)
next
  fix p q assume p: "p \<in> set es" "q \<in> set es'" "(fst p, the (meant_value (snd p))) = (fst q, the (meant_value (snd q)))"
  then have "meant_value (snd p) \<noteq> None" "meant_value (snd q) \<noteq> None"
    using assms(2,3) by (auto dest: kinds_set_meant)
  with p(3) have "meant_value (snd p) = meant_value (snd q)" by (metis option.collapse prod.inject)
  with assms(1,3) p have "snd p = snd q" by blast
  with p(3) show "p = q" by (simp add: prod_eq_iff)
qed

lemma value_inj: "kinds_set v \<Longrightarrow> plain_value v \<Longrightarrow> kinds_set v' \<Longrightarrow> plain_value v' \<Longrightarrow> meant_value v = meant_value v' \<Longrightarrow> v = v'"
proof (induction v arbitrary: v')
  case (struct_value es)
  have k: "\<forall>p \<in> set es. kinds_set (snd p)" "\<forall>p \<in> set es. plain_value (snd p)" "es \<noteq> []"
    using struct_value.prems(1,2) by (auto simp: list_all_iff)
  then have "meant_members meant_value es \<noteq> []" by (simp add: struct_members)
  then obtain es' where v': "v' = struct_value es'"
    using struct_value.prems(3-5) meant_struct_value [of es] by (cases v') (auto simp: object_of_def)
  have "es = es'"
  proof (rule struct_members_inj)
    fix p w assume p: "p \<in> set es" "kinds_set w" "plain_value w" "meant_value (snd p) = meant_value w"
    moreover have "snd p \<in> Basic_BNFs.snds p" by (cases p) simp
    ultimately show "snd p = w" using struct_value.IH k by blast
  next
    show "meant_members meant_value es = meant_members meant_value es'"
      using struct_value.prems(5) unfolding v' meant_struct_value by (simp add: object_of_inj)
  qed (use k v' struct_value.prems(3,4) in \<open>auto simp: list_all_iff\<close>)
  with v' show ?case by simp
next
  case null_value
  show ?case
  proof (cases v')
    case (struct_value es')
    with null_value have "\<forall>p \<in> set es'. kinds_set (snd p)" "es' \<noteq> []" by (auto simp: list_all_iff)
    then have "meant_members meant_value es' \<noteq> []" by (simp add: struct_members)
    with null_value.prems(5) struct_value show ?thesis by (simp add: meant_struct_value object_of_def del: meant_value.simps(6))
  qed (use null_value in auto)
qed (case_tac v'; auto simp: object_of_def split: if_splits)+

lemma map_of_members: "distinct (map fst fs) \<Longrightarrow>
    map_of (concat (map (\<lambda>p. member (fst p) (g (snd p))) fs)) k = (case map_of fs k of None \<Rightarrow> None | Some f \<Rightarrow> g f)"
proof (induction fs)
  case (Cons p fs)
  show ?case
  proof (cases "fst p = k")
    case True
    with Cons.prems have "map_of fs k = None" by (auto simp: map_of_eq_None_iff)
    with Cons True show ?thesis by (cases p; cases "g (snd p)") auto
  next
    case False
    with Cons show ?thesis by (cases p; cases "g (snd p)") auto
  qed
qed simp

lemma fields_inj:
  assumes "\<And>p k f'. p \<in> set fs \<Longrightarrow> typed_field env (snd p) k \<Longrightarrow> typed_field env f' k \<Longrightarrow>
      meant_field any_json False (snd p) = meant_field any_json False f' \<Longrightarrow> snd p = f'"
    and "typed_message env (PMessage fs) tn" and "typed_message env (PMessage fs') tn"
    and "meant_message any_json False (PMessage fs) = meant_message any_json False (PMessage fs')"
  shows "fs = fs'"
proof -
  let ?g = "meant_field any_json False"
  have t: "distinct (map fst fs)" "list_all2 (\<lambda>p d. fst p = fst d \<and> typed_field env (snd p) (snd d)) fs (env tn)"
    and t': "distinct (map fst fs')" "list_all2 (\<lambda>p d. fst p = fst d \<and> typed_field env (snd p) (snd d)) fs' (env tn)"
    using assms(2,3) by (simp_all add: list_all2_map1)
  have len: "length fs = length (env tn)" "length fs' = length (env tn)" using t(2) t'(2) by (auto dest: list_all2_lengthD)
  have eq: "concat (map (\<lambda>p. member (fst p) (?g (snd p))) fs) = concat (map (\<lambda>p. member (fst p) (?g (snd p))) fs')"
    using assms(4) by (simp add: comp_def)
  show ?thesis
  proof (rule nth_equalityI)
    show "length fs = length fs'" using len by simp
    fix i assume i: "i < length fs"
    have p: "fst (fs ! i) = fst (env tn ! i)" "typed_field env (snd (fs ! i)) (snd (env tn ! i))"
      using list_all2_nthD [OF t(2) i] by auto
    have q: "fst (fs' ! i) = fst (env tn ! i)" "typed_field env (snd (fs' ! i)) (snd (env tn ! i))"
      using list_all2_nthD [OF t'(2), of i] i len by auto
    have "map_of fs (fst (fs ! i)) = Some (snd (fs ! i))" "map_of fs' (fst (fs' ! i)) = Some (snd (fs' ! i))"
      using t(1) t'(1) i len by (simp_all add: map_of_eq_Some_iff)
    with map_of_members [OF t(1), of ?g "fst (fs ! i)"] map_of_members [OF t'(1), of ?g "fst (fs' ! i)"] eq p(1) q(1)
    have "?g (snd (fs ! i)) = ?g (snd (fs' ! i))" by simp
    with assms(1) [OF nth_mem [OF i] p(2) q(2)] have "snd (fs ! i) = snd (fs' ! i)" by simp
    with p(1) q(1) show "fs ! i = fs' ! i" by (simp add: prod_eq_iff)
  qed
qed

lemma message_inj:
  "typed_message env m tn \<Longrightarrow> typed_message env m' tn \<Longrightarrow> meant_message any_json False m = meant_message any_json False m' \<Longrightarrow> m = m'"
  "typed_field env f k \<Longrightarrow> typed_field env f' k \<Longrightarrow> meant_field any_json False f = meant_field any_json False f' \<Longrightarrow> f = f'"
proof (induction m and f arbitrary: tn m' and k f')
  case (PMessage fs)
  obtain fs' where m': "m' = PMessage fs'" by (cases m')
  have "fs = fs'"
  proof (rule fields_inj [of fs env any_json tn])
    fix p k f' assume "p \<in> set fs" "typed_field env (snd p) k" "typed_field env f' k"
      "meant_field any_json False (snd p) = meant_field any_json False f'"
    moreover have "snd p \<in> Basic_BNFs.snds p" by (cases p) simp
    ultimately show "snd p = f'" using PMessage.IH by blast
  qed (use PMessage.prems m' in simp_all)
  with m' show ?case by simp
next
  case (Scalar has v)
  then obtain st where k: "k = TScalar st" "scalar_typed st v" "\<not> has \<longrightarrow> zero_of st v" by auto
  with Scalar.prems(2) obtain has' v' where f': "f' = Scalar has' v'" "scalar_typed st v'" "\<not> has' \<longrightarrow> zero_of st v'"
    by (cases f') auto
  have z: "zero_of st u \<Longrightarrow> \<not> not_default u" for u by (cases st) (auto simp: IsNotBlankString_def)
  have zu: "zero_of st u \<Longrightarrow> zero_of st u' \<Longrightarrow> u = u'" for u u' by (cases st) auto
  show ?case
  proof (cases has)
    case True
    with Scalar.prems(3) f'(1) have "has' \<or> not_default v'" "scalar_json v = scalar_json v'" by (auto split: if_splits)
    with f' z k scalar_inj [OF k(2) f'(2)] True show ?thesis by auto
  next
    case False
    with k z have "meant_field any_json False (Scalar has v) = None" by auto
    with Scalar.prems(3) f'(1) have "\<not> has'" by (auto split: if_splits)
    with False f' k zu show ?thesis by blast
  qed
next
  case (RepeatedScalar vs)
  then obtain st where k: "k = TRepeated st" "\<forall>v \<in> set vs. scalar_typed st v" by auto
  with RepeatedScalar.prems(2) obtain vs' where f': "f' = RepeatedScalar vs'" "\<forall>v \<in> set vs'. scalar_typed st v"
    by (cases f') auto
  with RepeatedScalar.prems(3) have "map scalar_json vs = map scalar_json vs'" by (auto split: if_splits)
  then have "vs = vs'" by (rule map_eq_inj) (use k f' scalar_inj in blast)
  with f' show ?case by simp
next
  case (SubMessage mo)
  then obtain tn where k: "k = TMessage tn" by auto
  with SubMessage.prems(2) obtain mo' where f': "f' = SubMessage mo'" by (cases f') auto
  show ?case
  proof (cases mo)
    case None
    with SubMessage.prems(3) f' show ?thesis by (cases mo') auto
  next
    case (Some m)
    with SubMessage.prems(3) f' obtain m' where m': "mo' = Some m'" "meant_message any_json False m = meant_message any_json False m'"
      by (cases mo') (auto simp: object_of_inj)
    with Some SubMessage.prems(1,2) k f' have "typed_message env m tn" "typed_message env m' tn" by auto
    with SubMessage.IH [of m] Some m' f' show ?thesis by auto
  qed
next
  case (SubStruct mo)
  then have k: "k = TStruct" by auto
  with SubStruct.prems(2) obtain mo' where f': "f' = SubStruct mo'" by (cases f') auto
  show ?case
  proof (cases mo)
    case None
    with SubStruct.prems(3) f' show ?thesis by (cases mo') auto
  next
    case (Some es)
    with SubStruct.prems(3) f' obtain es' where es': "mo' = Some es'" "meant_members meant_value es = meant_members meant_value es'"
      by (cases mo') (auto simp: object_of_inj)
    have "es = es'"
      by (rule struct_members_inj) (use Some SubStruct.prems(1,2) f' es' value_inj in auto)
    with Some f' es' show ?thesis by simp
  qed
next
  case (SubAny m)
  then show ?case by simp
next
  case (RepeatedMessage ms)
  then obtain tn where k: "k = TRepeatedMessage tn" by auto
  with RepeatedMessage.prems(2) obtain ms' where f': "f' = RepeatedMessage ms'" by (cases f') auto
  have "map (\<lambda>m. object_of (meant_message any_json False m)) ms = map (\<lambda>m. object_of (meant_message any_json False m)) ms'"
    using RepeatedMessage.prems(3) f' by (auto simp: comp_def split: if_splits)
  then have "ms = ms'"
    by (rule map_eq_inj) (use RepeatedMessage f' k in \<open>auto simp: object_of_inj\<close>)
  with f' show ?case by simp
next
  case (MessageMap es)
  then obtain tn where k: "k = TMessageMap tn" by auto
  with MessageMap.prems(2) obtain es' where f': "f' = MessageMap es'" by (cases f') auto
  have "map (\<lambda>p. (fst p, object_of (meant_message any_json False (snd p)))) es =
      map (\<lambda>p. (fst p, object_of (meant_message any_json False (snd p)))) es'"
    using MessageMap.prems(3) f' by (auto simp: comp_def map_prod_def case_prod_beta split: if_splits)
  then have "es = es'"
  proof (rule map_eq_inj)
    fix p q assume p: "p \<in> set es" "q \<in> set es'"
      "(fst p, object_of (meant_message any_json False (snd p))) = (fst q, object_of (meant_message any_json False (snd q)))"
    have "snd p \<in> Basic_BNFs.snds p" by (cases p) simp
    moreover have "typed_message env (snd p) tn" "typed_message env (snd q) tn"
      using MessageMap.prems(1,2) k f' p by fastforce+
    ultimately have "snd p = snd q" using MessageMap.IH p by (auto simp: object_of_inj)
    with p(3) show "p = q" by (simp add: prod_eq_iff)
  qed
  with f' show ?case by simp
next
  case (ScalarMap es)
  then show ?case by simp
qed


definition demo_schema :: schema where
  "demo_schema tn =
     (if tn = ''Message'' then
        [(''id'', TScalar TString), (''count'', TScalar TInt), (''tags'', TRepeated TString), (''text'', TMessage ''Text''),
         (''metadata'', TStruct), (''options'', TMessageMap ''Text'')]
      else [(''value'', TScalar TString)])"

definition demo_message_with :: "bool \<Rightarrow> pb_message option \<Rightarrow> pb_message" where
  "demo_message_with has t = PMessage
     [(''id'', Scalar True (PString ''m1'')), (''count'', Scalar has (PInt 0)), (''tags'', RepeatedScalar [PString ''a'']),
      (''text'', SubMessage t), (''metadata'', SubStruct (Some [(''k'', string_value ''abc'')])), (''options'', MessageMap [])]"


end
