(* ===== verification/Http_Client.thy ===== *)
theory Http_Client
  imports Snowflake Str_Utils "HOL-Library.AList"
begin

text \<open>
  \<^verbatim>\<open>instinct-core/include/tools/http/HttpUtils.hpp\<close>, the reassembly of a streamed response in
  \<^verbatim>\<open>CURLHttpClient.hpp\<close> and \<^verbatim>\<open>HttpRestClient.hpp\<close>.

  libcurl and uriparser are outside: escaping and unescaping of a value, the parser of a URI (\<open>None\<close> when it
  fails), the execution of a request, and the chunks in which a response arrives are arguments, as is the
  conversion of entities. Headers and parameters are association lists in the order in which the
  map happens to be traversed. The text of an exception for a bad status is left out.
\<close>

section \<open>Requests\<close>

datatype HttpMethod = kUnspecifiedHttpMethod | kGET | kPOST | kPUT | kDELETE | kHEAD

datatype HttpProtocol = kUnspecifiedProtocol | kHTTP | kHTTPS

record Endpoint =
  protocol :: HttpProtocol
  host :: string
  port :: int

record HttpRequest =
  endpoint :: Endpoint
  http_method :: HttpMethod
  target :: string
  headers :: "(string \<times> string) list"
  body :: string
  parameters :: "(string \<times> string) list"

definition new_request :: HttpRequest where
  "new_request = \<lparr>endpoint = \<lparr>protocol = kUnspecifiedProtocol, host = [], port = 0\<rparr>, http_method = kGET, target = [],
     headers = [], body = [], parameters = []\<rparr>"

fun method_name :: "HttpMethod \<Rightarrow> string" where
  "method_name kPOST = ''POST''"
| "method_name kGET = ''GET''"
| "method_name kPUT = ''PUT''"
| "method_name kDELETE = ''DELETE''"
| "method_name kHEAD = ''HEAD''"
| "method_name kUnspecifiedHttpMethod = ''UNKNOWN''"

fun protocol_name :: "HttpProtocol \<Rightarrow> string" where
  "protocol_name kHTTP = ''http''"
| "protocol_name kHTTPS = ''https''"
| "protocol_name kUnspecifiedProtocol = []"

definition AssertHttpRequest :: "HttpRequest \<Rightarrow> ('w, unit) eff" where
  "AssertHttpRequest request =
     bindE (assert_true (\<not> IsBlankString (host (endpoint request))) ''host cannot be blank.'') (\<lambda>_.
     bindE (assert_true (port (endpoint request) \<noteq> 0) ''port canot be zero'') (\<lambda>_.
     assert_true (protocol (endpoint request) \<noteq> kUnspecifiedProtocol) ''protocol should be either HTTP or HTTPS''))"

definition ParseMethod :: "string \<Rightarrow> HttpMethod" where
  "ParseMethod s =
     (let m = ToUpper s in
      if m = ''PUT'' then kPUT else if m = ''GET'' then kGET else if m = ''POST'' then kPOST
      else if m = ''DELETE'' then kDELETE else if m = ''HEAD'' then kHEAD else kUnspecifiedHttpMethod)"

definition CreateConnectionString :: "Endpoint \<Rightarrow> string" where
  "CreateConnectionString e = protocol_name (protocol e) @ ''://'' @ host e @ '':'' @ show_int (port e)"

definition query_string :: "(string \<Rightarrow> string) \<Rightarrow> (string \<times> string) list \<Rightarrow> string" where
  "query_string escape ps = JoinWith (map (\<lambda>(k, v). k @ ''='' @ escape v) ps) ''&''"

definition CreateUrlString :: "(string \<Rightarrow> string) \<Rightarrow> HttpRequest \<Rightarrow> string" where
  "CreateUrlString escape call =
     (let e = endpoint call; p = (if port e = 0 then (if protocol e = kHTTP then 80 else 443) else port e);
          url = protocol_name (protocol e) @ ''://'' @ host e @ '':'' @ show_int p @ target call in
      if parameters call \<noteq> [] then url @ ''?'' @ query_string escape (parameters call) else url)"

text \<open>
  \<open>ReSplit\<close> at a pattern that is one character: every occurrence separates, and only an empty field at the
  end of a text with a separator is dropped.
\<close>

fun split_at :: "char \<Rightarrow> string \<Rightarrow> string list" where
  "split_at c [] = [[]]"
| "split_at c (x # xs) =
     (if x = c then [] # split_at c xs
      else (case split_at c xs of [] \<Rightarrow> [[x]] | f # fs \<Rightarrow> (x # f) # fs))"

definition ReSplit_char :: "char \<Rightarrow> string \<Rightarrow> string list" where
  "ReSplit_char c s =
     (let fs = split_at c s in if length fs > 1 \<and> last fs = [] then butlast fs else fs)"

fun ParseQuery_loop :: "(string \<Rightarrow> string) \<Rightarrow> string list \<Rightarrow> (string \<times> string) list \<Rightarrow> (string \<times> string) list result" where
  "ParseQuery_loop unescape [] ps = Inr ps"
| "ParseQuery_loop unescape (part # parts) ps =
     (case ReSplit_char (CHR ''='') part of
        [k, v] \<Rightarrow> ParseQuery_loop unescape parts (AList.update (unescape k) (unescape v) ps)
      | _ \<Rightarrow> Inl (ClientException (''illegal query parameter pair: '' @ part)))"

definition ParseQueryParameters :: "(string \<Rightarrow> string) \<Rightarrow> string \<Rightarrow> (string \<times> string) list result" where
  "ParseQueryParameters unescape query =
     (if query = [] then Inr [] else ParseQuery_loop unescape (ReSplit_char (CHR ''&'') query) [])"

record Uri =
  scheme :: string
  hostText :: string
  portText :: string
  pathSegments :: "string list"
  uri_query :: string

definition request_endpoint :: "Uri \<Rightarrow> Endpoint result" where
  "request_endpoint uri =
     (let p = (if scheme uri = ''http'' then kHTTP else if scheme uri = ''https'' then kHTTPS else kUnspecifiedProtocol);
          implied = (if scheme uri = ''http'' then 80 else if scheme uri = ''https'' then 443 else 0) in
      bindR (if portText uri = [] then Inr implied else stoi (portText uri)) (\<lambda>n.
        Inr \<lparr>protocol = p, host = hostText uri, port = n\<rparr>))"

definition CreateRequest :: "(string \<Rightarrow> Uri option) \<Rightarrow> (string \<Rightarrow> string) \<Rightarrow> string \<Rightarrow> HttpRequest result" where
  "CreateRequest parse_uri unescape request_line =
     (case ReSplit isspace request_line of
        [m, url] \<Rightarrow>
          (let call = new_request\<lparr>http_method := ParseMethod m\<rparr> in
           case parse_uri url of
             None \<Rightarrow> Inr call
           | Some uri \<Rightarrow>
               bindR (request_endpoint uri) (\<lambda>e.
               bindR (ParseQueryParameters unescape (uri_query uri)) (\<lambda>ps.
                 Inr (call\<lparr>endpoint := e, target := concat (map (\<lambda>seg. ''/'' @ seg) (pathSegments uri)), parameters := ps\<rparr>))))
      | _ \<Rightarrow> Inl (InstinctException (''invalid request line: '' @ request_line)))"

definition GetHeaderValue :: "string \<Rightarrow> string \<Rightarrow> (string \<times> string) list \<Rightarrow> string" where
  "GetHeaderValue name default_value hs =
     (case map_of hs name of Some v \<Rightarrow> v | None \<Rightarrow>
       (case map_of hs (ToLower name) of Some v \<Rightarrow> v | None \<Rightarrow>
         (case map_of hs (ToUpper name) of Some v \<Rightarrow> v | None \<Rightarrow> default_value)))"

section \<open>What is handed to libcurl\<close>

record HttpResponse =
  resp_headers :: "(string \<times> string) list"
  resp_body :: string
  status_code :: int

text \<open>The options that depend on the request, and the check of the peer's certificate.\<close>

record CurlRequest =
  header_slist :: "string list"
  curl_url :: string
  post_fields :: "string option"
  custom_request :: string
  ssl_verify_peer :: bool

definition configure_curl_request :: "(string \<Rightarrow> string) \<Rightarrow> HttpRequest \<Rightarrow> CurlRequest" where
  "configure_curl_request escape request =
     \<lparr>header_slist = map (\<lambda>(k, v). k @ '': '' @ v) (headers request),
      curl_url = CreateUrlString escape request,
      post_fields = (if body request \<noteq> [] \<and> (http_method request = kPOST \<or> http_method request = kPUT)
                     then Some (body request) else None),
      custom_request = method_name (http_method request),
      ssl_verify_peer = False\<rparr>"

text \<open>A performed transfer gives the response it assembled, or \<open>None\<close> when libcurl returns an error code.\<close>

definition Execute :: "(string \<Rightarrow> string) \<Rightarrow> (CurlRequest \<Rightarrow> ('w, HttpResponse option) eff) \<Rightarrow>
    HttpRequest \<Rightarrow> ('w, HttpResponse) eff" where
  "Execute escape perform call =
     bindE (perform (configure_curl_request escape call)) (\<lambda>r.
       case r of None \<Rightarrow> throw (InstinctException ''curl request failed'') | Some response \<Rightarrow> ret response)"

section \<open>Streamed responses\<close>

text \<open>The loop of the write callback: the lines it emits and the data it keeps; without a line breaker it does not end.\<close>

partial_function (option) take_lines :: "string \<Rightarrow> string \<Rightarrow> (string list \<times> string) option" where
  "take_lines breaker data =
     (let idx = find_pos breaker data 0 in
      if idx \<noteq> -1
      then Option.bind (take_lines breaker (drop (nat idx + length breaker) data))
             (\<lambda>p. Some (take (nat idx) data # fst p, snd p))
      else Some ([], data))"

definition curl_write_callback :: "string \<Rightarrow> string \<Rightarrow> string \<Rightarrow> (string list \<times> string) option" where
  "curl_write_callback breaker data chunk = take_lines breaker (data @ chunk)"

fun write_chunks :: "string \<Rightarrow> string \<Rightarrow> string list \<Rightarrow> (string list \<times> string) option" where
  "write_chunks breaker data [] = Some ([], data)"
| "write_chunks breaker data (chunk # chunks) =
     (case curl_write_callback breaker data chunk of
        None \<Rightarrow> None
      | Some (ls, data) \<Rightarrow>
          (case write_chunks breaker data chunks of None \<Rightarrow> None | Some (ls', data') \<Rightarrow> Some (ls @ ls', data')))"

text \<open>
  What an observer sees: the items and how the stream ends. A transfer that fails (\<open>curl_ok\<close> is false)
  ends with an error and what is kept is lost.
\<close>

type_synonym 'a stream = "'a list \<times> unit result"

definition observe_curl_request :: "string \<Rightarrow> bool \<Rightarrow> int \<Rightarrow> string list \<Rightarrow> string stream option" where
  "observe_curl_request breaker curl_ok status chunks =
     map_option (\<lambda>(ls, rest).
       if curl_ok
       then (ls @ (if IsNotBlankString rest then [rest] else []),
             if status \<ge> 400 then Inl (InstinctException ''Failed to get chunked response'') else Inr ())
       else (ls, Inl (InstinctException ''curl request failed'')))
     (write_chunks breaker [] chunks)"

definition StreamChunk :: "string \<Rightarrow> HttpRequest \<Rightarrow> bool \<Rightarrow> int \<Rightarrow> string list \<Rightarrow> string stream option result" where
  "StreamChunk breaker call curl_ok status chunks =
     bindR (if breaker = [] then Inl (ClientException ''should assign line-breaker'') else Inr ()) (\<lambda>_.
     bindR (fst (AssertHttpRequest call ())) (\<lambda>_.
       Inr (observe_curl_request breaker curl_ok status chunks)))"

section \<open>The REST client\<close>

definition is_end_sentinels :: "string \<Rightarrow> string list \<Rightarrow> bool" where
  "is_end_sentinels chunk end_sentinels \<longleftrightarrow> list_ex (\<lambda>item. item = chunk) end_sentinels"

text \<open>\<open>regex_replace\<close> removes every match of \<open>data:\s+\<close>, wherever it is.\<close>

function strip_data_stream_prefix :: "string \<Rightarrow> string" where
  "strip_data_stream_prefix s =
     (case s of
        [] \<Rightarrow> []
      | c # cs \<Rightarrow>
          if take 5 s = ''data:'' \<and> takeWhile isspace (drop 5 s) \<noteq> []
          then strip_data_stream_prefix (dropWhile isspace (drop 5 s))
          else c # strip_data_stream_prefix cs)"
  by pat_completeness auto
termination
  by (relation "measure length") (auto intro!: le_imp_less_Suc order_trans [OF length_dropWhile_le])

declare strip_data_stream_prefix.simps [simp del]

fun take_until_sentinel :: "string list \<Rightarrow> string stream \<Rightarrow> string stream" where
  "take_until_sentinel sentinels ([], fin) = ([], fin)"
| "take_until_sentinel sentinels (x # xs, fin) =
     (if is_end_sentinels x sentinels then ([], Inr ())
      else apfst (Cons x) (take_until_sentinel sentinels (xs, fin)))"

text \<open>An item that cannot be converted ends the stream with its error.\<close>

fun convert_stream :: "(string \<Rightarrow> 'e result) \<Rightarrow> string stream \<Rightarrow> 'e stream" where
  "convert_stream conv ([], fin) = ([], fin)"
| "convert_stream conv (x # xs, fin) =
     (case conv x of Inl e \<Rightarrow> ([], Inl e) | Inr y \<Rightarrow> apfst (Cons y) (convert_stream conv (xs, fin)))"

definition convert_chunks :: "(string \<Rightarrow> 'e result) \<Rightarrow> bool \<Rightarrow> string list \<Rightarrow> string stream \<Rightarrow> 'e stream" where
  "convert_chunks conv is_sse_event_stream end_sentinels chunks =
     (if is_sse_event_stream
      then convert_stream conv (take_until_sentinel end_sentinels (apfst (map strip_data_stream_prefix) chunks))
      else convert_stream conv chunks)"

record HttpRestClient =
  client_endpoint :: Endpoint
  default_headers :: "(string \<times> string) list"

text \<open>\<open>emplace\<close> leaves a header that is there.\<close>

definition json_headers :: "(string \<times> string) list \<Rightarrow> (string \<times> string) list" where
  "json_headers hs = (if map_of hs ''Content-Type'' = None then hs @ [(''Content-Type'', ''application/json'')] else hs)"

definition bad_status :: exn where "bad_status = InstinctException []"

definition GetObject :: "(HttpRequest \<Rightarrow> ('w, HttpResponse) eff) \<Rightarrow> (string \<Rightarrow> 'e result) \<Rightarrow> HttpRestClient \<Rightarrow> string \<Rightarrow> ('w, 'e) eff" where
  "GetObject execute deserialize client uri =
     bindE (execute (new_request\<lparr>endpoint := client_endpoint client, http_method := kGET, target := uri,
                                headers := json_headers (default_headers client)\<rparr>)) (\<lambda>response.
       if status_code response \<ge> 400 then throw bad_status else liftR (deserialize (resp_body response)))"

definition PostObject :: "(HttpRequest \<Rightarrow> ('w, HttpResponse) eff) \<Rightarrow> ('p \<Rightarrow> string result) \<Rightarrow> (string \<Rightarrow> 'e result) \<Rightarrow>
    HttpRestClient \<Rightarrow> string \<Rightarrow> 'p \<Rightarrow> ('w, 'e) eff" where
  "PostObject execute serialize deserialize client uri param =
     bindE (liftR (serialize param)) (\<lambda>param_string.
     bindE (execute (new_request\<lparr>endpoint := client_endpoint client, http_method := kPOST, target := uri,
                                headers := json_headers (default_headers client), body := param_string\<rparr>)) (\<lambda>response.
       if status_code response \<ge> 400 then throw bad_status else liftR (deserialize (resp_body response))))"


text \<open>The stream of entities that a POST is answered with; its chunks are given.\<close>

definition StreamChunkObject :: "('p \<Rightarrow> string result) \<Rightarrow> (string \<Rightarrow> 'e result) \<Rightarrow> HttpRestClient \<Rightarrow> string \<Rightarrow> 'p \<Rightarrow>
    bool \<Rightarrow> string \<Rightarrow> string list \<Rightarrow> (HttpRequest \<Rightarrow> bool \<times> int \<times> string list) \<Rightarrow> 'e stream option result" where
  "StreamChunkObject serialize deserialize client uri param is_sse_event_stream line_breaker end_sentinels answer =
     bindR (serialize param) (\<lambda>param_string.
       let request = new_request\<lparr>endpoint := client_endpoint client, http_method := kPOST, target := uri,
                                 headers := json_headers (default_headers client), body := param_string\<rparr>;
           (curl_ok, status, chunks) = answer request in
       bindR (StreamChunk line_breaker request curl_ok status chunks) (\<lambda>stream.
         Inr (map_option (convert_chunks deserialize is_sse_event_stream end_sentinels) stream)))"

text \<open>A batch is sent with a header of its own, not with the default headers of the client.\<close>

definition PostBatch_Add :: "('p \<Rightarrow> string result) \<Rightarrow> HttpRestClient \<Rightarrow> string \<Rightarrow> 'p \<Rightarrow> HttpRequest list \<Rightarrow> HttpRequest list result" where
  "PostBatch_Add serialize client uri param calls =
     bindR (serialize param) (\<lambda>s.
       Inr (calls @ [new_request\<lparr>endpoint := client_endpoint client, http_method := kPOST, target := uri,
                               headers := [(''Content-Type'', ''application/json'')], body := s\<rparr>]))"

definition PostBatch_future :: "(string \<Rightarrow> 'e result) \<Rightarrow> HttpResponse result \<Rightarrow> 'e result" where
  "PostBatch_future deserialize future =
     bindR future (\<lambda>response. if status_code response \<ge> 400 then Inl bad_status else deserialize (resp_body response))"

text \<open>The futures in the order of the calls; here the calls are executed one after another.\<close>

fun ExecuteBatch :: "(HttpRequest \<Rightarrow> ('w, HttpResponse) eff) \<Rightarrow> HttpRequest list \<Rightarrow> 'w \<Rightarrow> HttpResponse result list \<times> 'w" where
  "ExecuteBatch execute [] w = ([], w)"
| "ExecuteBatch execute (call # calls) w =
     (let (r, w) = execute call w; (rs, w) = ExecuteBatch execute calls w in (r # rs, w))"

definition PostBatch_Execute :: "(HttpRequest \<Rightarrow> ('w, HttpResponse) eff) \<Rightarrow> (string \<Rightarrow> 'e result) \<Rightarrow> HttpRequest list \<Rightarrow>
    'w \<Rightarrow> 'e result list \<times> 'w" where
  "PostBatch_Execute execute deserialize calls w = apfst (map (PostBatch_future deserialize)) (ExecuteBatch execute calls w)"

end
