(* ===== verification/Http_Correct.thy ===== *)
theory Http_Correct
  imports Http_Client
begin

text \<open>
  What the HTTP client guarantees: a streamed response gives the same lines however it is cut into chunks,
  the entities sent before a sentinel arrive, and a request written as a URL is read back.
\<close>

section \<open>Lines of a stream\<close>

lemma find_pos_length: "find_pos sub t i \<noteq> -1 \<Longrightarrow> length sub \<le> length t"
proof (induction t arbitrary: i)
  case (Cons x xs)
  show ?case
  proof (cases "take (length sub) (x # xs) = sub")
    case True
    then show ?thesis by (metis length_take min.cobounded1)
  next
    case False
    with Cons.prems Cons.IH [of "Suc i"] show ?thesis by simp
  qed
qed (simp split: if_splits)

lemma find_pos_append: "find_pos sub d i \<noteq> -1 \<Longrightarrow> find_pos sub (d @ c) i = find_pos sub d i"
proof (induction d arbitrary: i)
  case Nil
  then show ?case by (cases c) (auto split: if_splits)
next
  case (Cons x xs)
  have "length sub \<le> length (x # xs)" by (rule find_pos_length [OF Cons.prems])
  then have eq: "take (length sub) ((x # xs) @ c) = take (length sub) (x # xs)"
    by (simp only: take_append) (simp del: take_all_iff)
  show ?case
  proof (cases "take (length sub) (x # xs) = sub")
    case False
    with Cons.prems Cons.IH [of "Suc i"] have "find_pos sub (xs @ c) (Suc i) = find_pos sub xs (Suc i)" by simp
    with False eq show ?thesis by simp
  qed (use eq in simp)
qed

lemma find_pos_first:
  assumes "find_pos sub t 0 = int n"
  shows "n + length sub \<le> length t" and "t = take n t @ sub @ drop (n + length sub) t"
proof -
  from find_pos_bounds [of sub t 0] assms have b: "n \<le> length t" "take (length sub) (drop n t) = sub" by auto
  then have "length sub \<le> length t - n" by (metis length_drop length_take min.cobounded1)
  with b(1) show "n + length sub \<le> length t" by simp
  have "t = take n t @ take (length sub) (drop n t) @ drop (length sub) (drop n t)" by (simp only: append_take_drop_id)
  with b(2) show "t = take n t @ sub @ drop (n + length sub) t" by (simp add: add.commute)
qed

lemma find_pos_none_before: "sub \<noteq> [] \<Longrightarrow> find_pos sub t i = int (i + n) \<Longrightarrow> find_pos sub (take n t) i = -1"
proof (induction t arbitrary: i n)
  case (Cons x xs)
  show ?case
  proof (cases n)
    case (Suc m)
    have f: "take (length sub) (x # xs) \<noteq> sub" using Cons.prems Suc by (auto split: if_splits)
    then have "find_pos sub (take m xs) (Suc i) = -1" using Cons.IH [of "Suc i" m] Cons.prems Suc by simp
    moreover have "take (length sub) (x # take m xs) \<noteq> sub"
    proof
      assume a: "take (length sub) (x # take m xs) = sub"
      then have "length sub \<le> Suc m" by (metis length_Cons length_take min.cobounded1 min.cobounded2 nat_le_linear not_less_eq_eq order_trans take_all)
      then have "take (length sub) (x # take m xs) = take (length sub) (x # xs)" by (cases "length sub") simp_all
      with a f show False by simp
    qed
    ultimately show ?thesis using Suc by simp
  qed (use Cons.prems in simp)
qed simp

lemma take_lines_none: "find_pos breaker data 0 = -1 \<Longrightarrow> take_lines breaker data = Some ([], data)"
  by (subst take_lines.simps) simp

lemma take_lines_more: "find_pos breaker data 0 = int n \<Longrightarrow> take_lines breaker data =
    map_option (apfst (Cons (take n data))) (take_lines breaker (drop (n + length breaker) data))"
  by (subst take_lines.simps) (auto simp: Let_def split: Option.bind_split option.split)

lemma take_lines_returns:
  assumes "breaker \<noteq> []"
  shows "\<exists>ls rest. take_lines breaker data = Some (ls, rest) \<and> concat (map (\<lambda>l. l @ breaker) ls) @ rest = data \<and>
    (\<forall>l \<in> set ls. find_pos breaker l 0 = -1) \<and> find_pos breaker rest 0 = -1"
proof (induction "length data" arbitrary: data rule: less_induct)
  case less
  show ?case
  proof (cases "find_pos breaker data 0 = -1")
    case True
    then show ?thesis by (simp add: take_lines_none)
  next
    case False
    then obtain n where n: "find_pos breaker data 0 = int n" using find_pos_bounds [of breaker data 0] by (metis nonneg_int_cases of_nat_0)
    note f = find_pos_first [OF n]
    let ?d = "drop (n + length breaker) data"
    have "length ?d < length data" using f(1) assms by (cases breaker) auto
    with less.hyps obtain ls rest where r: "take_lines breaker ?d = Some (ls, rest)" "concat (map (\<lambda>l. l @ breaker) ls) @ rest = ?d"
      "\<forall>l \<in> set ls. find_pos breaker l 0 = -1" "find_pos breaker rest 0 = -1" by blast
    have "find_pos breaker (take n data) 0 = -1" using find_pos_none_before [OF assms, of data 0 n] n by simp
    with r f(2) show ?thesis by (simp add: take_lines_more [OF n])
  qed
qed

lemma take_lines_append:
  assumes "breaker \<noteq> []" and "take_lines breaker d = Some (ls, r)"
  shows "take_lines breaker (d @ c) = map_option (apfst ((@) ls)) (take_lines breaker (r @ c))"
  using assms(2)
proof (induction "length d" arbitrary: d ls rule: less_induct)
  case less
  show ?case
  proof (cases "find_pos breaker d 0 = -1")
    case True
    have "apfst ((@) []) = (id :: string list \<times> string \<Rightarrow> string list \<times> string)" by (auto simp: fun_eq_iff apfst_def)
    with True less.prems show ?thesis by (auto simp: take_lines_none option.map_id)
  next
    case False
    then obtain n where n: "find_pos breaker d 0 = int n" using find_pos_bounds [of breaker d 0] by (metis nonneg_int_cases of_nat_0)
    note f = find_pos_first [OF n]
    let ?d = "drop (n + length breaker) d"
    from less.prems obtain ls' where ls: "take_lines breaker ?d = Some (ls', r)" "ls = take n d # ls'"
      by (auto simp: take_lines_more [OF n])
    have "length ?d < length d" using f(1) assms(1) by (cases breaker) auto
    from less.hyps [OF this ls(1)] have "take_lines breaker (?d @ c) = map_option (apfst ((@) ls')) (take_lines breaker (r @ c))" .
    moreover have "find_pos breaker (d @ c) 0 = int n" using find_pos_append [OF False] n by simp
    ultimately show ?thesis using f(1) ls(2)
      by (subst take_lines_more) (simp, cases "take_lines breaker (r @ c)", auto)
  qed
qed

lemma write_chunks_lines:
  assumes "breaker \<noteq> []" and "find_pos breaker data 0 = -1"
  shows "write_chunks breaker data chunks = take_lines breaker (data @ concat chunks)"
  using assms(2)
proof (induction chunks arbitrary: data)
  case Nil
  then show ?case by (simp add: take_lines_none)
next
  case (Cons chunk chunks)
  obtain ls r where r: "take_lines breaker (data @ chunk) = Some (ls, r)" "find_pos breaker r 0 = -1"
    using take_lines_returns [OF assms(1)] by blast
  from take_lines_append [OF assms(1) r(1), of "concat chunks"] Cons.IH [OF r(2)] r(1)
  show ?case by (auto simp: curl_write_callback_def split: option.split)
qed

text \<open>
  However a response is cut into chunks, the observer gets the same lines: those between the line
  breakers of the whole response, with what follows the last breaker kept for the end.
\<close>

theorem stream_lines_of_chunks:
  assumes "breaker \<noteq> []"
  shows "\<exists>ls rest. write_chunks breaker [] chunks = Some (ls, rest) \<and> take_lines breaker (concat chunks) = Some (ls, rest) \<and>
    concat (map (\<lambda>l. l @ breaker) ls) @ rest = concat chunks \<and>
    (\<forall>l \<in> set ls. find_pos breaker l 0 = -1) \<and> find_pos breaker rest 0 = -1"
proof -
  have "write_chunks breaker [] chunks = take_lines breaker (concat chunks)"
    using write_chunks_lines [OF assms, of "[]" chunks] assms by simp
  with take_lines_returns [OF assms, of "concat chunks"] show ?thesis by auto
qed

theorem stream_lines_of_chunks_witness:
  "\<exists>ls rest. write_chunks [CHR 0x0A, CHR 0x0A] [] [''a'', [CHR 0x0A], CHR 0x0A # ''b''] = Some (ls, rest) \<and>
    concat (map (\<lambda>l. l @ [CHR 0x0A, CHR 0x0A]) ls) @ rest = [CHR ''a'', CHR 0x0A, CHR 0x0A, CHR ''b'']"
  using stream_lines_of_chunks [of "[CHR 0x0A, CHR 0x0A]" "[''a'', [CHR 0x0A], CHR 0x0A # ''b'']"] by auto

text \<open>Without a line breaker the callback would not end.\<close>

lemma find_pos_empty [simp]: "find_pos [] t i = int i"
  by (cases t) simp_all

lemma take_lines_empty_breaker: "take_lines [] data = None"
proof (rule ccontr)
  assume "take_lines [] data \<noteq> None"
  then obtain r where "take_lines [] data = Some r" by auto
  then have "[] \<noteq> ([] :: string)"
    by (rule take_lines.raw_induct [where P = "\<lambda>breaker data r. breaker \<noteq> []", rotated])
      (auto simp: Let_def bind_eq_Some_conv split: if_splits)
  then show False by simp
qed

section \<open>Events\<close>

definition plain_event :: "string \<Rightarrow> string \<Rightarrow> bool" where
  "plain_event breaker e \<longleftrightarrow> set breaker \<inter> set e = {} \<and> find_pos ''data:'' e 0 = -1 \<and> (e = [] \<or> \<not> isspace (hd e))"

lemma strip_nothing: "find_pos ''data:'' s i = -1 \<Longrightarrow> strip_data_stream_prefix s = s"
proof (induction s arbitrary: i)
  case (Cons c cs)
  have "take (length ''data:'') (c # cs) \<noteq> ''data:''" "find_pos ''data:'' cs (Suc i) = -1"
    using Cons.prems by (simp_all only: find_pos.simps split: if_splits) simp_all
  moreover have "length ''data:'' = 5" by simp
  ultimately have "take 5 (c # cs) \<noteq> ''data:''" "find_pos ''data:'' cs (Suc i) = -1" by (simp_all only: not_False_eq_True)
  with Cons.IH show ?case by (subst strip_data_stream_prefix.simps) auto
qed (simp add: strip_data_stream_prefix.simps)

lemma strip_event: "plain_event breaker e \<Longrightarrow> strip_data_stream_prefix (''data: '' @ e) = e"
  by (subst strip_data_stream_prefix.simps, cases e)
    (auto simp: plain_event_def isspace_def strip_data_stream_prefix.simps [of "[]"] intro: strip_nothing)

lemma find_pos_disjoint: "breaker \<noteq> [] \<Longrightarrow> set breaker \<inter> set l = {} \<Longrightarrow> find_pos breaker (l @ breaker @ r) i = int (i + length l)"
proof (induction l arbitrary: i)
  case Nil
  then show ?case by (cases breaker) simp_all
next
  case (Cons x xs)
  then have "take (length breaker) (x # xs @ breaker @ r) \<noteq> breaker" by (cases breaker) auto
  with Cons show ?case by simp
qed

lemma take_lines_written:
  assumes "breaker \<noteq> []" and "\<forall>l \<in> set ls. set breaker \<inter> set l = {}"
  shows "take_lines breaker (concat (map (\<lambda>l. l @ breaker) ls) @ rest) = map_option (apfst ((@) ls)) (take_lines breaker rest)"
  using assms(2)
proof (induction ls)
  case Nil
  show ?case by (cases "take_lines breaker rest") auto
next
  case (Cons l ls)
  let ?rest = "concat (map (\<lambda>l. l @ breaker) ls) @ rest"
  have "find_pos breaker (l @ breaker @ ?rest) 0 = int (length l)"
    using find_pos_disjoint [OF assms(1), of l ?rest 0] Cons.prems by simp
  from take_lines_more [OF this] Cons show ?case by (cases "take_lines breaker rest") auto
qed

lemma take_until_sentinel_events:
  "\<forall>x \<in> set xs. \<not> is_end_sentinels x sentinels \<Longrightarrow> is_end_sentinels s sentinels \<Longrightarrow>
    take_until_sentinel sentinels (xs @ s # ys, fin) = (xs, Inr ())"
  by (induction xs) simp_all

lemma convert_stream_events: "\<forall>e \<in> set es. conv (f e) = Inr e \<Longrightarrow> convert_stream conv (map f es, fin) = (es, fin)"
  by (induction es) simp_all

text \<open>
  C27: Events written one after another, then a sentinel, arrive as the entities they were made of,
  and nothing that follows the sentinel does, whatever the chunks of the transfer, its status and its end. The texts hold none of the
  characters of the line breaker, do not begin with white space and hold no event prefix.
\<close>

theorem sse_events_arrive:
  assumes "breaker \<noteq> []" and "set breaker \<inter> set ''data: '' = {}"
    and "concat chunks = concat (map (\<lambda>e. ''data: '' @ ser e @ breaker) es) @ ''data: '' @ s @ breaker @ rest"
    and "\<forall>e \<in> set es. plain_event breaker (ser e) \<and> conv (ser e) = Inr e \<and> \<not> is_end_sentinels (ser e) sentinels"
    and "plain_event breaker s" and "is_end_sentinels s sentinels"
  shows "\<exists>chunk_stream. observe_curl_request breaker curl_ok status chunks = Some chunk_stream \<and>
    convert_chunks conv True sentinels chunk_stream = (es, Inr ())"
proof -
  define lines where "lines = map (\<lambda>e. ''data: '' @ ser e) es @ [''data: '' @ s]"
  obtain ls r where r: "take_lines breaker rest = Some (ls, r)" using take_lines_returns [OF assms(1)] by blast
  have d: "\<forall>l \<in> set lines. set breaker \<inter> set l = {}"
  proof
    fix l assume "l \<in> set lines"
    then obtain t where "l = ''data: '' @ t" "set breaker \<inter> set t = {}" using assms(4,5) by (auto simp: plain_event_def lines_def)
    with assms(2) show "set breaker \<inter> set l = {}" by (simp only: set_append) blast
  qed
  have "concat chunks = concat (map (\<lambda>l. l @ breaker) lines) @ rest" using assms(3) by (simp add: comp_def lines_def)
  with take_lines_written [OF assms(1) d, of rest] r
  have "write_chunks breaker [] chunks = Some (lines @ ls, r)"
    using write_chunks_lines [OF assms(1), of "[]" chunks] assms(1) by simp
  then have "\<exists>tail fin. observe_curl_request breaker curl_ok status chunks = Some (lines @ tail, fin)"
    by (cases curl_ok) (simp_all add: observe_curl_request_def)
  then obtain tail fin where o: "observe_curl_request breaker curl_ok status chunks = Some (lines @ tail, fin)" by blast
  have "map strip_data_stream_prefix (map (\<lambda>e. ''data: '' @ ser e) es) = map ser es"
    using assms(4) strip_event [of breaker] by (auto simp del: append_Cons)
  moreover have "strip_data_stream_prefix (''data: '' @ s) = s" by (rule strip_event [OF assms(5)])
  ultimately have "map strip_data_stream_prefix (lines @ tail) = map ser es @ s # map strip_data_stream_prefix tail"
    by (simp only: lines_def map_append list.map append_assoc append_Cons append_Nil)
  then have "convert_chunks conv True sentinels (lines @ tail, fin) = convert_stream conv (map ser es, Inr ())"
    using take_until_sentinel_events [of "map ser es" sentinels s] assms(4,6) by (simp only: convert_chunks_def apfst_conv if_True) simp
  also have "\<dots> = (es, Inr ())" using assms(4) by (simp add: convert_stream_events)
  finally show ?thesis using o by blast
qed

theorem sse_events_arrive_witness:
  "\<exists>chunk_stream. observe_curl_request [CHR 0x0A] True 200 [''data: a'' @ [CHR 0x0A] @ ''da'', ''ta: [DONE]'' @ [CHR 0x0A]] = Some chunk_stream \<and>
    convert_chunks Inr True [''[DONE]''] chunk_stream = ([''a''], Inr ())"
  by (rule sse_events_arrive [where ser = id and s = "''[DONE]''" and rest = "[]"])
    (simp_all add: plain_event_def isspace_def is_end_sentinels_def)

section \<open>The parameters of a URL\<close>

lemma split_at_append: "c \<notin> set a \<Longrightarrow> split_at c (a @ c # r) = a # split_at c r"
  by (induction a) auto

lemma split_at_none: "c \<notin> set a \<Longrightarrow> split_at c a = [a]"
  by (induction a) auto

lemma ReSplit_char_pair:
  assumes "c \<notin> set k" and "c \<notin> set v" and "v \<noteq> []"
  shows "ReSplit_char c (k @ c # v) = [k, v]"
  using assms by (simp add: ReSplit_char_def split_at_append split_at_none)

lemma split_at_joined:
  assumes "\<forall>p \<in> set ps. c \<notin> set p" and "ps \<noteq> []"
  shows "split_at c (intersperse_join [c] ps) = ps"
  using assms
proof (induction ps rule: induct_list012)
  case (3 x y zs)
  then show ?case by (simp add: split_at_append)
qed (simp_all add: split_at_none)

lemma AList_update_fresh: "k \<notin> fst ` set ps \<Longrightarrow> AList.update k v ps = ps @ [(k, v)]"
  by (induction ps) auto

definition plain_parameter :: "(string \<Rightarrow> string) \<Rightarrow> (string \<Rightarrow> string) \<Rightarrow> string \<times> string \<Rightarrow> bool" where
  "plain_parameter escape unescape p \<longleftrightarrow>
     unescape (fst p) = fst p \<and> unescape (escape (snd p)) = snd p \<and> escape (snd p) \<noteq> [] \<and>
     set (fst p) \<inter> set ''&='' = {} \<and> set (escape (snd p)) \<inter> set ''&='' = {}"

lemma ParseQuery_pairs:
  assumes "\<forall>p \<in> set ps. plain_parameter escape unescape p" and "distinct (map fst (done @ ps))"
  shows "ParseQuery_loop unescape (map (\<lambda>(k, v). k @ ''='' @ escape v) ps) done = Inr (done @ ps)"
  using assms
proof (induction ps arbitrary: "done")
  case (Cons p ps)
  obtain k v where p: "p = (k, v)" by fastforce
  from Cons.prems p have pl: "unescape k = k" "unescape (escape v) = v" "escape v \<noteq> []"
    "CHR ''='' \<notin> set k" "CHR ''='' \<notin> set (escape v)" by (auto simp: plain_parameter_def)
  have "ReSplit_char (CHR ''='') (k @ CHR ''='' # escape v) = [k, escape v]" by (rule ReSplit_char_pair) (use pl in auto)
  moreover have "AList.update k v done = done @ [(k, v)]" by (rule AList_update_fresh) (use Cons.prems(2) p in auto)
  ultimately show ?case using Cons.IH [of "done @ [(k, v)]"] Cons.prems p pl(1,2) by simp
qed simp

text \<open>
  The query string that is written for parameters is read back as these parameters, if their keys are
  distinct and stay as they are when unescaped, the values are not empty, unescaping undoes
  escaping, and neither keys nor escaped values hold the two separators.
\<close>

theorem query_string_roundtrip:
  assumes "\<forall>p \<in> set ps. plain_parameter escape unescape p" and "distinct (map fst ps)"
  shows "ParseQueryParameters unescape (query_string escape ps) = Inr ps"
proof (cases "ps = []")
  case True
  then show ?thesis by (simp add: query_string_def ParseQueryParameters_def JoinWith_eq)
next
  case False
  let ?parts = "map (\<lambda>(k, v). k @ ''='' @ escape v) ps"
  have q: "query_string escape ps = intersperse_join ''&'' ?parts" by (simp add: query_string_def JoinWith_eq)
  have n: "\<forall>p \<in> set ?parts. CHR ''&'' \<notin> set p" "\<forall>p \<in> set ?parts. p \<noteq> []"
    using assms(1) by (auto simp: plain_parameter_def)
  have s: "split_at (CHR ''&'') (query_string escape ps) = ?parts"
    unfolding q by (rule split_at_joined) (use n False in auto)
  have "last ?parts \<noteq> []" using n(2) False by (metis last_in_set list.map_disc_iff)
  then have "ReSplit_char (CHR ''&'') (query_string escape ps) = ?parts" by (simp add: ReSplit_char_def s)
  moreover have "query_string escape ps \<noteq> []"
  proof
    assume "query_string escape ps = []"
    with s have "?parts = [[]]" by simp
    then have "[] \<in> set ?parts" by (simp only: list.set) simp
    with n(2) show False by blast
  qed
  moreover have "ParseQuery_loop unescape ?parts [] = Inr ps"
    using ParseQuery_pairs [of ps escape unescape "[]"] assms by simp
  ultimately show ?thesis by (simp add: ParseQueryParameters_def)
qed

theorem query_string_roundtrip_witness:
  "ParseQueryParameters id (query_string id [(''q'', ''abc''), (''page'', ''2'')]) = Inr [(''q'', ''abc''), (''page'', ''2'')]"
  by (rule query_string_roundtrip) (simp_all add: plain_parameter_def)

text \<open>A parameter whose value is empty is written but refused when it is read.\<close>

theorem empty_value_refused:
  assumes "escape v = []" and "set k \<inter> set ''&='' = {}"
  shows "ParseQueryParameters unescape (query_string escape [(k, v)]) =
    Inl (ClientException (''illegal query parameter pair: '' @ k @ ''=''))"
proof -
  have s: "split_at (CHR ''&'') (k @ ''='') = [k @ ''='']" "split_at (CHR ''='') (k @ ''='') = [k, []]"
    using assms(2) split_at_append [of "CHR ''=''" k "[]"] by (auto intro: split_at_none)
  then show ?thesis using assms(1)
    by (simp add: ParseQueryParameters_def query_string_def JoinWith_eq ReSplit_char_def)
qed

theorem empty_value_refused_witness:
  "ParseQueryParameters id (query_string id [(''q'', [])]) = Inl (ClientException ''illegal query parameter pair: q='')"
  using empty_value_refused [of id "[]" "''q''" id] by simp

section \<open>Requests in one line\<close>

lemma fold_digits_append: "fold (\<lambda>c n. 10 * n + (of_char c - 48)) (ds @ [digit_char d]) (n :: int) =
    10 * fold (\<lambda>c n. 10 * n + (of_char c - 48)) ds n + (of_char (digit_char d) - 48)"
  by simp

lemma digit_char_value:
  assumes "d < 10"
  shows "of_char (digit_char d) = int d + 48"
proof -
  have "of_char (digit_char d) = 48 + d" using assms by (simp add: digit_char_def of_char_of)
  moreover have "of_char (digit_char d) = int (of_char (digit_char d))" by (simp only: of_nat_of_char)
  ultimately show ?thesis by simp
qed

lemma digit_char_range: "d < 10 \<Longrightarrow> CHR ''0'' \<le> digit_char d \<and> digit_char d \<le> CHR ''9''"
  by (simp add: digit_char_def less_eq_char_def of_char_of)

lemma show_nat_digits: "\<forall>c \<in> set (show_nat n). CHR ''0'' \<le> c \<and> c \<le> CHR ''9''"
proof (induction n rule: show_nat.induct)
  case (1 n)
  with digit_char_range [of "n mod 10"] digit_char_range [of n] show ?case by (subst show_nat.simps) auto
qed

lemma show_nat_value: "fold (\<lambda>c n. 10 * n + (of_char c - 48)) (show_nat n) 0 = int n"
proof (induction n rule: show_nat.induct)
  case (1 n)
  show ?case
  proof (cases "n < 10")
    case True
    then show ?thesis by (subst show_nat.simps) (simp add: digit_char_value)
  next
    case False
    have "10 * int (n div 10) + int (n mod 10) = int n" by (metis mult_div_mod_eq of_nat_add of_nat_mult of_nat_numeral)
    with False 1 show ?thesis by (subst show_nat.simps) (simp add: digit_char_value)
  qed
qed

lemma stoi_show_int:
  assumes "0 \<le> n" and "n \<le> INT32_MAX"
  shows "stoi (show_int n) = Inr n"
proof -
  let ?s = "show_nat (nat n)"
  have d: "\<forall>c \<in> set ?s. CHR ''0'' \<le> c \<and> c \<le> CHR ''9''" by (rule show_nat_digits)
  obtain c cs where c: "?s = c # cs" by (cases ?s) (use show_nat.simps [of "nat n"] in \<open>auto split: if_splits\<close>)
  with d have r: "CHR ''0'' \<le> c" "c \<le> CHR ''9''" by auto
  then have n: "\<not> isspace c" "c \<noteq> CHR ''-''" "c \<noteq> CHR ''+''"
    by (auto simp: isspace_def less_eq_char_def)
  have "takeWhile (\<lambda>c. CHR ''0'' \<le> c \<and> c \<le> CHR ''9'') ?s = ?s" using d by (simp add: takeWhile_eq_all_conv)
  moreover have "show_int n = ?s" using assms(1) by (simp add: show_int_def)
  ultimately show ?thesis using c n assms show_nat_value [of "nat n"]
    by (simp add: stoi_def Let_def)
qed

text \<open>What uriparser gives for the URL of a request.\<close>

definition uri_of :: "(string \<Rightarrow> string) \<Rightarrow> HttpRequest \<Rightarrow> string list \<Rightarrow> Uri" where
  "uri_of escape call segments =
     \<lparr>scheme = protocol_name (protocol (endpoint call)), hostText = host (endpoint call), portText = show_int (port (endpoint call)),
      pathSegments = segments, uri_query = query_string escape (parameters call)\<rparr>"

text \<open>
  A request line made of a method and the URL of a request is read back as that request, without headers and body, when
  the parser takes the URL apart as it was put together, and the URL holds no white space.
\<close>

theorem request_line_roundtrip:
  assumes "parse_uri (CreateUrlString escape call) = Some (uri_of escape call segments)"
    and "target call = concat (map (\<lambda>seg. ''/'' @ seg) segments)"
    and "http_method call \<noteq> kUnspecifiedHttpMethod" and "protocol (endpoint call) \<noteq> kUnspecifiedProtocol"
    and "0 < port (endpoint call)" and "port (endpoint call) \<le> INT32_MAX"
    and "\<forall>p \<in> set (parameters call). plain_parameter escape unescape p" and "distinct (map fst (parameters call))"
    and "\<forall>c \<in> set (CreateUrlString escape call). \<not> isspace c"
  shows "CreateRequest parse_uri unescape (method_name (http_method call) @ '' '' @ CreateUrlString escape call) =
    Inr (call\<lparr>headers := [], body := []\<rparr>)"
proof -
  let ?m = "method_name (http_method call)" and ?url = "CreateUrlString escape call"
  have m: "ParseMethod ?m = http_method call" "?m \<noteq> []" "\<forall>c \<in> set ?m. \<not> isspace c"
    using assms(3) by (cases "http_method call"; simp add: ParseMethod_def ToUpper_def toupper_def islower_def isspace_def Let_def)+
  have u: "?url \<noteq> []" using assms(4) by (cases "protocol (endpoint call)") (simp_all add: CreateUrlString_def Let_def)
  have "ReSplit isspace (?m @ CHR '' '' # ?url) = ReSplit isspace ?m @ ReSplit isspace ?url"
    by (rule ReSplit_append) (use m u assms(9) in \<open>simp_all add: isspace_def\<close>)
  also have "\<dots> = [?m, ?url]" using m u assms(9) by (simp add: ReSplit_line)
  finally have split: "ReSplit isspace (?m @ '' '' @ ?url) = [?m, ?url]" by simp
  have e: "request_endpoint (uri_of escape call segments) = Inr (endpoint call)"
  proof -
    have "stoi (show_int (port (endpoint call))) = Inr (port (endpoint call))" by (rule stoi_show_int) (use assms(5,6) in simp_all)
    moreover have "show_int (port (endpoint call)) \<noteq> []"
      using show_nat.simps [of "nat (port (endpoint call))"] by (simp add: show_int_def split: if_splits)
    ultimately show ?thesis using assms(4)
      by (cases "protocol (endpoint call)") (simp_all add: request_endpoint_def uri_of_def)
  qed
  have q: "ParseQueryParameters unescape (uri_query (uri_of escape call segments)) = Inr (parameters call)"
    by (simp add: uri_of_def query_string_roundtrip [OF assms(7,8)])
  have p: "pathSegments (uri_of escape call segments) = segments" by (simp add: uri_of_def)
  have t: "concat (map ((@) ''/'') segments) = target call" using assms(2) by (simp add: append_Cons [abs_def])
  show ?thesis unfolding CreateRequest_def split
    using assms(1) e q m(1) t p by (cases call) (simp add: Let_def new_request_def)
qed

text \<open>The request of a line with its answer from the parser.\<close>

theorem request_line_roundtrip_witness:
  "CreateRequest (\<lambda>url. if url = ''http://h:80/v1?q=a'' then Some \<lparr>scheme = ''http'', hostText = ''h'', portText = ''80'',
       pathSegments = [''v1''], uri_query = ''q=a''\<rparr> else None) id ''GET http://h:80/v1?q=a'' =
    Inr \<lparr>endpoint = \<lparr>protocol = kHTTP, host = ''h'', port = 80\<rparr>, http_method = kGET, target = ''/v1'',
       headers = [], body = [], parameters = [(''q'', ''a'')]\<rparr>"
proof -
  let ?call = "\<lparr>endpoint = \<lparr>protocol = kHTTP, host = ''h'', port = 80\<rparr>, http_method = kGET, target = ''/v1'',
       headers = [], body = [], parameters = [(''q'', ''a'')]\<rparr>"
  have n: "show_int 80 = ''80''" by code_simp
  have u: "CreateUrlString id ?call = ''http://h:80/v1?q=a''" by (simp add: CreateUrlString_def query_string_def JoinWith_eq n)
  show ?thesis
    using request_line_roundtrip [where call = ?call and escape = id and unescape = id and segments = "[''v1'']"
      and parse_uri = "\<lambda>url. if url = ''http://h:80/v1?q=a'' then Some \<lparr>scheme = ''http'', hostText = ''h'', portText = ''80'',
       pathSegments = [''v1''], uri_query = ''q=a''\<rparr> else None"]
    by (simp add: u uri_of_def n query_string_def JoinWith_eq plain_parameter_def isspace_def)
qed

text \<open>A URL that cannot be parsed gives a request without an endpoint, and no error; only sending it fails.\<close>

theorem unparsable_url_not_reported:
  assumes "parse_uri url = None" and "m \<noteq> []" and "url \<noteq> []" and "\<forall>c \<in> set (m @ url). \<not> isspace c"
  shows "\<exists>call. CreateRequest parse_uri unescape (m @ '' '' @ url) = Inr call \<and>
    AssertHttpRequest call w = (Inl (ClientException ''host cannot be blank.''), w)"
proof -
  have "ReSplit isspace (m @ CHR '' '' # url) = ReSplit isspace m @ ReSplit isspace url"
    by (rule ReSplit_append) (use assms in \<open>simp_all add: isspace_def\<close>)
  then have "ReSplit isspace (m @ '' '' @ url) = [m, url]" using assms by (simp add: ReSplit_line)
  then show ?thesis
    by (simp add: CreateRequest_def assms(1) new_request_def Let_def AssertHttpRequest_def)
qed


section \<open>What the client sends\<close>

text \<open>
  A request of the REST client reaches libcurl with the headers of the client and with the serialized entity as its body,
  as JSON unless the client has a content type of its own.
\<close>

theorem post_object_request:
  assumes "PostObject (Execute escape perform) serialize deserialize client uri param w = (Inr e, w')"
  shows "\<exists>content request response. serialize param = Inr content \<and>
    perform request w = (Inr (Some response), w') \<and> status_code response < 400 \<and> deserialize (resp_body response) = Inr e \<and>
    custom_request request = ''POST'' \<and> post_fields request = (if content = [] then None else Some content) \<and>
    (\<forall>(k, v) \<in> set (default_headers client). k @ '': '' @ v \<in> set (header_slist request)) \<and>
    (map_of (default_headers client) ''Content-Type'' = None \<longrightarrow>
      ''Content-Type: application/json'' \<in> set (header_slist request))"
proof -
  from assms obtain content where t: "serialize param = Inr content"
    by (cases "serialize param") (simp_all add: PostObject_def bindE_def liftR_def)
  let ?call = "new_request\<lparr>endpoint := client_endpoint client, http_method := kPOST, target := uri,
                                headers := json_headers (default_headers client), body := content\<rparr>"
  let ?request = "configure_curl_request escape ?call"
  from assms t obtain response where r: "perform ?request w = (Inr (Some response), w')" "status_code response < 400"
      "deserialize (resp_body response) = Inr e"
    by (auto simp: PostObject_def Execute_def bindE_def liftR_def bad_status_def split: prod.splits sum.splits option.splits if_splits)
  have "\<forall>(k, v) \<in> set (default_headers client). k @ '': '' @ v \<in> set (header_slist ?request)"
    by (force simp: configure_curl_request_def json_headers_def)
  moreover have "map_of (default_headers client) ''Content-Type'' = None \<longrightarrow>
      ''Content-Type: application/json'' \<in> set (header_slist ?request)"
    by (simp add: configure_curl_request_def json_headers_def)
  moreover have "custom_request ?request = ''POST''" "post_fields ?request = (if content = [] then None else Some content)"
    by (simp_all add: configure_curl_request_def)
  ultimately show ?thesis
    by (intro exI [of _ content] exI [of _ ?request] exI [of _ response] conjI t r)
qed

theorem post_object_request_witness:
  "\<exists>request :: CurlRequest. post_fields request = Some ''{}'' \<and> ''Authorization: token'' \<in> set (header_slist request)"
proof -
  let ?client = "\<lparr>client_endpoint = \<lparr>protocol = kHTTP, host = ''h'', port = 80\<rparr>,
    default_headers = [(''Authorization'', ''token'')]\<rparr>"
  have "PostObject (Execute id (\<lambda>r w :: unit. (Inr (Some \<lparr>resp_headers = [], resp_body = ''ok'', status_code = 200\<rparr>), w))) Inr Inr ?client
    ''/v1'' ''{}'' () = (Inr ''ok'', ())"
    by (simp add: PostObject_def Execute_def bindE_def liftR_def ret_def)
  from post_object_request [OF this] show ?thesis by auto
qed

text \<open>
  The requests of a batch carry only the content type: what the client was given as default headers, such as its
  authorization, is not sent with them.
\<close>

theorem batch_drops_default_headers:
  assumes "PostBatch_Add serialize client uri param calls = Inr calls'"
  shows "\<exists>call. calls' = calls @ [call] \<and> http_method call = kPOST \<and>
    header_slist (configure_curl_request escape call) = [''Content-Type: application/json'']"
  using assms
  by (cases "serialize param") (auto simp: PostBatch_Add_def configure_curl_request_def)

theorem batch_drops_default_headers_witness:
  "\<exists>call. header_slist (configure_curl_request id call) = [''Content-Type: application/json'']"
  using batch_drops_default_headers [of Inr "\<lparr>client_endpoint = \<lparr>protocol = kHTTP, host = ''h'', port = 80\<rparr>,
    default_headers = [(''Authorization'', ''token'')]\<rparr>" "''/v1''" "''{}''" "[]" _ id]
  by (auto simp: PostBatch_Add_def)

end
