(* ===== verification/Spec2Isabelle.thy ===== *)
theory Spec2Isabelle
  imports Prelude Str_Utils Document_Utils Snowflake Task_Scheduler Lifecycle Connection_Pool
    Text_Splitter Language_Splitters Splitter_Correct Agent_Types Toolkit OpenAI_Agent
    LLM_Compiler LLM_Compiler_Correct Entity_Store Entity_SQL Assistant_Services Run_Service Run_Service_Correct Run_Handler Run_Handler_Correct
    Tokenizer Tokenizer_Correct SQL_Builder Doc_Store Retriever Ingestor_Correct File_Store File_SQL File_Services File_Correct File_Handlers File_Handlers_Correct Retriever_Correct Unigram_Correct ReACT_Correct Protobuf_Correct Http_Correct
begin

text \<open>
  A verification development for instinct.cpp, a C++ library and server for applications on language
  models. All source paths are relative to \<^verbatim>\<open>src/modules\<close>.

  \<^bold>\<open>The program.\<close> \<^verbatim>\<open>instinct-core\<close> has the tools everything else uses (strings, assertions, ids, documents and
  metadata, life cycle of objects). \<^verbatim>\<open>instinct-data\<close> has the connection pool, the data template that fills SQL texts
  and runs them, and the task scheduler. \<^verbatim>\<open>instinct-llm\<close> has tokenizers, text splitters, tools and agents.
  \<^verbatim>\<open>instinct-transformer\<close> runs a reranking model locally and has a tokenizer of its own.
  \<^verbatim>\<open>instinct-retrieval\<close> has document and vector stores on DuckDB, search queries, retrievers and ingestors of
  files. \<^verbatim>\<open>instinct-assistant\<close> is a server with the OpenAI assistant interface: its services keep assistants, threads,
  messages, runs and files in tables; \<open>CreateRun\<close> and \<open>SubmitToolOutputs\<close> put the run in the task queue; a
  consumer of the scheduler gives it to the run handler, which rebuilds the state of an agent from the
  stored steps, lets the agent work with a toolkit, and writes every step back through the run service. A
  file attached to a vector store goes the same way to the file handler, which ingests it through a
  retriever into a document store and a vector store; a background task decides when a batch of files is
  done.

  \<^bold>\<open>Conventions\<close> (\<open>Prelude\<close>). An exception is the value \<open>Inl e\<close> of \<open>exn + 'a\<close>; a computation with effects is an
  \<open>eff\<close>, a function from a state to an outcome and the state afterwards, also when it throws, since almost
  nothing of the code runs in a transaction. \<open>UndefinedBehaviour\<close> is the outcome where C++ leaves the
  behaviour open, so a theorem that a call returns also says that this is not reached. A \<open>std::string\<close> is
  its list of bytes, a \<open>UnicodeString\<close> a list of numbers, a protobuf message a record, a \<open>oneof\<close> a
  datatype with a constructor for "not set". Machine integers are words or carry their bounds where
  overflow can matter (ids, clocks, token counts). A locale states what a library promises, or what several operations
  share; each is interpreted on definitions of the development.

  \<^bold>\<open>Core tools.\<close>
  \<^item> \<open>Str_Utils\<close>: \<^verbatim>\<open>StringUtils.hpp\<close>, \<^verbatim>\<open>Assertions.hpp\<close> and the callbacks of \<^verbatim>\<open>DataGlobals.hpp\<close> that put values into
    SQL text. The literal written for a value scans back to it, whatever quotes it has.
  \<^item> \<open>Document_Utils\<close>: \<^verbatim>\<open>DocumentUtils.hpp\<close>, \<^verbatim>\<open>MetadataSchemaBuilder.hpp\<close>: metadata and their validation.
  \<^item> \<open>Snowflake\<close>: \<^verbatim>\<open>SnowflakeIDGenerator.hpp\<close> and the object ids of \<^verbatim>\<open>LLMGlobals.hpp\<close>; the clock is a sequence of
    readings, waiting for it is a partial function. Ids increase strictly and are distinct.
  \<^item> \<open>Protobuf_Json\<close>, \<open>Protobuf_Correct\<close>: \<^verbatim>\<open>ProtobufUtils.hpp\<close>: messages as JSON objects. The conversion equals what
    the message means, field by field, and loses nothing.
  \<^item> \<open>Http_Client\<close>, \<open>Http_Correct\<close>: \<^verbatim>\<open>http/HttpUtils.hpp\<close>, \<^verbatim>\<open>http/CURLHttpClient.hpp\<close>, \<^verbatim>\<open>HttpRestClient.hpp\<close>: URLs and request
    lines, the lines of a streamed response and the events in them, the REST client.
  \<^item> \<open>Lifecycle\<close>: \<^verbatim>\<open>ManagedApplicationContext.hpp\<close>: start and stop in the order of priorities.

  \<^bold>\<open>Data.\<close>
  \<^item> \<open>Connection_Pool\<close>: \<^verbatim>\<open>BaseConnectionPool.hpp\<close>, \<^verbatim>\<open>ManagedConnection.hpp\<close>, \<^verbatim>\<open>DuckDBConnectionPool.hpp\<close>; waits are a
    list of wake-ups. A guarded statement gives its connection back, also on an exception.
  \<^item> \<open>Task_Scheduler\<close>: \<^verbatim>\<open>BaseTaskScheduler\<close>, \<^verbatim>\<open>InProcessTaskQueue\<close>, \<^verbatim>\<open>ThreadPoolTaskScheduler\<close>. The pool is a step
    relation over interleaved consumers; the queue is the locale \<open>concurrent_queue\<close>. No task is lost or
    handled twice, a shutdown ends, one call of the handlers reports exactly what happened.

  \<^bold>\<open>Language processing.\<close>
  \<^item> \<open>Text_Splitter\<close>, \<open>Language_Splitters\<close>, \<open>Splitter_Correct\<close>: \<^verbatim>\<open>instinct-llm/include/document\<close>. ICU is an argument, its
    documented contract the locale \<open>icu_text\<close>. The chunks of the recursive splitter put together are the text.
  \<^item> \<open>Tokenizer\<close>, \<open>Tokenizer_Correct\<close>: \<^verbatim>\<open>instinct-llm/include/tokenizer\<close>, byte pair encoding: training, encoding,
    decoding, rank files. Round trip, normal form of the merge rules, range of the ids.
  \<^item> \<open>Unigram_Tokenizer\<close>, \<open>Unigram_Correct\<close>: \<^verbatim>\<open>instinct-transformer/include/tokenizer.hpp\<close> and the tokenizer of
    \<^verbatim>\<open>models/bge_m3.hpp\<close>. The Viterbi search is optimal, encoding and decoding are inverse, a vocabulary file
    is read back as written, the ids for the reranker stay within its positions.

  \<^bold>\<open>Agents.\<close>
  \<^item> \<open>Agent_Types\<close>: the messages of \<^verbatim>\<open>agent.proto\<close>, \<^verbatim>\<open>chat_completion_api.proto\<close>, \<^verbatim>\<open>llm.proto\<close>.
  \<^item> \<open>Toolkit\<close>: \<^verbatim>\<open>BaseFunctionTool.hpp\<close>, \<^verbatim>\<open>BaseFunctionToolkit.hpp\<close>, \<^verbatim>\<open>LocalToolkit.hpp\<close>, \<^verbatim>\<open>LocalToolkitsWorker.hpp\<close>: look-up, retries
    and the worker, which answers every served call once and in order.
  \<^item> \<open>OpenAI_Agent\<close>: \<^verbatim>\<open>BaseAgentExecutor.hpp\<close> and \<^verbatim>\<open>patterns/openai_tool\<close>: the state machine of an agent, its
    transcript invariant and its end.
  \<^item> \<open>ReACT_Agent\<close>, \<open>ReACT_Correct\<close>: \<^verbatim>\<open>patterns/react\<close>: scratch pad, parser of the answers, worker and executor. What
    is shown of a request is parsed to the same request; the executor ends with a final answer, and never without one.
  \<^item> \<open>LLM_Compiler\<close>, \<open>LLM_Compiler_Correct\<close>: \<^verbatim>\<open>patterns/llm_compiler\<close>: the parser of plans with its regular expressions
    written out, the task graph and the executor. Accepted plans are acyclic, a round makes progress, no deadlock.

  \<^bold>\<open>Retrieval.\<close>
  \<^item> \<open>SQL_Builder\<close>: \<^verbatim>\<open>SQLBuilder.hpp\<close>: search queries as SQL text, and what the text means when it is read with the
    precedence of SQL.
  \<^item> \<open>Doc_Store\<close>: \<^verbatim>\<open>store/duckdb\<close>: tables of documents with or without vectors, the appender and its transaction.
  \<^item> \<open>Retriever\<close>, \<open>Retriever_Correct\<close>: \<^verbatim>\<open>retrieval\<close>, \<^verbatim>\<open>DuckDBVectorStoreOperator.hpp\<close>, \<^verbatim>\<open>SimpleRetrieverOperator.hpp\<close>.
    Adding is all or nothing, what was added is read back, every chunk has its parent.
  \<^item> \<open>Ingestor\<close>, \<open>Ingestor_Correct\<close>: \<^verbatim>\<open>ingestor\<close> and \<^verbatim>\<open>chain/SummaryChain.hpp\<close>: when the recursive summary ends.

  \<^bold>\<open>Assistant.\<close>
  \<^item> \<open>Entity_Store\<close>, \<open>Entity_SQL\<close>: the tables and the statements of \<^verbatim>\<open>EntitySQLUtils.hpp\<close> through \<^verbatim>\<open>DuckDBDataTemplate.hpp\<close>; the
    locale \<open>table\<close> is interpreted on every table with a primary key.
  \<^item> \<open>Assistant_Services\<close>, \<open>Run_Service\<close>, \<open>Run_Service_Correct\<close>: the service implementations. Ids stay unique, only
    queued runs are scheduled, outputs are all or nothing, lists are pages, deletion leaves nothing behind.
  \<^item> \<open>Run_Handler\<close>, \<open>Run_Handler_Correct\<close>: \<^verbatim>\<open>RunObjectTaskHandler.hpp\<close>: which state of the agent is recovered, how a run
    pauses, goes on and ends, and where its end is lost.
  \<^item> \<open>File_Store\<close>, \<open>File_SQL\<close>, \<open>File_Services\<close>, \<open>File_Correct\<close>: objects on disk, data mappers, \<^verbatim>\<open>FileServiceImpl.hpp\<close>,
    \<^verbatim>\<open>VectorStoreServiceImpl.hpp\<close>. The file service is a refinement of a map from ids to files.
  \<^item> \<open>File_Handlers\<close>, \<open>File_Handlers_Correct\<close>: \<^verbatim>\<open>FileObjectTaskHandler.hpp\<close>, \<^verbatim>\<open>FileBatchObjectBackgroundTask.hpp\<close>: a handled
    file is not in progress any more; a batch may end too early.

  \<^bold>\<open>Bounds and fuel.\<close> \<open>Stream\<close>, the loop of an agent, has fuel, and \<open>None\<close> means that it is still running; the
  theorems on its end say which fuel is enough. The loops over pages of the run handler (\<open>ListAllSteps\<close>, the search for
  the newest user message) have as bound one more than the rows there are, and reading all pages is shown not
  to reach it. The reader of SQL conditions has three times the number of tokens and three, which the theorem
  on its meaning shows to be enough. The scan of the background task has as fuel the number of its passes; one pass
  is as the theorem says for every fuel from 1. Loops that may not end at all are partial functions whose
  value \<open>None\<close> is "does not return": waiting for the clock, draining a queue, splitting by a pattern, the recursive
  summary, reading back a segmentation, cutting a text at its added tokens. Their termination is a theorem
  where it holds, and where it does not there is a lemma that shows the input.

  \<^bold>\<open>Outside.\<close> ICU, DuckDB's conversions and comparisons, the concurrent queue, base64, the file system, PDF and DOCX readers,
  libcurl, uriparser, language, embedding and ranking models, and clocks are arguments or fields of the state that no operation
  changes. What is relied on of them is a hypothesis or a locale, with a witness or an interpretation.

  \<^bold>\<open>Not modelled.\<close> The layers and models of \<^verbatim>\<open>instinct-transformer\<close> are graphs of ggml operations on tensors. The
  HTTP server, the controllers and the remote models pass requests on to httplib and services. The
  chain combinators build closures over them. The tables hold records, so the conversion of column values is
  that of their fields. Prompt texts, logging, metrics, time formatting,
  the examples and the test fixtures have no behaviour that other parts depend on.
\<close>

end
